(* ===== verification/Prelude.thy ===== *)
theory Prelude
  imports Main "HOL-Library.Word"
begin

text \<open>
  Shared vocabulary of the development: the C integer types as words, the
  arithmetic reading of the bit operations the sources use (shifts, masks and
  disjoint ors), and generic facts about lists.
\<close>

unbundle bit_operations_syntax

named_theorems unat_ops \<open>arithmetic reading of shifts, masks and disjoint ors\<close>

type_synonym byte = "8 word"
type_synonym jchar = "16 word"
type_synonym u32 = "32 word"
type_synonym u64 = "64 word"

text \<open>
  The throwables that can become pending in a JNI environment (\<open>RuntimeExceptionCause\<close> is a
  \<open>RuntimeException\<close> with a message and a cause), and the two ways in which a
  native function can fail to produce its result: an access outside of an object, which C
  leaves undefined, and a pending Java exception. A function that can fail returns a
  \<open>fault + 'a\<close>. The functions that allocate take an oracle \<open>alloc\<close>: \<open>alloc n size\<close> says
  whether the \<open>n\<close>-th allocation of the call, of \<open>size\<close> bytes, succeeds.
\<close>

datatype jthrowable =
    RuntimeException string
  | IllegalArgumentException string
  | OutOfMemoryError
  | TimeoutWafException
  | AbstractWafException int
  | RuntimeExceptionCause "16 word list" jthrowable
  | OtherThrowable string

datatype fault = OutOfBounds | Pending jthrowable

type_synonym allocator = "nat \<Rightarrow> nat \<Rightarrow> bool"

abbreviation out_of_memory :: fault where
  "out_of_memory \<equiv> Pending (RuntimeException ''out of memory'')"

subsection \<open>Natural numbers: or as addition, and as remainder\<close>

lemma or_nat_add:
  fixes a x :: nat
  assumes "x < 2 ^ n"
  shows "(a * 2 ^ n) OR x = a * 2 ^ n + x"
proof -
  have x: "take_bit n x = x"
    using assms by (simp add: take_bit_nat_eq_self)
  have "push_bit n a AND x = push_bit n a AND take_bit n x"
    by (simp add: x)
  also have "\<dots> = 0"
    by (rule bit_eqI) (auto simp: bit_simps)
  finally show ?thesis
    by (simp add: disjunctive_add_eq_or push_bit_eq_mult)
qed

lemma and_nat_mask: "(x :: nat) AND (2 ^ n - 1) = x mod 2 ^ n"
  by (metis mask_eq_exp_minus_1 take_bit_eq_mask take_bit_eq_mod)

text \<open>Digits: splitting a number \<open>a * m + b\<close> with a low part \<open>b < m\<close>.\<close>

lemma digits_div: "b < m \<Longrightarrow> (a * m + b) div (m * k) = a div k" for a b m k :: nat
  by (simp add: div_mult2_eq)

lemma digits_mod: "b < m \<Longrightarrow> (a * m + b) mod (m * k) = (a mod k) * m + b" for a b m k :: nat
  by (simp add: mod_mult2_eq)

subsection \<open>Words through their unsigned value\<close>

lemma unat_and [unat_ops]: "unat (x AND y) = unat x AND unat y"
  for x y :: "'a::len word"
  by (simp add: unsigned_and_eq)

lemma unat_or [unat_ops]: "unat (x OR y) = unat x OR unat y"
  for x y :: "'a::len word"
  by (simp add: unsigned_or_eq)

lemma unat_drop_bit [unat_ops]: "unat (drop_bit n x) = unat x div 2 ^ n"
  for x :: "'a::len word"
  by (subst unat_drop_bit_eq) (rule drop_bit_eq_div)

lemma unat_push_bit [unat_ops]: "unat (push_bit n x) = (unat x * 2 ^ n) mod 2 ^ LENGTH('a)"
  for x :: "'a::len word"
  unfolding unsigned_push_bit_eq take_bit_eq_mod [symmetric] push_bit_eq_mult [symmetric] ..

lemma unat_ucast_mod [unat_ops]: "unat (ucast x :: 'b::len word) = unat x mod 2 ^ LENGTH('b)"
  for x :: "'a::len word"
  by (simp add: unsigned_ucast_eq take_bit_eq_mod)

lemma and_nat_masks [unat_ops]:
  fixes x :: nat
  shows "x AND 3 = x mod 4" "x AND 7 = x mod 8" "x AND 15 = x mod 16" "x AND 31 = x mod 32"
    "x AND 63 = x mod 64" "x AND 1023 = x mod 1024" "x AND 4095 = x mod 4096"
    "x AND 65535 = x mod 65536"
  using and_nat_mask [of x 2] and_nat_mask [of x 3] and_nat_mask [of x 4] and_nat_mask [of x 5] and_nat_mask [of x 6]
    and_nat_mask [of x 10] and_nat_mask [of x 12] and_nat_mask [of x 16]
  by simp_all

lemma byte_lt: "unat (b :: byte) < 256"
  using unsigned_less [of b] by simp

lemma jchar_lt: "unat (c :: jchar) < 65536"
  using unsigned_less [of c] by simp

subsection \<open>Lists\<close>

text \<open>Indexing a table that is laid out in rows of equal length.\<close>

lemma nth_concat_rows:
  assumes "\<And>x. x \<in> set xs \<Longrightarrow> length (f x) = n" and "i < length xs * n"
  shows "concat (map f xs) ! i = f (xs ! (i div n)) ! (i mod n)"
  using assms
proof (induction xs arbitrary: i)
  case Nil
  then show ?case by simp
next
  case (Cons x xs)
  have n: "0 < n"
    using Cons.prems(2) by (cases n) auto
  show ?case
  proof (cases "i < n")
    case True
    with Cons.prems(1) show ?thesis by (simp add: nth_append)
  next
    case False
    then have "concat (map f xs) ! (i - n) = f (xs ! ((i - n) div n)) ! ((i - n) mod n)"
      using Cons.prems by (intro Cons.IH) auto
    moreover have "i div n = Suc ((i - n) div n)" "i mod n = (i - n) mod n"
      using False n by (simp_all add: le_div_geq le_mod_geq not_less)
    ultimately show ?thesis
      using False Cons.prems(1) [of x] by (simp add: nth_append)
  qed
qed

end
