(* ===== verification/Base64_Table.thy ===== *)
theory Base64_Table
  imports Prelude
begin

text \<open>
  The two lookup tables of \<^verbatim>\<open>src/main/c/base64.c\<close>: the 64 letters of the base64
  alphabet and the 4096 precomputed letter pairs of the block encoder, the latter in
  the little-endian and in the big-endian version that the preprocessor chooses from.
  The tables are transcribed entry by entry, and \<open>base64_table_enc_12bit_pair\<close> shows
  that every entry, copied to memory, is the pair of letters of its two 6-bit halves.
\<close>

subsection \<open>The tables\<close>

definition base64_table_enc_6bit :: "byte list" where
  "base64_table_enc_6bit = map of_char (''ABCDEFGHIJKLMNOPQRSTUVWXYZ''
     @ ''abcdefghijklmnopqrstuvwxyz'' @ ''0123456789'' @ ''+/'') @ [0]"

definition base64_table_enc_12bit_le0 :: "16 word list" where
  "base64_table_enc_12bit_le0 = [
    0x4141, 0x4241, 0x4341, 0x4441, 0x4541, 0x4641, 0x4741, 0x4841,
    0x4941, 0x4A41, 0x4B41, 0x4C41, 0x4D41, 0x4E41, 0x4F41, 0x5041,
    0x5141, 0x5241, 0x5341, 0x5441, 0x5541, 0x5641, 0x5741, 0x5841,
    0x5941, 0x5A41, 0x6141, 0x6241, 0x6341, 0x6441, 0x6541, 0x6641,
    0x6741, 0x6841, 0x6941, 0x6A41, 0x6B41, 0x6C41, 0x6D41, 0x6E41,
    0x6F41, 0x7041, 0x7141, 0x7241, 0x7341, 0x7441, 0x7541, 0x7641,
    0x7741, 0x7841, 0x7941, 0x7A41, 0x3041, 0x3141, 0x3241, 0x3341,
    0x3441, 0x3541, 0x3641, 0x3741, 0x3841, 0x3941, 0x2B41, 0x2F41,
    0x4142, 0x4242, 0x4342, 0x4442, 0x4542, 0x4642, 0x4742, 0x4842,
    0x4942, 0x4A42, 0x4B42, 0x4C42, 0x4D42, 0x4E42, 0x4F42, 0x5042,
    0x5142, 0x5242, 0x5342, 0x5442, 0x5542, 0x5642, 0x5742, 0x5842,
    0x5942, 0x5A42, 0x6142, 0x6242, 0x6342, 0x6442, 0x6542, 0x6642,
    0x6742, 0x6842, 0x6942, 0x6A42, 0x6B42, 0x6C42, 0x6D42, 0x6E42,
    0x6F42, 0x7042, 0x7142, 0x7242, 0x7342, 0x7442, 0x7542, 0x7642,
    0x7742, 0x7842, 0x7942, 0x7A42, 0x3042, 0x3142, 0x3242, 0x3342,
    0x3442, 0x3542, 0x3642, 0x3742, 0x3842, 0x3942, 0x2B42, 0x2F42,
    0x4143, 0x4243, 0x4343, 0x4443, 0x4543, 0x4643, 0x4743, 0x4843,
    0x4943, 0x4A43, 0x4B43, 0x4C43, 0x4D43, 0x4E43, 0x4F43, 0x5043,
    0x5143, 0x5243, 0x5343, 0x5443, 0x5543, 0x5643, 0x5743, 0x5843,
    0x5943, 0x5A43, 0x6143, 0x6243, 0x6343, 0x6443, 0x6543, 0x6643,
    0x6743, 0x6843, 0x6943, 0x6A43, 0x6B43, 0x6C43, 0x6D43, 0x6E43,
    0x6F43, 0x7043, 0x7143, 0x7243, 0x7343, 0x7443, 0x7543, 0x7643,
    0x7743, 0x7843, 0x7943, 0x7A43, 0x3043, 0x3143, 0x3243, 0x3343,
    0x3443, 0x3543, 0x3643, 0x3743, 0x3843, 0x3943, 0x2B43, 0x2F43,
    0x4144, 0x4244, 0x4344, 0x4444, 0x4544, 0x4644, 0x4744, 0x4844,
    0x4944, 0x4A44, 0x4B44, 0x4C44, 0x4D44, 0x4E44, 0x4F44, 0x5044,
    0x5144, 0x5244, 0x5344, 0x5444, 0x5544, 0x5644, 0x5744, 0x5844,
    0x5944, 0x5A44, 0x6144, 0x6244, 0x6344, 0x6444, 0x6544, 0x6644,
    0x6744, 0x6844, 0x6944, 0x6A44, 0x6B44, 0x6C44, 0x6D44, 0x6E44,
    0x6F44, 0x7044, 0x7144, 0x7244, 0x7344, 0x7444, 0x7544, 0x7644,
    0x7744, 0x7844, 0x7944, 0x7A44, 0x3044, 0x3144, 0x3244, 0x3344,
    0x3444, 0x3544, 0x3644, 0x3744, 0x3844, 0x3944, 0x2B44, 0x2F44,
    0x4145, 0x4245, 0x4345, 0x4445, 0x4545, 0x4645, 0x4745, 0x4845,
    0x4945, 0x4A45, 0x4B45, 0x4C45, 0x4D45, 0x4E45, 0x4F45, 0x5045,
    0x5145, 0x5245, 0x5345, 0x5445, 0x5545, 0x5645, 0x5745, 0x5845,
    0x5945, 0x5A45, 0x6145, 0x6245, 0x6345, 0x6445, 0x6545, 0x6645,
    0x6745, 0x6845, 0x6945, 0x6A45, 0x6B45, 0x6C45, 0x6D45, 0x6E45,
    0x6F45, 0x7045, 0x7145, 0x7245, 0x7345, 0x7445, 0x7545, 0x7645,
    0x7745, 0x7845, 0x7945, 0x7A45, 0x3045, 0x3145, 0x3245, 0x3345,
    0x3445, 0x3545, 0x3645, 0x3745, 0x3845, 0x3945, 0x2B45, 0x2F45,
    0x4146, 0x4246, 0x4346, 0x4446, 0x4546, 0x4646, 0x4746, 0x4846,
    0x4946, 0x4A46, 0x4B46, 0x4C46, 0x4D46, 0x4E46, 0x4F46, 0x5046,
    0x5146, 0x5246, 0x5346, 0x5446, 0x5546, 0x5646, 0x5746, 0x5846,
    0x5946, 0x5A46, 0x6146, 0x6246, 0x6346, 0x6446, 0x6546, 0x6646,
    0x6746, 0x6846, 0x6946, 0x6A46, 0x6B46, 0x6C46, 0x6D46, 0x6E46,
    0x6F46, 0x7046, 0x7146, 0x7246, 0x7346, 0x7446, 0x7546, 0x7646,
    0x7746, 0x7846, 0x7946, 0x7A46, 0x3046, 0x3146, 0x3246, 0x3346,
    0x3446, 0x3546, 0x3646, 0x3746, 0x3846, 0x3946, 0x2B46, 0x2F46,
    0x4147, 0x4247, 0x4347, 0x4447, 0x4547, 0x4647, 0x4747, 0x4847,
    0x4947, 0x4A47, 0x4B47, 0x4C47, 0x4D47, 0x4E47, 0x4F47, 0x5047,
    0x5147, 0x5247, 0x5347, 0x5447, 0x5547, 0x5647, 0x5747, 0x5847,
    0x5947, 0x5A47, 0x6147, 0x6247, 0x6347, 0x6447, 0x6547, 0x6647,
    0x6747, 0x6847, 0x6947, 0x6A47, 0x6B47, 0x6C47, 0x6D47, 0x6E47,
    0x6F47, 0x7047, 0x7147, 0x7247, 0x7347, 0x7447, 0x7547, 0x7647,
    0x7747, 0x7847, 0x7947, 0x7A47, 0x3047, 0x3147, 0x3247, 0x3347,
    0x3447, 0x3547, 0x3647, 0x3747, 0x3847, 0x3947, 0x2B47, 0x2F47,
    0x4148, 0x4248, 0x4348, 0x4448, 0x4548, 0x4648, 0x4748, 0x4848,
    0x4948, 0x4A48, 0x4B48, 0x4C48, 0x4D48, 0x4E48, 0x4F48, 0x5048,
    0x5148, 0x5248, 0x5348, 0x5448, 0x5548, 0x5648, 0x5748, 0x5848,
    0x5948, 0x5A48, 0x6148, 0x6248, 0x6348, 0x6448, 0x6548, 0x6648,
    0x6748, 0x6848, 0x6948, 0x6A48, 0x6B48, 0x6C48, 0x6D48, 0x6E48,
    0x6F48, 0x7048, 0x7148, 0x7248, 0x7348, 0x7448, 0x7548, 0x7648,
    0x7748, 0x7848, 0x7948, 0x7A48, 0x3048, 0x3148, 0x3248, 0x3348,
    0x3448, 0x3548, 0x3648, 0x3748, 0x3848, 0x3948, 0x2B48, 0x2F48,
    0x4149, 0x4249, 0x4349, 0x4449, 0x4549, 0x4649, 0x4749, 0x4849,
    0x4949, 0x4A49, 0x4B49, 0x4C49, 0x4D49, 0x4E49, 0x4F49, 0x5049,
    0x5149, 0x5249, 0x5349, 0x5449, 0x5549, 0x5649, 0x5749, 0x5849,
    0x5949, 0x5A49, 0x6149, 0x6249, 0x6349, 0x6449, 0x6549, 0x6649,
    0x6749, 0x6849, 0x6949, 0x6A49, 0x6B49, 0x6C49, 0x6D49, 0x6E49,
    0x6F49, 0x7049, 0x7149, 0x7249, 0x7349, 0x7449, 0x7549, 0x7649,
    0x7749, 0x7849, 0x7949, 0x7A49, 0x3049, 0x3149, 0x3249, 0x3349,
    0x3449, 0x3549, 0x3649, 0x3749, 0x3849, 0x3949, 0x2B49, 0x2F49,
    0x414A, 0x424A, 0x434A, 0x444A, 0x454A, 0x464A, 0x474A, 0x484A,
    0x494A, 0x4A4A, 0x4B4A, 0x4C4A, 0x4D4A, 0x4E4A, 0x4F4A, 0x504A,
    0x514A, 0x524A, 0x534A, 0x544A, 0x554A, 0x564A, 0x574A, 0x584A,
    0x594A, 0x5A4A, 0x614A, 0x624A, 0x634A, 0x644A, 0x654A, 0x664A,
    0x674A, 0x684A, 0x694A, 0x6A4A, 0x6B4A, 0x6C4A, 0x6D4A, 0x6E4A,
    0x6F4A, 0x704A, 0x714A, 0x724A, 0x734A, 0x744A, 0x754A, 0x764A,
    0x774A, 0x784A, 0x794A, 0x7A4A, 0x304A, 0x314A, 0x324A, 0x334A,
    0x344A, 0x354A, 0x364A, 0x374A, 0x384A, 0x394A, 0x2B4A, 0x2F4A,
    0x414B, 0x424B, 0x434B, 0x444B, 0x454B, 0x464B, 0x474B, 0x484B,
    0x494B, 0x4A4B, 0x4B4B, 0x4C4B, 0x4D4B, 0x4E4B, 0x4F4B, 0x504B,
    0x514B, 0x524B, 0x534B, 0x544B, 0x554B, 0x564B, 0x574B, 0x584B,
    0x594B, 0x5A4B, 0x614B, 0x624B, 0x634B, 0x644B, 0x654B, 0x664B,
    0x674B, 0x684B, 0x694B, 0x6A4B, 0x6B4B, 0x6C4B, 0x6D4B, 0x6E4B,
    0x6F4B, 0x704B, 0x714B, 0x724B, 0x734B, 0x744B, 0x754B, 0x764B,
    0x774B, 0x784B, 0x794B, 0x7A4B, 0x304B, 0x314B, 0x324B, 0x334B,
    0x344B, 0x354B, 0x364B, 0x374B, 0x384B, 0x394B, 0x2B4B, 0x2F4B,
    0x414C, 0x424C, 0x434C, 0x444C, 0x454C, 0x464C, 0x474C, 0x484C,
    0x494C, 0x4A4C, 0x4B4C, 0x4C4C, 0x4D4C, 0x4E4C, 0x4F4C, 0x504C,
    0x514C, 0x524C, 0x534C, 0x544C, 0x554C, 0x564C, 0x574C, 0x584C,
    0x594C, 0x5A4C, 0x614C, 0x624C, 0x634C, 0x644C, 0x654C, 0x664C,
    0x674C, 0x684C, 0x694C, 0x6A4C, 0x6B4C, 0x6C4C, 0x6D4C, 0x6E4C,
    0x6F4C, 0x704C, 0x714C, 0x724C, 0x734C, 0x744C, 0x754C, 0x764C,
    0x774C, 0x784C, 0x794C, 0x7A4C, 0x304C, 0x314C, 0x324C, 0x334C,
    0x344C, 0x354C, 0x364C, 0x374C, 0x384C, 0x394C, 0x2B4C, 0x2F4C,
    0x414D, 0x424D, 0x434D, 0x444D, 0x454D, 0x464D, 0x474D, 0x484D,
    0x494D, 0x4A4D, 0x4B4D, 0x4C4D, 0x4D4D, 0x4E4D, 0x4F4D, 0x504D,
    0x514D, 0x524D, 0x534D, 0x544D, 0x554D, 0x564D, 0x574D, 0x584D,
    0x594D, 0x5A4D, 0x614D, 0x624D, 0x634D, 0x644D, 0x654D, 0x664D,
    0x674D, 0x684D, 0x694D, 0x6A4D, 0x6B4D, 0x6C4D, 0x6D4D, 0x6E4D,
    0x6F4D, 0x704D, 0x714D, 0x724D, 0x734D, 0x744D, 0x754D, 0x764D,
    0x774D, 0x784D, 0x794D, 0x7A4D, 0x304D, 0x314D, 0x324D, 0x334D,
    0x344D, 0x354D, 0x364D, 0x374D, 0x384D, 0x394D, 0x2B4D, 0x2F4D,
    0x414E, 0x424E, 0x434E, 0x444E, 0x454E, 0x464E, 0x474E, 0x484E,
    0x494E, 0x4A4E, 0x4B4E, 0x4C4E, 0x4D4E, 0x4E4E, 0x4F4E, 0x504E,
    0x514E, 0x524E, 0x534E, 0x544E, 0x554E, 0x564E, 0x574E, 0x584E,
    0x594E, 0x5A4E, 0x614E, 0x624E, 0x634E, 0x644E, 0x654E, 0x664E,
    0x674E, 0x684E, 0x694E, 0x6A4E, 0x6B4E, 0x6C4E, 0x6D4E, 0x6E4E,
    0x6F4E, 0x704E, 0x714E, 0x724E, 0x734E, 0x744E, 0x754E, 0x764E,
    0x774E, 0x784E, 0x794E, 0x7A4E, 0x304E, 0x314E, 0x324E, 0x334E,
    0x344E, 0x354E, 0x364E, 0x374E, 0x384E, 0x394E, 0x2B4E, 0x2F4E,
    0x414F, 0x424F, 0x434F, 0x444F, 0x454F, 0x464F, 0x474F, 0x484F,
    0x494F, 0x4A4F, 0x4B4F, 0x4C4F, 0x4D4F, 0x4E4F, 0x4F4F, 0x504F,
    0x514F, 0x524F, 0x534F, 0x544F, 0x554F, 0x564F, 0x574F, 0x584F,
    0x594F, 0x5A4F, 0x614F, 0x624F, 0x634F, 0x644F, 0x654F, 0x664F,
    0x674F, 0x684F, 0x694F, 0x6A4F, 0x6B4F, 0x6C4F, 0x6D4F, 0x6E4F,
    0x6F4F, 0x704F, 0x714F, 0x724F, 0x734F, 0x744F, 0x754F, 0x764F,
    0x774F, 0x784F, 0x794F, 0x7A4F, 0x304F, 0x314F, 0x324F, 0x334F,
    0x344F, 0x354F, 0x364F, 0x374F, 0x384F, 0x394F, 0x2B4F, 0x2F4F,
    0x4150, 0x4250, 0x4350, 0x4450, 0x4550, 0x4650, 0x4750, 0x4850,
    0x4950, 0x4A50, 0x4B50, 0x4C50, 0x4D50, 0x4E50, 0x4F50, 0x5050,
    0x5150, 0x5250, 0x5350, 0x5450, 0x5550, 0x5650, 0x5750, 0x5850,
    0x5950, 0x5A50, 0x6150, 0x6250, 0x6350, 0x6450, 0x6550, 0x6650,
    0x6750, 0x6850, 0x6950, 0x6A50, 0x6B50, 0x6C50, 0x6D50, 0x6E50,
    0x6F50, 0x7050, 0x7150, 0x7250, 0x7350, 0x7450, 0x7550, 0x7650,
    0x7750, 0x7850, 0x7950, 0x7A50, 0x3050, 0x3150, 0x3250, 0x3350,
    0x3450, 0x3550, 0x3650, 0x3750, 0x3850, 0x3950, 0x2B50, 0x2F50]"

definition base64_table_enc_12bit_le1 :: "16 word list" where
  "base64_table_enc_12bit_le1 = [
    0x4151, 0x4251, 0x4351, 0x4451, 0x4551, 0x4651, 0x4751, 0x4851,
    0x4951, 0x4A51, 0x4B51, 0x4C51, 0x4D51, 0x4E51, 0x4F51, 0x5051,
    0x5151, 0x5251, 0x5351, 0x5451, 0x5551, 0x5651, 0x5751, 0x5851,
    0x5951, 0x5A51, 0x6151, 0x6251, 0x6351, 0x6451, 0x6551, 0x6651,
    0x6751, 0x6851, 0x6951, 0x6A51, 0x6B51, 0x6C51, 0x6D51, 0x6E51,
    0x6F51, 0x7051, 0x7151, 0x7251, 0x7351, 0x7451, 0x7551, 0x7651,
    0x7751, 0x7851, 0x7951, 0x7A51, 0x3051, 0x3151, 0x3251, 0x3351,
    0x3451, 0x3551, 0x3651, 0x3751, 0x3851, 0x3951, 0x2B51, 0x2F51,
    0x4152, 0x4252, 0x4352, 0x4452, 0x4552, 0x4652, 0x4752, 0x4852,
    0x4952, 0x4A52, 0x4B52, 0x4C52, 0x4D52, 0x4E52, 0x4F52, 0x5052,
    0x5152, 0x5252, 0x5352, 0x5452, 0x5552, 0x5652, 0x5752, 0x5852,
    0x5952, 0x5A52, 0x6152, 0x6252, 0x6352, 0x6452, 0x6552, 0x6652,
    0x6752, 0x6852, 0x6952, 0x6A52, 0x6B52, 0x6C52, 0x6D52, 0x6E52,
    0x6F52, 0x7052, 0x7152, 0x7252, 0x7352, 0x7452, 0x7552, 0x7652,
    0x7752, 0x7852, 0x7952, 0x7A52, 0x3052, 0x3152, 0x3252, 0x3352,
    0x3452, 0x3552, 0x3652, 0x3752, 0x3852, 0x3952, 0x2B52, 0x2F52,
    0x4153, 0x4253, 0x4353, 0x4453, 0x4553, 0x4653, 0x4753, 0x4853,
    0x4953, 0x4A53, 0x4B53, 0x4C53, 0x4D53, 0x4E53, 0x4F53, 0x5053,
    0x5153, 0x5253, 0x5353, 0x5453, 0x5553, 0x5653, 0x5753, 0x5853,
    0x5953, 0x5A53, 0x6153, 0x6253, 0x6353, 0x6453, 0x6553, 0x6653,
    0x6753, 0x6853, 0x6953, 0x6A53, 0x6B53, 0x6C53, 0x6D53, 0x6E53,
    0x6F53, 0x7053, 0x7153, 0x7253, 0x7353, 0x7453, 0x7553, 0x7653,
    0x7753, 0x7853, 0x7953, 0x7A53, 0x3053, 0x3153, 0x3253, 0x3353,
    0x3453, 0x3553, 0x3653, 0x3753, 0x3853, 0x3953, 0x2B53, 0x2F53,
    0x4154, 0x4254, 0x4354, 0x4454, 0x4554, 0x4654, 0x4754, 0x4854,
    0x4954, 0x4A54, 0x4B54, 0x4C54, 0x4D54, 0x4E54, 0x4F54, 0x5054,
    0x5154, 0x5254, 0x5354, 0x5454, 0x5554, 0x5654, 0x5754, 0x5854,
    0x5954, 0x5A54, 0x6154, 0x6254, 0x6354, 0x6454, 0x6554, 0x6654,
    0x6754, 0x6854, 0x6954, 0x6A54, 0x6B54, 0x6C54, 0x6D54, 0x6E54,
    0x6F54, 0x7054, 0x7154, 0x7254, 0x7354, 0x7454, 0x7554, 0x7654,
    0x7754, 0x7854, 0x7954, 0x7A54, 0x3054, 0x3154, 0x3254, 0x3354,
    0x3454, 0x3554, 0x3654, 0x3754, 0x3854, 0x3954, 0x2B54, 0x2F54,
    0x4155, 0x4255, 0x4355, 0x4455, 0x4555, 0x4655, 0x4755, 0x4855,
    0x4955, 0x4A55, 0x4B55, 0x4C55, 0x4D55, 0x4E55, 0x4F55, 0x5055,
    0x5155, 0x5255, 0x5355, 0x5455, 0x5555, 0x5655, 0x5755, 0x5855,
    0x5955, 0x5A55, 0x6155, 0x6255, 0x6355, 0x6455, 0x6555, 0x6655,
    0x6755, 0x6855, 0x6955, 0x6A55, 0x6B55, 0x6C55, 0x6D55, 0x6E55,
    0x6F55, 0x7055, 0x7155, 0x7255, 0x7355, 0x7455, 0x7555, 0x7655,
    0x7755, 0x7855, 0x7955, 0x7A55, 0x3055, 0x3155, 0x3255, 0x3355,
    0x3455, 0x3555, 0x3655, 0x3755, 0x3855, 0x3955, 0x2B55, 0x2F55,
    0x4156, 0x4256, 0x4356, 0x4456, 0x4556, 0x4656, 0x4756, 0x4856,
    0x4956, 0x4A56, 0x4B56, 0x4C56, 0x4D56, 0x4E56, 0x4F56, 0x5056,
    0x5156, 0x5256, 0x5356, 0x5456, 0x5556, 0x5656, 0x5756, 0x5856,
    0x5956, 0x5A56, 0x6156, 0x6256, 0x6356, 0x6456, 0x6556, 0x6656,
    0x6756, 0x6856, 0x6956, 0x6A56, 0x6B56, 0x6C56, 0x6D56, 0x6E56,
    0x6F56, 0x7056, 0x7156, 0x7256, 0x7356, 0x7456, 0x7556, 0x7656,
    0x7756, 0x7856, 0x7956, 0x7A56, 0x3056, 0x3156, 0x3256, 0x3356,
    0x3456, 0x3556, 0x3656, 0x3756, 0x3856, 0x3956, 0x2B56, 0x2F56,
    0x4157, 0x4257, 0x4357, 0x4457, 0x4557, 0x4657, 0x4757, 0x4857,
    0x4957, 0x4A57, 0x4B57, 0x4C57, 0x4D57, 0x4E57, 0x4F57, 0x5057,
    0x5157, 0x5257, 0x5357, 0x5457, 0x5557, 0x5657, 0x5757, 0x5857,
    0x5957, 0x5A57, 0x6157, 0x6257, 0x6357, 0x6457, 0x6557, 0x6657,
    0x6757, 0x6857, 0x6957, 0x6A57, 0x6B57, 0x6C57, 0x6D57, 0x6E57,
    0x6F57, 0x7057, 0x7157, 0x7257, 0x7357, 0x7457, 0x7557, 0x7657,
    0x7757, 0x7857, 0x7957, 0x7A57, 0x3057, 0x3157, 0x3257, 0x3357,
    0x3457, 0x3557, 0x3657, 0x3757, 0x3857, 0x3957, 0x2B57, 0x2F57,
    0x4158, 0x4258, 0x4358, 0x4458, 0x4558, 0x4658, 0x4758, 0x4858,
    0x4958, 0x4A58, 0x4B58, 0x4C58, 0x4D58, 0x4E58, 0x4F58, 0x5058,
    0x5158, 0x5258, 0x5358, 0x5458, 0x5558, 0x5658, 0x5758, 0x5858,
    0x5958, 0x5A58, 0x6158, 0x6258, 0x6358, 0x6458, 0x6558, 0x6658,
    0x6758, 0x6858, 0x6958, 0x6A58, 0x6B58, 0x6C58, 0x6D58, 0x6E58,
    0x6F58, 0x7058, 0x7158, 0x7258, 0x7358, 0x7458, 0x7558, 0x7658,
    0x7758, 0x7858, 0x7958, 0x7A58, 0x3058, 0x3158, 0x3258, 0x3358,
    0x3458, 0x3558, 0x3658, 0x3758, 0x3858, 0x3958, 0x2B58, 0x2F58,
    0x4159, 0x4259, 0x4359, 0x4459, 0x4559, 0x4659, 0x4759, 0x4859,
    0x4959, 0x4A59, 0x4B59, 0x4C59, 0x4D59, 0x4E59, 0x4F59, 0x5059,
    0x5159, 0x5259, 0x5359, 0x5459, 0x5559, 0x5659, 0x5759, 0x5859,
    0x5959, 0x5A59, 0x6159, 0x6259, 0x6359, 0x6459, 0x6559, 0x6659,
    0x6759, 0x6859, 0x6959, 0x6A59, 0x6B59, 0x6C59, 0x6D59, 0x6E59,
    0x6F59, 0x7059, 0x7159, 0x7259, 0x7359, 0x7459, 0x7559, 0x7659,
    0x7759, 0x7859, 0x7959, 0x7A59, 0x3059, 0x3159, 0x3259, 0x3359,
    0x3459, 0x3559, 0x3659, 0x3759, 0x3859, 0x3959, 0x2B59, 0x2F59,
    0x415A, 0x425A, 0x435A, 0x445A, 0x455A, 0x465A, 0x475A, 0x485A,
    0x495A, 0x4A5A, 0x4B5A, 0x4C5A, 0x4D5A, 0x4E5A, 0x4F5A, 0x505A,
    0x515A, 0x525A, 0x535A, 0x545A, 0x555A, 0x565A, 0x575A, 0x585A,
    0x595A, 0x5A5A, 0x615A, 0x625A, 0x635A, 0x645A, 0x655A, 0x665A,
    0x675A, 0x685A, 0x695A, 0x6A5A, 0x6B5A, 0x6C5A, 0x6D5A, 0x6E5A,
    0x6F5A, 0x705A, 0x715A, 0x725A, 0x735A, 0x745A, 0x755A, 0x765A,
    0x775A, 0x785A, 0x795A, 0x7A5A, 0x305A, 0x315A, 0x325A, 0x335A,
    0x345A, 0x355A, 0x365A, 0x375A, 0x385A, 0x395A, 0x2B5A, 0x2F5A,
    0x4161, 0x4261, 0x4361, 0x4461, 0x4561, 0x4661, 0x4761, 0x4861,
    0x4961, 0x4A61, 0x4B61, 0x4C61, 0x4D61, 0x4E61, 0x4F61, 0x5061,
    0x5161, 0x5261, 0x5361, 0x5461, 0x5561, 0x5661, 0x5761, 0x5861,
    0x5961, 0x5A61, 0x6161, 0x6261, 0x6361, 0x6461, 0x6561, 0x6661,
    0x6761, 0x6861, 0x6961, 0x6A61, 0x6B61, 0x6C61, 0x6D61, 0x6E61,
    0x6F61, 0x7061, 0x7161, 0x7261, 0x7361, 0x7461, 0x7561, 0x7661,
    0x7761, 0x7861, 0x7961, 0x7A61, 0x3061, 0x3161, 0x3261, 0x3361,
    0x3461, 0x3561, 0x3661, 0x3761, 0x3861, 0x3961, 0x2B61, 0x2F61,
    0x4162, 0x4262, 0x4362, 0x4462, 0x4562, 0x4662, 0x4762, 0x4862,
    0x4962, 0x4A62, 0x4B62, 0x4C62, 0x4D62, 0x4E62, 0x4F62, 0x5062,
    0x5162, 0x5262, 0x5362, 0x5462, 0x5562, 0x5662, 0x5762, 0x5862,
    0x5962, 0x5A62, 0x6162, 0x6262, 0x6362, 0x6462, 0x6562, 0x6662,
    0x6762, 0x6862, 0x6962, 0x6A62, 0x6B62, 0x6C62, 0x6D62, 0x6E62,
    0x6F62, 0x7062, 0x7162, 0x7262, 0x7362, 0x7462, 0x7562, 0x7662,
    0x7762, 0x7862, 0x7962, 0x7A62, 0x3062, 0x3162, 0x3262, 0x3362,
    0x3462, 0x3562, 0x3662, 0x3762, 0x3862, 0x3962, 0x2B62, 0x2F62,
    0x4163, 0x4263, 0x4363, 0x4463, 0x4563, 0x4663, 0x4763, 0x4863,
    0x4963, 0x4A63, 0x4B63, 0x4C63, 0x4D63, 0x4E63, 0x4F63, 0x5063,
    0x5163, 0x5263, 0x5363, 0x5463, 0x5563, 0x5663, 0x5763, 0x5863,
    0x5963, 0x5A63, 0x6163, 0x6263, 0x6363, 0x6463, 0x6563, 0x6663,
    0x6763, 0x6863, 0x6963, 0x6A63, 0x6B63, 0x6C63, 0x6D63, 0x6E63,
    0x6F63, 0x7063, 0x7163, 0x7263, 0x7363, 0x7463, 0x7563, 0x7663,
    0x7763, 0x7863, 0x7963, 0x7A63, 0x3063, 0x3163, 0x3263, 0x3363,
    0x3463, 0x3563, 0x3663, 0x3763, 0x3863, 0x3963, 0x2B63, 0x2F63,
    0x4164, 0x4264, 0x4364, 0x4464, 0x4564, 0x4664, 0x4764, 0x4864,
    0x4964, 0x4A64, 0x4B64, 0x4C64, 0x4D64, 0x4E64, 0x4F64, 0x5064,
    0x5164, 0x5264, 0x5364, 0x5464, 0x5564, 0x5664, 0x5764, 0x5864,
    0x5964, 0x5A64, 0x6164, 0x6264, 0x6364, 0x6464, 0x6564, 0x6664,
    0x6764, 0x6864, 0x6964, 0x6A64, 0x6B64, 0x6C64, 0x6D64, 0x6E64,
    0x6F64, 0x7064, 0x7164, 0x7264, 0x7364, 0x7464, 0x7564, 0x7664,
    0x7764, 0x7864, 0x7964, 0x7A64, 0x3064, 0x3164, 0x3264, 0x3364,
    0x3464, 0x3564, 0x3664, 0x3764, 0x3864, 0x3964, 0x2B64, 0x2F64,
    0x4165, 0x4265, 0x4365, 0x4465, 0x4565, 0x4665, 0x4765, 0x4865,
    0x4965, 0x4A65, 0x4B65, 0x4C65, 0x4D65, 0x4E65, 0x4F65, 0x5065,
    0x5165, 0x5265, 0x5365, 0x5465, 0x5565, 0x5665, 0x5765, 0x5865,
    0x5965, 0x5A65, 0x6165, 0x6265, 0x6365, 0x6465, 0x6565, 0x6665,
    0x6765, 0x6865, 0x6965, 0x6A65, 0x6B65, 0x6C65, 0x6D65, 0x6E65,
    0x6F65, 0x7065, 0x7165, 0x7265, 0x7365, 0x7465, 0x7565, 0x7665,
    0x7765, 0x7865, 0x7965, 0x7A65, 0x3065, 0x3165, 0x3265, 0x3365,
    0x3465, 0x3565, 0x3665, 0x3765, 0x3865, 0x3965, 0x2B65, 0x2F65,
    0x4166, 0x4266, 0x4366, 0x4466, 0x4566, 0x4666, 0x4766, 0x4866,
    0x4966, 0x4A66, 0x4B66, 0x4C66, 0x4D66, 0x4E66, 0x4F66, 0x5066,
    0x5166, 0x5266, 0x5366, 0x5466, 0x5566, 0x5666, 0x5766, 0x5866,
    0x5966, 0x5A66, 0x6166, 0x6266, 0x6366, 0x6466, 0x6566, 0x6666,
    0x6766, 0x6866, 0x6966, 0x6A66, 0x6B66, 0x6C66, 0x6D66, 0x6E66,
    0x6F66, 0x7066, 0x7166, 0x7266, 0x7366, 0x7466, 0x7566, 0x7666,
    0x7766, 0x7866, 0x7966, 0x7A66, 0x3066, 0x3166, 0x3266, 0x3366,
    0x3466, 0x3566, 0x3666, 0x3766, 0x3866, 0x3966, 0x2B66, 0x2F66]"

definition base64_table_enc_12bit_le2 :: "16 word list" where
  "base64_table_enc_12bit_le2 = [
    0x4167, 0x4267, 0x4367, 0x4467, 0x4567, 0x4667, 0x4767, 0x4867,
    0x4967, 0x4A67, 0x4B67, 0x4C67, 0x4D67, 0x4E67, 0x4F67, 0x5067,
    0x5167, 0x5267, 0x5367, 0x5467, 0x5567, 0x5667, 0x5767, 0x5867,
    0x5967, 0x5A67, 0x6167, 0x6267, 0x6367, 0x6467, 0x6567, 0x6667,
    0x6767, 0x6867, 0x6967, 0x6A67, 0x6B67, 0x6C67, 0x6D67, 0x6E67,
    0x6F67, 0x7067, 0x7167, 0x7267, 0x7367, 0x7467, 0x7567, 0x7667,
    0x7767, 0x7867, 0x7967, 0x7A67, 0x3067, 0x3167, 0x3267, 0x3367,
    0x3467, 0x3567, 0x3667, 0x3767, 0x3867, 0x3967, 0x2B67, 0x2F67,
    0x4168, 0x4268, 0x4368, 0x4468, 0x4568, 0x4668, 0x4768, 0x4868,
    0x4968, 0x4A68, 0x4B68, 0x4C68, 0x4D68, 0x4E68, 0x4F68, 0x5068,
    0x5168, 0x5268, 0x5368, 0x5468, 0x5568, 0x5668, 0x5768, 0x5868,
    0x5968, 0x5A68, 0x6168, 0x6268, 0x6368, 0x6468, 0x6568, 0x6668,
    0x6768, 0x6868, 0x6968, 0x6A68, 0x6B68, 0x6C68, 0x6D68, 0x6E68,
    0x6F68, 0x7068, 0x7168, 0x7268, 0x7368, 0x7468, 0x7568, 0x7668,
    0x7768, 0x7868, 0x7968, 0x7A68, 0x3068, 0x3168, 0x3268, 0x3368,
    0x3468, 0x3568, 0x3668, 0x3768, 0x3868, 0x3968, 0x2B68, 0x2F68,
    0x4169, 0x4269, 0x4369, 0x4469, 0x4569, 0x4669, 0x4769, 0x4869,
    0x4969, 0x4A69, 0x4B69, 0x4C69, 0x4D69, 0x4E69, 0x4F69, 0x5069,
    0x5169, 0x5269, 0x5369, 0x5469, 0x5569, 0x5669, 0x5769, 0x5869,
    0x5969, 0x5A69, 0x6169, 0x6269, 0x6369, 0x6469, 0x6569, 0x6669,
    0x6769, 0x6869, 0x6969, 0x6A69, 0x6B69, 0x6C69, 0x6D69, 0x6E69,
    0x6F69, 0x7069, 0x7169, 0x7269, 0x7369, 0x7469, 0x7569, 0x7669,
    0x7769, 0x7869, 0x7969, 0x7A69, 0x3069, 0x3169, 0x3269, 0x3369,
    0x3469, 0x3569, 0x3669, 0x3769, 0x3869, 0x3969, 0x2B69, 0x2F69,
    0x416A, 0x426A, 0x436A, 0x446A, 0x456A, 0x466A, 0x476A, 0x486A,
    0x496A, 0x4A6A, 0x4B6A, 0x4C6A, 0x4D6A, 0x4E6A, 0x4F6A, 0x506A,
    0x516A, 0x526A, 0x536A, 0x546A, 0x556A, 0x566A, 0x576A, 0x586A,
    0x596A, 0x5A6A, 0x616A, 0x626A, 0x636A, 0x646A, 0x656A, 0x666A,
    0x676A, 0x686A, 0x696A, 0x6A6A, 0x6B6A, 0x6C6A, 0x6D6A, 0x6E6A,
    0x6F6A, 0x706A, 0x716A, 0x726A, 0x736A, 0x746A, 0x756A, 0x766A,
    0x776A, 0x786A, 0x796A, 0x7A6A, 0x306A, 0x316A, 0x326A, 0x336A,
    0x346A, 0x356A, 0x366A, 0x376A, 0x386A, 0x396A, 0x2B6A, 0x2F6A,
    0x416B, 0x426B, 0x436B, 0x446B, 0x456B, 0x466B, 0x476B, 0x486B,
    0x496B, 0x4A6B, 0x4B6B, 0x4C6B, 0x4D6B, 0x4E6B, 0x4F6B, 0x506B,
    0x516B, 0x526B, 0x536B, 0x546B, 0x556B, 0x566B, 0x576B, 0x586B,
    0x596B, 0x5A6B, 0x616B, 0x626B, 0x636B, 0x646B, 0x656B, 0x666B,
    0x676B, 0x686B, 0x696B, 0x6A6B, 0x6B6B, 0x6C6B, 0x6D6B, 0x6E6B,
    0x6F6B, 0x706B, 0x716B, 0x726B, 0x736B, 0x746B, 0x756B, 0x766B,
    0x776B, 0x786B, 0x796B, 0x7A6B, 0x306B, 0x316B, 0x326B, 0x336B,
    0x346B, 0x356B, 0x366B, 0x376B, 0x386B, 0x396B, 0x2B6B, 0x2F6B,
    0x416C, 0x426C, 0x436C, 0x446C, 0x456C, 0x466C, 0x476C, 0x486C,
    0x496C, 0x4A6C, 0x4B6C, 0x4C6C, 0x4D6C, 0x4E6C, 0x4F6C, 0x506C,
    0x516C, 0x526C, 0x536C, 0x546C, 0x556C, 0x566C, 0x576C, 0x586C,
    0x596C, 0x5A6C, 0x616C, 0x626C, 0x636C, 0x646C, 0x656C, 0x666C,
    0x676C, 0x686C, 0x696C, 0x6A6C, 0x6B6C, 0x6C6C, 0x6D6C, 0x6E6C,
    0x6F6C, 0x706C, 0x716C, 0x726C, 0x736C, 0x746C, 0x756C, 0x766C,
    0x776C, 0x786C, 0x796C, 0x7A6C, 0x306C, 0x316C, 0x326C, 0x336C,
    0x346C, 0x356C, 0x366C, 0x376C, 0x386C, 0x396C, 0x2B6C, 0x2F6C,
    0x416D, 0x426D, 0x436D, 0x446D, 0x456D, 0x466D, 0x476D, 0x486D,
    0x496D, 0x4A6D, 0x4B6D, 0x4C6D, 0x4D6D, 0x4E6D, 0x4F6D, 0x506D,
    0x516D, 0x526D, 0x536D, 0x546D, 0x556D, 0x566D, 0x576D, 0x586D,
    0x596D, 0x5A6D, 0x616D, 0x626D, 0x636D, 0x646D, 0x656D, 0x666D,
    0x676D, 0x686D, 0x696D, 0x6A6D, 0x6B6D, 0x6C6D, 0x6D6D, 0x6E6D,
    0x6F6D, 0x706D, 0x716D, 0x726D, 0x736D, 0x746D, 0x756D, 0x766D,
    0x776D, 0x786D, 0x796D, 0x7A6D, 0x306D, 0x316D, 0x326D, 0x336D,
    0x346D, 0x356D, 0x366D, 0x376D, 0x386D, 0x396D, 0x2B6D, 0x2F6D,
    0x416E, 0x426E, 0x436E, 0x446E, 0x456E, 0x466E, 0x476E, 0x486E,
    0x496E, 0x4A6E, 0x4B6E, 0x4C6E, 0x4D6E, 0x4E6E, 0x4F6E, 0x506E,
    0x516E, 0x526E, 0x536E, 0x546E, 0x556E, 0x566E, 0x576E, 0x586E,
    0x596E, 0x5A6E, 0x616E, 0x626E, 0x636E, 0x646E, 0x656E, 0x666E,
    0x676E, 0x686E, 0x696E, 0x6A6E, 0x6B6E, 0x6C6E, 0x6D6E, 0x6E6E,
    0x6F6E, 0x706E, 0x716E, 0x726E, 0x736E, 0x746E, 0x756E, 0x766E,
    0x776E, 0x786E, 0x796E, 0x7A6E, 0x306E, 0x316E, 0x326E, 0x336E,
    0x346E, 0x356E, 0x366E, 0x376E, 0x386E, 0x396E, 0x2B6E, 0x2F6E,
    0x416F, 0x426F, 0x436F, 0x446F, 0x456F, 0x466F, 0x476F, 0x486F,
    0x496F, 0x4A6F, 0x4B6F, 0x4C6F, 0x4D6F, 0x4E6F, 0x4F6F, 0x506F,
    0x516F, 0x526F, 0x536F, 0x546F, 0x556F, 0x566F, 0x576F, 0x586F,
    0x596F, 0x5A6F, 0x616F, 0x626F, 0x636F, 0x646F, 0x656F, 0x666F,
    0x676F, 0x686F, 0x696F, 0x6A6F, 0x6B6F, 0x6C6F, 0x6D6F, 0x6E6F,
    0x6F6F, 0x706F, 0x716F, 0x726F, 0x736F, 0x746F, 0x756F, 0x766F,
    0x776F, 0x786F, 0x796F, 0x7A6F, 0x306F, 0x316F, 0x326F, 0x336F,
    0x346F, 0x356F, 0x366F, 0x376F, 0x386F, 0x396F, 0x2B6F, 0x2F6F,
    0x4170, 0x4270, 0x4370, 0x4470, 0x4570, 0x4670, 0x4770, 0x4870,
    0x4970, 0x4A70, 0x4B70, 0x4C70, 0x4D70, 0x4E70, 0x4F70, 0x5070,
    0x5170, 0x5270, 0x5370, 0x5470, 0x5570, 0x5670, 0x5770, 0x5870,
    0x5970, 0x5A70, 0x6170, 0x6270, 0x6370, 0x6470, 0x6570, 0x6670,
    0x6770, 0x6870, 0x6970, 0x6A70, 0x6B70, 0x6C70, 0x6D70, 0x6E70,
    0x6F70, 0x7070, 0x7170, 0x7270, 0x7370, 0x7470, 0x7570, 0x7670,
    0x7770, 0x7870, 0x7970, 0x7A70, 0x3070, 0x3170, 0x3270, 0x3370,
    0x3470, 0x3570, 0x3670, 0x3770, 0x3870, 0x3970, 0x2B70, 0x2F70,
    0x4171, 0x4271, 0x4371, 0x4471, 0x4571, 0x4671, 0x4771, 0x4871,
    0x4971, 0x4A71, 0x4B71, 0x4C71, 0x4D71, 0x4E71, 0x4F71, 0x5071,
    0x5171, 0x5271, 0x5371, 0x5471, 0x5571, 0x5671, 0x5771, 0x5871,
    0x5971, 0x5A71, 0x6171, 0x6271, 0x6371, 0x6471, 0x6571, 0x6671,
    0x6771, 0x6871, 0x6971, 0x6A71, 0x6B71, 0x6C71, 0x6D71, 0x6E71,
    0x6F71, 0x7071, 0x7171, 0x7271, 0x7371, 0x7471, 0x7571, 0x7671,
    0x7771, 0x7871, 0x7971, 0x7A71, 0x3071, 0x3171, 0x3271, 0x3371,
    0x3471, 0x3571, 0x3671, 0x3771, 0x3871, 0x3971, 0x2B71, 0x2F71,
    0x4172, 0x4272, 0x4372, 0x4472, 0x4572, 0x4672, 0x4772, 0x4872,
    0x4972, 0x4A72, 0x4B72, 0x4C72, 0x4D72, 0x4E72, 0x4F72, 0x5072,
    0x5172, 0x5272, 0x5372, 0x5472, 0x5572, 0x5672, 0x5772, 0x5872,
    0x5972, 0x5A72, 0x6172, 0x6272, 0x6372, 0x6472, 0x6572, 0x6672,
    0x6772, 0x6872, 0x6972, 0x6A72, 0x6B72, 0x6C72, 0x6D72, 0x6E72,
    0x6F72, 0x7072, 0x7172, 0x7272, 0x7372, 0x7472, 0x7572, 0x7672,
    0x7772, 0x7872, 0x7972, 0x7A72, 0x3072, 0x3172, 0x3272, 0x3372,
    0x3472, 0x3572, 0x3672, 0x3772, 0x3872, 0x3972, 0x2B72, 0x2F72,
    0x4173, 0x4273, 0x4373, 0x4473, 0x4573, 0x4673, 0x4773, 0x4873,
    0x4973, 0x4A73, 0x4B73, 0x4C73, 0x4D73, 0x4E73, 0x4F73, 0x5073,
    0x5173, 0x5273, 0x5373, 0x5473, 0x5573, 0x5673, 0x5773, 0x5873,
    0x5973, 0x5A73, 0x6173, 0x6273, 0x6373, 0x6473, 0x6573, 0x6673,
    0x6773, 0x6873, 0x6973, 0x6A73, 0x6B73, 0x6C73, 0x6D73, 0x6E73,
    0x6F73, 0x7073, 0x7173, 0x7273, 0x7373, 0x7473, 0x7573, 0x7673,
    0x7773, 0x7873, 0x7973, 0x7A73, 0x3073, 0x3173, 0x3273, 0x3373,
    0x3473, 0x3573, 0x3673, 0x3773, 0x3873, 0x3973, 0x2B73, 0x2F73,
    0x4174, 0x4274, 0x4374, 0x4474, 0x4574, 0x4674, 0x4774, 0x4874,
    0x4974, 0x4A74, 0x4B74, 0x4C74, 0x4D74, 0x4E74, 0x4F74, 0x5074,
    0x5174, 0x5274, 0x5374, 0x5474, 0x5574, 0x5674, 0x5774, 0x5874,
    0x5974, 0x5A74, 0x6174, 0x6274, 0x6374, 0x6474, 0x6574, 0x6674,
    0x6774, 0x6874, 0x6974, 0x6A74, 0x6B74, 0x6C74, 0x6D74, 0x6E74,
    0x6F74, 0x7074, 0x7174, 0x7274, 0x7374, 0x7474, 0x7574, 0x7674,
    0x7774, 0x7874, 0x7974, 0x7A74, 0x3074, 0x3174, 0x3274, 0x3374,
    0x3474, 0x3574, 0x3674, 0x3774, 0x3874, 0x3974, 0x2B74, 0x2F74,
    0x4175, 0x4275, 0x4375, 0x4475, 0x4575, 0x4675, 0x4775, 0x4875,
    0x4975, 0x4A75, 0x4B75, 0x4C75, 0x4D75, 0x4E75, 0x4F75, 0x5075,
    0x5175, 0x5275, 0x5375, 0x5475, 0x5575, 0x5675, 0x5775, 0x5875,
    0x5975, 0x5A75, 0x6175, 0x6275, 0x6375, 0x6475, 0x6575, 0x6675,
    0x6775, 0x6875, 0x6975, 0x6A75, 0x6B75, 0x6C75, 0x6D75, 0x6E75,
    0x6F75, 0x7075, 0x7175, 0x7275, 0x7375, 0x7475, 0x7575, 0x7675,
    0x7775, 0x7875, 0x7975, 0x7A75, 0x3075, 0x3175, 0x3275, 0x3375,
    0x3475, 0x3575, 0x3675, 0x3775, 0x3875, 0x3975, 0x2B75, 0x2F75,
    0x4176, 0x4276, 0x4376, 0x4476, 0x4576, 0x4676, 0x4776, 0x4876,
    0x4976, 0x4A76, 0x4B76, 0x4C76, 0x4D76, 0x4E76, 0x4F76, 0x5076,
    0x5176, 0x5276, 0x5376, 0x5476, 0x5576, 0x5676, 0x5776, 0x5876,
    0x5976, 0x5A76, 0x6176, 0x6276, 0x6376, 0x6476, 0x6576, 0x6676,
    0x6776, 0x6876, 0x6976, 0x6A76, 0x6B76, 0x6C76, 0x6D76, 0x6E76,
    0x6F76, 0x7076, 0x7176, 0x7276, 0x7376, 0x7476, 0x7576, 0x7676,
    0x7776, 0x7876, 0x7976, 0x7A76, 0x3076, 0x3176, 0x3276, 0x3376,
    0x3476, 0x3576, 0x3676, 0x3776, 0x3876, 0x3976, 0x2B76, 0x2F76]"

definition base64_table_enc_12bit_le3 :: "16 word list" where
  "base64_table_enc_12bit_le3 = [
    0x4177, 0x4277, 0x4377, 0x4477, 0x4577, 0x4677, 0x4777, 0x4877,
    0x4977, 0x4A77, 0x4B77, 0x4C77, 0x4D77, 0x4E77, 0x4F77, 0x5077,
    0x5177, 0x5277, 0x5377, 0x5477, 0x5577, 0x5677, 0x5777, 0x5877,
    0x5977, 0x5A77, 0x6177, 0x6277, 0x6377, 0x6477, 0x6577, 0x6677,
    0x6777, 0x6877, 0x6977, 0x6A77, 0x6B77, 0x6C77, 0x6D77, 0x6E77,
    0x6F77, 0x7077, 0x7177, 0x7277, 0x7377, 0x7477, 0x7577, 0x7677,
    0x7777, 0x7877, 0x7977, 0x7A77, 0x3077, 0x3177, 0x3277, 0x3377,
    0x3477, 0x3577, 0x3677, 0x3777, 0x3877, 0x3977, 0x2B77, 0x2F77,
    0x4178, 0x4278, 0x4378, 0x4478, 0x4578, 0x4678, 0x4778, 0x4878,
    0x4978, 0x4A78, 0x4B78, 0x4C78, 0x4D78, 0x4E78, 0x4F78, 0x5078,
    0x5178, 0x5278, 0x5378, 0x5478, 0x5578, 0x5678, 0x5778, 0x5878,
    0x5978, 0x5A78, 0x6178, 0x6278, 0x6378, 0x6478, 0x6578, 0x6678,
    0x6778, 0x6878, 0x6978, 0x6A78, 0x6B78, 0x6C78, 0x6D78, 0x6E78,
    0x6F78, 0x7078, 0x7178, 0x7278, 0x7378, 0x7478, 0x7578, 0x7678,
    0x7778, 0x7878, 0x7978, 0x7A78, 0x3078, 0x3178, 0x3278, 0x3378,
    0x3478, 0x3578, 0x3678, 0x3778, 0x3878, 0x3978, 0x2B78, 0x2F78,
    0x4179, 0x4279, 0x4379, 0x4479, 0x4579, 0x4679, 0x4779, 0x4879,
    0x4979, 0x4A79, 0x4B79, 0x4C79, 0x4D79, 0x4E79, 0x4F79, 0x5079,
    0x5179, 0x5279, 0x5379, 0x5479, 0x5579, 0x5679, 0x5779, 0x5879,
    0x5979, 0x5A79, 0x6179, 0x6279, 0x6379, 0x6479, 0x6579, 0x6679,
    0x6779, 0x6879, 0x6979, 0x6A79, 0x6B79, 0x6C79, 0x6D79, 0x6E79,
    0x6F79, 0x7079, 0x7179, 0x7279, 0x7379, 0x7479, 0x7579, 0x7679,
    0x7779, 0x7879, 0x7979, 0x7A79, 0x3079, 0x3179, 0x3279, 0x3379,
    0x3479, 0x3579, 0x3679, 0x3779, 0x3879, 0x3979, 0x2B79, 0x2F79,
    0x417A, 0x427A, 0x437A, 0x447A, 0x457A, 0x467A, 0x477A, 0x487A,
    0x497A, 0x4A7A, 0x4B7A, 0x4C7A, 0x4D7A, 0x4E7A, 0x4F7A, 0x507A,
    0x517A, 0x527A, 0x537A, 0x547A, 0x557A, 0x567A, 0x577A, 0x587A,
    0x597A, 0x5A7A, 0x617A, 0x627A, 0x637A, 0x647A, 0x657A, 0x667A,
    0x677A, 0x687A, 0x697A, 0x6A7A, 0x6B7A, 0x6C7A, 0x6D7A, 0x6E7A,
    0x6F7A, 0x707A, 0x717A, 0x727A, 0x737A, 0x747A, 0x757A, 0x767A,
    0x777A, 0x787A, 0x797A, 0x7A7A, 0x307A, 0x317A, 0x327A, 0x337A,
    0x347A, 0x357A, 0x367A, 0x377A, 0x387A, 0x397A, 0x2B7A, 0x2F7A,
    0x4130, 0x4230, 0x4330, 0x4430, 0x4530, 0x4630, 0x4730, 0x4830,
    0x4930, 0x4A30, 0x4B30, 0x4C30, 0x4D30, 0x4E30, 0x4F30, 0x5030,
    0x5130, 0x5230, 0x5330, 0x5430, 0x5530, 0x5630, 0x5730, 0x5830,
    0x5930, 0x5A30, 0x6130, 0x6230, 0x6330, 0x6430, 0x6530, 0x6630,
    0x6730, 0x6830, 0x6930, 0x6A30, 0x6B30, 0x6C30, 0x6D30, 0x6E30,
    0x6F30, 0x7030, 0x7130, 0x7230, 0x7330, 0x7430, 0x7530, 0x7630,
    0x7730, 0x7830, 0x7930, 0x7A30, 0x3030, 0x3130, 0x3230, 0x3330,
    0x3430, 0x3530, 0x3630, 0x3730, 0x3830, 0x3930, 0x2B30, 0x2F30,
    0x4131, 0x4231, 0x4331, 0x4431, 0x4531, 0x4631, 0x4731, 0x4831,
    0x4931, 0x4A31, 0x4B31, 0x4C31, 0x4D31, 0x4E31, 0x4F31, 0x5031,
    0x5131, 0x5231, 0x5331, 0x5431, 0x5531, 0x5631, 0x5731, 0x5831,
    0x5931, 0x5A31, 0x6131, 0x6231, 0x6331, 0x6431, 0x6531, 0x6631,
    0x6731, 0x6831, 0x6931, 0x6A31, 0x6B31, 0x6C31, 0x6D31, 0x6E31,
    0x6F31, 0x7031, 0x7131, 0x7231, 0x7331, 0x7431, 0x7531, 0x7631,
    0x7731, 0x7831, 0x7931, 0x7A31, 0x3031, 0x3131, 0x3231, 0x3331,
    0x3431, 0x3531, 0x3631, 0x3731, 0x3831, 0x3931, 0x2B31, 0x2F31,
    0x4132, 0x4232, 0x4332, 0x4432, 0x4532, 0x4632, 0x4732, 0x4832,
    0x4932, 0x4A32, 0x4B32, 0x4C32, 0x4D32, 0x4E32, 0x4F32, 0x5032,
    0x5132, 0x5232, 0x5332, 0x5432, 0x5532, 0x5632, 0x5732, 0x5832,
    0x5932, 0x5A32, 0x6132, 0x6232, 0x6332, 0x6432, 0x6532, 0x6632,
    0x6732, 0x6832, 0x6932, 0x6A32, 0x6B32, 0x6C32, 0x6D32, 0x6E32,
    0x6F32, 0x7032, 0x7132, 0x7232, 0x7332, 0x7432, 0x7532, 0x7632,
    0x7732, 0x7832, 0x7932, 0x7A32, 0x3032, 0x3132, 0x3232, 0x3332,
    0x3432, 0x3532, 0x3632, 0x3732, 0x3832, 0x3932, 0x2B32, 0x2F32,
    0x4133, 0x4233, 0x4333, 0x4433, 0x4533, 0x4633, 0x4733, 0x4833,
    0x4933, 0x4A33, 0x4B33, 0x4C33, 0x4D33, 0x4E33, 0x4F33, 0x5033,
    0x5133, 0x5233, 0x5333, 0x5433, 0x5533, 0x5633, 0x5733, 0x5833,
    0x5933, 0x5A33, 0x6133, 0x6233, 0x6333, 0x6433, 0x6533, 0x6633,
    0x6733, 0x6833, 0x6933, 0x6A33, 0x6B33, 0x6C33, 0x6D33, 0x6E33,
    0x6F33, 0x7033, 0x7133, 0x7233, 0x7333, 0x7433, 0x7533, 0x7633,
    0x7733, 0x7833, 0x7933, 0x7A33, 0x3033, 0x3133, 0x3233, 0x3333,
    0x3433, 0x3533, 0x3633, 0x3733, 0x3833, 0x3933, 0x2B33, 0x2F33,
    0x4134, 0x4234, 0x4334, 0x4434, 0x4534, 0x4634, 0x4734, 0x4834,
    0x4934, 0x4A34, 0x4B34, 0x4C34, 0x4D34, 0x4E34, 0x4F34, 0x5034,
    0x5134, 0x5234, 0x5334, 0x5434, 0x5534, 0x5634, 0x5734, 0x5834,
    0x5934, 0x5A34, 0x6134, 0x6234, 0x6334, 0x6434, 0x6534, 0x6634,
    0x6734, 0x6834, 0x6934, 0x6A34, 0x6B34, 0x6C34, 0x6D34, 0x6E34,
    0x6F34, 0x7034, 0x7134, 0x7234, 0x7334, 0x7434, 0x7534, 0x7634,
    0x7734, 0x7834, 0x7934, 0x7A34, 0x3034, 0x3134, 0x3234, 0x3334,
    0x3434, 0x3534, 0x3634, 0x3734, 0x3834, 0x3934, 0x2B34, 0x2F34,
    0x4135, 0x4235, 0x4335, 0x4435, 0x4535, 0x4635, 0x4735, 0x4835,
    0x4935, 0x4A35, 0x4B35, 0x4C35, 0x4D35, 0x4E35, 0x4F35, 0x5035,
    0x5135, 0x5235, 0x5335, 0x5435, 0x5535, 0x5635, 0x5735, 0x5835,
    0x5935, 0x5A35, 0x6135, 0x6235, 0x6335, 0x6435, 0x6535, 0x6635,
    0x6735, 0x6835, 0x6935, 0x6A35, 0x6B35, 0x6C35, 0x6D35, 0x6E35,
    0x6F35, 0x7035, 0x7135, 0x7235, 0x7335, 0x7435, 0x7535, 0x7635,
    0x7735, 0x7835, 0x7935, 0x7A35, 0x3035, 0x3135, 0x3235, 0x3335,
    0x3435, 0x3535, 0x3635, 0x3735, 0x3835, 0x3935, 0x2B35, 0x2F35,
    0x4136, 0x4236, 0x4336, 0x4436, 0x4536, 0x4636, 0x4736, 0x4836,
    0x4936, 0x4A36, 0x4B36, 0x4C36, 0x4D36, 0x4E36, 0x4F36, 0x5036,
    0x5136, 0x5236, 0x5336, 0x5436, 0x5536, 0x5636, 0x5736, 0x5836,
    0x5936, 0x5A36, 0x6136, 0x6236, 0x6336, 0x6436, 0x6536, 0x6636,
    0x6736, 0x6836, 0x6936, 0x6A36, 0x6B36, 0x6C36, 0x6D36, 0x6E36,
    0x6F36, 0x7036, 0x7136, 0x7236, 0x7336, 0x7436, 0x7536, 0x7636,
    0x7736, 0x7836, 0x7936, 0x7A36, 0x3036, 0x3136, 0x3236, 0x3336,
    0x3436, 0x3536, 0x3636, 0x3736, 0x3836, 0x3936, 0x2B36, 0x2F36,
    0x4137, 0x4237, 0x4337, 0x4437, 0x4537, 0x4637, 0x4737, 0x4837,
    0x4937, 0x4A37, 0x4B37, 0x4C37, 0x4D37, 0x4E37, 0x4F37, 0x5037,
    0x5137, 0x5237, 0x5337, 0x5437, 0x5537, 0x5637, 0x5737, 0x5837,
    0x5937, 0x5A37, 0x6137, 0x6237, 0x6337, 0x6437, 0x6537, 0x6637,
    0x6737, 0x6837, 0x6937, 0x6A37, 0x6B37, 0x6C37, 0x6D37, 0x6E37,
    0x6F37, 0x7037, 0x7137, 0x7237, 0x7337, 0x7437, 0x7537, 0x7637,
    0x7737, 0x7837, 0x7937, 0x7A37, 0x3037, 0x3137, 0x3237, 0x3337,
    0x3437, 0x3537, 0x3637, 0x3737, 0x3837, 0x3937, 0x2B37, 0x2F37,
    0x4138, 0x4238, 0x4338, 0x4438, 0x4538, 0x4638, 0x4738, 0x4838,
    0x4938, 0x4A38, 0x4B38, 0x4C38, 0x4D38, 0x4E38, 0x4F38, 0x5038,
    0x5138, 0x5238, 0x5338, 0x5438, 0x5538, 0x5638, 0x5738, 0x5838,
    0x5938, 0x5A38, 0x6138, 0x6238, 0x6338, 0x6438, 0x6538, 0x6638,
    0x6738, 0x6838, 0x6938, 0x6A38, 0x6B38, 0x6C38, 0x6D38, 0x6E38,
    0x6F38, 0x7038, 0x7138, 0x7238, 0x7338, 0x7438, 0x7538, 0x7638,
    0x7738, 0x7838, 0x7938, 0x7A38, 0x3038, 0x3138, 0x3238, 0x3338,
    0x3438, 0x3538, 0x3638, 0x3738, 0x3838, 0x3938, 0x2B38, 0x2F38,
    0x4139, 0x4239, 0x4339, 0x4439, 0x4539, 0x4639, 0x4739, 0x4839,
    0x4939, 0x4A39, 0x4B39, 0x4C39, 0x4D39, 0x4E39, 0x4F39, 0x5039,
    0x5139, 0x5239, 0x5339, 0x5439, 0x5539, 0x5639, 0x5739, 0x5839,
    0x5939, 0x5A39, 0x6139, 0x6239, 0x6339, 0x6439, 0x6539, 0x6639,
    0x6739, 0x6839, 0x6939, 0x6A39, 0x6B39, 0x6C39, 0x6D39, 0x6E39,
    0x6F39, 0x7039, 0x7139, 0x7239, 0x7339, 0x7439, 0x7539, 0x7639,
    0x7739, 0x7839, 0x7939, 0x7A39, 0x3039, 0x3139, 0x3239, 0x3339,
    0x3439, 0x3539, 0x3639, 0x3739, 0x3839, 0x3939, 0x2B39, 0x2F39,
    0x412B, 0x422B, 0x432B, 0x442B, 0x452B, 0x462B, 0x472B, 0x482B,
    0x492B, 0x4A2B, 0x4B2B, 0x4C2B, 0x4D2B, 0x4E2B, 0x4F2B, 0x502B,
    0x512B, 0x522B, 0x532B, 0x542B, 0x552B, 0x562B, 0x572B, 0x582B,
    0x592B, 0x5A2B, 0x612B, 0x622B, 0x632B, 0x642B, 0x652B, 0x662B,
    0x672B, 0x682B, 0x692B, 0x6A2B, 0x6B2B, 0x6C2B, 0x6D2B, 0x6E2B,
    0x6F2B, 0x702B, 0x712B, 0x722B, 0x732B, 0x742B, 0x752B, 0x762B,
    0x772B, 0x782B, 0x792B, 0x7A2B, 0x302B, 0x312B, 0x322B, 0x332B,
    0x342B, 0x352B, 0x362B, 0x372B, 0x382B, 0x392B, 0x2B2B, 0x2F2B,
    0x412F, 0x422F, 0x432F, 0x442F, 0x452F, 0x462F, 0x472F, 0x482F,
    0x492F, 0x4A2F, 0x4B2F, 0x4C2F, 0x4D2F, 0x4E2F, 0x4F2F, 0x502F,
    0x512F, 0x522F, 0x532F, 0x542F, 0x552F, 0x562F, 0x572F, 0x582F,
    0x592F, 0x5A2F, 0x612F, 0x622F, 0x632F, 0x642F, 0x652F, 0x662F,
    0x672F, 0x682F, 0x692F, 0x6A2F, 0x6B2F, 0x6C2F, 0x6D2F, 0x6E2F,
    0x6F2F, 0x702F, 0x712F, 0x722F, 0x732F, 0x742F, 0x752F, 0x762F,
    0x772F, 0x782F, 0x792F, 0x7A2F, 0x302F, 0x312F, 0x322F, 0x332F,
    0x342F, 0x352F, 0x362F, 0x372F, 0x382F, 0x392F, 0x2B2F, 0x2F2F]"

definition base64_table_enc_12bit_be0 :: "16 word list" where
  "base64_table_enc_12bit_be0 = [
    0x4141, 0x4142, 0x4143, 0x4144, 0x4145, 0x4146, 0x4147, 0x4148,
    0x4149, 0x414A, 0x414B, 0x414C, 0x414D, 0x414E, 0x414F, 0x4150,
    0x4151, 0x4152, 0x4153, 0x4154, 0x4155, 0x4156, 0x4157, 0x4158,
    0x4159, 0x415A, 0x4161, 0x4162, 0x4163, 0x4164, 0x4165, 0x4166,
    0x4167, 0x4168, 0x4169, 0x416A, 0x416B, 0x416C, 0x416D, 0x416E,
    0x416F, 0x4170, 0x4171, 0x4172, 0x4173, 0x4174, 0x4175, 0x4176,
    0x4177, 0x4178, 0x4179, 0x417A, 0x4130, 0x4131, 0x4132, 0x4133,
    0x4134, 0x4135, 0x4136, 0x4137, 0x4138, 0x4139, 0x412B, 0x412F,
    0x4241, 0x4242, 0x4243, 0x4244, 0x4245, 0x4246, 0x4247, 0x4248,
    0x4249, 0x424A, 0x424B, 0x424C, 0x424D, 0x424E, 0x424F, 0x4250,
    0x4251, 0x4252, 0x4253, 0x4254, 0x4255, 0x4256, 0x4257, 0x4258,
    0x4259, 0x425A, 0x4261, 0x4262, 0x4263, 0x4264, 0x4265, 0x4266,
    0x4267, 0x4268, 0x4269, 0x426A, 0x426B, 0x426C, 0x426D, 0x426E,
    0x426F, 0x4270, 0x4271, 0x4272, 0x4273, 0x4274, 0x4275, 0x4276,
    0x4277, 0x4278, 0x4279, 0x427A, 0x4230, 0x4231, 0x4232, 0x4233,
    0x4234, 0x4235, 0x4236, 0x4237, 0x4238, 0x4239, 0x422B, 0x422F,
    0x4341, 0x4342, 0x4343, 0x4344, 0x4345, 0x4346, 0x4347, 0x4348,
    0x4349, 0x434A, 0x434B, 0x434C, 0x434D, 0x434E, 0x434F, 0x4350,
    0x4351, 0x4352, 0x4353, 0x4354, 0x4355, 0x4356, 0x4357, 0x4358,
    0x4359, 0x435A, 0x4361, 0x4362, 0x4363, 0x4364, 0x4365, 0x4366,
    0x4367, 0x4368, 0x4369, 0x436A, 0x436B, 0x436C, 0x436D, 0x436E,
    0x436F, 0x4370, 0x4371, 0x4372, 0x4373, 0x4374, 0x4375, 0x4376,
    0x4377, 0x4378, 0x4379, 0x437A, 0x4330, 0x4331, 0x4332, 0x4333,
    0x4334, 0x4335, 0x4336, 0x4337, 0x4338, 0x4339, 0x432B, 0x432F,
    0x4441, 0x4442, 0x4443, 0x4444, 0x4445, 0x4446, 0x4447, 0x4448,
    0x4449, 0x444A, 0x444B, 0x444C, 0x444D, 0x444E, 0x444F, 0x4450,
    0x4451, 0x4452, 0x4453, 0x4454, 0x4455, 0x4456, 0x4457, 0x4458,
    0x4459, 0x445A, 0x4461, 0x4462, 0x4463, 0x4464, 0x4465, 0x4466,
    0x4467, 0x4468, 0x4469, 0x446A, 0x446B, 0x446C, 0x446D, 0x446E,
    0x446F, 0x4470, 0x4471, 0x4472, 0x4473, 0x4474, 0x4475, 0x4476,
    0x4477, 0x4478, 0x4479, 0x447A, 0x4430, 0x4431, 0x4432, 0x4433,
    0x4434, 0x4435, 0x4436, 0x4437, 0x4438, 0x4439, 0x442B, 0x442F,
    0x4541, 0x4542, 0x4543, 0x4544, 0x4545, 0x4546, 0x4547, 0x4548,
    0x4549, 0x454A, 0x454B, 0x454C, 0x454D, 0x454E, 0x454F, 0x4550,
    0x4551, 0x4552, 0x4553, 0x4554, 0x4555, 0x4556, 0x4557, 0x4558,
    0x4559, 0x455A, 0x4561, 0x4562, 0x4563, 0x4564, 0x4565, 0x4566,
    0x4567, 0x4568, 0x4569, 0x456A, 0x456B, 0x456C, 0x456D, 0x456E,
    0x456F, 0x4570, 0x4571, 0x4572, 0x4573, 0x4574, 0x4575, 0x4576,
    0x4577, 0x4578, 0x4579, 0x457A, 0x4530, 0x4531, 0x4532, 0x4533,
    0x4534, 0x4535, 0x4536, 0x4537, 0x4538, 0x4539, 0x452B, 0x452F,
    0x4641, 0x4642, 0x4643, 0x4644, 0x4645, 0x4646, 0x4647, 0x4648,
    0x4649, 0x464A, 0x464B, 0x464C, 0x464D, 0x464E, 0x464F, 0x4650,
    0x4651, 0x4652, 0x4653, 0x4654, 0x4655, 0x4656, 0x4657, 0x4658,
    0x4659, 0x465A, 0x4661, 0x4662, 0x4663, 0x4664, 0x4665, 0x4666,
    0x4667, 0x4668, 0x4669, 0x466A, 0x466B, 0x466C, 0x466D, 0x466E,
    0x466F, 0x4670, 0x4671, 0x4672, 0x4673, 0x4674, 0x4675, 0x4676,
    0x4677, 0x4678, 0x4679, 0x467A, 0x4630, 0x4631, 0x4632, 0x4633,
    0x4634, 0x4635, 0x4636, 0x4637, 0x4638, 0x4639, 0x462B, 0x462F,
    0x4741, 0x4742, 0x4743, 0x4744, 0x4745, 0x4746, 0x4747, 0x4748,
    0x4749, 0x474A, 0x474B, 0x474C, 0x474D, 0x474E, 0x474F, 0x4750,
    0x4751, 0x4752, 0x4753, 0x4754, 0x4755, 0x4756, 0x4757, 0x4758,
    0x4759, 0x475A, 0x4761, 0x4762, 0x4763, 0x4764, 0x4765, 0x4766,
    0x4767, 0x4768, 0x4769, 0x476A, 0x476B, 0x476C, 0x476D, 0x476E,
    0x476F, 0x4770, 0x4771, 0x4772, 0x4773, 0x4774, 0x4775, 0x4776,
    0x4777, 0x4778, 0x4779, 0x477A, 0x4730, 0x4731, 0x4732, 0x4733,
    0x4734, 0x4735, 0x4736, 0x4737, 0x4738, 0x4739, 0x472B, 0x472F,
    0x4841, 0x4842, 0x4843, 0x4844, 0x4845, 0x4846, 0x4847, 0x4848,
    0x4849, 0x484A, 0x484B, 0x484C, 0x484D, 0x484E, 0x484F, 0x4850,
    0x4851, 0x4852, 0x4853, 0x4854, 0x4855, 0x4856, 0x4857, 0x4858,
    0x4859, 0x485A, 0x4861, 0x4862, 0x4863, 0x4864, 0x4865, 0x4866,
    0x4867, 0x4868, 0x4869, 0x486A, 0x486B, 0x486C, 0x486D, 0x486E,
    0x486F, 0x4870, 0x4871, 0x4872, 0x4873, 0x4874, 0x4875, 0x4876,
    0x4877, 0x4878, 0x4879, 0x487A, 0x4830, 0x4831, 0x4832, 0x4833,
    0x4834, 0x4835, 0x4836, 0x4837, 0x4838, 0x4839, 0x482B, 0x482F,
    0x4941, 0x4942, 0x4943, 0x4944, 0x4945, 0x4946, 0x4947, 0x4948,
    0x4949, 0x494A, 0x494B, 0x494C, 0x494D, 0x494E, 0x494F, 0x4950,
    0x4951, 0x4952, 0x4953, 0x4954, 0x4955, 0x4956, 0x4957, 0x4958,
    0x4959, 0x495A, 0x4961, 0x4962, 0x4963, 0x4964, 0x4965, 0x4966,
    0x4967, 0x4968, 0x4969, 0x496A, 0x496B, 0x496C, 0x496D, 0x496E,
    0x496F, 0x4970, 0x4971, 0x4972, 0x4973, 0x4974, 0x4975, 0x4976,
    0x4977, 0x4978, 0x4979, 0x497A, 0x4930, 0x4931, 0x4932, 0x4933,
    0x4934, 0x4935, 0x4936, 0x4937, 0x4938, 0x4939, 0x492B, 0x492F,
    0x4A41, 0x4A42, 0x4A43, 0x4A44, 0x4A45, 0x4A46, 0x4A47, 0x4A48,
    0x4A49, 0x4A4A, 0x4A4B, 0x4A4C, 0x4A4D, 0x4A4E, 0x4A4F, 0x4A50,
    0x4A51, 0x4A52, 0x4A53, 0x4A54, 0x4A55, 0x4A56, 0x4A57, 0x4A58,
    0x4A59, 0x4A5A, 0x4A61, 0x4A62, 0x4A63, 0x4A64, 0x4A65, 0x4A66,
    0x4A67, 0x4A68, 0x4A69, 0x4A6A, 0x4A6B, 0x4A6C, 0x4A6D, 0x4A6E,
    0x4A6F, 0x4A70, 0x4A71, 0x4A72, 0x4A73, 0x4A74, 0x4A75, 0x4A76,
    0x4A77, 0x4A78, 0x4A79, 0x4A7A, 0x4A30, 0x4A31, 0x4A32, 0x4A33,
    0x4A34, 0x4A35, 0x4A36, 0x4A37, 0x4A38, 0x4A39, 0x4A2B, 0x4A2F,
    0x4B41, 0x4B42, 0x4B43, 0x4B44, 0x4B45, 0x4B46, 0x4B47, 0x4B48,
    0x4B49, 0x4B4A, 0x4B4B, 0x4B4C, 0x4B4D, 0x4B4E, 0x4B4F, 0x4B50,
    0x4B51, 0x4B52, 0x4B53, 0x4B54, 0x4B55, 0x4B56, 0x4B57, 0x4B58,
    0x4B59, 0x4B5A, 0x4B61, 0x4B62, 0x4B63, 0x4B64, 0x4B65, 0x4B66,
    0x4B67, 0x4B68, 0x4B69, 0x4B6A, 0x4B6B, 0x4B6C, 0x4B6D, 0x4B6E,
    0x4B6F, 0x4B70, 0x4B71, 0x4B72, 0x4B73, 0x4B74, 0x4B75, 0x4B76,
    0x4B77, 0x4B78, 0x4B79, 0x4B7A, 0x4B30, 0x4B31, 0x4B32, 0x4B33,
    0x4B34, 0x4B35, 0x4B36, 0x4B37, 0x4B38, 0x4B39, 0x4B2B, 0x4B2F,
    0x4C41, 0x4C42, 0x4C43, 0x4C44, 0x4C45, 0x4C46, 0x4C47, 0x4C48,
    0x4C49, 0x4C4A, 0x4C4B, 0x4C4C, 0x4C4D, 0x4C4E, 0x4C4F, 0x4C50,
    0x4C51, 0x4C52, 0x4C53, 0x4C54, 0x4C55, 0x4C56, 0x4C57, 0x4C58,
    0x4C59, 0x4C5A, 0x4C61, 0x4C62, 0x4C63, 0x4C64, 0x4C65, 0x4C66,
    0x4C67, 0x4C68, 0x4C69, 0x4C6A, 0x4C6B, 0x4C6C, 0x4C6D, 0x4C6E,
    0x4C6F, 0x4C70, 0x4C71, 0x4C72, 0x4C73, 0x4C74, 0x4C75, 0x4C76,
    0x4C77, 0x4C78, 0x4C79, 0x4C7A, 0x4C30, 0x4C31, 0x4C32, 0x4C33,
    0x4C34, 0x4C35, 0x4C36, 0x4C37, 0x4C38, 0x4C39, 0x4C2B, 0x4C2F,
    0x4D41, 0x4D42, 0x4D43, 0x4D44, 0x4D45, 0x4D46, 0x4D47, 0x4D48,
    0x4D49, 0x4D4A, 0x4D4B, 0x4D4C, 0x4D4D, 0x4D4E, 0x4D4F, 0x4D50,
    0x4D51, 0x4D52, 0x4D53, 0x4D54, 0x4D55, 0x4D56, 0x4D57, 0x4D58,
    0x4D59, 0x4D5A, 0x4D61, 0x4D62, 0x4D63, 0x4D64, 0x4D65, 0x4D66,
    0x4D67, 0x4D68, 0x4D69, 0x4D6A, 0x4D6B, 0x4D6C, 0x4D6D, 0x4D6E,
    0x4D6F, 0x4D70, 0x4D71, 0x4D72, 0x4D73, 0x4D74, 0x4D75, 0x4D76,
    0x4D77, 0x4D78, 0x4D79, 0x4D7A, 0x4D30, 0x4D31, 0x4D32, 0x4D33,
    0x4D34, 0x4D35, 0x4D36, 0x4D37, 0x4D38, 0x4D39, 0x4D2B, 0x4D2F,
    0x4E41, 0x4E42, 0x4E43, 0x4E44, 0x4E45, 0x4E46, 0x4E47, 0x4E48,
    0x4E49, 0x4E4A, 0x4E4B, 0x4E4C, 0x4E4D, 0x4E4E, 0x4E4F, 0x4E50,
    0x4E51, 0x4E52, 0x4E53, 0x4E54, 0x4E55, 0x4E56, 0x4E57, 0x4E58,
    0x4E59, 0x4E5A, 0x4E61, 0x4E62, 0x4E63, 0x4E64, 0x4E65, 0x4E66,
    0x4E67, 0x4E68, 0x4E69, 0x4E6A, 0x4E6B, 0x4E6C, 0x4E6D, 0x4E6E,
    0x4E6F, 0x4E70, 0x4E71, 0x4E72, 0x4E73, 0x4E74, 0x4E75, 0x4E76,
    0x4E77, 0x4E78, 0x4E79, 0x4E7A, 0x4E30, 0x4E31, 0x4E32, 0x4E33,
    0x4E34, 0x4E35, 0x4E36, 0x4E37, 0x4E38, 0x4E39, 0x4E2B, 0x4E2F,
    0x4F41, 0x4F42, 0x4F43, 0x4F44, 0x4F45, 0x4F46, 0x4F47, 0x4F48,
    0x4F49, 0x4F4A, 0x4F4B, 0x4F4C, 0x4F4D, 0x4F4E, 0x4F4F, 0x4F50,
    0x4F51, 0x4F52, 0x4F53, 0x4F54, 0x4F55, 0x4F56, 0x4F57, 0x4F58,
    0x4F59, 0x4F5A, 0x4F61, 0x4F62, 0x4F63, 0x4F64, 0x4F65, 0x4F66,
    0x4F67, 0x4F68, 0x4F69, 0x4F6A, 0x4F6B, 0x4F6C, 0x4F6D, 0x4F6E,
    0x4F6F, 0x4F70, 0x4F71, 0x4F72, 0x4F73, 0x4F74, 0x4F75, 0x4F76,
    0x4F77, 0x4F78, 0x4F79, 0x4F7A, 0x4F30, 0x4F31, 0x4F32, 0x4F33,
    0x4F34, 0x4F35, 0x4F36, 0x4F37, 0x4F38, 0x4F39, 0x4F2B, 0x4F2F,
    0x5041, 0x5042, 0x5043, 0x5044, 0x5045, 0x5046, 0x5047, 0x5048,
    0x5049, 0x504A, 0x504B, 0x504C, 0x504D, 0x504E, 0x504F, 0x5050,
    0x5051, 0x5052, 0x5053, 0x5054, 0x5055, 0x5056, 0x5057, 0x5058,
    0x5059, 0x505A, 0x5061, 0x5062, 0x5063, 0x5064, 0x5065, 0x5066,
    0x5067, 0x5068, 0x5069, 0x506A, 0x506B, 0x506C, 0x506D, 0x506E,
    0x506F, 0x5070, 0x5071, 0x5072, 0x5073, 0x5074, 0x5075, 0x5076,
    0x5077, 0x5078, 0x5079, 0x507A, 0x5030, 0x5031, 0x5032, 0x5033,
    0x5034, 0x5035, 0x5036, 0x5037, 0x5038, 0x5039, 0x502B, 0x502F]"

definition base64_table_enc_12bit_be1 :: "16 word list" where
  "base64_table_enc_12bit_be1 = [
    0x5141, 0x5142, 0x5143, 0x5144, 0x5145, 0x5146, 0x5147, 0x5148,
    0x5149, 0x514A, 0x514B, 0x514C, 0x514D, 0x514E, 0x514F, 0x5150,
    0x5151, 0x5152, 0x5153, 0x5154, 0x5155, 0x5156, 0x5157, 0x5158,
    0x5159, 0x515A, 0x5161, 0x5162, 0x5163, 0x5164, 0x5165, 0x5166,
    0x5167, 0x5168, 0x5169, 0x516A, 0x516B, 0x516C, 0x516D, 0x516E,
    0x516F, 0x5170, 0x5171, 0x5172, 0x5173, 0x5174, 0x5175, 0x5176,
    0x5177, 0x5178, 0x5179, 0x517A, 0x5130, 0x5131, 0x5132, 0x5133,
    0x5134, 0x5135, 0x5136, 0x5137, 0x5138, 0x5139, 0x512B, 0x512F,
    0x5241, 0x5242, 0x5243, 0x5244, 0x5245, 0x5246, 0x5247, 0x5248,
    0x5249, 0x524A, 0x524B, 0x524C, 0x524D, 0x524E, 0x524F, 0x5250,
    0x5251, 0x5252, 0x5253, 0x5254, 0x5255, 0x5256, 0x5257, 0x5258,
    0x5259, 0x525A, 0x5261, 0x5262, 0x5263, 0x5264, 0x5265, 0x5266,
    0x5267, 0x5268, 0x5269, 0x526A, 0x526B, 0x526C, 0x526D, 0x526E,
    0x526F, 0x5270, 0x5271, 0x5272, 0x5273, 0x5274, 0x5275, 0x5276,
    0x5277, 0x5278, 0x5279, 0x527A, 0x5230, 0x5231, 0x5232, 0x5233,
    0x5234, 0x5235, 0x5236, 0x5237, 0x5238, 0x5239, 0x522B, 0x522F,
    0x5341, 0x5342, 0x5343, 0x5344, 0x5345, 0x5346, 0x5347, 0x5348,
    0x5349, 0x534A, 0x534B, 0x534C, 0x534D, 0x534E, 0x534F, 0x5350,
    0x5351, 0x5352, 0x5353, 0x5354, 0x5355, 0x5356, 0x5357, 0x5358,
    0x5359, 0x535A, 0x5361, 0x5362, 0x5363, 0x5364, 0x5365, 0x5366,
    0x5367, 0x5368, 0x5369, 0x536A, 0x536B, 0x536C, 0x536D, 0x536E,
    0x536F, 0x5370, 0x5371, 0x5372, 0x5373, 0x5374, 0x5375, 0x5376,
    0x5377, 0x5378, 0x5379, 0x537A, 0x5330, 0x5331, 0x5332, 0x5333,
    0x5334, 0x5335, 0x5336, 0x5337, 0x5338, 0x5339, 0x532B, 0x532F,
    0x5441, 0x5442, 0x5443, 0x5444, 0x5445, 0x5446, 0x5447, 0x5448,
    0x5449, 0x544A, 0x544B, 0x544C, 0x544D, 0x544E, 0x544F, 0x5450,
    0x5451, 0x5452, 0x5453, 0x5454, 0x5455, 0x5456, 0x5457, 0x5458,
    0x5459, 0x545A, 0x5461, 0x5462, 0x5463, 0x5464, 0x5465, 0x5466,
    0x5467, 0x5468, 0x5469, 0x546A, 0x546B, 0x546C, 0x546D, 0x546E,
    0x546F, 0x5470, 0x5471, 0x5472, 0x5473, 0x5474, 0x5475, 0x5476,
    0x5477, 0x5478, 0x5479, 0x547A, 0x5430, 0x5431, 0x5432, 0x5433,
    0x5434, 0x5435, 0x5436, 0x5437, 0x5438, 0x5439, 0x542B, 0x542F,
    0x5541, 0x5542, 0x5543, 0x5544, 0x5545, 0x5546, 0x5547, 0x5548,
    0x5549, 0x554A, 0x554B, 0x554C, 0x554D, 0x554E, 0x554F, 0x5550,
    0x5551, 0x5552, 0x5553, 0x5554, 0x5555, 0x5556, 0x5557, 0x5558,
    0x5559, 0x555A, 0x5561, 0x5562, 0x5563, 0x5564, 0x5565, 0x5566,
    0x5567, 0x5568, 0x5569, 0x556A, 0x556B, 0x556C, 0x556D, 0x556E,
    0x556F, 0x5570, 0x5571, 0x5572, 0x5573, 0x5574, 0x5575, 0x5576,
    0x5577, 0x5578, 0x5579, 0x557A, 0x5530, 0x5531, 0x5532, 0x5533,
    0x5534, 0x5535, 0x5536, 0x5537, 0x5538, 0x5539, 0x552B, 0x552F,
    0x5641, 0x5642, 0x5643, 0x5644, 0x5645, 0x5646, 0x5647, 0x5648,
    0x5649, 0x564A, 0x564B, 0x564C, 0x564D, 0x564E, 0x564F, 0x5650,
    0x5651, 0x5652, 0x5653, 0x5654, 0x5655, 0x5656, 0x5657, 0x5658,
    0x5659, 0x565A, 0x5661, 0x5662, 0x5663, 0x5664, 0x5665, 0x5666,
    0x5667, 0x5668, 0x5669, 0x566A, 0x566B, 0x566C, 0x566D, 0x566E,
    0x566F, 0x5670, 0x5671, 0x5672, 0x5673, 0x5674, 0x5675, 0x5676,
    0x5677, 0x5678, 0x5679, 0x567A, 0x5630, 0x5631, 0x5632, 0x5633,
    0x5634, 0x5635, 0x5636, 0x5637, 0x5638, 0x5639, 0x562B, 0x562F,
    0x5741, 0x5742, 0x5743, 0x5744, 0x5745, 0x5746, 0x5747, 0x5748,
    0x5749, 0x574A, 0x574B, 0x574C, 0x574D, 0x574E, 0x574F, 0x5750,
    0x5751, 0x5752, 0x5753, 0x5754, 0x5755, 0x5756, 0x5757, 0x5758,
    0x5759, 0x575A, 0x5761, 0x5762, 0x5763, 0x5764, 0x5765, 0x5766,
    0x5767, 0x5768, 0x5769, 0x576A, 0x576B, 0x576C, 0x576D, 0x576E,
    0x576F, 0x5770, 0x5771, 0x5772, 0x5773, 0x5774, 0x5775, 0x5776,
    0x5777, 0x5778, 0x5779, 0x577A, 0x5730, 0x5731, 0x5732, 0x5733,
    0x5734, 0x5735, 0x5736, 0x5737, 0x5738, 0x5739, 0x572B, 0x572F,
    0x5841, 0x5842, 0x5843, 0x5844, 0x5845, 0x5846, 0x5847, 0x5848,
    0x5849, 0x584A, 0x584B, 0x584C, 0x584D, 0x584E, 0x584F, 0x5850,
    0x5851, 0x5852, 0x5853, 0x5854, 0x5855, 0x5856, 0x5857, 0x5858,
    0x5859, 0x585A, 0x5861, 0x5862, 0x5863, 0x5864, 0x5865, 0x5866,
    0x5867, 0x5868, 0x5869, 0x586A, 0x586B, 0x586C, 0x586D, 0x586E,
    0x586F, 0x5870, 0x5871, 0x5872, 0x5873, 0x5874, 0x5875, 0x5876,
    0x5877, 0x5878, 0x5879, 0x587A, 0x5830, 0x5831, 0x5832, 0x5833,
    0x5834, 0x5835, 0x5836, 0x5837, 0x5838, 0x5839, 0x582B, 0x582F,
    0x5941, 0x5942, 0x5943, 0x5944, 0x5945, 0x5946, 0x5947, 0x5948,
    0x5949, 0x594A, 0x594B, 0x594C, 0x594D, 0x594E, 0x594F, 0x5950,
    0x5951, 0x5952, 0x5953, 0x5954, 0x5955, 0x5956, 0x5957, 0x5958,
    0x5959, 0x595A, 0x5961, 0x5962, 0x5963, 0x5964, 0x5965, 0x5966,
    0x5967, 0x5968, 0x5969, 0x596A, 0x596B, 0x596C, 0x596D, 0x596E,
    0x596F, 0x5970, 0x5971, 0x5972, 0x5973, 0x5974, 0x5975, 0x5976,
    0x5977, 0x5978, 0x5979, 0x597A, 0x5930, 0x5931, 0x5932, 0x5933,
    0x5934, 0x5935, 0x5936, 0x5937, 0x5938, 0x5939, 0x592B, 0x592F,
    0x5A41, 0x5A42, 0x5A43, 0x5A44, 0x5A45, 0x5A46, 0x5A47, 0x5A48,
    0x5A49, 0x5A4A, 0x5A4B, 0x5A4C, 0x5A4D, 0x5A4E, 0x5A4F, 0x5A50,
    0x5A51, 0x5A52, 0x5A53, 0x5A54, 0x5A55, 0x5A56, 0x5A57, 0x5A58,
    0x5A59, 0x5A5A, 0x5A61, 0x5A62, 0x5A63, 0x5A64, 0x5A65, 0x5A66,
    0x5A67, 0x5A68, 0x5A69, 0x5A6A, 0x5A6B, 0x5A6C, 0x5A6D, 0x5A6E,
    0x5A6F, 0x5A70, 0x5A71, 0x5A72, 0x5A73, 0x5A74, 0x5A75, 0x5A76,
    0x5A77, 0x5A78, 0x5A79, 0x5A7A, 0x5A30, 0x5A31, 0x5A32, 0x5A33,
    0x5A34, 0x5A35, 0x5A36, 0x5A37, 0x5A38, 0x5A39, 0x5A2B, 0x5A2F,
    0x6141, 0x6142, 0x6143, 0x6144, 0x6145, 0x6146, 0x6147, 0x6148,
    0x6149, 0x614A, 0x614B, 0x614C, 0x614D, 0x614E, 0x614F, 0x6150,
    0x6151, 0x6152, 0x6153, 0x6154, 0x6155, 0x6156, 0x6157, 0x6158,
    0x6159, 0x615A, 0x6161, 0x6162, 0x6163, 0x6164, 0x6165, 0x6166,
    0x6167, 0x6168, 0x6169, 0x616A, 0x616B, 0x616C, 0x616D, 0x616E,
    0x616F, 0x6170, 0x6171, 0x6172, 0x6173, 0x6174, 0x6175, 0x6176,
    0x6177, 0x6178, 0x6179, 0x617A, 0x6130, 0x6131, 0x6132, 0x6133,
    0x6134, 0x6135, 0x6136, 0x6137, 0x6138, 0x6139, 0x612B, 0x612F,
    0x6241, 0x6242, 0x6243, 0x6244, 0x6245, 0x6246, 0x6247, 0x6248,
    0x6249, 0x624A, 0x624B, 0x624C, 0x624D, 0x624E, 0x624F, 0x6250,
    0x6251, 0x6252, 0x6253, 0x6254, 0x6255, 0x6256, 0x6257, 0x6258,
    0x6259, 0x625A, 0x6261, 0x6262, 0x6263, 0x6264, 0x6265, 0x6266,
    0x6267, 0x6268, 0x6269, 0x626A, 0x626B, 0x626C, 0x626D, 0x626E,
    0x626F, 0x6270, 0x6271, 0x6272, 0x6273, 0x6274, 0x6275, 0x6276,
    0x6277, 0x6278, 0x6279, 0x627A, 0x6230, 0x6231, 0x6232, 0x6233,
    0x6234, 0x6235, 0x6236, 0x6237, 0x6238, 0x6239, 0x622B, 0x622F,
    0x6341, 0x6342, 0x6343, 0x6344, 0x6345, 0x6346, 0x6347, 0x6348,
    0x6349, 0x634A, 0x634B, 0x634C, 0x634D, 0x634E, 0x634F, 0x6350,
    0x6351, 0x6352, 0x6353, 0x6354, 0x6355, 0x6356, 0x6357, 0x6358,
    0x6359, 0x635A, 0x6361, 0x6362, 0x6363, 0x6364, 0x6365, 0x6366,
    0x6367, 0x6368, 0x6369, 0x636A, 0x636B, 0x636C, 0x636D, 0x636E,
    0x636F, 0x6370, 0x6371, 0x6372, 0x6373, 0x6374, 0x6375, 0x6376,
    0x6377, 0x6378, 0x6379, 0x637A, 0x6330, 0x6331, 0x6332, 0x6333,
    0x6334, 0x6335, 0x6336, 0x6337, 0x6338, 0x6339, 0x632B, 0x632F,
    0x6441, 0x6442, 0x6443, 0x6444, 0x6445, 0x6446, 0x6447, 0x6448,
    0x6449, 0x644A, 0x644B, 0x644C, 0x644D, 0x644E, 0x644F, 0x6450,
    0x6451, 0x6452, 0x6453, 0x6454, 0x6455, 0x6456, 0x6457, 0x6458,
    0x6459, 0x645A, 0x6461, 0x6462, 0x6463, 0x6464, 0x6465, 0x6466,
    0x6467, 0x6468, 0x6469, 0x646A, 0x646B, 0x646C, 0x646D, 0x646E,
    0x646F, 0x6470, 0x6471, 0x6472, 0x6473, 0x6474, 0x6475, 0x6476,
    0x6477, 0x6478, 0x6479, 0x647A, 0x6430, 0x6431, 0x6432, 0x6433,
    0x6434, 0x6435, 0x6436, 0x6437, 0x6438, 0x6439, 0x642B, 0x642F,
    0x6541, 0x6542, 0x6543, 0x6544, 0x6545, 0x6546, 0x6547, 0x6548,
    0x6549, 0x654A, 0x654B, 0x654C, 0x654D, 0x654E, 0x654F, 0x6550,
    0x6551, 0x6552, 0x6553, 0x6554, 0x6555, 0x6556, 0x6557, 0x6558,
    0x6559, 0x655A, 0x6561, 0x6562, 0x6563, 0x6564, 0x6565, 0x6566,
    0x6567, 0x6568, 0x6569, 0x656A, 0x656B, 0x656C, 0x656D, 0x656E,
    0x656F, 0x6570, 0x6571, 0x6572, 0x6573, 0x6574, 0x6575, 0x6576,
    0x6577, 0x6578, 0x6579, 0x657A, 0x6530, 0x6531, 0x6532, 0x6533,
    0x6534, 0x6535, 0x6536, 0x6537, 0x6538, 0x6539, 0x652B, 0x652F,
    0x6641, 0x6642, 0x6643, 0x6644, 0x6645, 0x6646, 0x6647, 0x6648,
    0x6649, 0x664A, 0x664B, 0x664C, 0x664D, 0x664E, 0x664F, 0x6650,
    0x6651, 0x6652, 0x6653, 0x6654, 0x6655, 0x6656, 0x6657, 0x6658,
    0x6659, 0x665A, 0x6661, 0x6662, 0x6663, 0x6664, 0x6665, 0x6666,
    0x6667, 0x6668, 0x6669, 0x666A, 0x666B, 0x666C, 0x666D, 0x666E,
    0x666F, 0x6670, 0x6671, 0x6672, 0x6673, 0x6674, 0x6675, 0x6676,
    0x6677, 0x6678, 0x6679, 0x667A, 0x6630, 0x6631, 0x6632, 0x6633,
    0x6634, 0x6635, 0x6636, 0x6637, 0x6638, 0x6639, 0x662B, 0x662F]"

definition base64_table_enc_12bit_be2 :: "16 word list" where
  "base64_table_enc_12bit_be2 = [
    0x6741, 0x6742, 0x6743, 0x6744, 0x6745, 0x6746, 0x6747, 0x6748,
    0x6749, 0x674A, 0x674B, 0x674C, 0x674D, 0x674E, 0x674F, 0x6750,
    0x6751, 0x6752, 0x6753, 0x6754, 0x6755, 0x6756, 0x6757, 0x6758,
    0x6759, 0x675A, 0x6761, 0x6762, 0x6763, 0x6764, 0x6765, 0x6766,
    0x6767, 0x6768, 0x6769, 0x676A, 0x676B, 0x676C, 0x676D, 0x676E,
    0x676F, 0x6770, 0x6771, 0x6772, 0x6773, 0x6774, 0x6775, 0x6776,
    0x6777, 0x6778, 0x6779, 0x677A, 0x6730, 0x6731, 0x6732, 0x6733,
    0x6734, 0x6735, 0x6736, 0x6737, 0x6738, 0x6739, 0x672B, 0x672F,
    0x6841, 0x6842, 0x6843, 0x6844, 0x6845, 0x6846, 0x6847, 0x6848,
    0x6849, 0x684A, 0x684B, 0x684C, 0x684D, 0x684E, 0x684F, 0x6850,
    0x6851, 0x6852, 0x6853, 0x6854, 0x6855, 0x6856, 0x6857, 0x6858,
    0x6859, 0x685A, 0x6861, 0x6862, 0x6863, 0x6864, 0x6865, 0x6866,
    0x6867, 0x6868, 0x6869, 0x686A, 0x686B, 0x686C, 0x686D, 0x686E,
    0x686F, 0x6870, 0x6871, 0x6872, 0x6873, 0x6874, 0x6875, 0x6876,
    0x6877, 0x6878, 0x6879, 0x687A, 0x6830, 0x6831, 0x6832, 0x6833,
    0x6834, 0x6835, 0x6836, 0x6837, 0x6838, 0x6839, 0x682B, 0x682F,
    0x6941, 0x6942, 0x6943, 0x6944, 0x6945, 0x6946, 0x6947, 0x6948,
    0x6949, 0x694A, 0x694B, 0x694C, 0x694D, 0x694E, 0x694F, 0x6950,
    0x6951, 0x6952, 0x6953, 0x6954, 0x6955, 0x6956, 0x6957, 0x6958,
    0x6959, 0x695A, 0x6961, 0x6962, 0x6963, 0x6964, 0x6965, 0x6966,
    0x6967, 0x6968, 0x6969, 0x696A, 0x696B, 0x696C, 0x696D, 0x696E,
    0x696F, 0x6970, 0x6971, 0x6972, 0x6973, 0x6974, 0x6975, 0x6976,
    0x6977, 0x6978, 0x6979, 0x697A, 0x6930, 0x6931, 0x6932, 0x6933,
    0x6934, 0x6935, 0x6936, 0x6937, 0x6938, 0x6939, 0x692B, 0x692F,
    0x6A41, 0x6A42, 0x6A43, 0x6A44, 0x6A45, 0x6A46, 0x6A47, 0x6A48,
    0x6A49, 0x6A4A, 0x6A4B, 0x6A4C, 0x6A4D, 0x6A4E, 0x6A4F, 0x6A50,
    0x6A51, 0x6A52, 0x6A53, 0x6A54, 0x6A55, 0x6A56, 0x6A57, 0x6A58,
    0x6A59, 0x6A5A, 0x6A61, 0x6A62, 0x6A63, 0x6A64, 0x6A65, 0x6A66,
    0x6A67, 0x6A68, 0x6A69, 0x6A6A, 0x6A6B, 0x6A6C, 0x6A6D, 0x6A6E,
    0x6A6F, 0x6A70, 0x6A71, 0x6A72, 0x6A73, 0x6A74, 0x6A75, 0x6A76,
    0x6A77, 0x6A78, 0x6A79, 0x6A7A, 0x6A30, 0x6A31, 0x6A32, 0x6A33,
    0x6A34, 0x6A35, 0x6A36, 0x6A37, 0x6A38, 0x6A39, 0x6A2B, 0x6A2F,
    0x6B41, 0x6B42, 0x6B43, 0x6B44, 0x6B45, 0x6B46, 0x6B47, 0x6B48,
    0x6B49, 0x6B4A, 0x6B4B, 0x6B4C, 0x6B4D, 0x6B4E, 0x6B4F, 0x6B50,
    0x6B51, 0x6B52, 0x6B53, 0x6B54, 0x6B55, 0x6B56, 0x6B57, 0x6B58,
    0x6B59, 0x6B5A, 0x6B61, 0x6B62, 0x6B63, 0x6B64, 0x6B65, 0x6B66,
    0x6B67, 0x6B68, 0x6B69, 0x6B6A, 0x6B6B, 0x6B6C, 0x6B6D, 0x6B6E,
    0x6B6F, 0x6B70, 0x6B71, 0x6B72, 0x6B73, 0x6B74, 0x6B75, 0x6B76,
    0x6B77, 0x6B78, 0x6B79, 0x6B7A, 0x6B30, 0x6B31, 0x6B32, 0x6B33,
    0x6B34, 0x6B35, 0x6B36, 0x6B37, 0x6B38, 0x6B39, 0x6B2B, 0x6B2F,
    0x6C41, 0x6C42, 0x6C43, 0x6C44, 0x6C45, 0x6C46, 0x6C47, 0x6C48,
    0x6C49, 0x6C4A, 0x6C4B, 0x6C4C, 0x6C4D, 0x6C4E, 0x6C4F, 0x6C50,
    0x6C51, 0x6C52, 0x6C53, 0x6C54, 0x6C55, 0x6C56, 0x6C57, 0x6C58,
    0x6C59, 0x6C5A, 0x6C61, 0x6C62, 0x6C63, 0x6C64, 0x6C65, 0x6C66,
    0x6C67, 0x6C68, 0x6C69, 0x6C6A, 0x6C6B, 0x6C6C, 0x6C6D, 0x6C6E,
    0x6C6F, 0x6C70, 0x6C71, 0x6C72, 0x6C73, 0x6C74, 0x6C75, 0x6C76,
    0x6C77, 0x6C78, 0x6C79, 0x6C7A, 0x6C30, 0x6C31, 0x6C32, 0x6C33,
    0x6C34, 0x6C35, 0x6C36, 0x6C37, 0x6C38, 0x6C39, 0x6C2B, 0x6C2F,
    0x6D41, 0x6D42, 0x6D43, 0x6D44, 0x6D45, 0x6D46, 0x6D47, 0x6D48,
    0x6D49, 0x6D4A, 0x6D4B, 0x6D4C, 0x6D4D, 0x6D4E, 0x6D4F, 0x6D50,
    0x6D51, 0x6D52, 0x6D53, 0x6D54, 0x6D55, 0x6D56, 0x6D57, 0x6D58,
    0x6D59, 0x6D5A, 0x6D61, 0x6D62, 0x6D63, 0x6D64, 0x6D65, 0x6D66,
    0x6D67, 0x6D68, 0x6D69, 0x6D6A, 0x6D6B, 0x6D6C, 0x6D6D, 0x6D6E,
    0x6D6F, 0x6D70, 0x6D71, 0x6D72, 0x6D73, 0x6D74, 0x6D75, 0x6D76,
    0x6D77, 0x6D78, 0x6D79, 0x6D7A, 0x6D30, 0x6D31, 0x6D32, 0x6D33,
    0x6D34, 0x6D35, 0x6D36, 0x6D37, 0x6D38, 0x6D39, 0x6D2B, 0x6D2F,
    0x6E41, 0x6E42, 0x6E43, 0x6E44, 0x6E45, 0x6E46, 0x6E47, 0x6E48,
    0x6E49, 0x6E4A, 0x6E4B, 0x6E4C, 0x6E4D, 0x6E4E, 0x6E4F, 0x6E50,
    0x6E51, 0x6E52, 0x6E53, 0x6E54, 0x6E55, 0x6E56, 0x6E57, 0x6E58,
    0x6E59, 0x6E5A, 0x6E61, 0x6E62, 0x6E63, 0x6E64, 0x6E65, 0x6E66,
    0x6E67, 0x6E68, 0x6E69, 0x6E6A, 0x6E6B, 0x6E6C, 0x6E6D, 0x6E6E,
    0x6E6F, 0x6E70, 0x6E71, 0x6E72, 0x6E73, 0x6E74, 0x6E75, 0x6E76,
    0x6E77, 0x6E78, 0x6E79, 0x6E7A, 0x6E30, 0x6E31, 0x6E32, 0x6E33,
    0x6E34, 0x6E35, 0x6E36, 0x6E37, 0x6E38, 0x6E39, 0x6E2B, 0x6E2F,
    0x6F41, 0x6F42, 0x6F43, 0x6F44, 0x6F45, 0x6F46, 0x6F47, 0x6F48,
    0x6F49, 0x6F4A, 0x6F4B, 0x6F4C, 0x6F4D, 0x6F4E, 0x6F4F, 0x6F50,
    0x6F51, 0x6F52, 0x6F53, 0x6F54, 0x6F55, 0x6F56, 0x6F57, 0x6F58,
    0x6F59, 0x6F5A, 0x6F61, 0x6F62, 0x6F63, 0x6F64, 0x6F65, 0x6F66,
    0x6F67, 0x6F68, 0x6F69, 0x6F6A, 0x6F6B, 0x6F6C, 0x6F6D, 0x6F6E,
    0x6F6F, 0x6F70, 0x6F71, 0x6F72, 0x6F73, 0x6F74, 0x6F75, 0x6F76,
    0x6F77, 0x6F78, 0x6F79, 0x6F7A, 0x6F30, 0x6F31, 0x6F32, 0x6F33,
    0x6F34, 0x6F35, 0x6F36, 0x6F37, 0x6F38, 0x6F39, 0x6F2B, 0x6F2F,
    0x7041, 0x7042, 0x7043, 0x7044, 0x7045, 0x7046, 0x7047, 0x7048,
    0x7049, 0x704A, 0x704B, 0x704C, 0x704D, 0x704E, 0x704F, 0x7050,
    0x7051, 0x7052, 0x7053, 0x7054, 0x7055, 0x7056, 0x7057, 0x7058,
    0x7059, 0x705A, 0x7061, 0x7062, 0x7063, 0x7064, 0x7065, 0x7066,
    0x7067, 0x7068, 0x7069, 0x706A, 0x706B, 0x706C, 0x706D, 0x706E,
    0x706F, 0x7070, 0x7071, 0x7072, 0x7073, 0x7074, 0x7075, 0x7076,
    0x7077, 0x7078, 0x7079, 0x707A, 0x7030, 0x7031, 0x7032, 0x7033,
    0x7034, 0x7035, 0x7036, 0x7037, 0x7038, 0x7039, 0x702B, 0x702F,
    0x7141, 0x7142, 0x7143, 0x7144, 0x7145, 0x7146, 0x7147, 0x7148,
    0x7149, 0x714A, 0x714B, 0x714C, 0x714D, 0x714E, 0x714F, 0x7150,
    0x7151, 0x7152, 0x7153, 0x7154, 0x7155, 0x7156, 0x7157, 0x7158,
    0x7159, 0x715A, 0x7161, 0x7162, 0x7163, 0x7164, 0x7165, 0x7166,
    0x7167, 0x7168, 0x7169, 0x716A, 0x716B, 0x716C, 0x716D, 0x716E,
    0x716F, 0x7170, 0x7171, 0x7172, 0x7173, 0x7174, 0x7175, 0x7176,
    0x7177, 0x7178, 0x7179, 0x717A, 0x7130, 0x7131, 0x7132, 0x7133,
    0x7134, 0x7135, 0x7136, 0x7137, 0x7138, 0x7139, 0x712B, 0x712F,
    0x7241, 0x7242, 0x7243, 0x7244, 0x7245, 0x7246, 0x7247, 0x7248,
    0x7249, 0x724A, 0x724B, 0x724C, 0x724D, 0x724E, 0x724F, 0x7250,
    0x7251, 0x7252, 0x7253, 0x7254, 0x7255, 0x7256, 0x7257, 0x7258,
    0x7259, 0x725A, 0x7261, 0x7262, 0x7263, 0x7264, 0x7265, 0x7266,
    0x7267, 0x7268, 0x7269, 0x726A, 0x726B, 0x726C, 0x726D, 0x726E,
    0x726F, 0x7270, 0x7271, 0x7272, 0x7273, 0x7274, 0x7275, 0x7276,
    0x7277, 0x7278, 0x7279, 0x727A, 0x7230, 0x7231, 0x7232, 0x7233,
    0x7234, 0x7235, 0x7236, 0x7237, 0x7238, 0x7239, 0x722B, 0x722F,
    0x7341, 0x7342, 0x7343, 0x7344, 0x7345, 0x7346, 0x7347, 0x7348,
    0x7349, 0x734A, 0x734B, 0x734C, 0x734D, 0x734E, 0x734F, 0x7350,
    0x7351, 0x7352, 0x7353, 0x7354, 0x7355, 0x7356, 0x7357, 0x7358,
    0x7359, 0x735A, 0x7361, 0x7362, 0x7363, 0x7364, 0x7365, 0x7366,
    0x7367, 0x7368, 0x7369, 0x736A, 0x736B, 0x736C, 0x736D, 0x736E,
    0x736F, 0x7370, 0x7371, 0x7372, 0x7373, 0x7374, 0x7375, 0x7376,
    0x7377, 0x7378, 0x7379, 0x737A, 0x7330, 0x7331, 0x7332, 0x7333,
    0x7334, 0x7335, 0x7336, 0x7337, 0x7338, 0x7339, 0x732B, 0x732F,
    0x7441, 0x7442, 0x7443, 0x7444, 0x7445, 0x7446, 0x7447, 0x7448,
    0x7449, 0x744A, 0x744B, 0x744C, 0x744D, 0x744E, 0x744F, 0x7450,
    0x7451, 0x7452, 0x7453, 0x7454, 0x7455, 0x7456, 0x7457, 0x7458,
    0x7459, 0x745A, 0x7461, 0x7462, 0x7463, 0x7464, 0x7465, 0x7466,
    0x7467, 0x7468, 0x7469, 0x746A, 0x746B, 0x746C, 0x746D, 0x746E,
    0x746F, 0x7470, 0x7471, 0x7472, 0x7473, 0x7474, 0x7475, 0x7476,
    0x7477, 0x7478, 0x7479, 0x747A, 0x7430, 0x7431, 0x7432, 0x7433,
    0x7434, 0x7435, 0x7436, 0x7437, 0x7438, 0x7439, 0x742B, 0x742F,
    0x7541, 0x7542, 0x7543, 0x7544, 0x7545, 0x7546, 0x7547, 0x7548,
    0x7549, 0x754A, 0x754B, 0x754C, 0x754D, 0x754E, 0x754F, 0x7550,
    0x7551, 0x7552, 0x7553, 0x7554, 0x7555, 0x7556, 0x7557, 0x7558,
    0x7559, 0x755A, 0x7561, 0x7562, 0x7563, 0x7564, 0x7565, 0x7566,
    0x7567, 0x7568, 0x7569, 0x756A, 0x756B, 0x756C, 0x756D, 0x756E,
    0x756F, 0x7570, 0x7571, 0x7572, 0x7573, 0x7574, 0x7575, 0x7576,
    0x7577, 0x7578, 0x7579, 0x757A, 0x7530, 0x7531, 0x7532, 0x7533,
    0x7534, 0x7535, 0x7536, 0x7537, 0x7538, 0x7539, 0x752B, 0x752F,
    0x7641, 0x7642, 0x7643, 0x7644, 0x7645, 0x7646, 0x7647, 0x7648,
    0x7649, 0x764A, 0x764B, 0x764C, 0x764D, 0x764E, 0x764F, 0x7650,
    0x7651, 0x7652, 0x7653, 0x7654, 0x7655, 0x7656, 0x7657, 0x7658,
    0x7659, 0x765A, 0x7661, 0x7662, 0x7663, 0x7664, 0x7665, 0x7666,
    0x7667, 0x7668, 0x7669, 0x766A, 0x766B, 0x766C, 0x766D, 0x766E,
    0x766F, 0x7670, 0x7671, 0x7672, 0x7673, 0x7674, 0x7675, 0x7676,
    0x7677, 0x7678, 0x7679, 0x767A, 0x7630, 0x7631, 0x7632, 0x7633,
    0x7634, 0x7635, 0x7636, 0x7637, 0x7638, 0x7639, 0x762B, 0x762F]"

definition base64_table_enc_12bit_be3 :: "16 word list" where
  "base64_table_enc_12bit_be3 = [
    0x7741, 0x7742, 0x7743, 0x7744, 0x7745, 0x7746, 0x7747, 0x7748,
    0x7749, 0x774A, 0x774B, 0x774C, 0x774D, 0x774E, 0x774F, 0x7750,
    0x7751, 0x7752, 0x7753, 0x7754, 0x7755, 0x7756, 0x7757, 0x7758,
    0x7759, 0x775A, 0x7761, 0x7762, 0x7763, 0x7764, 0x7765, 0x7766,
    0x7767, 0x7768, 0x7769, 0x776A, 0x776B, 0x776C, 0x776D, 0x776E,
    0x776F, 0x7770, 0x7771, 0x7772, 0x7773, 0x7774, 0x7775, 0x7776,
    0x7777, 0x7778, 0x7779, 0x777A, 0x7730, 0x7731, 0x7732, 0x7733,
    0x7734, 0x7735, 0x7736, 0x7737, 0x7738, 0x7739, 0x772B, 0x772F,
    0x7841, 0x7842, 0x7843, 0x7844, 0x7845, 0x7846, 0x7847, 0x7848,
    0x7849, 0x784A, 0x784B, 0x784C, 0x784D, 0x784E, 0x784F, 0x7850,
    0x7851, 0x7852, 0x7853, 0x7854, 0x7855, 0x7856, 0x7857, 0x7858,
    0x7859, 0x785A, 0x7861, 0x7862, 0x7863, 0x7864, 0x7865, 0x7866,
    0x7867, 0x7868, 0x7869, 0x786A, 0x786B, 0x786C, 0x786D, 0x786E,
    0x786F, 0x7870, 0x7871, 0x7872, 0x7873, 0x7874, 0x7875, 0x7876,
    0x7877, 0x7878, 0x7879, 0x787A, 0x7830, 0x7831, 0x7832, 0x7833,
    0x7834, 0x7835, 0x7836, 0x7837, 0x7838, 0x7839, 0x782B, 0x782F,
    0x7941, 0x7942, 0x7943, 0x7944, 0x7945, 0x7946, 0x7947, 0x7948,
    0x7949, 0x794A, 0x794B, 0x794C, 0x794D, 0x794E, 0x794F, 0x7950,
    0x7951, 0x7952, 0x7953, 0x7954, 0x7955, 0x7956, 0x7957, 0x7958,
    0x7959, 0x795A, 0x7961, 0x7962, 0x7963, 0x7964, 0x7965, 0x7966,
    0x7967, 0x7968, 0x7969, 0x796A, 0x796B, 0x796C, 0x796D, 0x796E,
    0x796F, 0x7970, 0x7971, 0x7972, 0x7973, 0x7974, 0x7975, 0x7976,
    0x7977, 0x7978, 0x7979, 0x797A, 0x7930, 0x7931, 0x7932, 0x7933,
    0x7934, 0x7935, 0x7936, 0x7937, 0x7938, 0x7939, 0x792B, 0x792F,
    0x7A41, 0x7A42, 0x7A43, 0x7A44, 0x7A45, 0x7A46, 0x7A47, 0x7A48,
    0x7A49, 0x7A4A, 0x7A4B, 0x7A4C, 0x7A4D, 0x7A4E, 0x7A4F, 0x7A50,
    0x7A51, 0x7A52, 0x7A53, 0x7A54, 0x7A55, 0x7A56, 0x7A57, 0x7A58,
    0x7A59, 0x7A5A, 0x7A61, 0x7A62, 0x7A63, 0x7A64, 0x7A65, 0x7A66,
    0x7A67, 0x7A68, 0x7A69, 0x7A6A, 0x7A6B, 0x7A6C, 0x7A6D, 0x7A6E,
    0x7A6F, 0x7A70, 0x7A71, 0x7A72, 0x7A73, 0x7A74, 0x7A75, 0x7A76,
    0x7A77, 0x7A78, 0x7A79, 0x7A7A, 0x7A30, 0x7A31, 0x7A32, 0x7A33,
    0x7A34, 0x7A35, 0x7A36, 0x7A37, 0x7A38, 0x7A39, 0x7A2B, 0x7A2F,
    0x3041, 0x3042, 0x3043, 0x3044, 0x3045, 0x3046, 0x3047, 0x3048,
    0x3049, 0x304A, 0x304B, 0x304C, 0x304D, 0x304E, 0x304F, 0x3050,
    0x3051, 0x3052, 0x3053, 0x3054, 0x3055, 0x3056, 0x3057, 0x3058,
    0x3059, 0x305A, 0x3061, 0x3062, 0x3063, 0x3064, 0x3065, 0x3066,
    0x3067, 0x3068, 0x3069, 0x306A, 0x306B, 0x306C, 0x306D, 0x306E,
    0x306F, 0x3070, 0x3071, 0x3072, 0x3073, 0x3074, 0x3075, 0x3076,
    0x3077, 0x3078, 0x3079, 0x307A, 0x3030, 0x3031, 0x3032, 0x3033,
    0x3034, 0x3035, 0x3036, 0x3037, 0x3038, 0x3039, 0x302B, 0x302F,
    0x3141, 0x3142, 0x3143, 0x3144, 0x3145, 0x3146, 0x3147, 0x3148,
    0x3149, 0x314A, 0x314B, 0x314C, 0x314D, 0x314E, 0x314F, 0x3150,
    0x3151, 0x3152, 0x3153, 0x3154, 0x3155, 0x3156, 0x3157, 0x3158,
    0x3159, 0x315A, 0x3161, 0x3162, 0x3163, 0x3164, 0x3165, 0x3166,
    0x3167, 0x3168, 0x3169, 0x316A, 0x316B, 0x316C, 0x316D, 0x316E,
    0x316F, 0x3170, 0x3171, 0x3172, 0x3173, 0x3174, 0x3175, 0x3176,
    0x3177, 0x3178, 0x3179, 0x317A, 0x3130, 0x3131, 0x3132, 0x3133,
    0x3134, 0x3135, 0x3136, 0x3137, 0x3138, 0x3139, 0x312B, 0x312F,
    0x3241, 0x3242, 0x3243, 0x3244, 0x3245, 0x3246, 0x3247, 0x3248,
    0x3249, 0x324A, 0x324B, 0x324C, 0x324D, 0x324E, 0x324F, 0x3250,
    0x3251, 0x3252, 0x3253, 0x3254, 0x3255, 0x3256, 0x3257, 0x3258,
    0x3259, 0x325A, 0x3261, 0x3262, 0x3263, 0x3264, 0x3265, 0x3266,
    0x3267, 0x3268, 0x3269, 0x326A, 0x326B, 0x326C, 0x326D, 0x326E,
    0x326F, 0x3270, 0x3271, 0x3272, 0x3273, 0x3274, 0x3275, 0x3276,
    0x3277, 0x3278, 0x3279, 0x327A, 0x3230, 0x3231, 0x3232, 0x3233,
    0x3234, 0x3235, 0x3236, 0x3237, 0x3238, 0x3239, 0x322B, 0x322F,
    0x3341, 0x3342, 0x3343, 0x3344, 0x3345, 0x3346, 0x3347, 0x3348,
    0x3349, 0x334A, 0x334B, 0x334C, 0x334D, 0x334E, 0x334F, 0x3350,
    0x3351, 0x3352, 0x3353, 0x3354, 0x3355, 0x3356, 0x3357, 0x3358,
    0x3359, 0x335A, 0x3361, 0x3362, 0x3363, 0x3364, 0x3365, 0x3366,
    0x3367, 0x3368, 0x3369, 0x336A, 0x336B, 0x336C, 0x336D, 0x336E,
    0x336F, 0x3370, 0x3371, 0x3372, 0x3373, 0x3374, 0x3375, 0x3376,
    0x3377, 0x3378, 0x3379, 0x337A, 0x3330, 0x3331, 0x3332, 0x3333,
    0x3334, 0x3335, 0x3336, 0x3337, 0x3338, 0x3339, 0x332B, 0x332F,
    0x3441, 0x3442, 0x3443, 0x3444, 0x3445, 0x3446, 0x3447, 0x3448,
    0x3449, 0x344A, 0x344B, 0x344C, 0x344D, 0x344E, 0x344F, 0x3450,
    0x3451, 0x3452, 0x3453, 0x3454, 0x3455, 0x3456, 0x3457, 0x3458,
    0x3459, 0x345A, 0x3461, 0x3462, 0x3463, 0x3464, 0x3465, 0x3466,
    0x3467, 0x3468, 0x3469, 0x346A, 0x346B, 0x346C, 0x346D, 0x346E,
    0x346F, 0x3470, 0x3471, 0x3472, 0x3473, 0x3474, 0x3475, 0x3476,
    0x3477, 0x3478, 0x3479, 0x347A, 0x3430, 0x3431, 0x3432, 0x3433,
    0x3434, 0x3435, 0x3436, 0x3437, 0x3438, 0x3439, 0x342B, 0x342F,
    0x3541, 0x3542, 0x3543, 0x3544, 0x3545, 0x3546, 0x3547, 0x3548,
    0x3549, 0x354A, 0x354B, 0x354C, 0x354D, 0x354E, 0x354F, 0x3550,
    0x3551, 0x3552, 0x3553, 0x3554, 0x3555, 0x3556, 0x3557, 0x3558,
    0x3559, 0x355A, 0x3561, 0x3562, 0x3563, 0x3564, 0x3565, 0x3566,
    0x3567, 0x3568, 0x3569, 0x356A, 0x356B, 0x356C, 0x356D, 0x356E,
    0x356F, 0x3570, 0x3571, 0x3572, 0x3573, 0x3574, 0x3575, 0x3576,
    0x3577, 0x3578, 0x3579, 0x357A, 0x3530, 0x3531, 0x3532, 0x3533,
    0x3534, 0x3535, 0x3536, 0x3537, 0x3538, 0x3539, 0x352B, 0x352F,
    0x3641, 0x3642, 0x3643, 0x3644, 0x3645, 0x3646, 0x3647, 0x3648,
    0x3649, 0x364A, 0x364B, 0x364C, 0x364D, 0x364E, 0x364F, 0x3650,
    0x3651, 0x3652, 0x3653, 0x3654, 0x3655, 0x3656, 0x3657, 0x3658,
    0x3659, 0x365A, 0x3661, 0x3662, 0x3663, 0x3664, 0x3665, 0x3666,
    0x3667, 0x3668, 0x3669, 0x366A, 0x366B, 0x366C, 0x366D, 0x366E,
    0x366F, 0x3670, 0x3671, 0x3672, 0x3673, 0x3674, 0x3675, 0x3676,
    0x3677, 0x3678, 0x3679, 0x367A, 0x3630, 0x3631, 0x3632, 0x3633,
    0x3634, 0x3635, 0x3636, 0x3637, 0x3638, 0x3639, 0x362B, 0x362F,
    0x3741, 0x3742, 0x3743, 0x3744, 0x3745, 0x3746, 0x3747, 0x3748,
    0x3749, 0x374A, 0x374B, 0x374C, 0x374D, 0x374E, 0x374F, 0x3750,
    0x3751, 0x3752, 0x3753, 0x3754, 0x3755, 0x3756, 0x3757, 0x3758,
    0x3759, 0x375A, 0x3761, 0x3762, 0x3763, 0x3764, 0x3765, 0x3766,
    0x3767, 0x3768, 0x3769, 0x376A, 0x376B, 0x376C, 0x376D, 0x376E,
    0x376F, 0x3770, 0x3771, 0x3772, 0x3773, 0x3774, 0x3775, 0x3776,
    0x3777, 0x3778, 0x3779, 0x377A, 0x3730, 0x3731, 0x3732, 0x3733,
    0x3734, 0x3735, 0x3736, 0x3737, 0x3738, 0x3739, 0x372B, 0x372F,
    0x3841, 0x3842, 0x3843, 0x3844, 0x3845, 0x3846, 0x3847, 0x3848,
    0x3849, 0x384A, 0x384B, 0x384C, 0x384D, 0x384E, 0x384F, 0x3850,
    0x3851, 0x3852, 0x3853, 0x3854, 0x3855, 0x3856, 0x3857, 0x3858,
    0x3859, 0x385A, 0x3861, 0x3862, 0x3863, 0x3864, 0x3865, 0x3866,
    0x3867, 0x3868, 0x3869, 0x386A, 0x386B, 0x386C, 0x386D, 0x386E,
    0x386F, 0x3870, 0x3871, 0x3872, 0x3873, 0x3874, 0x3875, 0x3876,
    0x3877, 0x3878, 0x3879, 0x387A, 0x3830, 0x3831, 0x3832, 0x3833,
    0x3834, 0x3835, 0x3836, 0x3837, 0x3838, 0x3839, 0x382B, 0x382F,
    0x3941, 0x3942, 0x3943, 0x3944, 0x3945, 0x3946, 0x3947, 0x3948,
    0x3949, 0x394A, 0x394B, 0x394C, 0x394D, 0x394E, 0x394F, 0x3950,
    0x3951, 0x3952, 0x3953, 0x3954, 0x3955, 0x3956, 0x3957, 0x3958,
    0x3959, 0x395A, 0x3961, 0x3962, 0x3963, 0x3964, 0x3965, 0x3966,
    0x3967, 0x3968, 0x3969, 0x396A, 0x396B, 0x396C, 0x396D, 0x396E,
    0x396F, 0x3970, 0x3971, 0x3972, 0x3973, 0x3974, 0x3975, 0x3976,
    0x3977, 0x3978, 0x3979, 0x397A, 0x3930, 0x3931, 0x3932, 0x3933,
    0x3934, 0x3935, 0x3936, 0x3937, 0x3938, 0x3939, 0x392B, 0x392F,
    0x2B41, 0x2B42, 0x2B43, 0x2B44, 0x2B45, 0x2B46, 0x2B47, 0x2B48,
    0x2B49, 0x2B4A, 0x2B4B, 0x2B4C, 0x2B4D, 0x2B4E, 0x2B4F, 0x2B50,
    0x2B51, 0x2B52, 0x2B53, 0x2B54, 0x2B55, 0x2B56, 0x2B57, 0x2B58,
    0x2B59, 0x2B5A, 0x2B61, 0x2B62, 0x2B63, 0x2B64, 0x2B65, 0x2B66,
    0x2B67, 0x2B68, 0x2B69, 0x2B6A, 0x2B6B, 0x2B6C, 0x2B6D, 0x2B6E,
    0x2B6F, 0x2B70, 0x2B71, 0x2B72, 0x2B73, 0x2B74, 0x2B75, 0x2B76,
    0x2B77, 0x2B78, 0x2B79, 0x2B7A, 0x2B30, 0x2B31, 0x2B32, 0x2B33,
    0x2B34, 0x2B35, 0x2B36, 0x2B37, 0x2B38, 0x2B39, 0x2B2B, 0x2B2F,
    0x2F41, 0x2F42, 0x2F43, 0x2F44, 0x2F45, 0x2F46, 0x2F47, 0x2F48,
    0x2F49, 0x2F4A, 0x2F4B, 0x2F4C, 0x2F4D, 0x2F4E, 0x2F4F, 0x2F50,
    0x2F51, 0x2F52, 0x2F53, 0x2F54, 0x2F55, 0x2F56, 0x2F57, 0x2F58,
    0x2F59, 0x2F5A, 0x2F61, 0x2F62, 0x2F63, 0x2F64, 0x2F65, 0x2F66,
    0x2F67, 0x2F68, 0x2F69, 0x2F6A, 0x2F6B, 0x2F6C, 0x2F6D, 0x2F6E,
    0x2F6F, 0x2F70, 0x2F71, 0x2F72, 0x2F73, 0x2F74, 0x2F75, 0x2F76,
    0x2F77, 0x2F78, 0x2F79, 0x2F7A, 0x2F30, 0x2F31, 0x2F32, 0x2F33,
    0x2F34, 0x2F35, 0x2F36, 0x2F37, 0x2F38, 0x2F39, 0x2F2B, 0x2F2F]"

text \<open>\<open>le\<close> is the macro \<^verbatim>\<open>BASE64_LITTLE_ENDIAN\<close>.\<close>

definition base64_table_enc_12bit :: "bool \<Rightarrow> 16 word list" where
  "base64_table_enc_12bit le =
     (if le
      then base64_table_enc_12bit_le0 @ base64_table_enc_12bit_le1
         @ base64_table_enc_12bit_le2 @ base64_table_enc_12bit_le3
      else base64_table_enc_12bit_be0 @ base64_table_enc_12bit_be1
         @ base64_table_enc_12bit_be2 @ base64_table_enc_12bit_be3)"

text \<open>The bytes of a 16-bit value in memory order, which is what \<^verbatim>\<open>memcpy\<close> copies.\<close>

definition store16 :: "bool \<Rightarrow> 16 word \<Rightarrow> byte list" where
  "store16 le w =
     (if le then [ucast w, ucast (drop_bit 8 w)] else [ucast (drop_bit 8 w), ucast w])"

subsection \<open>Every entry is the pair of letters of its index\<close>

definition b64_letters :: "16 word list" where
  "b64_letters = map ucast (take 64 base64_table_enc_6bit)"

lemma b64_letters_eq:
  "b64_letters = [65, 66, 67, 68, 69, 70, 71, 72, 73, 74, 75, 76, 77, 78, 79, 80,
     81, 82, 83, 84, 85, 86, 87, 88, 89, 90, 97, 98, 99, 100, 101, 102,
     103, 104, 105, 106, 107, 108, 109, 110, 111, 112, 113, 114, 115, 116, 117, 118,
     119, 120, 121, 122, 48, 49, 50, 51, 52, 53, 54, 55, 56, 57, 43, 47]"
  by (simp add: b64_letters_def base64_table_enc_6bit_def)

definition le_row :: "16 word \<Rightarrow> 16 word list" where
  "le_row a = map (\<lambda>b. a + 256 * b) b64_letters"

definition be_row :: "16 word \<Rightarrow> 16 word list" where
  "be_row a = map (\<lambda>b. 256 * a + b) b64_letters"

lemmas row_defs = le_row_def be_row_def b64_letters_eq

lemma le0_rows: "base64_table_enc_12bit_le0 = concat (map le_row (take 16 (drop 0 b64_letters)))"
  by (simp add: base64_table_enc_12bit_le0_def row_defs)

lemma le1_rows: "base64_table_enc_12bit_le1 = concat (map le_row (take 16 (drop 16 b64_letters)))"
  by (simp add: base64_table_enc_12bit_le1_def row_defs)

lemma le2_rows: "base64_table_enc_12bit_le2 = concat (map le_row (take 16 (drop 32 b64_letters)))"
  by (simp add: base64_table_enc_12bit_le2_def row_defs)

lemma le3_rows: "base64_table_enc_12bit_le3 = concat (map le_row (take 16 (drop 48 b64_letters)))"
  by (simp add: base64_table_enc_12bit_le3_def row_defs)

lemma be0_rows: "base64_table_enc_12bit_be0 = concat (map be_row (take 16 (drop 0 b64_letters)))"
  by (simp add: base64_table_enc_12bit_be0_def row_defs)

lemma be1_rows: "base64_table_enc_12bit_be1 = concat (map be_row (take 16 (drop 16 b64_letters)))"
  by (simp add: base64_table_enc_12bit_be1_def row_defs)

lemma be2_rows: "base64_table_enc_12bit_be2 = concat (map be_row (take 16 (drop 32 b64_letters)))"
  by (simp add: base64_table_enc_12bit_be2_def row_defs)

lemma be3_rows: "base64_table_enc_12bit_be3 = concat (map be_row (take 16 (drop 48 b64_letters)))"
  by (simp add: base64_table_enc_12bit_be3_def row_defs)

lemma length_b64_letters [simp]: "length b64_letters = 64"
  by (simp add: b64_letters_eq)

lemma letters_quarters:
  "take 16 xs @ take 16 (drop 16 xs) @ take 16 (drop 32 xs) @ take 16 (drop 48 xs) = xs"
  if "length xs = 64" for xs :: "'a list"
proof -
  have "take 16 (drop 48 xs) = drop 48 xs"
    using that by simp
  moreover have "take 16 (drop 32 xs) @ drop 48 xs = drop 32 xs"
    using append_take_drop_id [of 16 "drop 32 xs"] by simp
  moreover have "take 16 (drop 16 xs) @ drop 32 xs = drop 16 xs"
    using append_take_drop_id [of 16 "drop 16 xs"] by simp
  ultimately show ?thesis
    by simp
qed

lemma base64_table_enc_12bit_rows:
  "base64_table_enc_12bit le = concat (map (if le then le_row else be_row) b64_letters)"
proof -
  have "concat (map f b64_letters) = concat (map f (take 16 (drop 0 b64_letters)))
      @ concat (map f (take 16 (drop 16 b64_letters)))
      @ concat (map f (take 16 (drop 32 b64_letters)))
      @ concat (map f (take 16 (drop 48 b64_letters)))" for f :: "16 word \<Rightarrow> 16 word list"
    by (subst letters_quarters [symmetric, OF length_b64_letters]) simp
  then show ?thesis
    by (simp add: base64_table_enc_12bit_def le0_rows le1_rows le2_rows le3_rows
        be0_rows be1_rows be2_rows be3_rows)
qed

text \<open>The letters are below 256, so the two halves of an entry do not overlap.\<close>

lemma length_base64_table_enc_6bit: "length base64_table_enc_6bit = 65"
  by (simp add: base64_table_enc_6bit_def)

lemma b64_letters_nth:
  assumes "i < 64"
  shows "b64_letters ! i = ucast (base64_table_enc_6bit ! i)"
  using assms by (simp add: b64_letters_def length_base64_table_enc_6bit)

lemma store16_pair:
  fixes a b :: byte
  shows "store16 True (ucast a + 256 * ucast b) = [a, b]"
    and "store16 False (256 * ucast a + ucast b) = [a, b]"
proof -
  have low: "ucast (ucast x + 256 * ucast y :: 16 word) = x"
    and high: "ucast (drop_bit 8 (ucast x + 256 * ucast y :: 16 word)) = y" for x y :: byte
  proof -
    have "unat x mod 65536 = unat x" "unat y mod 65536 = unat y"
      using byte_lt [of x] byte_lt [of y] by simp_all
    then have v: "unat (ucast x + 256 * ucast y :: 16 word) = unat x + 256 * unat y"
      using byte_lt [of x] byte_lt [of y] by (simp add: unat_word_ariths unat_ucast_mod)
    show "ucast (ucast x + 256 * ucast y :: 16 word) = x"
      by (simp add: word_unat_eq_iff unat_ucast_mod v byte_lt)
    show "ucast (drop_bit 8 (ucast x + 256 * ucast y :: 16 word)) = y"
      by (simp add: word_unat_eq_iff unat_ucast_mod unat_drop_bit v byte_lt)
  qed
  show "store16 True (ucast a + 256 * ucast b) = [a, b]"
    by (simp only: store16_def low high if_True)
  show "store16 False (256 * ucast a + ucast b) = [a, b]"
    by (simp only: store16_def low high if_False add.commute)
qed

lemma base64_table_enc_12bit_pair:
  assumes "i < 4096"
  shows "store16 le (base64_table_enc_12bit le ! i) =
    [base64_table_enc_6bit ! (i div 64), base64_table_enc_6bit ! (i mod 64)]"
proof -
  have i: "i div 64 < 64" "i mod 64 < 64"
    using assms by auto
  have "base64_table_enc_12bit le ! i
      = (if le then le_row else be_row) (b64_letters ! (i div 64)) ! (i mod 64)"
    unfolding base64_table_enc_12bit_rows
    by (subst nth_concat_rows [where n = 64]) (use assms in \<open>auto simp: le_row_def be_row_def\<close>)
  then show ?thesis
    using i by (cases le)
      (simp_all add: le_row_def be_row_def b64_letters_nth store16_pair)
qed

lemma length_base64_table_enc_12bit: "length (base64_table_enc_12bit le) = 4096"
proof -
  have "length (concat (map f b64_letters)) = 4096"
    if "\<And>a. length (f a) = 64" for f :: "16 word \<Rightarrow> 16 word list"
    using that by (simp add: length_concat comp_def sum_list_triv)
  then show ?thesis
    by (simp add: base64_table_enc_12bit_rows le_row_def be_row_def)
qed

end
