(* ===== verification/Base64.thy ===== *)
theory Base64
  imports Base64_Table
begin

text \<open>
  The base64 encoder of \<^verbatim>\<open>src/main/c/base64.c\<close>, which \<^verbatim>\<open>output.c\<close> applies to the
  gzipped schemas: the block encoder with its unrolled rounds, the streaming encoder with
  its loop inside a switch, the trailer and the one-shot function. A source pointer is the
  list of the bytes from it to the end of its buffer; a read past that end is the result
  \<open>None\<close>, and the lemmas show that it never happens when the lengths are right. The result
  is related to the encoding of RFC 4648 (\<open>b64_spec\<close>) and to a decoder.
\<close>

subsection \<open>The block encoder\<close>

definition load64 :: "bool \<Rightarrow> byte list \<Rightarrow> u64" where
  "load64 le bs = foldl (\<lambda>w b. push_bit 8 w OR ucast b) 0
     (if le then rev (take 8 bs) else take 8 bs)"

definition bswap64 :: "u64 \<Rightarrow> u64" where
  "bswap64 w = load64 True (rev (map (\<lambda>i. ucast (drop_bit (8 * i) w)) [0..<8]))"

definition BASE64_HTOBE64 :: "bool \<Rightarrow> u64 \<Rightarrow> u64" where
  "BASE64_HTOBE64 le w = (if le then bswap64 w else w)"

definition enc_loop_generic_64_inner ::
    "bool \<Rightarrow> byte list \<times> byte list \<Rightarrow> (byte list \<times> byte list) option" where
  "enc_loop_generic_64_inner le = (\<lambda>(s, out).
     if length s < 8 then None
     else
       let src = BASE64_HTOBE64 le (load64 le s);
           index0 = unat (drop_bit 52 src AND 0xFFF);
           index1 = unat (drop_bit 40 src AND 0xFFF);
           index2 = unat (drop_bit 28 src AND 0xFFF);
           index3 = unat (drop_bit 16 src AND 0xFFF)
       in Some (drop 6 s,
            out @ store16 le (base64_table_enc_12bit le ! index0)
                @ store16 le (base64_table_enc_12bit le ! index1)
                @ store16 le (base64_table_enc_12bit le ! index2)
                @ store16 le (base64_table_enc_12bit le ! index3)))"

fun inner_times :: "nat \<Rightarrow> bool \<Rightarrow> byte list \<times> byte list \<Rightarrow> (byte list \<times> byte list) option" where
  "inner_times 0 le p = Some p"
| "inner_times (Suc n) le p = Option.bind (enc_loop_generic_64_inner le p) (inner_times n le)"

text \<open>The unrolled loop: \<^verbatim>\<open>continue\<close> goes to the test \<^verbatim>\<open>rounds > 0\<close> at its end.\<close>

function enc_rounds ::
    "nat \<Rightarrow> bool \<Rightarrow> byte list \<times> byte list \<Rightarrow> (byte list \<times> byte list) option" where
  "enc_rounds rounds le p =
     (if 8 \<le> rounds then
        Option.bind (inner_times 8 le p)
          (\<lambda>q. if rounds - 8 > 0 then enc_rounds (rounds - 8) le q else Some q)
      else if 4 \<le> rounds then
        Option.bind (inner_times 4 le p)
          (\<lambda>q. if rounds - 4 > 0 then enc_rounds (rounds - 4) le q else Some q)
      else if 2 \<le> rounds then
        Option.bind (inner_times 2 le p)
          (\<lambda>q. if rounds - 2 > 0 then enc_rounds (rounds - 2) le q else Some q)
      else enc_loop_generic_64_inner le p)"
  by pat_completeness auto
termination
  by (relation "measure (\<lambda>(rounds, le, p). rounds)") auto

declare enc_rounds.simps [simp del]

text \<open>The state of the streaming encoder and the variables of its loop.\<close>

record base64_state =
  eof :: int
  bytes :: int
  carry :: byte

record b64_vars =
  s_ptr :: "byte list"
  slen :: nat
  o_buf :: "byte list"
  olen :: nat
  st :: base64_state

definition enc_loop_generic_64 :: "bool \<Rightarrow> b64_vars \<Rightarrow> b64_vars option" where
  "enc_loop_generic_64 le v =
     (if slen v < 8 then Some v
      else
        let rounds = (slen v - 2) div 6 in
        case enc_rounds rounds le (s_ptr v, o_buf v) of
          None \<Rightarrow> None
        | Some (s', out') \<Rightarrow>
            Some (v\<lparr>s_ptr := s', slen := slen v - rounds * 6,
                    o_buf := out', olen := olen v + rounds * 8\<rparr>))"

subsection \<open>The streaming encoder\<close>

abbreviation enc6 :: "byte \<Rightarrow> byte" where
  "enc6 w \<equiv> base64_table_enc_6bit ! unat w"

lemma enc_rounds_slen: "enc_loop_generic_64 le v = Some w \<Longrightarrow> slen w \<le> slen v"
  by (auto simp: enc_loop_generic_64_def Let_def split: if_splits option.splits)

text \<open>
  \<^verbatim>\<open>base64_stream_encode_plain\<close>'s loop inside its switch. The first argument is the
  case label the control is at.
\<close>

function duff :: "nat \<Rightarrow> bool \<Rightarrow> b64_vars \<Rightarrow> b64_vars option" where
  "duff 0 le v =
     (case enc_loop_generic_64 le v of
        None \<Rightarrow> None
      | Some v' \<Rightarrow>
          if slen v' = 0 then Some v'
          else (case s_ptr v' of
              [] \<Rightarrow> None
            | b # s' \<Rightarrow> duff 1 le (v'\<lparr>slen := slen v' - 1,
                o_buf := o_buf v' @ [enc6 (drop_bit 2 b)],
                s_ptr := s',
                st := (st v')\<lparr>carry := push_bit 4 b AND 0x30, bytes := bytes (st v') + 1\<rparr>,
                olen := olen v' + 1\<rparr>)))"
| "duff (Suc 0) le v =
     (if slen v = 0 then Some v
      else (case s_ptr v of
          [] \<Rightarrow> None
        | b # s' \<Rightarrow> duff 2 le (v\<lparr>slen := slen v - 1,
            o_buf := o_buf v @ [enc6 (carry (st v) OR drop_bit 4 b)],
            s_ptr := s',
            st := (st v)\<lparr>carry := push_bit 2 b AND 0x3C, bytes := bytes (st v) + 1\<rparr>,
            olen := olen v + 1\<rparr>)))"
| "duff (Suc (Suc n)) le v =
     (if slen v = 0 then Some v
      else (case s_ptr v of
          [] \<Rightarrow> None
        | b # s' \<Rightarrow> duff 0 le (v\<lparr>slen := slen v - 1,
            o_buf := o_buf v @ [enc6 (carry (st v) OR drop_bit 6 b), enc6 (b AND 0x3F)],
            s_ptr := s',
            st := (st v)\<lparr>bytes := 0\<rparr>,
            olen := olen v + 2\<rparr>)))"
  by pat_completeness auto
termination
  by (relation "measure (\<lambda>(label, le, v). slen v)") (auto dest: enc_rounds_slen)

definition base64_stream_encode_plain ::
    "bool \<Rightarrow> base64_state \<Rightarrow> byte list \<Rightarrow> nat \<Rightarrow> (base64_state \<times> byte list \<times> nat) option" where
  "base64_stream_encode_plain le state src srclen =
     (let v = \<lparr>s_ptr = src, slen = srclen, o_buf = [], olen = 0, st = state\<rparr>;
          ret = (\<lambda>v'. (state\<lparr>bytes := bytes (st v'), carry := carry (st v')\<rparr>, o_buf v', olen v'))
      in if bytes state = 0 then map_option ret (duff 0 le v)
         else if bytes state = 1 then map_option ret (duff 1 le v)
         else if bytes state = 2 then map_option ret (duff 2 le v)
         else Some (ret v))"

definition base64_stream_encode_final :: "base64_state \<Rightarrow> byte list \<times> nat" where
  "base64_stream_encode_final state =
     (if bytes state = 1 then ([enc6 (carry state), 0x3D, 0x3D], 3)
      else if bytes state = 2 then ([enc6 (carry state), 0x3D], 2)
      else ([], 0))"

definition base64_encode :: "bool \<Rightarrow> byte list \<Rightarrow> nat \<Rightarrow> (byte list \<times> nat) option" where
  "base64_encode le src srclen =
     (case base64_stream_encode_plain le \<lparr>eof = 0, bytes = 0, carry = 0\<rparr> src srclen of
        None \<Rightarrow> None
      | Some (state, out, s) \<Rightarrow>
          (case base64_stream_encode_final state of (tail_out, t) \<Rightarrow>
             Some (out @ tail_out, s + t)))"

subsection \<open>The 64-bit load\<close>

definition be_nat :: "byte list \<Rightarrow> nat" where
  "be_nat bs = foldl (\<lambda>n b. n * 256 + unat b) 0 bs"

lemma be_nat_Nil [simp]: "be_nat [] = 0"
  by (simp add: be_nat_def)

lemma be_nat_snoc [simp]: "be_nat (bs @ [b]) = be_nat bs * 256 + unat b"
  by (simp add: be_nat_def)

lemma be_nat_append: "be_nat (xs @ ys) = be_nat xs * 256 ^ length ys + be_nat ys"
proof (induction ys rule: rev_induct)
  case Nil
  then show ?case by simp
next
  case (snoc y ys)
  have "be_nat (xs @ ys @ [y]) = be_nat (xs @ ys) * 256 + unat y"
    by (metis append_assoc be_nat_snoc)
  with snoc show ?case
    by (simp add: algebra_simps)
qed

lemma be_nat_bound: "be_nat bs < 256 ^ length bs"
proof (induction bs rule: rev_induct)
  case Nil
  then show ?case by simp
next
  case (snoc b bs)
  then show ?case
    using byte_lt [of b] by simp
qed

lemma be_nat_div: "be_nat (xs @ ys) div 256 ^ length ys = be_nat xs"
  by (simp add: be_nat_append be_nat_bound)

lemma unat_shift_in:
  fixes w :: u64
  assumes "unat w < 2 ^ 56"
  shows "unat (push_bit 8 w OR ucast (b :: byte)) = unat w * 256 + unat b"
proof -
  have "unat (push_bit 8 w) = unat w * 2 ^ 8"
    using assms by (simp add: unat_push_bit del: push_bit_numeral)
  moreover have "unat (ucast b :: u64) = unat b"
    using byte_lt [of b] by (simp add: unat_ucast_mod)
  ultimately show ?thesis
    using or_nat_add [of "unat b" 8 "unat w"] byte_lt [of b] by (simp add: unat_or)
qed

lemma unat_fold_shift_in:
  assumes "length bs \<le> 8"
  shows "unat (foldl (\<lambda>w b. push_bit 8 w OR ucast b) (0 :: u64) bs) = be_nat bs"
  using assms
proof (induction bs rule: rev_induct)
  case Nil
  then show ?case by simp
next
  case (snoc b bs)
  have "be_nat bs < 256 ^ length bs"
    by (rule be_nat_bound)
  also have "\<dots> \<le> 256 ^ 7"
    using snoc.prems by (intro power_increasing) auto
  finally have "be_nat bs < 2 ^ 56"
    by simp
  with snoc show ?case
    by (simp add: unat_shift_in)
qed

lemma unat_load64_be: "unat (load64 False bs) = be_nat (take 8 bs)"
  by (simp add: load64_def unat_fold_shift_in)

lemma unat_load64_le: "unat (load64 True bs) = be_nat (rev (take 8 bs))"
  by (simp add: load64_def unat_fold_shift_in)

lemma byte_of_be_nat:
  fixes w :: u64
  assumes "unat w = be_nat (xs @ b # ys)" and "n = 8 * length ys"
  shows "ucast (drop_bit n w) = b"
proof -
  have "be_nat (xs @ b # ys) div 2 ^ n = be_nat (xs @ [b])"
    using be_nat_div [of "xs @ [b]" ys] assms(2) by (simp add: power_mult)
  then show ?thesis
    using assms byte_lt [of b] by (simp add: word_unat_eq_iff unat_ops)
qed

lemma list8_exhaust:
  assumes "8 \<le> length s"
  obtains b0 b1 b2 b3 b4 b5 b6 b7 r where "s = b0 # b1 # b2 # b3 # b4 # b5 # b6 # b7 # r"
  using assms by (auto simp: numeral_eq_Suc Suc_le_length_iff)

lemma htobe64_load64:
  assumes "8 \<le> length s"
  shows "BASE64_HTOBE64 le (load64 le s) = load64 False s"
proof (cases le)
  case True
  obtain b0 b1 b2 b3 b4 b5 b6 b7 r where s: "s = b0 # b1 # b2 # b3 # b4 # b5 # b6 # b7 # r"
    using assms by (rule list8_exhaust)
  let ?w = "load64 True s"
  have w: "unat ?w = be_nat [b7, b6, b5, b4, b3, b2, b1, b0]"
    by (simp add: unat_load64_le s)
  have "map (\<lambda>i. ucast (drop_bit (8 * i) ?w)) [0..<8] = [b0, b1, b2, b3, b4, b5, b6, b7]"
    using byte_of_be_nat [of ?w "[b7, b6, b5, b4, b3, b2, b1]" b0 "[]"]
      byte_of_be_nat [of ?w "[b7, b6, b5, b4, b3, b2]" b1 "[b0]"]
      byte_of_be_nat [of ?w "[b7, b6, b5, b4, b3]" b2 "[b1, b0]"]
      byte_of_be_nat [of ?w "[b7, b6, b5, b4]" b3 "[b2, b1, b0]"]
      byte_of_be_nat [of ?w "[b7, b6, b5]" b4 "[b3, b2, b1, b0]"]
      byte_of_be_nat [of ?w "[b7, b6]" b5 "[b4, b3, b2, b1, b0]"]
      byte_of_be_nat [of ?w "[b7]" b6 "[b5, b4, b3, b2, b1, b0]"]
      byte_of_be_nat [of ?w "[]" b7 "[b6, b5, b4, b3, b2, b1, b0]"]
    by (simp add: w upt_rec)
  with True show ?thesis
    by (simp add: BASE64_HTOBE64_def bswap64_def load64_def s)
qed (simp add: BASE64_HTOBE64_def)

subsection \<open>A byte-at-a-time reference\<close>

text \<open>
  The reference encoder has no block loop: it reads one byte at a time, with the number of
  pending bytes and the pending bits as its state.
\<close>

fun b64_run :: "nat \<Rightarrow> byte \<Rightarrow> byte list \<Rightarrow> (nat \<times> byte) \<times> byte list" where
  "b64_run n c [] = ((n, c), [])"
| "b64_run 0 c (b # bs) =
     apsnd ((#) (enc6 (drop_bit 2 b))) (b64_run 1 (push_bit 4 b AND 0x30) bs)"
| "b64_run (Suc 0) c (b # bs) =
     apsnd ((#) (enc6 (c OR drop_bit 4 b))) (b64_run 2 (push_bit 2 b AND 0x3C) bs)"
| "b64_run (Suc (Suc n)) c (b # bs) =
     apsnd ((@) [enc6 (c OR drop_bit 6 b), enc6 (b AND 0x3F)]) (b64_run 0 c bs)"

lemma b64_run_2 [simp]:
  "b64_run 2 c (b # bs) =
     apsnd ((@) [enc6 (c OR drop_bit 6 b), enc6 (b AND 0x3F)]) (b64_run 0 c bs)"
  by (simp add: numeral_2_eq_2)

lemma b64_run_append:
  "b64_run n c (xs @ ys) =
     apsnd ((@) (snd (b64_run n c xs)))
       (b64_run (fst (fst (b64_run n c xs))) (snd (fst (b64_run n c xs))) ys)"
proof (induction n c xs rule: b64_run.induct)
  case (1 n c)
  then show ?case
    by (simp add: apsnd_def map_prod_def split: prod.splits)
qed (simp_all add: apsnd_def map_prod_def split: prod.splits)

lemma b64_run_pending: "n \<le> 2 \<Longrightarrow> fst (fst (b64_run n c bs)) = (n + length bs) mod 3"
proof (induction n c bs rule: b64_run.induct)
  case (4 n c b bs)
  then have "(2 + Suc (length bs)) mod 3 = length bs mod 3"
    by presburger
  with 4 show ?case by simp
qed auto

lemma b64_run_length:
  "n \<le> 2 \<Longrightarrow> length (snd (b64_run n c bs)) + n =
     4 * ((n + length bs) div 3) + (n + length bs) mod 3"
proof (induction n c bs rule: b64_run.induct)
  case (4 n c b bs)
  then have "(2 + Suc (length bs)) mod 3 = length bs mod 3"
    "(2 + Suc (length bs)) div 3 = Suc (length bs div 3)"
    by presburger+
  with 4 show ?case by simp
qed auto

lemma b64_run_0_carry: "snd (b64_run 0 c bs) = snd (b64_run 0 d bs)"
  "bs \<noteq> [] \<Longrightarrow> b64_run 0 c bs = b64_run 0 d bs"
  by (cases bs; simp)+

subsection \<open>The letters as arithmetic\<close>

lemma unat_hi2 [unat_ops]: "unat (push_bit 4 a AND 0x30 :: byte) = (unat a mod 4) * 16"
proof -
  have "push_bit 4 a AND 0x30 = push_bit 4 (a AND 3)"
    by (simp add: push_bit_and)
  then show ?thesis
    by (simp add: unat_ops del: push_bit_and)
qed

lemma unat_hi4 [unat_ops]: "unat (push_bit 2 a AND 0x3C :: byte) = (unat a mod 16) * 4"
proof -
  have "push_bit 2 a AND 0x3C = push_bit 2 (a AND 15)"
    by (simp add: push_bit_and)
  then show ?thesis
    by (simp add: unat_ops del: push_bit_and)
qed

lemma unat_sextet1: "unat ((push_bit 4 a AND 0x30) OR drop_bit 4 b :: byte) =
    (unat a mod 4) * 16 + unat b div 16"
  using or_nat_add [of "unat b div 16" 4 "unat a mod 4"] byte_lt [of b]
  by (simp add: unat_or unat_hi2 unat_drop_bit)

lemma unat_sextet2: "unat ((push_bit 2 a AND 0x3C) OR drop_bit 6 b :: byte) =
    (unat a mod 16) * 4 + unat b div 64"
  using or_nat_add [of "unat b div 64" 2 "unat a mod 16"] byte_lt [of b]
  by (simp add: unat_or unat_hi4 unat_drop_bit)

lemma unat_sextet0: "unat (drop_bit 2 b :: byte) = unat b div 4"
  by (simp add: unat_drop_bit)

lemma unat_sextet3: "unat (b AND 0x3F :: byte) = unat b mod 64"
  by (simp add: unat_ops)

lemmas unat_sextets = unat_sextet0 unat_sextet1 unat_sextet2 unat_sextet3

text \<open>The four 12-bit indices of a block are the pairs of its eight sextets.\<close>

lemma index_high:
  assumes "be_nat bs div 256 ^ k = x * 256 + y" and "y < 256"
  shows "(be_nat bs div (256 ^ k * 16)) mod 4096 = (x mod 256) * 16 + y div 16"
proof -
  have "be_nat bs div (256 ^ k * 16) = (x * 256 + y) div 16"
    by (simp only: div_mult2_eq assms(1))
  moreover have "(x * 256 + y) div 16 = x * 16 + y div 16"
    by simp
  moreover have "(x * 16 + y div 16) mod 4096 = (x mod 256) * 16 + y div 16"
    using digits_mod [of "y div 16" 16 x 256] assms(2) by simp
  ultimately show ?thesis
    by simp
qed

lemma index_low:
  fixes x y z :: nat
  assumes "y < 256" and "z < 256"
  shows "((x * 256 + y) * 256 + z) mod 4096 = (y mod 16) * 256 + z"
proof -
  have "(x * 256 + y) mod 16 = y mod 16"
    using mod_mult_self3 [of "x * 16" 16 y] by (simp add: mult.commute)
  then show ?thesis
    using digits_mod [of z 256 "x * 256 + y" 16] assms by simp
qed

lemma block_indices:
  assumes "s = b0 # b1 # b2 # b3 # b4 # b5 # b6 # b7 # r"
  shows "unat (drop_bit 52 (load64 False s) AND 0xFFF) = unat b0 * 16 + unat b1 div 16"
    and "unat (drop_bit 40 (load64 False s) AND 0xFFF) = (unat b1 mod 16) * 256 + unat b2"
    and "unat (drop_bit 28 (load64 False s) AND 0xFFF) = unat b3 * 16 + unat b4 div 16"
    and "unat (drop_bit 16 (load64 False s) AND 0xFFF) = (unat b4 mod 16) * 256 + unat b5"
proof -
  let ?bs = "[b0, b1, b2, b3, b4, b5, b6, b7]"
  note lt = byte_lt [of b0] byte_lt [of b1] byte_lt [of b2] byte_lt [of b3] byte_lt [of b4]
    byte_lt [of b5]
  have w: "unat (load64 False s) = be_nat ?bs"
    by (simp add: unat_load64_be assms)
  have d6: "be_nat ?bs div 256 ^ 6 = unat b0 * 256 + unat b1"
    using be_nat_div [of "[b0, b1]" "[b2, b3, b4, b5, b6, b7]"] by (simp add: be_nat_def)
  have d5: "be_nat ?bs div 256 ^ 5 = (unat b0 * 256 + unat b1) * 256 + unat b2"
    using be_nat_div [of "[b0, b1, b2]" "[b3, b4, b5, b6, b7]"] by (simp add: be_nat_def)
  have d3: "be_nat ?bs div 256 ^ 3 = be_nat [b0, b1, b2, b3] * 256 + unat b4"
    using be_nat_div [of "[b0, b1, b2, b3, b4]" "[b5, b6, b7]"] by (simp add: be_nat_def)
  have d2: "be_nat ?bs div 256 ^ 2 = (be_nat [b0, b1, b2, b3] * 256 + unat b4) * 256 + unat b5"
    using be_nat_div [of "[b0, b1, b2, b3, b4, b5]" "[b6, b7]"] by (simp add: be_nat_def)
  show "unat (drop_bit 52 (load64 False s) AND 0xFFF) = unat b0 * 16 + unat b1 div 16"
    using index_high [OF d6 lt(2)] lt by (simp add: unat_ops w)
  show "unat (drop_bit 40 (load64 False s) AND 0xFFF) = (unat b1 mod 16) * 256 + unat b2"
    using d5 index_low [OF lt(2,3), of "unat b0"] by (simp add: unat_ops w)
  have "be_nat [b0, b1, b2, b3] mod 256 = unat b3"
    using be_nat_snoc [of "[b0, b1, b2]" b3] lt by simp
  then show "unat (drop_bit 28 (load64 False s) AND 0xFFF) = unat b3 * 16 + unat b4 div 16"
    using index_high [OF d3 lt(5)] by (simp add: unat_ops w)
  show "unat (drop_bit 16 (load64 False s) AND 0xFFF) = (unat b4 mod 16) * 256 + unat b5"
    using d2 index_low [OF lt(5,6), of "be_nat [b0, b1, b2, b3]"] by (simp add: unat_ops w)
qed

lemma pair_entry:
  assumes "x < 256" and "y < 256"
  shows "store16 le (base64_table_enc_12bit le ! (x * 16 + y div 16)) =
      [base64_table_enc_6bit ! (x div 4), base64_table_enc_6bit ! ((x mod 4) * 16 + y div 16)]"
    and "store16 le (base64_table_enc_12bit le ! ((x mod 16) * 256 + y)) =
      [base64_table_enc_6bit ! ((x mod 16) * 4 + y div 64), base64_table_enc_6bit ! (y mod 64)]"
proof -
  have "x * 16 + y div 16 < 4096"
    using assms by simp
  moreover have "(x * 16 + y div 16) div 64 = x div 4"
    using digits_div [of "y div 16" 16 x 4] assms by simp
  moreover have "(x * 16 + y div 16) mod 64 = (x mod 4) * 16 + y div 16"
    using digits_mod [of "y div 16" 16 x 4] assms by simp
  ultimately show "store16 le (base64_table_enc_12bit le ! (x * 16 + y div 16)) =
      [base64_table_enc_6bit ! (x div 4), base64_table_enc_6bit ! ((x mod 4) * 16 + y div 16)]"
    by (simp add: base64_table_enc_12bit_pair)
  have "x mod 16 < 16"
    by simp
  then have "(x mod 16) * 256 + y < 4096"
    using assms by linarith
  moreover have "((x mod 16) * 256 + y) div 64 = (x mod 16) * 4 + y div 64"
    using div_mult_self3 [of 64 "(x mod 16) * 4" y] by simp
  moreover have "((x mod 16) * 256 + y) mod 64 = y mod 64"
    using mod_mult_self3 [of "(x mod 16) * 4" 64 y] by (simp add: mult.commute)
  ultimately show "store16 le (base64_table_enc_12bit le ! ((x mod 16) * 256 + y)) =
      [base64_table_enc_6bit ! ((x mod 16) * 4 + y div 64), base64_table_enc_6bit ! (y mod 64)]"
    by (simp add: base64_table_enc_12bit_pair)
qed

lemma enc_loop_generic_64_inner_run:
  assumes "8 \<le> length s"
  shows "enc_loop_generic_64_inner le (s, out) =
    Some (drop 6 s, out @ snd (b64_run 0 c (take 6 s)))"
    and "fst (fst (b64_run 0 c (take 6 s))) = 0"
proof -
  obtain b0 b1 b2 b3 b4 b5 b6 b7 r where s: "s = b0 # b1 # b2 # b3 # b4 # b5 # b6 # b7 # r"
    using assms by (rule list8_exhaust)
  show "enc_loop_generic_64_inner le (s, out) =
      Some (drop 6 s, out @ snd (b64_run 0 c (take 6 s)))"
    using assms
    by (simp add: enc_loop_generic_64_inner_def htobe64_load64 block_indices [OF s]
        pair_entry byte_lt Let_def)
      (simp add: s unat_sextets)
  show "fst (fst (b64_run 0 c (take 6 s))) = 0"
    by (simp add: s)
qed

subsection \<open>The block loop computes the reference\<close>

lemma inner_times_add:
  "inner_times (m + n) le p = Option.bind (inner_times m le p) (inner_times n le)"
  by (induction m arbitrary: p) (simp_all add: bind_assoc fun_eq_iff cong: bind_option_cong)

text \<open>The loop unrolled eight, four and two times is the plain loop.\<close>

lemma enc_rounds_eq: "0 < rounds \<Longrightarrow> enc_rounds rounds le p = inner_times rounds le p"
proof (induction rounds arbitrary: p rule: less_induct)
  case (less rounds)
  have split: "inner_times rounds le p = Option.bind (inner_times k le p)
      (\<lambda>q. if 0 < rounds - k then enc_rounds (rounds - k) le q else Some q)"
    if "k \<le> rounds" and "0 < k" for k
  proof -
    have "inner_times (rounds - k) le =
        (\<lambda>q. if 0 < rounds - k then enc_rounds (rounds - k) le q else Some q)"
      using less.IH [of "rounds - k"] that less.prems by auto
    then show ?thesis
      using that(1) inner_times_add [of k "rounds - k" le p] by simp
  qed
  consider "8 \<le> rounds" | "4 \<le> rounds" "\<not> 8 \<le> rounds" | "2 \<le> rounds" "\<not> 4 \<le> rounds"
    | "rounds = 1"
    using less.prems by linarith
  then show ?case
  proof cases
    case 4
    then show ?thesis
      by (cases "enc_loop_generic_64_inner le p") (simp_all add: enc_rounds.simps [of "Suc 0"])
  qed (simp_all add: enc_rounds.simps [of rounds] split)
qed

lemma inner_times_run:
  assumes "6 * n + 2 \<le> length s \<or> n = 0"
  shows "inner_times n le (s, out) = Some (drop (6 * n) s, out @ snd (b64_run 0 c (take (6 * n) s)))"
    and "fst (fst (b64_run 0 c (take (6 * n) s))) = 0"
  using assms
proof (induction n arbitrary: s out c)
  case (Suc n)
  {
    case 1
    have s: "8 \<le> length s" and n: "6 * n + 2 \<le> length (drop 6 s) \<or> n = 0"
      using 1 by auto
    have "take (6 * Suc n) s = take 6 s @ take (6 * n) (drop 6 s)"
      by (simp add: take_add)
    then show ?case
      using enc_loop_generic_64_inner_run(1) [OF s, of le out c]
        enc_loop_generic_64_inner_run(2) [OF s, of c] Suc.IH(1) [OF n, where c = "snd (fst (b64_run 0 c (take 6 s)))"]
      by (simp add: b64_run_append add.commute)
  next
    case 2
    have s: "8 \<le> length s" and n: "6 * n + 2 \<le> length (drop 6 s) \<or> n = 0"
      using 2 by auto
    have "take (6 * Suc n) s = take 6 s @ take (6 * n) (drop 6 s)"
      by (simp add: take_add)
    then show ?case
      using enc_loop_generic_64_inner_run(2) [OF s, of c] Suc.IH(2) [OF n]
      by (simp add: b64_run_append)
  }
qed simp_all

lemma enc_loop_generic_64_run:
  assumes "slen v \<le> length (s_ptr v)"
  obtains k where "enc_loop_generic_64 le v = Some (v\<lparr>s_ptr := drop k (s_ptr v), slen := slen v - k,
        o_buf := o_buf v @ snd (b64_run 0 c (take k (s_ptr v))),
        olen := olen v + length (snd (b64_run 0 c (take k (s_ptr v))))\<rparr>)"
    and "k \<le> slen v" and "fst (fst (b64_run 0 c (take k (s_ptr v)))) = 0"
proof (cases "slen v < 8")
  case True
  show ?thesis
    by (rule that [of 0]) (use True in \<open>simp_all add: enc_loop_generic_64_def\<close>)
next
  case False
  define r where "r = (slen v - 2) div 6"
  have r: "0 < r" "6 * r + 2 \<le> slen v"
    using False by (auto simp: r_def)
  then have run: "6 * r + 2 \<le> length (s_ptr v) \<or> r = 0"
    using assms by simp
  have "length (snd (b64_run 0 c (take (6 * r) (s_ptr v)))) = 4 * (6 * r div 3) + 6 * r mod 3"
    using b64_run_length [of 0 c "take (6 * r) (s_ptr v)"] r assms by (simp add: min_def)
  then have len: "length (snd (b64_run 0 c (take (6 * r) (s_ptr v)))) = 8 * r"
    by presburger
  show ?thesis
    by (rule that [of "6 * r"])
      (use False r run len inner_times_run(2) [OF run, of c] in \<open>simp_all add: enc_loop_generic_64_def enc_rounds_eq Let_def
         inner_times_run(1) [where c = c] r_def [symmetric] mult.commute\<close>)
qed

text \<open>What the loop computes, from any of its three entry points.\<close>

definition duff_post :: "nat \<Rightarrow> b64_vars \<Rightarrow> b64_vars \<Rightarrow> bool" where
  "duff_post label v v' \<longleftrightarrow>
     (let run = b64_run label (carry (st v)) (take (slen v) (s_ptr v)) in
      o_buf v' = o_buf v @ snd run \<and> olen v' = olen v + length (snd run) \<and>
      bytes (st v') = int (fst (fst run)) \<and>
      (fst (fst run) \<noteq> 0 \<longrightarrow> carry (st v') = snd (fst run)))"

lemma duff_run:
  assumes "slen v \<le> length (s_ptr v)" and "label \<le> 2" and "bytes (st v) = int label"
  shows "\<exists>v'. duff label le v = Some v' \<and> duff_post label v v'"
  using assms
proof (induction label le v rule: duff.induct)
  case (1 le v)
  let ?run = "b64_run 0 (carry (st v))"
  obtain k where k: "enc_loop_generic_64 le v = Some (v\<lparr>s_ptr := drop k (s_ptr v), slen := slen v - k,
        o_buf := o_buf v @ snd (?run (take k (s_ptr v))),
        olen := olen v + length (snd (?run (take k (s_ptr v))))\<rparr>)"
      "k \<le> slen v" "fst (fst (?run (take k (s_ptr v)))) = 0"
    using enc_loop_generic_64_run [OF "1.prems"(1)] by blast
  show ?case
  proof (cases "slen v = k")
    case True
    with k 1 show ?thesis
      by (simp add: duff_post_def Let_def)
  next
    case False
    then obtain b s where b: "drop k (s_ptr v) = b # s"
      using k(2) 1(2) by (cases "drop k (s_ptr v)") auto
    have "take (slen v) (s_ptr v) = take k (s_ptr v) @ take (slen v - k) (drop k (s_ptr v))"
      using k(2) by (metis le_add_diff_inverse take_add)
    then have tk: "take (slen v) (s_ptr v) = take k (s_ptr v) @ b # take (slen v - k - 1) s"
      using False k(2) b by (simp add: take_Cons')
    have "length (b # s) = length (s_ptr v) - k"
      by (metis b length_drop)
    then have "slen v - k - 1 \<le> length s"
      using "1.prems"(1) by simp
    moreover define w where "w = v\<lparr>slen := slen v - k - 1,
        o_buf := (o_buf v @ snd (?run (take k (s_ptr v)))) @ [enc6 (drop_bit 2 b)],
        s_ptr := s,
        st := (st v)\<lparr>carry := push_bit 4 b AND 0x30, bytes := bytes (st v) + 1\<rparr>,
        olen := olen v + length (snd (?run (take k (s_ptr v)))) + 1\<rparr>"
    ultimately have "\<exists>v'. duff 1 le w = Some v' \<and> duff_post 1 w v'"
      using "1.IH" [OF k(1), of b s] "1.prems" False k(2) b by (simp del: duff.simps)
    moreover have "duff 0 le v = duff 1 le w"
      using k(1,2) False b by (simp add: w_def del: duff.simps(2,3))
    ultimately obtain v' where "duff 0 le v = Some v'" "duff_post 1 w v'"
      by auto
    then show ?thesis
      using k(3) by (auto simp: duff_post_def Let_def tk b64_run_append w_def "1.prems"(3))
  qed
next
  case (2 le v)
  then show ?case
    by (cases "s_ptr v"; cases "slen v") (auto simp: duff_post_def Let_def)
next
  case (3 n le v)
  then show ?case
    by (cases "s_ptr v"; cases "slen v") (auto simp: duff_post_def Let_def)
qed

subsection \<open>The specification: RFC 4648\<close>

definition b64_letter :: "nat \<Rightarrow> byte" where
  "b64_letter n =
     (if n < 26 then of_nat (65 + n) else if n < 52 then of_nat (71 + n)
      else if n < 62 then of_nat (n - 4) else if n = 62 then 0x2B else 0x2F)"

fun b64_spec :: "byte list \<Rightarrow> byte list" where
  "b64_spec [] = []"
| "b64_spec [a] = [b64_letter (unat a div 4), b64_letter ((unat a mod 4) * 16), 0x3D, 0x3D]"
| "b64_spec [a, b] = [b64_letter (unat a div 4),
     b64_letter ((unat a mod 4) * 16 + unat b div 16), b64_letter ((unat b mod 16) * 4), 0x3D]"
| "b64_spec (a # b # c # r) = [b64_letter (unat a div 4),
     b64_letter ((unat a mod 4) * 16 + unat b div 16),
     b64_letter ((unat b mod 16) * 4 + unat c div 64), b64_letter (unat c mod 64)] @ b64_spec r"

text \<open>A decoder: the number of a letter, and a group of four letters at a time.\<close>

definition b64_number :: "byte \<Rightarrow> nat option" where
  "b64_number w =
     (let n = unat w in
      if 65 \<le> n \<and> n \<le> 90 then Some (n - 65) else if 97 \<le> n \<and> n \<le> 122 then Some (n - 71)
      else if 48 \<le> n \<and> n \<le> 57 then Some (n + 4) else if n = 43 then Some 62
      else if n = 47 then Some 63 else None)"

definition octet1 :: "nat \<Rightarrow> nat \<Rightarrow> byte" where
  "octet1 a b = of_nat (a * 4 + b div 16)"

definition octet2 :: "nat \<Rightarrow> nat \<Rightarrow> byte" where
  "octet2 b c = of_nat ((b mod 16) * 16 + c div 4)"

definition octet3 :: "nat \<Rightarrow> nat \<Rightarrow> byte" where
  "octet3 c d = of_nat ((c mod 4) * 64 + d)"

fun b64_decode :: "byte list \<Rightarrow> byte list option" where
  "b64_decode [] = Some []"
| "b64_decode (w # x # y # z # r) =
     (case (b64_number w, b64_number x) of
        (Some a, Some b) \<Rightarrow>
          if y = 0x3D \<and> z = 0x3D \<and> r = [] then Some [octet1 a b]
          else (case b64_number y of None \<Rightarrow> None | Some c \<Rightarrow>
            if z = 0x3D \<and> r = [] then Some [octet1 a b, octet2 b c]
            else (case (b64_number z, b64_decode r) of
                (Some d, Some bs) \<Rightarrow> Some (octet1 a b #
                   octet2 b c # octet3 c d # bs)
              | _ \<Rightarrow> None))
      | _ \<Rightarrow> None)"
| "b64_decode _ = None"

lemma all_less_64: "(\<forall>n < 64. P n) \<longleftrightarrow> list_all P [0..<64]"
  by (auto simp: list_all_iff)

lemma table_letter: "n < 64 \<Longrightarrow> base64_table_enc_6bit ! n = b64_letter n"
proof -
  have "\<forall>n < 64. base64_table_enc_6bit ! n = b64_letter n"
    unfolding all_less_64 by (simp add: upt_rec base64_table_enc_6bit_def b64_letter_def)
  then show "n < 64 \<Longrightarrow> base64_table_enc_6bit ! n = b64_letter n"
    by blast
qed

lemma number_letter: "n < 64 \<Longrightarrow> b64_number (b64_letter n) = Some n"
proof -
  have "\<forall>n < 64. b64_number (b64_letter n) = Some n"
    unfolding all_less_64 by (simp add: upt_rec b64_number_def b64_letter_def Let_def)
  then show "n < 64 \<Longrightarrow> b64_number (b64_letter n) = Some n"
    by blast
qed

lemma letter_not_pad: "n < 64 \<Longrightarrow> b64_letter n \<noteq> 0x3D"
  using number_letter [of n] by (auto simp: b64_number_def Let_def)

lemma sextet_bounds:
  "unat (a :: byte) div 4 < 64" "(unat a mod 4) * 16 + unat (b :: byte) div 16 < 64"
  "(unat a mod 16) * 4 + unat b div 64 < 64" "(unat a mod 4) * 16 < 64" "(unat a mod 16) * 4 < 64"
  "unat a mod 64 < 64"
proof -
  have m: "unat a mod 4 < 4" "unat a mod 16 < 16" "unat a mod 64 < 64"
    by simp_all
  show "unat a div 4 < 64" "(unat a mod 4) * 16 + unat b div 16 < 64"
    "(unat a mod 16) * 4 + unat b div 64 < 64" "(unat a mod 4) * 16 < 64"
    "(unat a mod 16) * 4 < 64" "unat a mod 64 < 64"
    using byte_lt [of a] byte_lt [of b] m by linarith+
qed

lemmas enc6_letter = table_letter unat_sextets unat_hi2 unat_hi4 sextet_bounds

definition trailer :: "nat \<times> byte \<Rightarrow> byte list" where
  "trailer = (\<lambda>(n, c). if n = 1 then [enc6 c, 0x3D, 0x3D] else if n = 2 then [enc6 c, 0x3D] else [])"

lemma b64_run_spec: "snd (b64_run 0 c bs) @ trailer (fst (b64_run 0 c bs)) = b64_spec bs"
proof (induction bs arbitrary: c rule: b64_spec.induct)
  case (4 a b d r)
  then show ?case
    by (simp add: enc6_letter)
qed (simp_all add: trailer_def enc6_letter)

lemma base64_stream_encode_plain_run:
  assumes "srclen \<le> length src" and "bytes state = int n" and "n \<le> 2"
  shows "\<exists>state'. base64_stream_encode_plain le state src srclen =
      Some (state', snd (b64_run n (carry state) (take srclen src)),
        length (snd (b64_run n (carry state) (take srclen src)))) \<and>
    bytes state' = int (fst (fst (b64_run n (carry state) (take srclen src)))) \<and>
    (bytes state' \<noteq> 0 \<longrightarrow> carry state' = snd (fst (b64_run n (carry state) (take srclen src))))"
proof -
  define v where "v = \<lparr>s_ptr = src, slen = srclen, o_buf = [], olen = 0, st = state\<rparr>"
  obtain v' where "duff n le v = Some v'" and post: "duff_post n v v'"
    using duff_run [of v n le] assms by (auto simp: v_def)
  moreover have "n = 0 \<or> n = 1 \<or> n = 2"
    using assms(3) by auto
  ultimately have "base64_stream_encode_plain le state src srclen =
      Some (state\<lparr>bytes := bytes (st v'), carry := carry (st v')\<rparr>, o_buf v', olen v')"
    using assms(2) by (auto simp: base64_stream_encode_plain_def v_def)
  with post show ?thesis
    by (auto simp: duff_post_def Let_def v_def)
qed

lemma base64_stream_encode_final_trailer:
  assumes "bytes state = int n" and "bytes state \<noteq> 0 \<longrightarrow> carry state = c"
  shows "base64_stream_encode_final state = (trailer (n, c), length (trailer (n, c)))"
  using assms by (auto simp: base64_stream_encode_final_def trailer_def)

lemma base64_encode_eq:
  assumes "srclen \<le> length src"
  shows "base64_encode le src srclen =
    Some (b64_spec (take srclen src), length (b64_spec (take srclen src)))"
proof -
  let ?run = "b64_run 0 0 (take srclen src)"
  obtain state' where "base64_stream_encode_plain le \<lparr>eof = 0, bytes = 0, carry = 0\<rparr> src srclen =
      Some (state', snd ?run, length (snd ?run))"
    and s': "bytes state' = int (fst (fst ?run))" "bytes state' \<noteq> 0 \<longrightarrow> carry state' = snd (fst ?run)"
    using base64_stream_encode_plain_run [OF assms, of "\<lparr>eof = 0, bytes = 0, carry = 0\<rparr>" 0 le] by auto
  moreover have "base64_stream_encode_final state' = (trailer (fst ?run), length (trailer (fst ?run)))"
    using base64_stream_encode_final_trailer [OF s'] by simp
  ultimately show ?thesis
    using b64_run_spec [of 0 "take srclen src"]
    by (simp add: base64_encode_def flip: length_append)
qed

lemma octet1_sextets:
  "octet1 (unat a div 4) ((unat a mod 4) * 16 + unat (b :: byte) div 16) = a"
  "octet1 (unat a div 4) ((unat a mod 4) * 16) = a"
proof -
  have "unat b div 16 < 16"
    using byte_lt [of b] by simp
  then show "octet1 (unat a div 4) ((unat a mod 4) * 16 + unat b div 16) = a"
    by (simp add: octet1_def mult.commute flip: of_nat_mult of_nat_add)
  show "octet1 (unat a div 4) ((unat a mod 4) * 16) = a"
    by (simp add: octet1_def mult.commute flip: of_nat_mult of_nat_add)
qed

lemma octet2_sextets:
  "octet2 ((unat (a :: byte) mod 4) * 16 + unat b div 16) ((unat b mod 16) * 4 + unat (c :: byte) div 64) = b"
  "octet2 ((unat a mod 4) * 16 + unat b div 16) ((unat b mod 16) * 4) = b"
proof -
  have "unat b div 16 < 16" "unat c div 64 < 4"
    using byte_lt [of b] byte_lt [of c] by simp_all
  then show "octet2 ((unat a mod 4) * 16 + unat b div 16) ((unat b mod 16) * 4 + unat c div 64) = b"
    "octet2 ((unat a mod 4) * 16 + unat b div 16) ((unat b mod 16) * 4) = b"
    by (simp_all add: octet2_def mult.commute flip: of_nat_mult of_nat_add)
qed

lemma octet3_sextets: "octet3 ((unat (b :: byte) mod 16) * 4 + unat c div 64) (unat c mod 64) = c"
proof -
  have "unat c div 64 < 4"
    using byte_lt [of c] by simp
  then show ?thesis
    by (simp add: octet3_def mult.commute flip: of_nat_mult of_nat_add)
qed

lemma b64_decode_spec: "b64_decode (b64_spec bs) = Some bs"
  by (induction bs rule: b64_spec.induct)
    (simp_all add: number_letter sextet_bounds letter_not_pad
      octet1_sextets octet2_sextets octet3_sextets)

lemma length_b64_spec: "length (b64_spec bs) = 4 * ((length bs + 2) div 3)"
  by (induction bs rule: b64_spec.induct) (simp_all, presburger)

subsection \<open>Properties\<close>

text \<open>
  Both versions of the 12-bit table are right: whatever the byte
  order of the machine, the two bytes that the block encoder copies from entry \<open>i\<close> are the
  letters of the upper and of the lower six bits of \<open>i\<close> in the 6-bit table.
\<close>

theorem base64_tables_correct:
  assumes "i < 4096"
  shows "store16 le (base64_table_enc_12bit le ! i) =
    [base64_table_enc_6bit ! (i div 64), base64_table_enc_6bit ! (i mod 64)]"
  using assms by (rule base64_table_enc_12bit_pair)

theorem base64_tables_correct_witness:
  "(4095 :: nat) < 4096 \<and> store16 True (base64_table_enc_12bit True ! 4095) =
    [base64_table_enc_6bit ! (4095 div 64), base64_table_enc_6bit ! (4095 mod 64)]"
  using base64_tables_correct [of 4095 True] by simp

text \<open>
  C1. On either byte order, the one-shot encoder (Duff's device, unrolled
  block loop, table lookups and trailer) never reads outside its input and writes exactly
  the RFC 4648 encoding, whose length it reports.
\<close>

theorem base64_encode_correct:
  "base64_encode le src (length src) = Some (b64_spec src, length (b64_spec src))"
  using base64_encode_eq [of "length src" src le] by simp

text \<open>
  C2. Decoding what the encoder wrote gives back the input.
\<close>

theorem base64_roundtrip:
  "map_option (\<lambda>(out, outlen). b64_decode (take outlen out)) (base64_encode le src (length src)) =
    Some (Some src)"
  using base64_encode_eq [of "length src" src le] by (simp add: b64_decode_spec)

text \<open>
  Streaming in two pieces is the same as streaming the whole: from any
  state with at most two pending bytes, encoding \<open>xs\<close> and then \<open>ys\<close> gives the same letters,
  the same length and the same trailer as encoding \<open>xs @ ys\<close>.
\<close>

theorem base64_stream_chunks:
  assumes "bytes state \<in> {0, 1, 2}"
  shows "\<exists>state1 out1 state2 out2 state3.
    base64_stream_encode_plain le state xs (length xs) = Some (state1, out1, length out1) \<and>
    base64_stream_encode_plain le state1 ys (length ys) = Some (state2, out2, length out2) \<and>
    base64_stream_encode_plain le state (xs @ ys) (length (xs @ ys)) =
      Some (state3, out1 @ out2, length out1 + length out2) \<and>
    base64_stream_encode_final state3 = base64_stream_encode_final state2"
proof -
  obtain n where n: "bytes state = int n" "n \<le> 2"
  proof (cases "bytes state = 0")
    case False
    then show ?thesis
      using assms that [of "nat (bytes state)"] by auto
  qed (use that [of 0] in simp)
  define r1 where "r1 = b64_run n (carry state) xs"
  define r2 where "r2 = b64_run (fst (fst r1)) (snd (fst r1)) ys"
  obtain state1 where p1: "base64_stream_encode_plain le state xs (length xs) =
      Some (state1, snd r1, length (snd r1))"
    and s1: "bytes state1 = int (fst (fst r1))" "bytes state1 \<noteq> 0 \<longrightarrow> carry state1 = snd (fst r1)"
    using base64_stream_encode_plain_run [OF order_refl n, where src = xs and le = le] by (auto simp: r1_def)
  have "fst (fst r1) \<le> 2"
    using b64_run_pending [OF n(2), of "carry state" xs] by (simp add: r1_def)
  have eq: "snd (b64_run (fst (fst r1)) (carry state1) ys) = snd r2"
    "fst (fst (b64_run (fst (fst r1)) (carry state1) ys)) = fst (fst r2)"
    "fst (fst r2) \<noteq> 0 \<longrightarrow> snd (fst (b64_run (fst (fst r1)) (carry state1) ys)) = snd (fst r2)"
    using s1 by (cases ys; cases "fst (fst r1)"; simp add: r2_def)+
  obtain state2 where p2: "base64_stream_encode_plain le state1 ys (length ys) =
      Some (state2, snd r2, length (snd r2))"
    and s2: "bytes state2 = int (fst (fst r2))" "bytes state2 \<noteq> 0 \<longrightarrow> carry state2 = snd (fst r2)"
    using base64_stream_encode_plain_run [OF order_refl s1(1) \<open>fst (fst r1) \<le> 2\<close>, where src = ys and le = le] eq
    by auto
  obtain state3 where p3: "base64_stream_encode_plain le state (xs @ ys) (length (xs @ ys)) =
      Some (state3, snd r1 @ snd r2, length (snd r1) + length (snd r2))"
    and s3: "bytes state3 = int (fst (fst r2))" "bytes state3 \<noteq> 0 \<longrightarrow> carry state3 = snd (fst r2)"
    using base64_stream_encode_plain_run [OF order_refl n, where src = "xs @ ys" and le = le]
    by (auto simp: b64_run_append r1_def r2_def)
  show ?thesis
    using p1 p2 p3 base64_stream_encode_final_trailer [OF s2] base64_stream_encode_final_trailer [OF s3]
    by auto
qed

theorem base64_stream_chunks_witness:
  "bytes \<lparr>eof = 0, bytes = 1, carry = 0x10\<rparr> \<in> {0, 1, 2} \<and>
   (\<exists>state1 out1 state2 out2 state3.
    base64_stream_encode_plain True \<lparr>eof = 0, bytes = 1, carry = 0x10\<rparr> [0x61, 0x62] (length [0x61, 0x62 :: byte]) =
      Some (state1, out1, length out1) \<and>
    base64_stream_encode_plain True state1 [0x63] (length [0x63 :: byte]) = Some (state2, out2, length out2) \<and>
    base64_stream_encode_plain True \<lparr>eof = 0, bytes = 1, carry = 0x10\<rparr> ([0x61, 0x62] @ [0x63])
      (length ([0x61, 0x62] @ [0x63 :: byte])) = Some (state3, out1 @ out2, length out1 + length out2) \<and>
    base64_stream_encode_final state3 = base64_stream_encode_final state2)"
proof
  show b: "bytes \<lparr>eof = 0, bytes = 1, carry = 0x10\<rparr> \<in> {0, 1, 2}"
    by simp
  show "\<exists>state1 out1 state2 out2 state3.
    base64_stream_encode_plain True \<lparr>eof = 0, bytes = 1, carry = 0x10\<rparr> [0x61, 0x62] (length [0x61, 0x62 :: byte]) =
      Some (state1, out1, length out1) \<and>
    base64_stream_encode_plain True state1 [0x63] (length [0x63 :: byte]) = Some (state2, out2, length out2) \<and>
    base64_stream_encode_plain True \<lparr>eof = 0, bytes = 1, carry = 0x10\<rparr> ([0x61, 0x62] @ [0x63])
      (length ([0x61, 0x62] @ [0x63 :: byte])) = Some (state3, out1 @ out2, length out1 + length out2) \<and>
    base64_stream_encode_final state3 = base64_stream_encode_final state2"
    by (rule base64_stream_chunks [OF b])
qed

end
