(* ===== verification/Utf16_Utf8.thy ===== *)
theory Utf16_Utf8
  imports Prelude
begin

text \<open>
  The transcoder of \<^verbatim>\<open>src/main/c/utf16_utf8.c\<close>: reading one code point of a UTF-16 and of
  a UTF-8 buffer, writing one code point in either form, and the two conversions between
  the strings of the JVM and the strings of libddwaf.
\<close>

subsection \<open>Reading and writing one code point\<close>

definition UTF16_LEAD :: "jchar \<Rightarrow> bool" where
  "UTF16_LEAD c \<longleftrightarrow> 0xD800 \<le> c \<and> c \<le> 0xDBFF"

definition UTF16_TRAIL :: "jchar \<Rightarrow> bool" where
  "UTF16_TRAIL c \<longleftrightarrow> 0xDC00 \<le> c \<and> c \<le> 0xDFFF"

definition UTF8_LEAD :: "byte \<Rightarrow> bool" where
  "UTF8_LEAD c \<longleftrightarrow> c < 0x80 \<or> (0xC2 \<le> c \<and> c \<le> 0xF4)"

definition UTF8_TRAIL :: "byte \<Rightarrow> bool" where
  "UTF8_TRAIL c \<longleftrightarrow> 0x80 \<le> c \<and> c \<le> 0xBF"

definition REPL_CHAR :: u32 where
  "REPL_CHAR = 0xFFFD"

definition CHECK_LEN :: "nat \<Rightarrow> nat \<Rightarrow> nat \<Rightarrow> bool" where
  "CHECK_LEN str_len pos chars_need \<longleftrightarrow> chars_need \<le> str_len - pos"

text \<open>The reading functions return the code point, the new cursor and the status.\<close>

definition MB_FAILURE :: "nat \<Rightarrow> nat \<Rightarrow> u32 \<times> nat \<times> bool" where
  "MB_FAILURE pos advance = (0, pos + advance, False)"

definition utf16_codepoint :: "jchar \<Rightarrow> jchar \<Rightarrow> u32" where
  "utf16_codepoint c c2 = 0x10000 + ((ucast c - 0xD800) * 0x400 + (ucast c2 - 0xDC00))"

definition get_next_codepoint_utf16 :: "jchar list \<Rightarrow> nat \<Rightarrow> nat \<Rightarrow> u32 \<times> nat \<times> bool" where
  "get_next_codepoint_utf16 str str_len cursor =
     (let pos = cursor in
      if \<not> CHECK_LEN str_len pos 1 then MB_FAILURE pos 1
      else
        let c = str ! pos in
        if \<not> UTF16_LEAD c then
          (if UTF16_TRAIL c then MB_FAILURE pos 1 else (ucast c, pos + 1, True))
        else if \<not> CHECK_LEN str_len pos 2 then MB_FAILURE pos 1
        else
          let c2 = str ! (pos + 1) in
          if \<not> UTF16_TRAIL c2 then MB_FAILURE pos 1
          else (utf16_codepoint c c2, pos + 2, True))"

text \<open>The code points of two, three and four bytes.\<close>

definition utf8_codepoint2 :: "byte \<Rightarrow> byte \<Rightarrow> u32" where
  "utf8_codepoint2 c d = push_bit 6 (ucast c AND 0x1F) OR (ucast d AND 0x3F)"

definition utf8_codepoint3 :: "byte \<Rightarrow> byte \<Rightarrow> byte \<Rightarrow> u32" where
  "utf8_codepoint3 c d e =
     push_bit 12 (ucast c AND 0x0F) OR push_bit 6 (ucast d AND 0x3F) OR (ucast e AND 0x3F)"

definition utf8_codepoint4 :: "byte \<Rightarrow> byte \<Rightarrow> byte \<Rightarrow> byte \<Rightarrow> u32" where
  "utf8_codepoint4 c d e f =
     push_bit 18 (ucast c AND 0x07) OR push_bit 12 (ucast d AND 0x3F) OR
     push_bit 6 (ucast e AND 0x3F) OR (ucast f AND 0x3F)"

definition get_next_codepoint_utf8 :: "byte list \<Rightarrow> nat \<Rightarrow> nat \<Rightarrow> u32 \<times> nat \<times> bool" where
  "get_next_codepoint_utf8 str str_len cursor =
     (let pos = cursor; c = str ! pos; avail = str_len - pos in
      if c < 0x80 then (ucast c, pos + 1, True)
      else if c < 0xC2 then MB_FAILURE pos 1
      else if c < 0xE0 then
        (if \<not> CHECK_LEN str_len pos 2 then MB_FAILURE pos 1
         else if \<not> UTF8_TRAIL (str ! (pos + 1)) then
           MB_FAILURE pos (if UTF8_LEAD (str ! (pos + 1)) then 1 else 2)
         else
           let codepoint = utf8_codepoint2 c (str ! (pos + 1)) in
           if codepoint < 0x80 then MB_FAILURE pos 2 else (codepoint, pos + 2, True))
      else if c < 0xF0 then
        (if avail < 3 \<or> \<not> UTF8_TRAIL (str ! (pos + 1)) \<or> \<not> UTF8_TRAIL (str ! (pos + 2)) then
           (if avail < 2 \<or> UTF8_LEAD (str ! (pos + 1)) then MB_FAILURE pos 1
            else if avail < 3 \<or> UTF8_LEAD (str ! (pos + 2)) then MB_FAILURE pos 2
            else MB_FAILURE pos 3)
         else
           let codepoint = utf8_codepoint3 c (str ! (pos + 1)) (str ! (pos + 2)) in
           if codepoint < 0x800 then MB_FAILURE pos 3
           else if 0xD800 \<le> codepoint \<and> codepoint \<le> 0xDFFF then MB_FAILURE pos 3
           else (codepoint, pos + 3, True))
      else if c < 0xF5 then
        (if avail < 4 \<or> \<not> UTF8_TRAIL (str ! (pos + 1)) \<or> \<not> UTF8_TRAIL (str ! (pos + 2)) \<or>
            \<not> UTF8_TRAIL (str ! (pos + 3)) then
           (if avail < 2 \<or> UTF8_LEAD (str ! (pos + 1)) then MB_FAILURE pos 1
            else if avail < 3 \<or> UTF8_LEAD (str ! (pos + 2)) then MB_FAILURE pos 2
            else if avail < 4 \<or> UTF8_LEAD (str ! (pos + 3)) then MB_FAILURE pos 3
            else MB_FAILURE pos 4)
         else
           let codepoint =
                 utf8_codepoint4 c (str ! (pos + 1)) (str ! (pos + 2)) (str ! (pos + 3)) in
           if codepoint < 0x10000 \<or> 0x10FFFF < codepoint then MB_FAILURE pos 4
           else (codepoint, pos + 4, True))
      else MB_FAILURE pos 1)"

text \<open>The writing functions return the code units they store at the start of the buffer.\<close>

definition write_utf8_codeunits :: "u32 \<Rightarrow> byte list" where
  "write_utf8_codeunits k =
     (if k < 0x80 then [ucast k]
      else if k < 0x800 then [ucast (0xC0 OR drop_bit 6 k), 0x80 OR ucast (k AND 0x3F)]
      else if k < 0x10000 then
        [ucast (0xE0 OR drop_bit 12 k), 0x80 OR ucast (drop_bit 6 k AND 0x3F),
         0x80 OR ucast (k AND 0x3F)]
      else
        [ucast (0xF0 OR drop_bit 18 k), 0x80 OR ucast (drop_bit 12 k AND 0x3F),
         0x80 OR ucast (drop_bit 6 k AND 0x3F), 0x80 OR ucast (k AND 0x3F)])"

definition write_utf16_codeunits :: "u32 \<Rightarrow> jchar list" where
  "write_utf16_codeunits k =
     (if k < 0x10000 then [ucast k]
      else [0xD800 OR ucast (drop_bit 10 (k AND 0xFFFF)), 0xDC00 OR ucast (k AND 0x3FF)])"

subsection \<open>The unsigned values of what is read and written\<close>

lemmas word_order = word_less_nat_alt word_le_nat_alt

lemma unat_ucast_byte [simp]: "unat (ucast (b :: byte) :: u32) = unat b"
  using byte_lt [of b] by (simp add: unat_ucast_mod)

lemma unat_ucast_jchar [simp]: "unat (ucast (c :: jchar) :: u32) = unat c"
  using jchar_lt [of c] by (simp add: unat_ucast_mod)

lemma unat_shifted: "x < 2 ^ m \<Longrightarrow> m + n \<le> 32 \<Longrightarrow> (x :: nat) * 2 ^ n mod 2 ^ 32 = x * 2 ^ n"
proof -
  assume "x < 2 ^ m" and le: "m + n \<le> 32"
  then have "x * 2 ^ n < 2 ^ m * 2 ^ n"
    by simp
  also have "\<dots> \<le> 2 ^ 32"
    unfolding power_add [symmetric] using le by (intro power_increasing) auto
  finally show ?thesis
    by (rule mod_less)
qed

lemma unat_utf8_codepoint2:
  "unat (utf8_codepoint2 c d) = (unat c mod 32) * 64 + unat d mod 64"
  using or_nat_add [of "unat d mod 64" 6 "unat c mod 32"] unat_shifted [of "unat c mod 32" 5 6]
  by (simp add: utf8_codepoint2_def unat_ops del: push_bit_and)

lemma unat_utf8_codepoint3:
  "unat (utf8_codepoint3 c d e) = (unat c mod 16) * 4096 + (unat d mod 64) * 64 + unat e mod 64"
proof -
  have "unat d mod 64 < 64" "unat e mod 64 < 64"
    by simp_all
  then have "unat d mod 64 * 64 + unat e mod 64 < 2 ^ 12"
    by simp
  then show ?thesis
    using or_nat_add [of "unat e mod 64" 6 "unat d mod 64"]
      or_nat_add [of "unat d mod 64 * 64 + unat e mod 64" 12 "unat c mod 16"]
      unat_shifted [of "unat c mod 16" 4 12] unat_shifted [of "unat d mod 64" 6 6]
    by (simp add: utf8_codepoint3_def unat_ops del: push_bit_and)
qed

lemma unat_utf8_codepoint4:
  "unat (utf8_codepoint4 c d e f) =
     (unat c mod 8) * 262144 + (unat d mod 64) * 4096 + (unat e mod 64) * 64 + unat f mod 64"
proof -
  have "unat d mod 64 < 64" "unat e mod 64 < 64" "unat f mod 64 < 64"
    by simp_all
  then have "unat e mod 64 * 64 + unat f mod 64 < 2 ^ 12"
    "unat d mod 64 * 4096 + (unat e mod 64 * 64 + unat f mod 64) < 2 ^ 18"
    by simp_all
  then show ?thesis
    using or_nat_add [of "unat f mod 64" 6 "unat e mod 64"]
      or_nat_add [of "unat e mod 64 * 64 + unat f mod 64" 12 "unat d mod 64"]
      or_nat_add [of "unat d mod 64 * 4096 + (unat e mod 64 * 64 + unat f mod 64)" 18 "unat c mod 8"]
      unat_shifted [of "unat c mod 8" 3 18] unat_shifted [of "unat d mod 64" 6 12]
      unat_shifted [of "unat e mod 64" 6 6]
    by (simp add: utf8_codepoint4_def unat_ops del: push_bit_and)
qed

lemmas unat_codepoints = unat_utf8_codepoint2 unat_utf8_codepoint3 unat_utf8_codepoint4

lemma unat_trail: "unat (0x80 OR ucast (x AND 0x3F :: u32) :: byte) = 128 + unat x mod 64"
proof -
  have "unat (ucast (x AND 0x3F) :: byte) = unat x mod 64"
    by (simp add: unat_ops)
  then show ?thesis
    using or_nat_add [of "unat x mod 64" 6 2] by (simp add: unat_or)
qed

lemma unat_lead2:
  assumes "unat (k :: u32) < 0x800"
  shows "unat (ucast (0xC0 OR drop_bit 6 k) :: byte) = 192 + unat k div 64"
proof -
  have "unat k div 64 < 32"
    using assms by simp
  then show ?thesis
    using or_nat_add [of "unat k div 64" 6 3] by (simp add: unat_ops)
qed

lemma unat_lead3:
  assumes "unat (k :: u32) < 0x10000"
  shows "unat (ucast (0xE0 OR drop_bit 12 k) :: byte) = 224 + unat k div 4096"
proof -
  have "unat k div 4096 < 16"
    using assms by simp
  then show ?thesis
    using or_nat_add [of "unat k div 4096" 5 7] by (simp add: unat_ops)
qed

lemma unat_lead4:
  assumes "unat (k :: u32) < 0x200000"
  shows "unat (ucast (0xF0 OR drop_bit 18 k) :: byte) = 240 + unat k div 262144"
proof -
  have "unat k div 262144 < 8"
    using assms by simp
  then show ?thesis
    using or_nat_add [of "unat k div 262144" 4 15] by (simp add: unat_ops)
qed

lemmas unat_leads = unat_lead2 unat_lead3 unat_lead4

text \<open>Unicode scalar values.\<close>

definition scalar :: "u32 \<Rightarrow> bool" where
  "scalar k \<longleftrightarrow> k \<le> 0x10FFFF \<and> \<not> (0xD800 \<le> k \<and> k \<le> 0xDFFF)"

subsection \<open>Reading UTF-8\<close>

lemma nth_drop_eq:
  assumes "drop n xs = ys" and "i < length ys"
  shows "xs ! (n + i) = ys ! i"
  using assms nth_drop [of n xs i] by (metis drop_all linorder_not_less list.size(3) not_less0 less_imp_le_nat)

lemma lead_bits:
  "q < 32 \<Longrightarrow> (192 + q) mod 32 = q" "q < 16 \<Longrightarrow> (224 + q) mod 16 = q"
  "q < 8 \<Longrightarrow> (240 + q) mod 8 = q" "(128 + r mod 64) mod 64 = r mod 64"
  for q r :: nat
  using mod_mult_self3 [of 6 32 q] mod_mult_self3 [of 14 16 q] mod_mult_self3 [of 30 8 q]
    mod_mult_self3 [of 2 64 "r mod 64"]
  by simp_all

lemma sextet_le: "r mod 64 \<le> 63" for r :: nat
  using mod_less_divisor [of 64 r] by linarith

lemma sextets_join:
  "n div 64 * 64 + n mod 64 = n"
  "n div 4096 * 4096 + (n div 64 mod 64) * 64 + n mod 64 = n"
  "n div 262144 * 262144 + (n div 4096 mod 64) * 4096 + (n div 64 mod 64) * 64 + n mod 64 = n"
  for n :: nat
proof -
  have 1: "n div 64 * 64 + n mod 64 = n" for n :: nat
    by simp
  have 2: "n div 4096 * 64 + n div 64 mod 64 = n div 64" for n :: nat
    using 1 [of "n div 64"] by (simp add: div_mult2_eq [symmetric])
  have 3: "n div 262144 * 64 + n div 4096 mod 64 = n div 4096"
    using 1 [of "n div 4096"] by (simp add: div_mult2_eq [symmetric])
  show "n div 64 * 64 + n mod 64 = n"
    "n div 4096 * 4096 + (n div 64 mod 64) * 64 + n mod 64 = n"
    "n div 262144 * 262144 + (n div 4096 mod 64) * 4096 + (n div 64 mod 64) * 64 + n mod 64 = n"
    using 1 [of n] 2 [of n] 3 by linarith+
qed

lemma utf8_read_write:
  assumes "scalar k" and "drop cursor str = write_utf8_codeunits k @ rest"
    and "cursor + length (write_utf8_codeunits k) \<le> str_len"
  shows "get_next_codepoint_utf8 str str_len cursor =
    (k, cursor + length (write_utf8_codeunits k), True)"
proof -
  have nth: "str ! (cursor + i) = (write_utf8_codeunits k @ rest) ! i"
    if "i < length (write_utf8_codeunits k)" for i
    using nth_drop_eq [OF assms(2)] that by simp
  have s: "unat k \<le> 0x10FFFF" "\<not> (0xD800 \<le> unat k \<and> unat k \<le> 0xDFFF)"
    using assms(1) by (simp_all add: scalar_def word_order)
  note defs = get_next_codepoint_utf8_def CHECK_LEN_def UTF8_TRAIL_def word_order Let_def
    unat_leads unat_trail unat_codepoints word_unat_eq_iff lead_bits sextet_le sextets_join unat_drop_bit
  consider "unat k < 0x80" | "0x80 \<le> unat k" "unat k < 0x800"
    | "0x800 \<le> unat k" "unat k < 0x10000" | "0x10000 \<le> unat k"
    by linarith
  then show ?thesis
  proof cases
    case 1
    then have "write_utf8_codeunits k = [ucast k]"
      by (simp add: write_utf8_codeunits_def word_order)
    then show ?thesis
      using nth [of 0] 1
      by (simp add: get_next_codepoint_utf8_def word_order unat_ucast_mod word_unat_eq_iff)
  next
    case 2
    then have w: "write_utf8_codeunits k = [ucast (0xC0 OR drop_bit 6 k), 0x80 OR ucast (k AND 0x3F)]"
      by (simp add: write_utf8_codeunits_def word_order)
    have "unat k div 64 < 32" "2 \<le> unat k div 64" "2 \<le> str_len - cursor"
      using 2 assms(3) by (simp_all add: w)
    then show ?thesis
      using nth [of 0] nth [of 1] 2 by (simp add: w defs)
  next
    case 3
    then have w: "write_utf8_codeunits k = [ucast (0xE0 OR drop_bit 12 k),
        0x80 OR ucast (drop_bit 6 k AND 0x3F), 0x80 OR ucast (k AND 0x3F)]"
      by (simp add: write_utf8_codeunits_def word_order)
    have "unat k div 4096 < 16" "3 \<le> str_len - cursor"
      using 3 assms(3) by (simp_all add: w)
    then show ?thesis
      using nth [of 0] nth [of 1] nth [of 2] 3 s by (auto simp: w defs)
  next
    case 4
    then have w: "write_utf8_codeunits k = [ucast (0xF0 OR drop_bit 18 k),
         0x80 OR ucast (drop_bit 12 k AND 0x3F), 0x80 OR ucast (drop_bit 6 k AND 0x3F),
         0x80 OR ucast (k AND 0x3F)]"
      by (simp add: write_utf8_codeunits_def word_order)
    have "unat k div 262144 < 5" "4 \<le> str_len - cursor" "unat k < 0x200000"
      using s assms(3) by (simp_all add: w)
    then show ?thesis
      using nth [of 0] nth [of 1] nth [of 2] nth [of 3] 4 s by (simp add: w defs)
  qed
qed

lemma utf8_progress:
  assumes "cursor < str_len" and "get_next_codepoint_utf8 str str_len cursor = (cp, cursor', ok)"
  shows "cursor < cursor'" and "cursor' \<le> str_len" and "cursor' \<le> cursor + 4"
    and "\<not> ok \<Longrightarrow> cp = 0"
proof -
  have "cursor < cursor' \<and> cursor' \<le> str_len \<and> cursor' \<le> cursor + 4 \<and> (ok \<or> cp = 0)"
    using assms unfolding get_next_codepoint_utf8_def MB_FAILURE_def Let_def CHECK_LEN_def
    by (simp split: if_split_asm; linarith)
  then show "cursor < cursor'" "cursor' \<le> str_len" "cursor' \<le> cursor + 4" "\<not> ok \<Longrightarrow> cp = 0"
    by auto
qed

text \<open>What is read successfully is the encoding of a scalar value, byte for byte.\<close>

lemma UTF8_TRAIL_unat:
  assumes "UTF8_TRAIL d"
  obtains y where "unat d = 128 + y" and "y < 64"
  using assms that [of "unat d - 128"] by (auto simp: UTF8_TRAIL_def word_order)

lemma write_codepoint2:
  assumes "0xC2 \<le> c" and "c < 0xE0" and "UTF8_TRAIL d"
  shows "write_utf8_codeunits (utf8_codepoint2 c d) = [c, d]"
    and "scalar (utf8_codepoint2 c d)"
proof -
  define x where "x = unat c - 192"
  have x: "unat c = 192 + x" "2 \<le> x" "x < 32"
    using assms(1,2) by (auto simp: x_def word_order)
  obtain y where y: "unat d = 128 + y" "y < 64"
    using assms(3) by (rule UTF8_TRAIL_unat)
  have cp: "unat (utf8_codepoint2 c d) = x * 64 + y"
    using x y lead_bits(1) [of x] lead_bits(4) [of y] by (simp add: unat_codepoints)
  then show "write_utf8_codeunits (utf8_codepoint2 c d) = [c, d]"
    using x y by (simp add: write_utf8_codeunits_def word_order word_unat_eq_iff unat_leads unat_trail)
  show "scalar (utf8_codepoint2 c d)"
    using x y by (simp add: scalar_def word_order cp)
qed

lemma write_codepoint3:
  assumes "0xE0 \<le> c" and "c < 0xF0" and "UTF8_TRAIL d" and "UTF8_TRAIL e"
    and "\<not> utf8_codepoint3 c d e < 0x800"
  shows "write_utf8_codeunits (utf8_codepoint3 c d e) = [c, d, e]"
    and "utf8_codepoint3 c d e \<le> 0xFFFF"
proof -
  define x where "x = unat c - 224"
  have x: "unat c = 224 + x" "x < 16"
    using assms(1,2) by (auto simp: x_def word_order)
  obtain y where y: "unat d = 128 + y" "y < 64"
    using assms(3) by (rule UTF8_TRAIL_unat)
  obtain z where z: "unat e = 128 + z" "z < 64"
    using assms(4) by (rule UTF8_TRAIL_unat)
  have cp: "unat (utf8_codepoint3 c d e) = (x * 64 + y) * 64 + z"
    using x y z lead_bits(2) [of x] lead_bits(4) [of y] lead_bits(4) [of z]
    by (simp add: unat_codepoints)
  have "((x * 64 + y) * 64 + z) div 4096 = x"
    using digits_div [of z 64 "x * 64 + y" 64] y z by simp
  moreover have "((x * 64 + y) * 64 + z) div 64 = x * 64 + y" "((x * 64 + y) * 64 + z) mod 64 = z"
    using digits_div [of z 64 "x * 64 + y" 1] digits_mod [of z 64 "x * 64 + y" 1] z by simp_all
  ultimately show "write_utf8_codeunits (utf8_codepoint3 c d e) = [c, d, e]"
    using x y z assms(5) cp
    by (simp add: write_utf8_codeunits_def word_order word_unat_eq_iff unat_leads unat_trail
        unat_drop_bit)
  show "utf8_codepoint3 c d e \<le> 0xFFFF"
    using x y z by (simp add: word_order cp)
qed

lemma write_codepoint4:
  assumes "0xF0 \<le> c" and "c < 0xF5" and "UTF8_TRAIL d" and "UTF8_TRAIL e" and "UTF8_TRAIL f"
    and "\<not> (utf8_codepoint4 c d e f < 0x10000 \<or> 0x10FFFF < utf8_codepoint4 c d e f)"
  shows "write_utf8_codeunits (utf8_codepoint4 c d e f) = [c, d, e, f]"
proof -
  define x where "x = unat c - 240"
  have x: "unat c = 240 + x" "x < 8"
    using assms(1,2) by (auto simp: x_def word_order)
  obtain y where y: "unat d = 128 + y" "y < 64"
    using assms(3) by (rule UTF8_TRAIL_unat)
  obtain z where z: "unat e = 128 + z" "z < 64"
    using assms(4) by (rule UTF8_TRAIL_unat)
  obtain u where u: "unat f = 128 + u" "u < 64"
    using assms(5) by (rule UTF8_TRAIL_unat)
  let ?n = "((x * 64 + y) * 64 + z) * 64 + u"
  have cp: "unat (utf8_codepoint4 c d e f) = ?n"
    using x y z u lead_bits(3) [of x] lead_bits(4) [of y] lead_bits(4) [of z] lead_bits(4) [of u]
    by (simp add: unat_codepoints)
  have "?n div 4096 = x * 64 + y"
    using digits_div [of u 64 "(x * 64 + y) * 64 + z" 64] y z u by simp
  moreover have "?n div 262144 = ?n div 4096 div 64"
    by (simp add: div_mult2_eq [symmetric])
  moreover have "?n div 64 = (x * 64 + y) * 64 + z" "?n mod 64 = u"
    using digits_div [of u 64 "(x * 64 + y) * 64 + z" 1]
      digits_mod [of u 64 "(x * 64 + y) * 64 + z" 1] u by simp_all
  moreover have "((x * 64 + y) * 64 + z) mod 64 = z"
    using digits_mod [of z 64 "x * 64 + y" 1] z by simp
  ultimately show ?thesis
    using x y z u assms(6) cp
    by (simp add: write_utf8_codeunits_def word_order word_unat_eq_iff unat_leads unat_trail
        unat_drop_bit)
qed

lemma take_drop_nth: "n + k \<le> length xs \<Longrightarrow> take k (drop n xs) = map (\<lambda>i. xs ! (n + i)) [0..<k]"
  by (rule nth_equalityI) auto

lemma take_drop_nths:
  "n + 1 \<le> length xs \<Longrightarrow> take 1 (drop n xs) = [xs ! n]"
  "n + 2 \<le> length xs \<Longrightarrow> take 2 (drop n xs) = [xs ! n, xs ! (n + 1)]"
  "n + 3 \<le> length xs \<Longrightarrow> take 3 (drop n xs) = [xs ! n, xs ! (n + 1), xs ! (n + 2)]"
  "n + 4 \<le> length xs \<Longrightarrow> take 4 (drop n xs) = [xs ! n, xs ! (n + 1), xs ! (n + 2), xs ! (n + 3)]"
  by (simp_all only: take_drop_nth) (simp_all add: upt_rec eval_nat_numeral)

lemma utf8_read_sound:
  assumes "cursor < str_len" and "str_len \<le> length str"
    and "get_next_codepoint_utf8 str str_len cursor = (cp, cursor', True)"
  shows "scalar cp" and "take (cursor' - cursor) (drop cursor str) = write_utf8_codeunits cp"
proof -
  let ?c = "str ! cursor" and ?d = "str ! (cursor + 1)" and ?e = "str ! (cursor + 2)"
    and ?f = "str ! (cursor + 3)"
  consider "?c < 0x80" | "\<not> ?c < 0x80" "?c < 0xC2" | "0xC2 \<le> ?c" "?c < 0xE0"
    | "0xE0 \<le> ?c" "?c < 0xF0" | "0xF0 \<le> ?c" "?c < 0xF5" | "0xF5 \<le> ?c"
    by force
  then have "scalar cp \<and> take (cursor' - cursor) (drop cursor str) = write_utf8_codeunits cp"
  proof cases
    case 1
    then have "cp = ucast ?c" "cursor' = cursor + 1"
      using assms(3) by (simp_all add: get_next_codepoint_utf8_def Let_def)
    then show ?thesis
      using 1 assms(1,2) by (simp add: scalar_def write_utf8_codeunits_def word_order
          word_unat_eq_iff unat_ucast_mod take_drop_nth)
  next
    case 2
    then show ?thesis
      using assms(3) by (simp add: get_next_codepoint_utf8_def Let_def MB_FAILURE_def)
  next
    case 3
    then have "\<not> ?c < 0x80" "\<not> ?c < 0xC2"
      by (auto simp: word_order)
    then have r: "CHECK_LEN str_len cursor 2" "UTF8_TRAIL ?d" "cp = utf8_codepoint2 ?c ?d" "cursor' = cursor + 2"
      using assms(3) 3 by (auto simp: get_next_codepoint_utf8_def Let_def MB_FAILURE_def split: if_splits)
    then show ?thesis
      using write_codepoint2 [OF 3 r(2)] assms(2)
      by (simp add: take_drop_nths CHECK_LEN_def)
  next
    case 4
    then have "\<not> ?c < 0x80" "\<not> ?c < 0xC2" "\<not> ?c < 0xE0"
      by (auto simp: word_order)
    then have r: "\<not> str_len - cursor < 3" "UTF8_TRAIL ?d" "UTF8_TRAIL ?e"
      "\<not> utf8_codepoint3 ?c ?d ?e < 0x800" "cp = utf8_codepoint3 ?c ?d ?e" "cursor' = cursor + 3"
      "\<not> (0xD800 \<le> cp \<and> cp \<le> 0xDFFF)"
      using assms(3) 4 by (auto simp: get_next_codepoint_utf8_def Let_def MB_FAILURE_def split: if_splits)
    then show ?thesis
      using write_codepoint3 [OF 4 r(2,3,4)] assms(2)
      by (simp add: take_drop_nths scalar_def word_order)
  next
    case 5
    then have "\<not> ?c < 0x80" "\<not> ?c < 0xC2" "\<not> ?c < 0xE0" "\<not> ?c < 0xF0"
      by (auto simp: word_order)
    then have r: "\<not> str_len - cursor < 4" "UTF8_TRAIL ?d" "UTF8_TRAIL ?e" "UTF8_TRAIL ?f"
      "\<not> (utf8_codepoint4 ?c ?d ?e ?f < 0x10000 \<or> 0x10FFFF < utf8_codepoint4 ?c ?d ?e ?f)"
      "cp = utf8_codepoint4 ?c ?d ?e ?f" "cursor' = cursor + 4"
      using assms(3) 5 by (auto simp: get_next_codepoint_utf8_def Let_def MB_FAILURE_def split: if_splits)
    then show ?thesis
      using write_codepoint4 [OF 5 r(2,3,4,5)] assms(2)
      by (simp add: take_drop_nths scalar_def word_order)
  next
    case 6
    then have "\<not> ?c < 0x80" "\<not> ?c < 0xC2" "\<not> ?c < 0xE0" "\<not> ?c < 0xF0" "\<not> ?c < 0xF5"
      by (auto simp: word_order)
    then show ?thesis
      using assms(3) by (simp add: get_next_codepoint_utf8_def Let_def MB_FAILURE_def)
  qed
  then show "scalar cp" "take (cursor' - cursor) (drop cursor str) = write_utf8_codeunits cp"
    by auto
qed

text \<open>A rejected sequence swallows no byte that could start a character.\<close>

lemma utf8_skip:
  assumes "get_next_codepoint_utf8 str str_len cursor = (cp, cursor', False)"
    and "cursor < i" and "i < cursor'"
  shows "\<not> UTF8_LEAD (str ! i)"
proof -
  have nl: "\<not> UTF8_LEAD d" if "UTF8_TRAIL d" for d
    using that by (auto simp: UTF8_LEAD_def UTF8_TRAIL_def word_order)
  consider "i = cursor + 1" | "i = cursor + 2" | "i = cursor + 3" | "cursor + 4 \<le> i"
    using assms(2) by linarith
  then show ?thesis
    using assms(1,3)
    by cases (auto simp: get_next_codepoint_utf8_def Let_def MB_FAILURE_def dest: nl split: if_splits)
qed

subsection \<open>Reading UTF-16\<close>

lemma unat_utf16_pair:
  assumes "UTF16_LEAD c" and "UTF16_TRAIL d"
  shows "unat (utf16_codepoint c d) =
    0x10000 + (unat c - 0xD800) * 0x400 + (unat d - 0xDC00)"
proof -
  have c: "0xD800 \<le> unat c" "unat c \<le> 0xDBFF" and d: "0xDC00 \<le> unat d" "unat d \<le> 0xDFFF"
    using assms by (simp_all add: UTF16_LEAD_def UTF16_TRAIL_def word_order)
  have sub: "unat (ucast c - 0xD800 :: u32) = unat c - 0xD800"
    "unat (ucast d - 0xDC00 :: u32) = unat d - 0xDC00"
    using c d by (simp_all add: unat_sub word_order)
  have "unat (0x10000 + (x * 0x400 + y)) = 0x10000 + unat x * 0x400 + unat y"
    if "unat x < 0x400" "unat y < 0x400" for x y :: u32
    using that by (simp add: unat_word_ariths)
  from this [of "ucast c - 0xD800" "ucast d - 0xDC00"] show ?thesis
    unfolding sub utf16_codepoint_def using c d by linarith
qed

lemma write_utf16_unats:
  assumes "0x10000 \<le> k"
  obtains c d where "write_utf16_codeunits k = [c, d]" and "UTF16_LEAD c" and "UTF16_TRAIL d"
    and "unat c = 0xD800 + unat k div 1024 mod 64" and "unat d = 0xDC00 + unat k mod 1024"
proof -
  have lt: "unat k div 1024 mod 64 < 64" "unat k mod 1024 < 1024"
    by simp_all
  have hi: "unat (0xD800 OR ucast (drop_bit 10 (k AND 0xFFFF)) :: jchar) = 0xD800 + unat k div 1024 mod 64"
    using or_nat_add [of "unat k div 1024 mod 64" 10 54] lt by (simp add: unat_ops)
  have lo: "unat (0xDC00 OR ucast (k AND 0x3FF) :: jchar) = 0xDC00 + unat k mod 1024"
    using or_nat_add [of "unat k mod 1024" 10 55] lt by (simp add: unat_ops)
  show ?thesis
    by (rule that [OF _ _ _ hi lo])
      (use assms hi lo lt in \<open>simp_all add: write_utf16_codeunits_def UTF16_LEAD_def UTF16_TRAIL_def word_order\<close>)
qed

lemma utf16_progress:
  assumes "cursor < str_len" and "get_next_codepoint_utf16 str str_len cursor = (cp, cursor', ok)"
  shows "cursor < cursor'" and "cursor' \<le> str_len"
    and "length (write_utf8_codeunits (if ok then cp else REPL_CHAR)) \<le> 3 * (cursor' - cursor)"
proof -
  have "cursor < cursor' \<and> cursor' \<le> str_len \<and>
      (cursor' = cursor + 2 \<or> cursor' = cursor + 1 \<and> (ok \<longrightarrow> cp < 0x10000))"
    using assms jchar_lt [of "str ! cursor"]
    unfolding get_next_codepoint_utf16_def MB_FAILURE_def Let_def CHECK_LEN_def
    by (auto simp: word_order split: if_split_asm)
  then show "cursor < cursor'" "cursor' \<le> str_len"
    "length (write_utf8_codeunits (if ok then cp else REPL_CHAR)) \<le> 3 * (cursor' - cursor)"
    by (auto simp: write_utf8_codeunits_def REPL_CHAR_def)
qed

subsection \<open>The conversions\<close>

text \<open>
  \<^verbatim>\<open>java_utf16_to_utf8_checked\<close>: \<open>out\<close> holds the bytes written so far, so that its length is
  \<^verbatim>\<open>out_len\<close>; the buffer has room for \<open>out_cap + 1\<close> bytes. The first allocation is the
  \<^verbatim>\<open>malloc\<close>, the others are the \<^verbatim>\<open>realloc\<close>s; \<open>n\<close> counts them.
\<close>

function utf16_to_utf8_loop ::
    "allocator \<Rightarrow> nat \<Rightarrow> jchar list \<Rightarrow> nat \<Rightarrow> nat \<Rightarrow> byte list \<Rightarrow> nat \<Rightarrow> fault + byte list \<times> nat"
where
  "utf16_to_utf8_loop alloc n inp len in_cursor out out_cap =
     (if in_cursor < len then
        let out_left = out_cap - length out;
            grow = out_left < 4;
            out_cap' = (if grow then (out_cap * 2) mod 2 ^ 64 else out_cap)
        in
        if grow \<and> \<not> alloc n (out_cap' + 1) then Inl out_of_memory
        else
          (case get_next_codepoint_utf16 inp len in_cursor of (cp, in_cursor', status) \<Rightarrow>
             let units = write_utf8_codeunits (if \<not> status then REPL_CHAR else cp) in
             if out_cap' + 1 < length out + length units then Inl OutOfBounds
             else utf16_to_utf8_loop alloc (if grow then n + 1 else n) inp len in_cursor'
                    (out @ units) out_cap')
      else Inr (out, out_cap))"
  by pat_completeness auto
termination
  by (relation "measure (\<lambda>(alloc, n, inp, len, in_cursor, out, out_cap). len - in_cursor)")
    (auto dest: utf16_progress(1) [OF _ sym] intro: diff_less_mono2)

declare utf16_to_utf8_loop.simps [simp del]

definition java_utf16_to_utf8_checked ::
    "allocator \<Rightarrow> jchar list \<Rightarrow> nat \<Rightarrow> fault + byte list \<times> nat" where
  "java_utf16_to_utf8_checked alloc inp len =
     (let out_cap = len + 3 in
      if \<not> alloc 0 (out_cap + 1) then Inl out_of_memory
      else (case utf16_to_utf8_loop alloc 1 inp len 0 [] out_cap of
          Inl e \<Rightarrow> Inl e
        | Inr (out, out_cap') \<Rightarrow>
            if length out < out_cap' + 1 then Inr (out @ [0], length out) else Inl OutOfBounds))"

text \<open>
  \<^verbatim>\<open>java_utf8_to_jstring_checked\<close>: allocation 0 is the \<^verbatim>\<open>malloc\<close> of the code units,
  allocation 1 is the one of \<^verbatim>\<open>NewString\<close> in the JVM. A Java string is the list of its code
  units.
\<close>

function utf8_to_utf16_loop ::
    "byte list \<Rightarrow> nat \<Rightarrow> nat \<Rightarrow> jchar list \<Rightarrow> nat \<Rightarrow> fault + jchar list"
where
  "utf8_to_utf16_loop inp in_len in_cursor out out_cap =
     (if in_cursor < in_len then
        (case get_next_codepoint_utf8 inp in_len in_cursor of (cp0, in_cursor', status) \<Rightarrow>
           let cp = (if \<not> status then REPL_CHAR else cp0) in
           if out_cap < length out + 1 \<or> (0xFFFF < cp \<and> out_cap < length out + 2) then
             Inl (Pending (RuntimeException ''output string is unexpectedly too short''))
           else utf8_to_utf16_loop inp in_len in_cursor' (out @ write_utf16_codeunits cp) out_cap)
      else Inr out)"
  by pat_completeness auto
termination
  by (relation "measure (\<lambda>(inp, in_len, in_cursor, out, out_cap). in_len - in_cursor)")
    (auto dest: utf8_progress(1) [OF _ sym] intro: diff_less_mono2)

declare utf8_to_utf16_loop.simps [simp del]

definition INT_MAX :: nat where
  "INT_MAX = 2 ^ 31 - 1"

definition java_utf8_to_jstring_checked ::
    "allocator \<Rightarrow> byte list \<Rightarrow> nat \<Rightarrow> fault + jchar list" where
  "java_utf8_to_jstring_checked alloc inp in_len =
     (let out_cap = in_len in
      if (2 ^ 64 - 1) div 2 - 1 < out_cap then
        Inl (Pending (RuntimeException ''string is too large''))
      else if \<not> alloc 0 ((out_cap + 1) * 2) then Inl out_of_memory
      else (case utf8_to_utf16_loop inp in_len 0 [] out_cap of
          Inl e \<Rightarrow> Inl e
        | Inr out \<Rightarrow>
            if INT_MAX < length out then Inl (Pending (RuntimeException ''string is too long''))
            else if alloc 1 (2 * length out) then Inr out
            else Inl (Pending OutOfMemoryError)))"

subsection \<open>The code points of a buffer\<close>

text \<open>
  The code points of a UTF-16 string, with the replacement character for every surrogate
  that is not part of a pair.
\<close>

fun decode16 :: "jchar list \<Rightarrow> u32 list" where
  "decode16 [] = []"
| "decode16 [c] = [if UTF16_LEAD c \<or> UTF16_TRAIL c then REPL_CHAR else ucast c]"
| "decode16 (c # d # r) =
     (if UTF16_LEAD c \<and> UTF16_TRAIL d then
        utf16_codepoint c d # decode16 r
      else (if UTF16_LEAD c \<or> UTF16_TRAIL c then REPL_CHAR else ucast c) # decode16 (d # r))"

lemma decode16_next:
  assumes "cursor < str_len" and "str_len \<le> length str"
    and "get_next_codepoint_utf16 str str_len cursor = (cp, cursor', ok)"
  shows "decode16 (drop cursor (take str_len str)) =
    (if ok then cp else REPL_CHAR) # decode16 (drop cursor' (take str_len str))"
proof -
  let ?s = "take str_len str"
  have d: "drop cursor ?s = str ! cursor # drop (cursor + 1) ?s"
    using assms(1,2) by (simp add: Cons_nth_drop_Suc [symmetric])
  show ?thesis
  proof (cases "cursor + 1 < str_len")
    case True
    then have "drop (cursor + 1) ?s = str ! (cursor + 1) # drop (cursor + 2) ?s"
      using assms(2) by (simp add: Cons_nth_drop_Suc [symmetric])
    with d True assms show ?thesis
      by (auto simp: get_next_codepoint_utf16_def MB_FAILURE_def CHECK_LEN_def Let_def split: if_splits)
  next
    case False
    then have "drop (cursor + 1) ?s = []"
      using assms(2) by simp
    with d False assms show ?thesis
      by (auto simp: get_next_codepoint_utf16_def MB_FAILURE_def CHECK_LEN_def Let_def split: if_splits)
  qed
qed

text \<open>The code points of a UTF-8 buffer, as the reader finds them.\<close>

function decode8 :: "byte list \<Rightarrow> nat \<Rightarrow> u32 list" where
  "decode8 bs cursor =
     (if cursor < length bs then
        (case get_next_codepoint_utf8 bs (length bs) cursor of (cp, cursor', ok) \<Rightarrow>
           (if ok then cp else REPL_CHAR) # decode8 bs cursor')
      else [])"
  by pat_completeness auto
termination
  by (relation "measure (\<lambda>(bs, cursor). length bs - cursor)")
    (auto dest: utf8_progress(1) [OF _ sym] intro: diff_less_mono2)

declare decode8.simps [simp del]

definition utf8_of :: "jchar list \<Rightarrow> byte list" where
  "utf8_of s = concat (map write_utf8_codeunits (decode16 s))"

definition utf16_of :: "byte list \<Rightarrow> jchar list" where
  "utf16_of bs = concat (map write_utf16_codeunits (decode8 bs 0))"

subsection \<open>The conversions compute what they should\<close>

lemma length_write_utf8: "length (write_utf8_codeunits k) \<le> 4"
  by (simp add: write_utf8_codeunits_def)

text \<open>
  The invariant of the loop: there is always room for one more code point and the terminator
  after growing, and the capacity stays far from the end of the range of \<^verbatim>\<open>size_t\<close>.
\<close>

definition utf16_inv :: "nat \<Rightarrow> nat \<Rightarrow> byte list \<Rightarrow> nat \<Rightarrow> bool" where
  "utf16_inv len in_cursor out out_cap \<longleftrightarrow>
     in_cursor \<le> len \<and> length out \<le> out_cap \<and> (len = 0 \<or> 4 \<le> out_cap) \<and>
     length out \<le> 3 * in_cursor \<and> out_cap \<le> 6 * len + 8"

lemma utf16_loop_step:
  assumes inv: "utf16_inv len in_cursor out out_cap" and "in_cursor < len" and "len < 2 ^ 31"
    and g: "get_next_codepoint_utf16 inp len in_cursor = (cp, cur, ok)"
    and units: "units = write_utf8_codeunits (if ok then cp else REPL_CHAR)"
    and cap: "cap = (if out_cap - length out < 4 then out_cap * 2 else out_cap)"
  shows "utf16_to_utf8_loop alloc n inp len in_cursor out out_cap =
      (if out_cap - length out < 4 \<and> \<not> alloc n (cap + 1) then Inl out_of_memory
       else utf16_to_utf8_loop alloc (if out_cap - length out < 4 then n + 1 else n) inp len cur
         (out @ units) cap)"
    and "utf16_inv len cur (out @ units) cap"
proof -
  have u: "length units \<le> 4" "length units \<le> 3 * (cur - in_cursor)" "in_cursor < cur" "cur \<le> len"
    using utf16_progress [OF assms(2) g] length_write_utf8 by (simp_all add: units)
  have "cap < 2 ^ 64" and room: "length out + 4 \<le> cap" and le: "cap \<le> 6 * len + 8"
    using inv assms(2,3) by (auto simp: cap utf16_inv_def)
  then have m: "(if out_cap - length out < 4 then (out_cap * 2) mod 2 ^ 64 else out_cap) = cap"
    by (auto simp: cap)
  have un: "write_utf8_codeunits (if \<not> ok then REPL_CHAR else cp) = units"
    by (simp add: units)
  show "utf16_to_utf8_loop alloc n inp len in_cursor out out_cap =
      (if out_cap - length out < 4 \<and> \<not> alloc n (cap + 1) then Inl out_of_memory
       else utf16_to_utf8_loop alloc (if out_cap - length out < 4 then n + 1 else n) inp len cur
         (out @ units) cap)"
    using assms(2) u(1) room
    by (subst utf16_to_utf8_loop.simps) (simp add: m Let_def g un del: power_numeral)
  show "utf16_inv len cur (out @ units) cap"
    using u room le inv assms(2) by (auto simp: utf16_inv_def)
qed

lemma utf16_to_utf8_loop_eq:
  assumes "utf16_inv len in_cursor out out_cap" and "len \<le> length inp" and "len < 2 ^ 31"
  shows "utf16_to_utf8_loop alloc n inp len in_cursor out out_cap = Inl out_of_memory \<and>
      (\<exists>n size. \<not> alloc n size) \<or>
    (\<exists>cap. utf16_to_utf8_loop alloc n inp len in_cursor out out_cap =
        Inr (out @ utf8_of (drop in_cursor (take len inp)), cap) \<and>
      length (out @ utf8_of (drop in_cursor (take len inp))) \<le> cap)"
  using assms(1)
proof (induction "len - in_cursor" arbitrary: n in_cursor out out_cap rule: less_induct)
  case less
  show ?case
  proof (cases "in_cursor < len")
    case True
    obtain cp cur ok where g: "get_next_codepoint_utf16 inp len in_cursor = (cp, cur, ok)"
      using prod_cases3 by blast
    note step = utf16_loop_step [OF less.prems True assms(3) g refl refl]
    have "len - cur < len - in_cursor"
      using utf16_progress [OF True g] by simp
    note IH = less.hyps [OF this step(2)]
    have dec: "utf8_of (drop in_cursor (take len inp)) =
        write_utf8_codeunits (if ok then cp else REPL_CHAR) @ utf8_of (drop cur (take len inp))"
      using decode16_next [OF True assms(2) g] by (simp add: utf8_of_def)
    show ?thesis
      unfolding step(1) dec append_assoc [symmetric] using IH by auto
  next
    case False
    with less.prems assms(2) show ?thesis
      by (subst (1 2) utf16_to_utf8_loop.simps) (simp add: utf16_inv_def utf8_of_def)
  qed
qed

lemma utf8_units:
  assumes "cursor < str_len" and "str_len \<le> length str"
    and "get_next_codepoint_utf8 str str_len cursor = (cp, cursor', ok)"
  shows "length (write_utf16_codeunits (if ok then cp else REPL_CHAR)) \<le> cursor' - cursor"
    and "0xFFFF < (if ok then cp else REPL_CHAR) \<Longrightarrow> cursor + 2 \<le> cursor'"
proof -
  have "length (take (cursor' - cursor) (drop cursor str)) = cursor' - cursor"
    using utf8_progress(2) [OF assms(1,3)] assms(2) by simp
  then have "length (write_utf8_codeunits cp) = cursor' - cursor" if ok
    using utf8_read_sound(2) [OF assms(1,2), of cp cursor'] assms(3) that by simp
  moreover have "2 \<le> length (write_utf8_codeunits cp)" if "0xFFFF < cp"
    using that by (auto simp: write_utf8_codeunits_def word_order)
  ultimately show
    "length (write_utf16_codeunits (if ok then cp else REPL_CHAR)) \<le> cursor' - cursor"
    "0xFFFF < (if ok then cp else REPL_CHAR) \<Longrightarrow> cursor + 2 \<le> cursor'"
    using utf8_progress [OF assms(1,3)]
    by (auto simp: write_utf16_codeunits_def REPL_CHAR_def word_order split: if_splits)
qed

lemma length_decode8:
  "length (concat (map write_utf16_codeunits (decode8 bs cursor))) \<le> length bs - cursor"
proof (induction bs cursor rule: decode8.induct)
  case (1 bs cursor)
  show ?case
  proof (cases "cursor < length bs")
    case True
    obtain cp cur ok where g: "get_next_codepoint_utf8 bs (length bs) cursor = (cp, cur, ok)"
      using prod_cases3 by blast
    have "length (concat (map write_utf16_codeunits (decode8 bs cur))) \<le> length bs - cur"
      using 1 [OF True g [symmetric] refl] .
    then show ?thesis
      using True g utf8_units(1) [OF True order_refl g] utf8_progress(1,2) [OF True g]
      by (subst decode8.simps) simp
  qed (subst decode8.simps, simp)
qed

lemma utf8_to_utf16_loop_eq:
  assumes "length out \<le> in_cursor" and "out_cap = length inp"
  shows "utf8_to_utf16_loop inp (length inp) in_cursor out out_cap =
      Inr (out @ concat (map write_utf16_codeunits (decode8 inp in_cursor)))"
  using assms
proof (induction inp in_cursor arbitrary: out rule: decode8.induct)
  case (1 inp in_cursor)
  show ?case
  proof (cases "in_cursor < length inp")
    case True
    obtain cp cur ok where g: "get_next_codepoint_utf8 inp (length inp) in_cursor = (cp, cur, ok)"
      using prod_cases3 by blast
    have "length (out @ write_utf16_codeunits (if ok then cp else REPL_CHAR)) \<le> cur"
      using utf8_units(1) [OF True order_refl g] utf8_progress(1) [OF True g] 1(2) by simp
    note IH = 1(1) [OF True g [symmetric] refl this 1(3)]
    have "length out + 1 \<le> out_cap"
      using True 1(2,3) by linarith
    moreover have "length out + 2 \<le> out_cap" if "0xFFFF < (if ok then cp else REPL_CHAR)"
      using utf8_units(2) [OF True order_refl g that] utf8_progress(2) [OF True g] 1(2,3)
      by linarith
    ultimately show ?thesis
      using IH True g
      by (subst utf8_to_utf16_loop.simps, subst decode8.simps) (auto simp: Let_def)
  qed (subst utf8_to_utf16_loop.simps, subst decode8.simps, simp)
qed

subsection \<open>Round trips\<close>

lemma decode8_write:
  assumes "\<forall>k \<in> set ks. scalar k"
  shows "decode8 (pre @ concat (map write_utf8_codeunits ks)) (length pre) = ks"
  using assms
proof (induction ks arbitrary: pre)
  case Nil
  then show ?case by (subst decode8.simps) simp
next
  case (Cons k ks)
  let ?w = "write_utf8_codeunits k" and ?r = "concat (map write_utf8_codeunits ks)"
  have "0 < length ?w"
    by (simp add: write_utf8_codeunits_def)
  moreover have "get_next_codepoint_utf8 (pre @ ?w @ ?r) (length (pre @ ?w @ ?r)) (length pre) =
      (k, length pre + length ?w, True)"
    by (rule utf8_read_write [where rest = ?r]) (use Cons.prems in auto)
  moreover have "decode8 (pre @ ?w @ ?r) (length pre + length ?w) = ks"
    using Cons.IH [of "pre @ ?w"] Cons.prems by simp
  ultimately show ?case
    by (subst decode8.simps) simp
qed

lemma pair_scalar:
  assumes "UTF16_LEAD c" and "UTF16_TRAIL d"
  shows "scalar (utf16_codepoint c d)"
    and "0x10000 \<le> utf16_codepoint c d"
proof -
  have "unat c \<le> 0xDBFF" "unat d \<le> 0xDFFF"
    using assms by (simp_all add: UTF16_LEAD_def UTF16_TRAIL_def word_order)
  then show "scalar (utf16_codepoint c d)"
    "0x10000 \<le> utf16_codepoint c d"
    unfolding scalar_def word_order unat_utf16_pair [OF assms] by simp_all
qed

lemma unit_scalar: "\<not> UTF16_LEAD c \<Longrightarrow> \<not> UTF16_TRAIL c \<Longrightarrow> scalar (ucast c)"
  using jchar_lt [of c]
  by (auto simp: scalar_def UTF16_LEAD_def UTF16_TRAIL_def word_order)

lemma repl_scalar: "scalar REPL_CHAR"
  by (simp add: scalar_def REPL_CHAR_def)

lemma decode16_scalar: "\<forall>k \<in> set (decode16 s). scalar k"
proof (induction s rule: decode16.induct)
  case (3 c d r)
  then show ?case
    by (auto simp: pair_scalar unit_scalar repl_scalar)
qed (auto simp: unit_scalar repl_scalar)

lemma decode8_utf8_of: "decode8 (utf8_of s) 0 = decode16 s"
  using decode8_write [OF decode16_scalar, of "[]" s] by (simp add: utf8_of_def)

text \<open>Well-formed UTF-16: every surrogate belongs to a pair.\<close>

fun wf16 :: "jchar list \<Rightarrow> bool" where
  "wf16 [] \<longleftrightarrow> True"
| "wf16 [c] \<longleftrightarrow> \<not> UTF16_LEAD c \<and> \<not> UTF16_TRAIL c"
| "wf16 (c # d # r) \<longleftrightarrow>
     (if UTF16_LEAD c then UTF16_TRAIL d \<and> wf16 r else \<not> UTF16_TRAIL c \<and> wf16 (d # r))"

lemma write_pair:
  assumes "UTF16_LEAD c" and "UTF16_TRAIL d"
    and lt: "utf16_codepoint c d < 0x20000"
  shows "write_utf16_codeunits (utf16_codepoint c d) = [c, d]"
proof -
  let ?k = "utf16_codepoint c d"
  have c: "0xD800 \<le> unat c" and d: "0xDC00 \<le> unat d" "unat d \<le> 0xDFFF"
    using assms by (simp_all add: UTF16_LEAD_def UTF16_TRAIL_def word_order)
  obtain h where h: "unat c = 0xD800 + h"
    using c le_Suc_ex by blast
  obtain l where l: "unat d = 0xDC00 + l" "l < 1024"
    using d le_Suc_ex by fastforce
  have k: "unat ?k = (64 + h) * 1024 + l"
    unfolding unat_utf16_pair [OF assms(1,2)] h l by simp
  have "h < 64"
    using lt k by (simp only: word_order) (simp)
  moreover obtain c' d' where w: "write_utf16_codeunits ?k = [c', d']"
    "unat c' = 0xD800 + unat ?k div 1024 mod 64" "unat d' = 0xDC00 + unat ?k mod 1024"
    using write_utf16_unats [OF pair_scalar(2) [OF assms(1,2)]] by blast
  moreover have "unat ?k div 1024 = 64 + h" "unat ?k mod 1024 = l"
    using digits_div [of l 1024 "64 + h" 1] digits_mod [of l 1024 "64 + h" 1] l by (simp_all add: k)
  ultimately have "unat c' = unat c" "unat d' = unat d"
    using l h by simp_all
  then show ?thesis
    using w(1) by (simp add: word_unat_eq_iff)
qed

lemma write16_decode16:
  assumes "wf16 s" and "\<forall>k \<in> set (decode16 s). k < 0x20000"
  shows "concat (map write_utf16_codeunits (decode16 s)) = s"
  using assms
proof (induction s rule: decode16.induct)
  case (3 c d r)
  have one: "write_utf16_codeunits (ucast c) = [c]"
    using jchar_lt [of c] by (simp add: write_utf16_codeunits_def word_order word_unat_eq_iff unat_ucast_mod)
  show ?case
    using 3 by (cases "UTF16_LEAD c") (simp_all add: one write_pair)
qed (auto simp: write_utf16_codeunits_def word_order word_unat_eq_iff unat_ucast_mod jchar_lt)

lemma utf16_inv_init: "utf16_inv len 0 [] (len + 3)"
  by (cases len) (simp_all add: utf16_inv_def)

lemma java_utf16_to_utf8_checked_eq:
  assumes "len \<le> length inp" and "len < 2 ^ 31"
  shows "java_utf16_to_utf8_checked alloc inp len = Inl out_of_memory \<and> (\<exists>n size. \<not> alloc n size) \<or>
    java_utf16_to_utf8_checked alloc inp len =
      Inr (utf8_of (take len inp) @ [0], length (utf8_of (take len inp)))"
  using utf16_to_utf8_loop_eq [OF utf16_inv_init assms, of alloc 1]
  by (auto simp: java_utf16_to_utf8_checked_def)

lemma length_utf16_of: "length (utf16_of bs) \<le> length bs"
  using length_decode8 [of bs 0] by (simp add: utf16_of_def)

lemma java_utf8_to_jstring_checked_eq:
  "java_utf8_to_jstring_checked alloc inp (length inp) =
    (if (2 ^ 64 - 1) div 2 - 1 < length inp then Inl (Pending (RuntimeException ''string is too large''))
     else if \<not> alloc 0 ((length inp + 1) * 2) then Inl out_of_memory
     else if INT_MAX < length (utf16_of inp) then Inl (Pending (RuntimeException ''string is too long''))
     else if alloc 1 (2 * length (utf16_of inp)) then Inr (utf16_of inp)
     else Inl (Pending OutOfMemoryError))"
  by (simp add: java_utf8_to_jstring_checked_def utf8_to_utf16_loop_eq utf16_of_def)

lemma length_utf8_of: "length (utf8_of s) \<le> 3 * length s"
proof (induction s rule: decode16.induct)
  case (3 c d r)
  have "length (write_utf8_codeunits (ucast c)) \<le> 3"
    using jchar_lt [of c] by (simp add: write_utf8_codeunits_def word_order)
  moreover have "length (write_utf8_codeunits REPL_CHAR) = 3"
    by (simp add: write_utf8_codeunits_def REPL_CHAR_def)
  moreover have "length (write_utf8_codeunits (utf16_codepoint c d)) \<le> 4"
    by (rule length_write_utf8)
  ultimately show ?case
    using 3 by (auto simp: utf8_of_def)
qed (auto simp: utf8_of_def write_utf8_codeunits_def REPL_CHAR_def word_order jchar_lt)

subsection \<open>Properties\<close>

text \<open>
  C3. The UTF-8 reader accepts exactly the well-formed sequences: it reports
  success with a code point and a new cursor if and only if the bytes between the two cursors
  are inside the buffer and are the shortest UTF-8 form of that code point, which is a Unicode
  scalar value (no overlong forms, no surrogates, nothing above 0x10FFFF).
\<close>

theorem utf8_read_iff:
  assumes "cursor < str_len" and "str_len \<le> length str"
  shows "get_next_codepoint_utf8 str str_len cursor = (cp, cursor', True) \<longleftrightarrow>
    scalar cp \<and> cursor' = cursor + length (write_utf8_codeunits cp) \<and> cursor' \<le> str_len \<and>
    take (length (write_utf8_codeunits cp)) (drop cursor str) = write_utf8_codeunits cp"
    (is "?read = _ \<longleftrightarrow> ?wf")
proof
  assume r: "?read = (cp, cursor', True)"
  have "length (take (cursor' - cursor) (drop cursor str)) = cursor' - cursor"
    using utf8_progress(2) [OF assms(1) r] assms(2) by simp
  then show ?wf
    using utf8_read_sound [OF assms r] utf8_progress [OF assms(1) r] by simp
next
  assume wf: ?wf
  then have "drop cursor str = write_utf8_codeunits cp @ drop (length (write_utf8_codeunits cp)) (drop cursor str)"
    by (metis append_take_drop_id)
  then show "?read = (cp, cursor', True)"
    using utf8_read_write wf by blast
qed

theorem utf8_read_iff_witness:
  "(0 :: nat) < 3 \<and> 3 \<le> length [0xE2, 0x82, 0xAC :: byte] \<and>
   get_next_codepoint_utf8 [0xE2, 0x82, 0xAC] 3 0 = (0x20AC, 3, True) \<and>
   scalar 0x20AC \<and> write_utf8_codeunits 0x20AC = [0xE2, 0x82, 0xAC]"
  using utf8_read_iff [of 0 3 "[0xE2, 0x82, 0xAC]" "0x20AC" 3]
  by (simp add: scalar_def write_utf8_codeunits_def)

text \<open>
  After a malformed sequence the reader follows strategy 2 of UTR 36, as its
  comment says: the code point is 0, it skips at least one and at most four bytes of the
  buffer, and none of the skipped bytes after the first one is a character of its own or a
  leading byte.
\<close>

theorem utf8_resync:
  assumes "cursor < str_len"
    and "get_next_codepoint_utf8 str str_len cursor = (cp, cursor', False)"
  shows "cp = 0 \<and> cursor < cursor' \<and> cursor' \<le> str_len \<and> cursor' \<le> cursor + 4 \<and>
    (\<forall>i. cursor < i \<and> i < cursor' \<longrightarrow> \<not> UTF8_LEAD (str ! i))"
  using utf8_progress [OF assms] utf8_skip [OF assms(2)] by blast

theorem utf8_resync_witness:
  "(0 :: nat) < 4 \<and> get_next_codepoint_utf8 [0xF0, 0x80, 0xC0, 0x41] 4 0 = (0, 3, False) \<and>
   \<not> UTF8_LEAD ([0xF0, 0x80, 0xC0, 0x41 :: byte] ! 2)"
proof -
  have r: "get_next_codepoint_utf8 [0xF0, 0x80, 0xC0, 0x41] 4 0 = (0, 3, False)"
    by (simp add: get_next_codepoint_utf8_def MB_FAILURE_def UTF8_TRAIL_def UTF8_LEAD_def)
  have "\<forall>i. 0 < i \<and> i < 3 \<longrightarrow> \<not> UTF8_LEAD ([0xF0, 0x80, 0xC0, 0x41 :: byte] ! i)"
    using utf8_resync [OF zero_less_numeral r] by blast
  then have "\<not> UTF8_LEAD ([0xF0, 0x80, 0xC0, 0x41 :: byte] ! 2)"
    by (rule allE [where x = 2]) simp
  with r show ?thesis by simp
qed

text \<open>
  C4. The growing conversion from UTF-16 to UTF-8 never writes
  outside of its buffer, the terminator included, whatever the allocator does; it fails only
  because an allocation failed, and otherwise returns the UTF-8 form of the code points of
  the string, with the replacement character for unpaired surrogates, and its length.
\<close>

theorem java_utf16_to_utf8_correct:
  assumes "len \<le> length inp" and "len < 2 ^ 31"
  shows "java_utf16_to_utf8_checked alloc inp len = Inl out_of_memory \<and> (\<exists>n size. \<not> alloc n size) \<or>
    java_utf16_to_utf8_checked alloc inp len =
      Inr (utf8_of (take len inp) @ [0], length (utf8_of (take len inp)))"
  using assms by (rule java_utf16_to_utf8_checked_eq)

theorem java_utf16_to_utf8_correct_witness:
  "java_utf16_to_utf8_checked (\<lambda>_ _. True) [0x20AC, 0xD801, 0xDC37, 0xDC00] 4 =
     Inr ([0xE2, 0x82, 0xAC, 0xF0, 0x90, 0x90, 0xB7, 0xEF, 0xBF, 0xBD, 0], 10)"
  using java_utf16_to_utf8_correct [of 4 "[0x20AC, 0xD801, 0xDC37, 0xDC00]" "\<lambda>_ _. True"]
  by (simp add: utf8_of_def UTF16_LEAD_def UTF16_TRAIL_def utf16_codepoint_def REPL_CHAR_def
      write_utf8_codeunits_def)

text \<open>
  C5. The conversion of a UTF-8 buffer to a Java string, on every
  branch: besides the size limits and a failed allocation it has no failure, and in particular
  the exception "output string is unexpectedly too short" is never thrown and the buffer of
  as many code units as there are bytes always suffices.
\<close>

theorem java_utf8_to_jstring_correct:
  "java_utf8_to_jstring_checked alloc inp (length inp) =
    (if (2 ^ 64 - 1) div 2 - 1 < length inp then Inl (Pending (RuntimeException ''string is too large''))
     else if \<not> alloc 0 ((length inp + 1) * 2) then Inl out_of_memory
     else if INT_MAX < length (utf16_of inp) then Inl (Pending (RuntimeException ''string is too long''))
     else if alloc 1 (2 * length (utf16_of inp)) then Inr (utf16_of inp)
     else Inl (Pending OutOfMemoryError)) \<and>
   length (utf16_of inp) \<le> length inp"
  using java_utf8_to_jstring_checked_eq length_utf16_of by blast

text \<open>
  C6. A well-formed Java string whose code points are in planes 0 and 1
  comes back unchanged from UTF-8, when the allocations succeed.
\<close>

theorem java_string_roundtrip:
  assumes "wf16 s" and "\<forall>k \<in> set (decode16 s). k < 0x20000" and "length s < 2 ^ 31"
  shows "\<exists>out n. java_utf16_to_utf8_checked (\<lambda>_ _. True) s (length s) = Inr (out, n) \<and>
    java_utf8_to_jstring_checked (\<lambda>_ _. True) (take n out) n = Inr s"
proof -
  have "java_utf16_to_utf8_checked (\<lambda>_ _. True) s (length s) = Inr (utf8_of s @ [0], length (utf8_of s))"
    using java_utf16_to_utf8_checked_eq [of "length s" s "\<lambda>_ _. True"] assms(3) by simp
  moreover have "utf16_of (utf8_of s) = s"
    using write16_decode16 [OF assms(1,2)] by (simp add: utf16_of_def decode8_utf8_of)
  moreover have "length (utf8_of s) \<le> 3 * length s"
    by (rule length_utf8_of)
  ultimately show ?thesis
    using assms(3) by (simp add: java_utf8_to_jstring_checked_eq INT_MAX_def)
qed

theorem java_string_roundtrip_witness:
  "wf16 [0x61, 0xD83D, 0xDE00] \<and>
   (\<exists>out n. java_utf16_to_utf8_checked (\<lambda>_ _. True) [0x61, 0xD83D, 0xDE00] 3 = Inr (out, n) \<and>
      java_utf8_to_jstring_checked (\<lambda>_ _. True) (take n out) n = Inr [0x61, 0xD83D, 0xDE00])"
  using java_string_roundtrip [of "[0x61, 0xD83D, 0xDE00]"]
  by (simp add: UTF16_LEAD_def UTF16_TRAIL_def utf16_codepoint_def numeral_3_eq_3)

text \<open>
  C7. The UTF-16 writer is wrong above plane 1: it masks the code
  point with 0xFFFF where it should subtract 0x10000, so that every code point of the planes
  2 to 16, converted to a Java string, becomes a different code point, of plane 1.
\<close>

theorem utf16_upper_planes_mangled:
  assumes "0x20000 \<le> k" and "k \<le> 0x10FFFF"
  shows "\<exists>s. java_utf8_to_jstring_checked (\<lambda>_ _. True) (write_utf8_codeunits k)
      (length (write_utf8_codeunits k)) = Inr s \<and>
    map unat (decode16 s) = [0x10000 + unat k mod 0x10000] \<and> decode16 s \<noteq> [k]"
proof -
  have k: "scalar k" "0x10000 \<le> k" "0x20000 \<le> unat k"
    using assms by (auto simp: scalar_def word_order)
  have "decode8 (write_utf8_codeunits k) 0 = [k]"
    using decode8_write [of "[k]" "[]"] k by simp
  then have u: "utf16_of (write_utf8_codeunits k) = write_utf16_codeunits k"
    by (simp add: utf16_of_def)
  obtain c d where w: "write_utf16_codeunits k = [c, d]" "UTF16_LEAD c" "UTF16_TRAIL d"
    "unat c = 0xD800 + unat k div 1024 mod 64" "unat d = 0xDC00 + unat k mod 1024"
    using write_utf16_unats [OF k(2)] by blast
  have "unat k mod 0x10000 = unat k div 1024 mod 64 * 1024 + unat k mod 1024"
    using mod_mult2_eq [of "unat k" 1024 64] by (simp add: mult.commute)
  then have cp: "unat (utf16_codepoint c d) = 0x10000 + unat k mod 0x10000"
    unfolding unat_utf16_pair [OF w(2,3)] w(4,5) by simp
  moreover have "unat k mod 0x10000 < 0x10000"
    by simp
  ultimately have "utf16_codepoint c d \<noteq> k"
    using k(3) by auto
  with cp w u show ?thesis
    using length_write_utf8 [of k] by (simp add: java_utf8_to_jstring_checked_eq INT_MAX_def)
qed

theorem utf16_upper_planes_mangled_witness:
  "\<exists>s. java_utf8_to_jstring_checked (\<lambda>_ _. True) (write_utf8_codeunits 0x20000)
      (length (write_utf8_codeunits 0x20000)) = Inr s \<and> map unat (decode16 s) = [0x10000]"
  using utf16_upper_planes_mangled [of "0x20000"] by auto

end
