(* ===== verification/Json.thy ===== *)
theory Json
  imports Utf16_Utf8
begin

text \<open>
  The segmented JSON buffer of \<^verbatim>\<open>src/main/c/json.h\<close> and its conversion to a Java string in
  \<^verbatim>\<open>utf16_utf8.c\<close>. The segments are linked structs on the heap that the functions update in
  place, so the model has a heap: a store from addresses to segments, and a counter that
  numbers the allocations and gives the fresh addresses. A null pointer is the address
  \<open>None\<close>. The result \<open>None\<close> of a function is an access to memory that is not allocated or
  outside of an object, or a loop that does not end.
\<close>

subsection \<open>Segments and the heap\<close>

record json_segment =
  seg_size :: nat
  seg_len :: nat
  seg_next :: "nat option"
  seg_data :: "byte list"

record json_heap =
  store :: "nat \<rightharpoonup> json_segment"
  brk :: nat

definition MIN_JSON_SEGMENT_SIZE :: nat where
  "MIN_JSON_SEGMENT_SIZE = 216"

definition MAX_JSON_DEPTH :: nat where
  "MAX_JSON_DEPTH = 20"

definition UINT32_MAX :: nat where
  "UINT32_MAX = 2 ^ 32 - 1"

definition u32_of :: "nat \<Rightarrow> nat" where
  "u32_of n = n mod 2 ^ 32"

text \<open>\<open>\<^verbatim>\<open>sizeof(struct json_segment)\<close>\<close> is 16: two 32-bit counters and a pointer.\<close>

definition json_seg_new :: "allocator \<Rightarrow> nat \<Rightarrow> json_heap \<Rightarrow> nat option \<times> json_heap" where
  "json_seg_new alloc min_size h =
     (if UINT32_MAX < min_size then (None, h)
      else
        let size = (if u32_of min_size < MIN_JSON_SEGMENT_SIZE then MIN_JSON_SEGMENT_SIZE
                    else u32_of min_size);
            a = brk h;
            h' = h\<lparr>brk := brk h + 1\<rparr>
        in if \<not> alloc a (16 + size) then (None, h')
           else (Some a, h'\<lparr>store := (store h)
              (a \<mapsto> \<lparr>seg_size = size, seg_len = 0, seg_next = None, seg_data = []\<rparr>)\<rparr>))"

definition json_seg_ensure ::
    "allocator \<Rightarrow> nat option \<Rightarrow> nat \<Rightarrow> json_heap \<Rightarrow> (nat option \<times> json_heap) option" where
  "json_seg_ensure alloc seg data_len h =
     (case seg of
        None \<Rightarrow> Some (None, h)
      | Some a \<Rightarrow>
          if UINT32_MAX < data_len then Some (None, h)
          else (case store h a of
              None \<Rightarrow> None
            | Some s \<Rightarrow>
                let avail = u32_of (2 ^ 32 + seg_size s - seg_len s) in
                if data_len \<le> avail then Some (Some a, h)
                else (case json_seg_new alloc data_len h of
                    (None, h') \<Rightarrow> Some (None, h')
                  | (Some b, h') \<Rightarrow>
                      Some (Some b, h'\<lparr>store := (store h')(a \<mapsto> s\<lparr>seg_next := Some b\<rparr>)\<rparr>))))"

text \<open>\<^verbatim>\<open>memcpy\<close> of \<open>d\<close> to the first free byte of a segment, and the addition of \<open>n\<close> to its length.\<close>

definition seg_write :: "nat \<Rightarrow> byte list \<Rightarrow> nat \<Rightarrow> json_heap \<Rightarrow> json_heap option" where
  "seg_write a d n h =
     (case store h a of
        None \<Rightarrow> None
      | Some s \<Rightarrow>
          if seg_size s < seg_len s + length d then None
          else Some (h\<lparr>store := (store h)(a \<mapsto>
             s\<lparr>seg_data := take (seg_len s) (seg_data s) @ d,
                seg_len := u32_of (seg_len s + u32_of n)\<rparr>)\<rparr>))"

definition json_append ::
    "allocator \<Rightarrow> nat option \<Rightarrow> byte list \<Rightarrow> json_heap \<Rightarrow> (nat option \<times> json_heap) option" where
  "json_append alloc seg d h =
     (case json_seg_ensure alloc seg (length d) h of
        None \<Rightarrow> None
      | Some (None, h') \<Rightarrow> Some (None, h')
      | Some (Some a, h') \<Rightarrow> map_option (\<lambda>h''. (Some a, h'')) (seg_write a d (length d) h'))"

partial_function (option) json_seg_free :: "nat option \<Rightarrow> json_heap \<Rightarrow> json_heap option" where
  "json_seg_free cur h =
     (case cur of
        None \<Rightarrow> Some h
      | Some a \<Rightarrow>
          (case store h a of
             None \<Rightarrow> None
           | Some s \<Rightarrow> json_seg_free (seg_next s) (h\<lparr>store := (store h)(a := None)\<rparr>)))"

partial_function (option) json_length_loop ::
    "(nat \<rightharpoonup> json_segment) \<Rightarrow> nat option \<Rightarrow> nat \<Rightarrow> nat option" where
  "json_length_loop st p res =
     (case p of
        None \<Rightarrow> Some res
      | Some a \<Rightarrow>
          (case st a of
             None \<Rightarrow> None
           | Some s \<Rightarrow> json_length_loop st (seg_next s) (res + seg_len s)))"

definition json_length :: "json_heap \<Rightarrow> nat option \<Rightarrow> nat option" where
  "json_length h seg = json_length_loop (store h) seg 0"

text \<open>An iterator is a segment and a position in it; \<open>out\<close> is what was copied so far.\<close>

partial_function (option) json_it_read_loop ::
    "(nat \<rightharpoonup> json_segment) \<Rightarrow> nat option \<Rightarrow> nat \<Rightarrow> nat \<Rightarrow> byte list \<Rightarrow>
       (nat option \<times> nat \<times> byte list) option" where
  "json_it_read_loop st seg pos out_len out =
     (case seg of
        None \<Rightarrow> Some (seg, pos, out)
      | Some a \<Rightarrow>
          if \<not> length out < out_len then Some (seg, pos, out)
          else (case st a of
              None \<Rightarrow> None
            | Some s \<Rightarrow>
                let avail_in_seg = u32_of (2 ^ 32 + seg_len s - pos) in
                if avail_in_seg = 0 then json_it_read_loop st (seg_next s) 0 out_len out
                else
                  let left_in_out = out_len - length out;
                      to_copy = (if avail_in_seg < left_in_out then avail_in_seg else left_in_out)
                  in if seg_size s < pos + to_copy then None
                     else json_it_read_loop st seg (u32_of (pos + u32_of to_copy)) out_len
                            (out @ take to_copy (drop pos (seg_data s)))))"

definition json_it_read ::
    "json_heap \<Rightarrow> nat option \<times> nat \<Rightarrow> nat \<Rightarrow> ((nat option \<times> nat) \<times> byte list) option" where
  "json_it_read h it out_len =
     map_option (\<lambda>(seg, pos, out). ((seg, pos), out))
       (json_it_read_loop (store h) (fst it) (snd it) out_len [])"

subsection \<open>Conversion to a Java string\<close>

text \<open>
  \<^verbatim>\<open>java_json_to_jstring_checked\<close> of \<^verbatim>\<open>utf16_utf8.c\<close>. The valid bytes of the 256 byte buffer are a list.
  The refill step compacts the buffer with \<^verbatim>\<open>memcpy\<close>, which is undefined when the two regions
  overlap. The allocations are numbered as in \<open>java_utf8_to_jstring_checked\<close>.
\<close>

type_synonym json_iterator = "nat option \<times> nat"

definition json_refill ::
    "json_heap \<Rightarrow> json_iterator \<Rightarrow> byte list \<Rightarrow> nat \<Rightarrow> bool \<Rightarrow>
       (json_iterator \<times> byte list \<times> nat \<times> bool) option" where
  "json_refill h it buffer buffer_cursor eof =
     (let left_in_buffer = length buffer - buffer_cursor in
      if left_in_buffer < 4 \<and> \<not> eof then
        if 0 < left_in_buffer \<and> buffer_cursor < left_in_buffer then None
        else
          let max_read = 256 - left_in_buffer in
          (case json_it_read h it max_read of
             None \<Rightarrow> None
           | Some (it', d) \<Rightarrow> Some (it', drop buffer_cursor buffer @ d, 0, length d < max_read))
      else Some (it, buffer, buffer_cursor, eof))"

partial_function (option) json_to_jstring_loop ::
    "json_heap \<Rightarrow> json_iterator \<Rightarrow> byte list \<Rightarrow> nat \<Rightarrow> bool \<Rightarrow> jchar list \<Rightarrow> nat \<Rightarrow>
       (fault + jchar list) option" where
  "json_to_jstring_loop h it0 buffer0 cursor0 eof0 out out_cap =
     (case json_refill h it0 buffer0 cursor0 eof0 of
        None \<Rightarrow> None
      | Some (it, buffer, cursor, eof) \<Rightarrow>
          if length buffer - cursor = 0 then Some (Inr out)
          else (case get_next_codepoint_utf8 buffer (length buffer) cursor of (cp0, cursor', status) \<Rightarrow>
             let cp = (if \<not> status then REPL_CHAR else cp0) in
             if out_cap < length out + 1 \<or> (0xFFFF < cp \<and> out_cap < length out + 2) then
               Some (Inl (Pending (RuntimeException ''output string is unexpectedly too short'')))
             else json_to_jstring_loop h it buffer cursor' eof (out @ write_utf16_codeunits cp) out_cap))"

definition java_json_to_jstring_checked ::
    "allocator \<Rightarrow> json_heap \<Rightarrow> nat option \<Rightarrow> (fault + jchar list) option" where
  "java_json_to_jstring_checked alloc h seg =
     (case json_length h seg of
        None \<Rightarrow> None
      | Some out_cap \<Rightarrow>
          if (2 ^ 64 - 1) div 2 - 1 < out_cap then
            Some (Inl (Pending (RuntimeException ''string is too large'')))
          else if \<not> alloc 0 ((out_cap + 1) * 2) then Some (Inl out_of_memory)
          else (case json_to_jstring_loop h (seg, 0) [] 0 False [] out_cap of
              None \<Rightarrow> None
            | Some (Inl e) \<Rightarrow> Some (Inl e)
            | Some (Inr out) \<Rightarrow>
                if INT_MAX < length out then
                  Some (Inl (Pending (RuntimeException ''string is too long'')))
                else if alloc 1 (2 * length out) then Some (Inr out)
                else Some (Inl (Pending OutOfMemoryError))))"

subsection \<open>Escaped strings\<close>

text \<open>A \<^verbatim>\<open>char\<close> that is a control character; the test is the same for signed and unsigned \<^verbatim>\<open>char\<close>.\<close>

definition ctrl_char :: "byte \<Rightarrow> bool" where
  "ctrl_char c \<longleftrightarrow> 0 \<le> sint c \<and> sint c < 0x20"

fun json_str_encoded_size :: "byte list \<Rightarrow> nat" where
  "json_str_encoded_size [] = 0"
| "json_str_encoded_size (c # cs) =
     (if c = 0x5C \<or> c = 0x22 then 2 else if ctrl_char c then 6 else 1) + json_str_encoded_size cs"

text \<open>An upper case hexadecimal digit, as printed by \<^verbatim>\<open>%02X\<close>.\<close>

definition hex_digit :: "nat \<Rightarrow> byte" where
  "hex_digit n = (if n < 10 then of_nat (48 + n) else of_nat (55 + n))"

fun json_encode_chars :: "byte list \<Rightarrow> byte list" where
  "json_encode_chars [] = []"
| "json_encode_chars (c # cs) =
     (if c = 0x5C \<or> c = 0x22 then [0x5C, c]
      else if ctrl_char c then
        [0x5C, 0x75, 0x30, 0x30, hex_digit (unat c div 16), hex_digit (unat c mod 16)]
      else [c]) @ json_encode_chars cs"

definition json_encode_str ::
    "allocator \<Rightarrow> nat option \<Rightarrow> byte list \<Rightarrow> json_heap \<Rightarrow> (nat option \<times> json_heap) option" where
  "json_encode_str alloc seg raw_str h =
     (let encoded_len = json_str_encoded_size raw_str in
      case json_seg_ensure alloc seg encoded_len h of
        None \<Rightarrow> None
      | Some (None, h') \<Rightarrow> Some (None, h')
      | Some (Some a, h') \<Rightarrow>
          map_option (\<lambda>h''. (Some a, h''))
            (seg_write a
              (if encoded_len = length raw_str then raw_str else json_encode_chars raw_str)
              encoded_len h'))"

subsection \<open>Well-formed chains of segments\<close>

definition seg_wf :: "json_segment \<Rightarrow> bool" where
  "seg_wf s \<longleftrightarrow> length (seg_data s) = seg_len s \<and> seg_len s \<le> seg_size s \<and> seg_size s \<le> UINT32_MAX"

fun path :: "(nat \<rightharpoonup> json_segment) \<Rightarrow> nat option \<Rightarrow> nat list \<Rightarrow> bool" where
  "path st p [] \<longleftrightarrow> p = None"
| "path st p (a # as) \<longleftrightarrow>
     p = Some a \<and> (case st a of None \<Rightarrow> False | Some s \<Rightarrow> seg_wf s \<and> path st (seg_next s) as)"

definition path_text :: "(nat \<rightharpoonup> json_segment) \<Rightarrow> nat list \<Rightarrow> byte list" where
  "path_text st as = concat (map (\<lambda>a. case st a of None \<Rightarrow> [] | Some s \<Rightarrow> seg_data s) as)"

lemma path_text_simps [simp]:
  "path_text st [] = []"
  "path_text st (a # as) = (case st a of None \<Rightarrow> [] | Some s \<Rightarrow> seg_data s) @ path_text st as"
  "path_text st (as @ bs) = path_text st as @ path_text st bs"
  by (simp_all add: path_text_def)

lemma path_upd: "a \<notin> set as \<Longrightarrow> path (st(a := x)) p as = path st p as"
  by (induction as arbitrary: p) (auto split: option.splits)

lemma path_text_upd: "a \<notin> set as \<Longrightarrow> path_text (st(a := x)) as = path_text st as"
  by (induction as) auto

lemma path_dom: "path st p as \<Longrightarrow> set as \<subseteq> dom st"
  by (induction as arbitrary: p) (auto split: option.splits)

text \<open>Changing the last segment, and linking a new one after it.\<close>

lemma path_last_upd:
  assumes "path st p (as @ [a])" and "distinct (as @ [a])" and "st a = Some s"
    and "seg_wf s'" and "seg_next s' = seg_next s"
  shows "path (st(a \<mapsto> s')) p (as @ [a])"
  using assms(1,2)
proof (induction as arbitrary: p)
  case (Cons b as)
  then show ?case
    using assms by (cases "st b") (auto split: option.splits)
qed (use assms in auto)

lemma path_last_next: "path st p (as @ [a]) \<Longrightarrow> st a = Some s \<Longrightarrow> seg_next s = None \<and> seg_wf s"
  by (induction as arbitrary: p) (auto split: option.splits)

lemma path_link:
  assumes "path st p (as @ [a])" and "distinct (as @ [a])" and "st a = Some s"
    and "b \<notin> set (as @ [a])" and "seg_wf t" and "seg_next t = None"
  shows "path (st(b \<mapsto> t, a \<mapsto> s\<lparr>seg_next := Some b\<rparr>)) p (as @ [a, b])"
  using assms(1,2,4)
proof (induction as arbitrary: p)
  case Nil
  then show ?case
    using assms by (auto simp: seg_wf_def)
next
  case (Cons c as)
  then show ?case
    using assms by (cases "st c") (auto split: option.splits)
qed

text \<open>
  The state of a writer: the heap and the current segment, which is null after a failure.
  \<open>json_ok st0 head\<close> says that the segments from \<open>head\<close> on are well formed and are all that the
  writer has allocated on top of the store \<open>st0\<close>, and that the current segment is the last one.
\<close>

type_synonym json_writer_state = "nat option \<times> json_heap"

definition json_ok_path :: "(nat \<rightharpoonup> json_segment) \<Rightarrow> nat \<Rightarrow> nat list \<Rightarrow> json_writer_state \<Rightarrow> bool" where
  "json_ok_path st0 head as = (\<lambda>(cur, h).
     path (store h) (Some head) as \<and> distinct as \<and> set as \<inter> dom st0 = {} \<and>
     (\<forall>a. a \<notin> set as \<longrightarrow> store h a = st0 a) \<and> (\<forall>a \<in> dom (store h). a < brk h) \<and>
     (\<forall>c. cur = Some c \<longrightarrow> c = last as))"

definition json_ok :: "(nat \<rightharpoonup> json_segment) \<Rightarrow> nat \<Rightarrow> json_writer_state \<Rightarrow> bool" where
  "json_ok st0 head s \<longleftrightarrow> (\<exists>as. json_ok_path st0 head as s)"

fun walk :: "nat \<Rightarrow> (nat \<rightharpoonup> json_segment) \<Rightarrow> nat option \<Rightarrow> byte list" where
  "walk 0 st p = []"
| "walk (Suc n) st None = []"
| "walk (Suc n) st (Some a) = (case st a of None \<Rightarrow> [] | Some s \<Rightarrow> seg_data s @ walk n st (seg_next s))"

lemma walk_path: "path st p as \<Longrightarrow> length as < n \<Longrightarrow> walk n st p = path_text st as"
proof (induction as arbitrary: p n)
  case Nil
  then show ?case by (cases n) auto
next
  case (Cons a as)
  then show ?case by (cases n) (auto split: option.splits)
qed

text \<open>The text written so far, unless the writer has failed.\<close>

definition json_contents :: "nat \<Rightarrow> json_writer_state \<Rightarrow> byte list option" where
  "json_contents head = (\<lambda>(cur, h). if cur = None then None
     else Some (walk (Suc (brk h)) (store h) (Some head)))"

lemma length_path:
  assumes "path (store h) p as" and "distinct as" and "\<forall>a \<in> dom (store h). a < brk h"
  shows "length as \<le> brk h"
proof -
  have "set as \<subseteq> {..<brk h}"
    using path_dom [OF assms(1)] assms(3) by auto
  then have "card (set as) \<le> brk h"
    using card_mono [of "{..<brk h}" "set as"] by simp
  then show ?thesis
    using assms(2) by (simp add: distinct_card)
qed

lemma json_contents_path:
  assumes "json_ok_path st0 head as (cur, h)"
  shows "json_contents head (cur, h) = (if cur = None then None else Some (path_text (store h) as))"
  using assms walk_path [of "store h" "Some head" as "Suc (brk h)"] length_path [of h "Some head" as]
  by (auto simp: json_contents_def json_ok_path_def simp del: walk.simps)

lemma path_snoc:
  assumes "path st (Some head) as" and "c = last as"
  obtains bs where "as = bs @ [c]"
  using assms by (cases as rule: rev_cases) auto

lemma path_last_store: "path st p (as @ [a]) \<Longrightarrow> \<exists>s. st a = Some s"
  using path_dom [of st p "as @ [a]"] by auto

lemma u32_of_small: "n \<le> UINT32_MAX \<Longrightarrow> u32_of n = n"
  by (simp add: u32_of_def UINT32_MAX_def)

lemma u32_diff: "l \<le> s \<Longrightarrow> s \<le> UINT32_MAX \<Longrightarrow> u32_of (2 ^ 32 + s - l) = s - l"
proof -
  assume "l \<le> s" "s \<le> UINT32_MAX"
  then have "2 ^ 32 + s - l = 2 ^ 32 + (s - l)" "s - l < 2 ^ 32"
    by (auto simp: UINT32_MAX_def)
  then show ?thesis
    by (simp only: u32_of_def mod_add_self1 mod_less)
qed

lemma json_seg_new_cases:
  assumes "n \<le> UINT32_MAX"
  obtains "\<not> alloc (brk h) (16 + max 216 n)" "json_seg_new alloc n h = (None, h\<lparr>brk := brk h + 1\<rparr>)"
  | t where "json_seg_new alloc n h = (Some (brk h), h\<lparr>brk := brk h + 1, store := (store h)(brk h \<mapsto> t)\<rparr>)"
    "seg_wf t" "seg_next t = None" "seg_data t = []" "seg_len t = 0" "n \<le> seg_size t"
proof -
  let ?t = "\<lparr>seg_size = max 216 n, seg_len = 0, seg_next = None, seg_data = []\<rparr>"
  have size: "(if u32_of n < MIN_JSON_SEGMENT_SIZE then MIN_JSON_SEGMENT_SIZE else u32_of n) = max 216 n"
    using assms by (simp add: u32_of_small MIN_JSON_SEGMENT_SIZE_def max_def)
  have e: "json_seg_new alloc n h =
      (if alloc (brk h) (16 + max 216 n)
       then (Some (brk h), h\<lparr>brk := brk h + 1, store := (store h)(brk h \<mapsto> ?t)\<rparr>)
       else (None, h\<lparr>brk := brk h + 1\<rparr>))"
    using assms unfolding json_seg_new_def size Let_def by auto
  have "seg_wf ?t"
    using assms by (simp add: seg_wf_def UINT32_MAX_def)
  then show ?thesis
    using e that(1) that(2) [of ?t] by (cases "alloc (brk h) (16 + max 216 n)") simp_all
qed

lemma json_seg_ensure_ok:
  assumes ok: "json_ok_path st0 head as (cur, h)"
  shows "\<exists>cur' h' as'. json_seg_ensure alloc cur n h = Some (cur', h') \<and>
    json_ok_path st0 head as' (cur', h') \<and> path_text (store h') as' = path_text (store h) as \<and>
    (cur' \<noteq> None \<longrightarrow> cur \<noteq> None \<and> cur' = Some (last as') \<and>
       (\<exists>s. store h' (last as') = Some s \<and> seg_len s + n \<le> seg_size s)) \<and>
    (cur \<noteq> None \<and> n \<le> UINT32_MAX \<and> (\<forall>k size. alloc k size) \<longrightarrow> cur' \<noteq> None)"
proof (cases "cur = None \<or> UINT32_MAX < n")
  case True
  then have "json_seg_ensure alloc cur n h = Some (None, h)"
    by (cases cur) (auto simp: json_seg_ensure_def)
  moreover have "json_ok_path st0 head as (None, h)"
    using ok by (simp add: json_ok_path_def)
  ultimately show ?thesis
    using True by (intro exI [of _ None] exI [of _ h] exI [of _ as]) auto
next
  case False
  then obtain c where c: "cur = Some c" and n: "n \<le> UINT32_MAX"
    by auto
  have p: "path (store h) (Some head) as" and d: "distinct as" and f: "set as \<inter> dom st0 = {}"
    and fr: "\<forall>a. a \<notin> set as \<longrightarrow> store h a = st0 a" and lt: "\<forall>a \<in> dom (store h). a < brk h"
    and l: "c = last as"
    using ok c by (auto simp: json_ok_path_def)
  obtain bs where as: "as = bs @ [c]"
    using path_snoc [OF p l] by blast
  obtain s where s: "store h c = Some s"
    using path_last_store p as by metis
  have wf: "seg_next s = None" "seg_wf s"
    using path_last_next p as s by blast+
  then have avail: "u32_of (2 ^ 32 + seg_size s - seg_len s) = seg_size s - seg_len s"
    by (intro u32_diff) (simp_all add: seg_wf_def)
  show ?thesis
  proof (cases "n \<le> seg_size s - seg_len s")
    case True
    then have "json_seg_ensure alloc cur n h = Some (cur, h)"
      using n s c avail by (simp add: json_seg_ensure_def Let_def)
    moreover have "seg_len s + n \<le> seg_size s"
      using True wf(2) by (auto simp: seg_wf_def)
    ultimately show ?thesis
      using ok s c l by auto
  next
    case False
    have nb: "brk h \<notin> dom (store h)"
      using lt by blast
    then have b1: "brk h \<notin> set as"
      using path_dom [OF p] by blast
    then have b: "brk h \<notin> set as" "brk h \<notin> dom st0"
      using nb fr by (auto simp: domIff)
    show ?thesis
    proof (cases rule: json_seg_new_cases [OF n, of alloc h])
      case 1
      then have "json_seg_ensure alloc cur n h = Some (None, h\<lparr>brk := brk h + 1\<rparr>)"
        using n s c avail False by (simp add: json_seg_ensure_def Let_def)
      then show ?thesis
        using ok 1(1) by (auto simp: json_ok_path_def less_Suc_eq intro!: exI [of _ as])
    next
      case (2 t)
      let ?h = "h\<lparr>brk := brk h + 1, store := (store h)(brk h \<mapsto> t, c \<mapsto> s\<lparr>seg_next := Some (brk h)\<rparr>)\<rparr>"
      have e: "json_seg_ensure alloc cur n h = Some (Some (brk h), ?h)"
        using n s c avail False 2(1) by (simp add: json_seg_ensure_def Let_def)
      have "path (store ?h) (Some head) (as @ [brk h])"
        using path_link [of "store h" "Some head" bs c s "brk h" t] p d s b 2 as by simp
      moreover have "path_text (store ?h) (as @ [brk h]) = path_text (store h) as"
        using b s 2 d as by (simp add: path_text_upd)
      ultimately have "json_ok_path st0 head (as @ [brk h]) (Some (brk h), ?h) \<and>
          path_text (store ?h) (as @ [brk h]) = path_text (store h) as"
        using d b f fr lt as s by (auto simp: json_ok_path_def less_Suc_eq)
      moreover have "store ?h (last (as @ [brk h])) = Some t"
        using b as by auto
      ultimately show ?thesis
        using e 2(5,6) c by (intro exI [of _ "Some (brk h)"] exI [of _ ?h] exI [of _ "as @ [brk h]"]) auto
    qed
  qed
qed

lemma seg_write_ok:
  assumes ok: "json_ok_path st0 head (bs @ [c]) (Some c, h)" and s: "store h c = Some s"
    and room: "seg_len s + length d \<le> seg_size s"
  shows "\<exists>h'. seg_write c d (length d) h = Some h' \<and> json_ok_path st0 head (bs @ [c]) (Some c, h') \<and>
    path_text (store h') (bs @ [c]) = path_text (store h) (bs @ [c]) @ d"
proof -
  have p: "path (store h) (Some head) (bs @ [c])" and dis: "distinct (bs @ [c])"
    using ok by (auto simp: json_ok_path_def)
  have wf: "seg_wf s"
    using path_last_next [OF p s] by simp
  let ?s = "s\<lparr>seg_data := seg_data s @ d, seg_len := seg_len s + length d\<rparr>"
  let ?h = "h\<lparr>store := (store h)(c \<mapsto> ?s)\<rparr>"
  have "u32_of (seg_len s + u32_of (length d)) = seg_len s + length d"
    using room wf by (simp add: u32_of_small seg_wf_def)
  then have w: "seg_write c d (length d) h = Some ?h"
    using s room wf by (simp add: seg_write_def seg_wf_def)
  have "path (store ?h) (Some head) (bs @ [c])"
    using path_last_upd [OF p dis s, of ?s] wf room by (simp add: seg_wf_def)
  then have "json_ok_path st0 head (bs @ [c]) (Some c, ?h)"
    using ok s by (auto simp: json_ok_path_def)
  moreover have "path_text (store ?h) (bs @ [c]) = path_text (store h) (bs @ [c]) @ d"
    using dis s by (simp add: path_text_upd)
  ultimately show ?thesis
    using w by blast
qed

subsection \<open>Writers\<close>

text \<open>
  What an operation of a writer does: it keeps the writer well formed, and afterwards the writer
  has either failed or holds its earlier text and the new piece \<open>r\<close>. A piece \<open>None\<close> is an
  operation that always fails. A failed writer stays failed. A reliable writer fails only when
  it has to.
\<close>

definition join_text :: "byte list option \<Rightarrow> byte list option \<Rightarrow> byte list option" where
  "join_text a b = (case a of None \<Rightarrow> None | Some x \<Rightarrow> map_option ((@) x) b)"

definition chunk :: "nat \<Rightarrow> byte list \<Rightarrow> byte list option" where
  "chunk m d = (if length d \<le> m then Some d else None)"

definition writes ::
    "bool \<Rightarrow> ('s \<Rightarrow> bool) \<Rightarrow> ('s \<Rightarrow> byte list option) \<Rightarrow> ('s \<Rightarrow> 's option) \<Rightarrow> byte list option \<Rightarrow> bool" where
  "writes reliable ok contents f r \<longleftrightarrow>
     (\<forall>s. ok s \<longrightarrow> (\<exists>s'. f s = Some s' \<and> ok s' \<and>
        (contents s' = None \<or> contents s' = join_text (contents s) r) \<and>
        (reliable \<longrightarrow> contents s' = join_text (contents s) r)))"

lemma join_text_simps [simp]:
  "join_text None b = None" "join_text a None = None" "join_text (Some x) (Some y) = Some (x @ y)"
  "join_text a (Some []) = a"
  by (simp_all add: join_text_def split: option.splits)

lemma join_text_assoc [simp]: "join_text (join_text a b) c = join_text a (join_text b c)"
  by (cases a; cases b; cases c) simp_all

lemma writesD:
  assumes "writes reliable ok contents f r" and "ok s"
  obtains s' where "f s = Some s'" "ok s'" "contents s' = None \<or> contents s' = join_text (contents s) r"
    "reliable \<Longrightarrow> contents s' = join_text (contents s) r"
  using assms unfolding writes_def by blast

lemma writes_skip: "writes reliable ok contents Some (Some [])"
  by (simp add: writes_def)

lemma writes_seq:
  assumes f: "writes reliable ok contents f a" and g: "writes reliable ok contents g b"
  shows "writes reliable ok contents (\<lambda>s. Option.bind (f s) g) (join_text a b)"
  unfolding writes_def
proof (intro allI impI)
  fix s assume s: "ok s"
  from f s obtain s1 where s1: "f s = Some s1" "ok s1"
      "contents s1 = None \<or> contents s1 = join_text (contents s) a"
      "reliable \<Longrightarrow> contents s1 = join_text (contents s) a"
    by (rule writesD) blast
  from g s1(2) obtain s2 where s2: "g s1 = Some s2" "ok s2"
      "contents s2 = None \<or> contents s2 = join_text (contents s1) b"
      "reliable \<Longrightarrow> contents s2 = join_text (contents s1) b"
    by (rule writesD) blast
  have "contents s2 = None \<or> contents s2 = join_text (contents s) (join_text a b)"
    using s1(3) s2(3) by auto
  moreover have "reliable \<Longrightarrow> contents s2 = join_text (contents s) (join_text a b)"
    using s1(4) s2(4) by simp
  ultimately show "\<exists>s'. Option.bind (f s) g = Some s' \<and> ok s' \<and>
      (contents s' = None \<or> contents s' = join_text (contents s) (join_text a b)) \<and>
      (reliable \<longrightarrow> contents s' = join_text (contents s) (join_text a b))"
    using s1(1) s2(1,2) by simp
qed

lemma writes_bind:
  assumes "writes reliable ok contents f a" and "writes reliable ok contents g b" and "c = join_text a b"
  shows "writes reliable ok contents (\<lambda>s. Option.bind (f s) g) c"
  using writes_seq [OF assms(1,2)] assms(3) by simp

text \<open>The interface of a writer of bytes, and of a writer of JSON texts.\<close>

locale byte_sink =
  fixes reliable :: bool and ok :: "'s \<Rightarrow> bool" and contents :: "'s \<Rightarrow> byte list option"
    and max_chunk :: nat and append :: "byte list \<Rightarrow> 's \<Rightarrow> 's option"
  assumes append_writes: "writes reliable ok contents (append d) (chunk max_chunk d)"
begin

lemma append_two:
  "writes reliable ok contents (\<lambda>s. Option.bind (append d s) (append e))
     (join_text (chunk max_chunk d) (chunk max_chunk e))"
  by (rule writes_seq) (rule append_writes)+

lemma append_many:
  "writes reliable ok contents
     (\<lambda>s. fold (\<lambda>d r. Option.bind r (append d)) ds (Some s))
     (fold (\<lambda>d r. join_text r (chunk max_chunk d)) ds (Some []))"
proof (induction ds rule: rev_induct)
  case Nil
  then show ?case
    using writes_skip by simp
next
  case (snoc d ds)
  then show ?case
    using writes_seq [OF snoc append_writes] by simp
qed

end

locale json_sink = byte_sink reliable ok contents max_chunk append
  for reliable :: bool and ok :: "'s \<Rightarrow> bool" and contents and max_chunk and append +
  fixes encode :: "byte list \<Rightarrow> 's \<Rightarrow> 's option" and fail :: "'s \<Rightarrow> 's option"
  assumes encode_writes: "writes reliable ok contents (encode d) (chunk max_chunk (json_encode_chars d))"
    and fail_writes: "writes reliable ok contents fail None"
begin

text \<open>A quoted string: what is between the quotes goes through the encoder.\<close>

lemma quoted_writes:
  "writes reliable ok contents
     (\<lambda>s. Option.bind (append q s) (\<lambda>s. Option.bind (encode d s) (append e)))
     (join_text (chunk max_chunk q)
       (join_text (chunk max_chunk (json_encode_chars d)) (chunk max_chunk e)))"
  by (intro writes_seq append_writes encode_writes)

end

subsection \<open>The segmented buffer is a JSON writer\<close>

lemma ctrl_char_unat: "ctrl_char c \<longleftrightarrow> unat c < 0x20"
proof -
  define n where "n = unat c"
  have n: "n < 256" and u: "uint c = int n"
    using byte_lt [of c] by (simp_all add: n_def)
  have "int n div 128 = (if n < 128 then 0 else 1)"
    using n by auto
  then have "sint c = (if n < 128 then int n else int n - 256)"
    using n by (simp add: sint_uint signed_take_bit_eq_take_bit_minus bit_iff_odd take_bit_eq_mod u)
  then show ?thesis
    using n unfolding ctrl_char_def n_def [symmetric] by auto
qed

lemma length_json_encode_chars: "length (json_encode_chars d) = json_str_encoded_size d"
  by (induction d) auto

lemma json_str_encoded_size_ge: "length d \<le> json_str_encoded_size d"
  by (induction d) auto

text \<open>When no byte needs an escape, the text is copied as it is.\<close>

lemma json_encode_plain: "json_str_encoded_size d = length d \<Longrightarrow> json_encode_chars d = d"
proof (induction d)
  case (Cons c d)
  then show ?case
    using json_str_encoded_size_ge [of d] by (auto split: if_splits)
qed simp

definition json_put :: "allocator \<Rightarrow> byte list \<Rightarrow> json_writer_state \<Rightarrow> json_writer_state option" where
  "json_put alloc d = (\<lambda>(seg, h). json_append alloc seg d h)"

definition json_put_str :: "allocator \<Rightarrow> byte list \<Rightarrow> json_writer_state \<Rightarrow> json_writer_state option" where
  "json_put_str alloc d = (\<lambda>(seg, h). json_encode_str alloc seg d h)"

definition json_fail :: "json_writer_state \<Rightarrow> json_writer_state option" where
  "json_fail = (\<lambda>(seg, h). Some (None, h))"

text \<open>Reserve room for \<open>d\<close> and copy it: the common part of the two operations.\<close>

lemma json_reserve_write:
  assumes "json_ok st0 head (cur, h)"
  shows "\<exists>s'. (case json_seg_ensure alloc cur (length d) h of
        None \<Rightarrow> None
      | Some (None, h') \<Rightarrow> Some (None, h')
      | Some (Some a, h') \<Rightarrow> map_option (\<lambda>h''. (Some a, h'')) (seg_write a d (length d) h')) = Some s' \<and>
    json_ok st0 head s' \<and>
    (json_contents head s' = None \<or>
     json_contents head s' = join_text (json_contents head (cur, h)) (chunk UINT32_MAX d)) \<and>
    ((\<forall>k size. alloc k size) \<longrightarrow>
     json_contents head s' = join_text (json_contents head (cur, h)) (chunk UINT32_MAX d))"
proof -
  from assms obtain as where as: "json_ok_path st0 head as (cur, h)"
    by (auto simp: json_ok_def)
  from json_seg_ensure_ok [OF as, of alloc "length d"]
  obtain cur1 h1 as1 where e: "json_seg_ensure alloc cur (length d) h = Some (cur1, h1)"
    and ok1: "json_ok_path st0 head as1 (cur1, h1)"
    and t1: "path_text (store h1) as1 = path_text (store h) as"
    and some: "cur1 \<noteq> None \<longrightarrow> cur \<noteq> None \<and> cur1 = Some (last as1) \<and>
       (\<exists>s. store h1 (last as1) = Some s \<and> seg_len s + length d \<le> seg_size s)"
    and rel: "cur \<noteq> None \<and> length d \<le> UINT32_MAX \<and> (\<forall>k size. alloc k size) \<longrightarrow> cur1 \<noteq> None"
    by (elim exE conjE) (rule that)
  have c0: "json_contents head (cur, h) = (if cur = None then None else Some (path_text (store h) as))"
    by (rule json_contents_path [OF as])
  show ?thesis
  proof (cases cur1)
    case None
    have "json_contents head (None, h1) = None"
      by (simp add: json_contents_def)
    moreover have "json_ok st0 head (None, h1)"
      using ok1 None by (auto simp: json_ok_def)
    moreover have "(\<forall>k size. alloc k size) \<Longrightarrow> join_text (json_contents head (cur, h)) (chunk UINT32_MAX d) = None"
      using rel None by (auto simp: c0 chunk_def)
    ultimately show ?thesis
      unfolding e None by (intro exI [of _ "(None, h1)"] conjI disjI1 impI) auto
  next
    case (Some c)
    obtain s where c: "cur \<noteq> None" "c = last as1" and s: "store h1 c = Some s"
        and room: "seg_len s + length d \<le> seg_size s"
      using some unfolding Some by blast
    have p1: "path (store h1) (Some head) as1"
      using ok1 by (simp add: json_ok_path_def)
    obtain bs where bs: "as1 = bs @ [c]"
      using path_snoc [OF p1 c(2)] by blast
    obtain h2 where w: "seg_write c d (length d) h1 = Some h2"
        and ok2: "json_ok_path st0 head as1 (Some c, h2)"
        and t2: "path_text (store h2) as1 = path_text (store h1) as1 @ d"
      using seg_write_ok [OF ok1 [unfolded Some bs] s room] unfolding bs by blast
    have "seg_size s \<le> UINT32_MAX"
      using path_last_next [OF p1 [unfolded bs] s] by (simp add: seg_wf_def)
    then have "json_contents head (Some c, h2) = join_text (json_contents head (cur, h)) (chunk UINT32_MAX d)"
      using json_contents_path [OF ok2] c0 t1 t2 c(1) room by (simp add: chunk_def)
    moreover have "json_ok st0 head (Some c, h2)"
      using ok2 by (auto simp: json_ok_def)
    ultimately show ?thesis
      unfolding e Some by (intro exI [of _ "(Some c, h2)"] conjI disjI2 impI) (simp_all add: w)
  qed
qed

interpretation js: json_sink "\<forall>k size. alloc k size" "json_ok st0 head" "json_contents head" UINT32_MAX
  "json_put alloc" "json_put_str alloc" json_fail
  for alloc st0 head
proof unfold_locales
  fix d
  show "writes (\<forall>k size. alloc k size) (json_ok st0 head) (json_contents head) (json_put alloc d)
      (chunk UINT32_MAX d)"
    unfolding writes_def json_put_def json_append_def
    using json_reserve_write [of st0 head _ _ d alloc] by auto
  have plain: "(if json_str_encoded_size d = length d then d else json_encode_chars d) = json_encode_chars d"
    by (simp add: json_encode_plain)
  have "json_put_str alloc d = (\<lambda>(seg, h).
      case json_seg_ensure alloc seg (length (json_encode_chars d)) h of
        None \<Rightarrow> None
      | Some (None, h') \<Rightarrow> Some (None, h')
      | Some (Some a, h') \<Rightarrow> map_option (\<lambda>h''. (Some a, h''))
          (seg_write a (json_encode_chars d) (length (json_encode_chars d)) h'))"
    unfolding json_put_str_def json_encode_str_def Let_def plain length_json_encode_chars ..
  then show "writes (\<forall>k size. alloc k size) (json_ok st0 head) (json_contents head) (json_put_str alloc d)
      (chunk UINT32_MAX (json_encode_chars d))"
    unfolding writes_def
    using json_reserve_write [of st0 head _ _ "json_encode_chars d" alloc] by auto
  show "writes (\<forall>k size. alloc k size) (json_ok st0 head) (json_contents head) json_fail None"
    by (auto simp: writes_def json_fail_def json_contents_def json_ok_def json_ok_path_def)
qed

subsection \<open>Freeing, measuring and reading a chain\<close>

lemma json_seg_free_path:
  assumes "path (store h) p as" and "distinct as"
  shows "json_seg_free p h = Some (h\<lparr>store := (store h) |` (- set as)\<rparr>)"
  using assms
proof (induction as arbitrary: p h)
  case Nil
  then show ?case
    by (subst json_seg_free.simps) (simp add: restrict_map_def)
next
  case (Cons a as)
  then obtain s where s: "store h a = Some s" "p = Some a" "path (store h) (seg_next s) as"
    by (auto split: option.splits)
  let ?h = "h\<lparr>store := (store h)(a := None)\<rparr>"
  have st: "store ?h |` (- set as) = store h |` (- set (a # as))"
    by (rule ext) (simp add: restrict_map_def)
  have "path (store ?h) (seg_next s) as"
    using path_upd [of a as "store h" None "seg_next s"] s(3) Cons.prems(2) by force
  then have "json_seg_free (seg_next s) ?h = Some (?h\<lparr>store := store ?h |` (- set as)\<rparr>)"
    by (rule Cons.IH) (use Cons.prems(2) in simp)
  then show ?case
    using s unfolding st by (subst json_seg_free.simps) simp
qed

lemma json_seg_free_ok:
  assumes "json_ok st0 head (cur, h)"
  shows "\<exists>h'. json_seg_free (Some head) h = Some h' \<and> store h' = st0 \<and> brk h' = brk h"
proof -
  from assms obtain as where as: "json_ok_path st0 head as (cur, h)"
    by (auto simp: json_ok_def)
  then have "store h |` (- set as) = st0"
    by (intro ext) (auto simp: json_ok_path_def restrict_map_def disjoint_iff domIff)
  then show ?thesis
    using as json_seg_free_path [of h "Some head" as] by (simp add: json_ok_path_def)
qed

lemma json_length_path:
  "path st p as \<Longrightarrow> json_length_loop st p n = Some (n + length (path_text st as))"
proof (induction as arbitrary: p n)
  case Nil
  then show ?case
    by (subst json_length_loop.simps) simp
next
  case (Cons a as)
  then show ?case
    by (subst json_length_loop.simps) (auto simp: seg_wf_def split: option.splits)
qed

text \<open>The text that an iterator has before it.\<close>

definition at_path :: "(nat \<rightharpoonup> json_segment) \<Rightarrow> nat option \<Rightarrow> nat \<Rightarrow> nat list \<Rightarrow> bool" where
  "at_path st seg pos as \<longleftrightarrow> path st seg as \<and>
     (case as of [] \<Rightarrow> pos = 0 | a # _ \<Rightarrow> pos \<le> length (path_text st [a]))"

definition at_text :: "(nat \<rightharpoonup> json_segment) \<Rightarrow> nat option \<Rightarrow> nat \<Rightarrow> byte list \<Rightarrow> bool" where
  "at_text st seg pos rest \<longleftrightarrow> (\<exists>as. at_path st seg pos as \<and> rest = drop pos (path_text st as))"

lemma at_path_next:
  assumes "at_path st (Some a) pos (a # as)" and "st a = Some s"
  shows "at_path st (seg_next s) 0 as"
  using assms by (cases as) (auto simp: at_path_def)

lemma json_it_read_loop_done:
  "n \<le> length out \<Longrightarrow> json_it_read_loop st seg pos n out = Some (seg, pos, out)"
  by (subst json_it_read_loop.simps) (simp split: option.splits)

lemma json_it_read_loop_skip:
  assumes "st a = Some s" and "seg_wf s" and "length out < n"
  shows "json_it_read_loop st (Some a) (seg_len s) n out = json_it_read_loop st (seg_next s) 0 n out"
proof -
  have "u32_of (2 ^ 32 + seg_len s - seg_len s) = 0"
    using assms(2) u32_diff [of "seg_len s" "seg_len s"] by (simp add: seg_wf_def)
  then show ?thesis
    using assms(1,3) by (subst json_it_read_loop.simps) simp
qed

lemma json_it_read_loop_copy:
  assumes "st a = Some s" and "seg_wf s" and "length out < n" and "pos < seg_len s"
  shows "json_it_read_loop st (Some a) pos n out =
    json_it_read_loop st (Some a) (pos + min (seg_len s - pos) (n - length out)) n
      (out @ take (n - length out) (drop pos (seg_data s)))"
proof -
  let ?k = "min (seg_len s - pos) (n - length out)"
  have wf: "length (seg_data s) = seg_len s" "seg_len s \<le> seg_size s" "seg_size s \<le> UINT32_MAX"
    using assms(2) by (simp_all add: seg_wf_def)
  have avail: "u32_of (2 ^ 32 + seg_len s - pos) = seg_len s - pos"
    using wf assms(4) by (intro u32_diff) auto
  have k: "(if seg_len s - pos < n - length out then seg_len s - pos else n - length out) = ?k"
    by simp
  have u: "u32_of ?k = ?k" "u32_of (pos + ?k) = pos + ?k"
    using wf assms(4) by (auto intro!: u32_of_small)
  have t: "take ?k (drop pos (seg_data s)) = take (n - length out) (drop pos (seg_data s))"
    using wf(1) by (simp add: min_def)
  have "\<not> seg_size s < pos + ?k"
    using wf assms(4) by auto
  then show ?thesis
    using assms by (subst json_it_read_loop.simps) (simp only: avail Let_def k u t option.simps if_True
      if_False not_less not_True_eq_False not_False_eq_True, simp)
qed

lemma json_it_read_loop_text:
  assumes "at_path st seg pos as"
  shows "\<exists>seg' pos'. json_it_read_loop st seg pos n out =
      Some (seg', pos', out @ take (n - length out) (drop pos (path_text st as))) \<and>
    at_text st seg' pos' (drop (n - length out) (drop pos (path_text st as)))"
  using assms
proof (induction as arbitrary: seg pos out)
  case Nil
  then have "seg = None" "pos = 0"
    by (simp_all add: at_path_def)
  then show ?case
    using Nil by (subst json_it_read_loop.simps) (auto simp: at_text_def)
next
  case (Cons a as)
  then obtain s where s: "seg = Some a" "st a = Some s" and wf: "seg_wf s" and pos: "pos \<le> seg_len s"
    and len: "length (seg_data s) = seg_len s"
    by (auto simp: at_path_def seg_wf_def split: option.splits)
  have tail: "at_path st (seg_next s) 0 as"
    using at_path_next Cons.prems s by simp
  show ?case
  proof (cases "n \<le> length out")
    case True
    then show ?thesis
      using Cons.prems by (auto simp: json_it_read_loop_done at_text_def)
  next
    case False
    show ?thesis
    proof (cases "seg_len s - pos < n - length out")
      case True
      let ?out = "out @ drop pos (seg_data s)"
      have "json_it_read_loop st seg pos n out = json_it_read_loop st seg (seg_len s) n ?out"
      proof (cases "pos = seg_len s")
        case True
        then show ?thesis using len by simp
      next
        case False
        then show ?thesis
          using json_it_read_loop_copy [of st a s out n pos] pos wf \<open>\<not> n \<le> length out\<close> True s len
          by simp
      qed
      also have "\<dots> = json_it_read_loop st (seg_next s) 0 n ?out"
        using json_it_read_loop_skip [of st a s ?out n] s wf True len pos by simp
      finally have e: "json_it_read_loop st seg pos n out = json_it_read_loop st (seg_next s) 0 n ?out" .
      obtain seg' pos' where "json_it_read_loop st (seg_next s) 0 n ?out =
            Some (seg', pos', ?out @ take (n - length ?out) (path_text st as))"
          "at_text st seg' pos' (drop (n - length ?out) (path_text st as))"
        using Cons.IH [OF tail, of ?out] by auto
      moreover have "?out @ take (n - length ?out) (path_text st as) =
          out @ take (n - length out) (drop pos (path_text st (a # as)))"
        using s len pos True by simp
      moreover have "drop (n - length ?out) (path_text st as) =
          drop (n - length out) (drop pos (path_text st (a # as)))"
        using s len pos True by simp
      ultimately show ?thesis
        using e by metis
    next
      case no: False
      then have p: "pos < seg_len s"
        using False by linarith
      let ?k = "n - length out" and ?out = "out @ take (n - length out) (drop pos (seg_data s))"
      have "n \<le> length ?out"
        using no len p by simp
      then have "json_it_read_loop st seg pos n out = Some (seg, pos + ?k, ?out)"
        using json_it_read_loop_copy [of st a s out n pos] wf p False no s
        by (simp add: json_it_read_loop_done)
      moreover have "take ?k (drop pos (path_text st (a # as))) = take ?k (drop pos (seg_data s))"
        using s len p no by simp
      moreover have "at_text st seg (pos + ?k) (drop ?k (drop pos (path_text st (a # as))))"
      proof -
        have "at_path st seg (pos + ?k) (a # as)"
          using Cons.prems s len no p by (auto simp: at_path_def)
        then show ?thesis
          unfolding at_text_def by (intro exI [of _ "a # as"]) (simp only: drop_drop add.commute)
      qed
      ultimately show ?thesis
        by (intro exI [of _ seg] exI [of _ "pos + ?k"]) simp
    qed
  qed
qed

lemma json_it_read_text:
  assumes "at_text (store h) seg pos rest"
  shows "\<exists>seg' pos'. json_it_read h (seg, pos) n = Some ((seg', pos'), take n rest) \<and>
    at_text (store h) seg' pos' (drop n rest)"
proof -
  from assms obtain as where "at_path (store h) seg pos as" "rest = drop pos (path_text (store h) as)"
    by (auto simp: at_text_def)
  then show ?thesis
    using json_it_read_loop_text [of "store h" seg pos as n "[]"] by (auto simp: json_it_read_def)
qed

lemma json_chain_length:
  "at_text (store h) seg 0 t \<Longrightarrow> json_length h seg = Some (length t)"
  by (auto simp: at_text_def at_path_def json_length_def json_length_path)

lemma json_contents_at_text:
  assumes "json_ok st0 head (cur, h)" and "json_contents head (cur, h) = Some t"
  shows "at_text (store h) (Some head) 0 t"
proof -
  from assms(1) obtain as where as: "json_ok_path st0 head as (cur, h)"
    by (auto simp: json_ok_def)
  then have "at_path (store h) (Some head) 0 as"
    by (auto simp: json_ok_path_def at_path_def split: list.splits)
  then show ?thesis
    using json_contents_path [OF as] assms(2) by (auto simp: at_text_def split: if_splits)
qed

subsection \<open>Reading UTF-8 through a window\<close>

text \<open>The reader looks at four bytes at most: it reads the same from any buffer that has them.\<close>

lemma utf8_window:
  assumes "cursor < length bs" and "w = take 4 (drop cursor bs)"
  shows "get_next_codepoint_utf8 bs (length bs) cursor =
    map_prod id (map_prod ((+) cursor) id) (get_next_codepoint_utf8 w (length w) 0)"
proof -
  define n where "n = length bs - cursor"
  have n: "0 < n" "length bs = cursor + n"
    using assms(1) by (simp_all add: n_def)
  have lw: "length w = min n 4"
    by (simp add: assms(2) n_def)
  have nth: "w ! i = bs ! (cursor + i)" if "i < n" "i < 4" for i
    using that assms by (simp add: n_def)
  have w0: "w ! 0 = bs ! cursor"
    using nth [of 0] n by simp
  have len: "min n 4 - 0 < 3 \<longleftrightarrow> n < 3" "min n 4 - 0 < 2 \<longleftrightarrow> n < 2" "min n 4 - 0 < 4 \<longleftrightarrow> n < 4"
    "CHECK_LEN (min n 4) 0 2 \<longleftrightarrow> \<not> n < 2" "CHECK_LEN (cursor + n) cursor 2 \<longleftrightarrow> \<not> n < 2"
    "cursor + n - cursor = n"
    by (auto simp: CHECK_LEN_def)
  note unf = get_next_codepoint_utf8_def Let_def n(2) lw w0 len MB_FAILURE_def
    if_distrib [of "map_prod id (map_prod ((+) cursor) id)"] map_prod_simp id_apply add_0
  consider "n = 1" | "n = 2" | "n = 3" | "4 \<le> n"
    using n by linarith
  then show ?thesis
  proof cases
    case 1
    then have "n < 2" "n < 3" "n < 4" by auto
    then show ?thesis by (simp only: unf simp_thms if_True if_False)
  next
    case 2
    then have "\<not> n < 2" "n < 3" "n < 4" "w ! 1 = bs ! (cursor + 1)"
      using nth [of 1] by auto
    then show ?thesis by (simp only: unf simp_thms if_True if_False)
  next
    case 3
    then have "\<not> n < 2" "\<not> n < 3" "n < 4" "w ! 1 = bs ! (cursor + 1)" "w ! 2 = bs ! (cursor + 2)"
      using nth [of 1] nth [of 2] by auto
    then show ?thesis by (simp only: unf simp_thms if_True if_False)
  next
    case 4
    then have "\<not> n < 2" "\<not> n < 3" "\<not> n < 4" "w ! 1 = bs ! (cursor + 1)"
        "w ! 2 = bs ! (cursor + 2)" "w ! 3 = bs ! (cursor + 3)"
      using nth [of 1] nth [of 2] nth [of 3] by auto
    then show ?thesis by (simp only: unf simp_thms if_True if_False)
  qed
qed

lemma decode8_shift: "decode8 (pre @ t) (length pre + c) = decode8 t c"
proof (induction t c rule: decode8.induct)
  case (1 t c)
  show ?case
  proof (cases "c < length t")
    case True
    let ?w = "take 4 (drop c t)"
    obtain cp k ok where w: "get_next_codepoint_utf8 ?w (length ?w) 0 = (cp, k, ok)"
      using prod_cases3 by blast
    have g: "get_next_codepoint_utf8 t (length t) c = (cp, c + k, ok)"
      using utf8_window [OF True refl] w by simp
    have "get_next_codepoint_utf8 (pre @ t) (length (pre @ t)) (length pre + c) = (cp, length pre + c + k, ok)"
      using utf8_window [of "length pre + c" "pre @ t" ?w] True w by simp
    moreover have "decode8 (pre @ t) (length pre + (c + k)) = decode8 t (c + k)"
      using 1 [OF True g [symmetric] refl] .
    ultimately show ?thesis
      using True g by (subst (1 2) decode8.simps) (simp add: add.assoc)
  qed (subst (1 2) decode8.simps, simp)
qed

text \<open>The first code point of a text, read from any buffer that starts with its first four bytes.\<close>

lemma decode8_window:
  assumes "cursor < length bs" and "t \<noteq> []" and "take 4 (drop cursor bs) = take 4 t"
    and g: "get_next_codepoint_utf8 bs (length bs) cursor = (cp, cursor', ok)"
  shows "decode8 t 0 = (if ok then cp else REPL_CHAR) # decode8 (drop (cursor' - cursor) t) 0"
    and "cursor' - cursor \<le> length t"
proof -
  obtain k where w: "get_next_codepoint_utf8 (take 4 t) (length (take 4 t)) 0 = (cp, k, ok)"
      and k: "cursor' = cursor + k"
    using utf8_window [OF assms(1) assms(3) [symmetric]] g
    by (cases "get_next_codepoint_utf8 (take 4 t) (length (take 4 t)) 0") auto
  have gt: "get_next_codepoint_utf8 t (length t) 0 = (cp, k, ok)"
    using utf8_window [of 0 t "take 4 t"] w assms(2) by simp
  show kt: "cursor' - cursor \<le> length t"
    using utf8_progress(2) [OF _ gt] assms(2) k by simp
  have "decode8 t k = decode8 (drop k t) 0"
    using decode8_shift [of "take k t" "drop k t" 0] kt k by (simp add: min_absorb2)
  then show "decode8 t 0 = (if ok then cp else REPL_CHAR) # decode8 (drop (cursor' - cursor) t) 0"
    using gt assms(2) k by (subst decode8.simps) simp
qed

definition stream_inv :: "json_heap \<Rightarrow> json_iterator \<Rightarrow> byte list \<Rightarrow> nat \<Rightarrow> bool \<Rightarrow> byte list \<Rightarrow> bool" where
  "stream_inv h it buffer cursor eof rest \<longleftrightarrow>
     at_text (store h) (fst it) (snd it) rest \<and> cursor \<le> length buffer \<and>
     (eof \<longrightarrow> rest = []) \<and> (\<not> eof \<longrightarrow> length buffer = 256 \<or> buffer = [])"

lemma json_refill_ok:
  assumes "stream_inv h it buffer cursor eof rest"
  shows "\<exists>it' buffer' cursor' eof' rest'. json_refill h it buffer cursor eof = Some (it', buffer', cursor', eof') \<and>
    stream_inv h it' buffer' cursor' eof' rest' \<and>
    drop cursor' buffer' @ rest' = drop cursor buffer @ rest \<and>
    (rest' = [] \<or> 4 \<le> length buffer' - cursor')"
proof (cases "length buffer - cursor < 4 \<and> \<not> eof")
  case False
  then have "json_refill h it buffer cursor eof = Some (it, buffer, cursor, eof)"
    by (auto simp: json_refill_def)
  moreover have "rest = [] \<or> 4 \<le> length buffer - cursor"
    using assms False by (auto simp: stream_inv_def)
  ultimately show ?thesis
    using assms by blast
next
  case True
  let ?left = "length buffer - cursor"
  let ?max = "256 - ?left"
  obtain seg pos where it: "it = (seg, pos)"
    by (cases it)
  from assms have "at_text (store h) seg pos rest"
    by (simp add: stream_inv_def it)
  then obtain seg' pos' where r: "json_it_read h (seg, pos) ?max = Some ((seg', pos'), take ?max rest)"
      and at: "at_text (store h) seg' pos' (drop ?max rest)"
    using json_it_read_text by blast
  have no_overlap: "\<not> (0 < ?left \<and> cursor < ?left)"
    using assms True by (auto simp: stream_inv_def)
  let ?buf = "drop cursor buffer @ take ?max rest" and ?eof = "length (take ?max rest) < ?max"
  have "json_refill h it buffer cursor eof = Some ((seg', pos'), ?buf, 0, ?eof)"
    unfolding json_refill_def Let_def it r using True no_overlap by simp
  moreover have "stream_inv h (seg', pos') ?buf 0 ?eof (drop ?max rest)"
    using at True by (auto simp: stream_inv_def)
  moreover have "drop ?max rest = [] \<or> 4 \<le> length ?buf - 0"
    using True by auto
  ultimately show ?thesis
    by (intro exI [of _ "(seg', pos')"] exI [of _ ?buf] exI [of _ 0] exI [of _ ?eof]
        exI [of _ "drop ?max rest"]) simp
qed

lemma json_to_jstring_loop_eq:
  assumes "stream_inv h it buffer cursor eof rest"
    and "length out + length (drop cursor buffer @ rest) \<le> out_cap"
  shows "json_to_jstring_loop h it buffer cursor eof out out_cap =
    Some (Inr (out @ concat (map write_utf16_codeunits (decode8 (drop cursor buffer @ rest) 0))))"
  using assms
proof (induction "length (drop cursor buffer @ rest)" arbitrary: it buffer cursor eof rest out rule: less_induct)
  case less
  obtain it1 buf cur eof1 rest1 where r: "json_refill h it buffer cursor eof = Some (it1, buf, cur, eof1)"
      and inv: "stream_inv h it1 buf cur eof1 rest1"
      and t: "drop cur buf @ rest1 = drop cursor buffer @ rest" and four: "rest1 = [] \<or> 4 \<le> length buf - cur"
    using json_refill_ok [OF less.prems(1)] by blast
  let ?t = "drop cur buf @ rest1"
  show ?case
  proof (cases "length buf - cur = 0")
    case True
    then have "?t = []"
      using four by auto
    then have "decode8 (drop cursor buffer @ rest) 0 = []"
      unfolding t [symmetric] by (simp add: decode8.simps)
    then show ?thesis
      using True r by (subst json_to_jstring_loop.simps) simp
  next
    case False
    then have cur: "cur < length buf" and ne: "?t \<noteq> []"
      by auto
    have win: "take 4 (drop cur buf) = take 4 ?t"
      using four by auto
    obtain cp cur' ok where g: "get_next_codepoint_utf8 buf (length buf) cur = (cp, cur', ok)"
      using prod_cases3 by blast
    note units = utf8_units [OF cur order_refl g] and prog = utf8_progress [OF cur g]
    let ?cp = "if \<not> ok then REPL_CHAR else cp"
    have cp: "?cp = (if ok then cp else REPL_CHAR)"
      by simp
    have dec: "decode8 ?t 0 = ?cp # decode8 (drop (cur' - cur) ?t) 0"
      using decode8_window(1) [OF cur ne win g] by (simp add: cp)
    have t': "drop (cur' - cur) ?t = drop cur' buf @ rest1"
      using prog(1,2) by simp
    have cap: "length out + length ?t \<le> out_cap"
      using less.prems(2) t by simp
    have lt: "length ?t = (length buf - cur) + length rest1"
      by simp
    have "length (drop cur' buf @ rest1) < length (drop cursor buffer @ rest)"
      unfolding t [symmetric] using prog(1,2) cur by simp
    moreover have "stream_inv h it1 buf cur' eof1 rest1"
      using inv prog by (simp add: stream_inv_def)
    moreover have "length (out @ write_utf16_codeunits ?cp) + length (drop cur' buf @ rest1) \<le> out_cap"
      using units(1) prog(1,2) cap cp by simp
    ultimately have "json_to_jstring_loop h it1 buf cur' eof1 (out @ write_utf16_codeunits ?cp) out_cap =
        Some (Inr ((out @ write_utf16_codeunits ?cp) @
          concat (map write_utf16_codeunits (decode8 (drop cur' buf @ rest1) 0))))"
      by (rule less.hyps)
    moreover have "\<not> (out_cap < length out + 1 \<or> (0xFFFF < ?cp \<and> out_cap < length out + 2))"
      using cap lt cur units(2) prog(2) unfolding cp by auto
    ultimately show ?thesis
      using r False g unfolding t [symmetric] dec t'
      by (subst json_to_jstring_loop.simps) (simp add: Let_def)
  qed
qed

lemma java_json_to_jstring_checked_eq:
  assumes "json_ok st0 head (cur, h)" and "json_contents head (cur, h) = Some t"
  shows "java_json_to_jstring_checked alloc h (Some head) =
    Some (java_utf8_to_jstring_checked alloc t (length t))"
proof -
  have at: "at_text (store h) (Some head) 0 t"
    by (rule json_contents_at_text [OF assms])
  then have "stream_inv h (Some head, 0) [] 0 False t"
    by (simp add: stream_inv_def)
  from json_to_jstring_loop_eq [OF this, of "[]" "length t"]
  have "json_to_jstring_loop h (Some head, 0) [] 0 False [] (length t) = Some (Inr (utf16_of t))"
    by (simp add: utf16_of_def)
  then show ?thesis
    unfolding java_json_to_jstring_checked_def json_chain_length [OF at] java_utf8_to_jstring_checked_eq
    by simp
qed

subsection \<open>The new buffer\<close>

definition heap_ok :: "json_heap \<Rightarrow> bool" where
  "heap_ok h \<longleftrightarrow> (\<forall>a \<in> dom (store h). a < brk h)"

lemma json_seg_new_ok:
  assumes h: "heap_ok h"
  obtains k where "\<not> alloc (brk h) k" "json_seg_new alloc 0 h = (None, h\<lparr>brk := brk h + 1\<rparr>)"
  | h' where "json_seg_new alloc 0 h = (Some (brk h), h')" "json_ok (store h) (brk h) (Some (brk h), h')"
    "json_contents (brk h) (Some (brk h), h') = Some []"
proof (cases rule: json_seg_new_cases [of 0, OF le0, of alloc h])
  case (2 t)
  let ?h = "h\<lparr>brk := brk h + 1, store := (store h)(brk h \<mapsto> t)\<rparr>"
  have "brk h \<notin> dom (store h)"
    using h by (auto simp: heap_ok_def)
  then have "json_ok_path (store h) (brk h) [brk h] (Some (brk h), ?h)"
    using 2 h by (auto simp: json_ok_path_def heap_ok_def less_Suc_eq)
  then show ?thesis
    using that(2) [OF 2(1)] json_contents_path [of "store h" "brk h" "[brk h]" "Some (brk h)" ?h] 2(4)
    by (auto simp: json_ok_def)
qed (use that(1) in auto)

text \<open>An empty heap, and the first segment on it.\<close>

definition heap0 :: json_heap where
  "heap0 = \<lparr>store = Map.empty, brk = 0\<rparr>"

definition heap1 :: json_heap where
  "heap1 = snd (json_seg_new (\<lambda>_ _. True) 0 heap0)"

lemma heap1_ok: "json_ok Map.empty 0 (Some 0, heap1)" and heap1_text: "json_contents 0 (Some 0, heap1) = Some []"
proof -
  have "heap_ok heap0"
    by (simp add: heap_ok_def heap0_def)
  then have "json_ok Map.empty 0 (Some 0, heap1) \<and> json_contents 0 (Some 0, heap1) = Some []"
    by (rule json_seg_new_ok [of heap0 "\<lambda>_ _. True"]) (simp_all add: heap0_def heap1_def)
  then show "json_ok Map.empty 0 (Some 0, heap1)" "json_contents 0 (Some 0, heap1) = Some []"
    by simp_all
qed

subsection \<open>Reading an escaped string\<close>

text \<open>
  A reader of the body of a JSON string, as strict as RFC 8259 about what may stand between the
  quotes: no quote and no control character. Of the escapes it knows those of the quote, of the
  backslash and of the code points below 128.
\<close>

definition hex_value :: "byte \<Rightarrow> nat option" where
  "hex_value c =
     (if 48 \<le> unat c \<and> unat c \<le> 57 then Some (unat c - 48)
      else if 65 \<le> unat c \<and> unat c \<le> 70 then Some (unat c - 55)
      else if 97 \<le> unat c \<and> unat c \<le> 102 then Some (unat c - 87) else None)"

fun hex_number :: "byte list \<Rightarrow> nat option" where
  "hex_number [] = Some 0"
| "hex_number (c # cs) =
     (case hex_value c of None \<Rightarrow> None
      | Some v \<Rightarrow> map_option (\<lambda>n. v * 16 ^ length cs + n) (hex_number cs))"

fun json_unescape :: "byte list \<Rightarrow> byte list option" where
  "json_unescape [] = Some []"
| "json_unescape (c # cs) =
     (if c = 0x22 \<or> unat c < 0x20 then None
      else if c \<noteq> 0x5C then map_option ((#) c) (json_unescape cs)
      else (case cs of
          [] \<Rightarrow> None
        | e # r \<Rightarrow>
            if e = 0x22 \<or> e = 0x5C then map_option ((#) e) (json_unescape r)
            else if e = 0x75 \<and> 4 \<le> length r then
              (case hex_number (take 4 r) of
                 Some n \<Rightarrow> if n < 128 then map_option ((#) (of_nat n)) (json_unescape (drop 4 r)) else None
               | None \<Rightarrow> None)
            else None))"

lemma unat_hex_digit: "n < 16 \<Longrightarrow> unat (hex_digit n) = (if n < 10 then 48 + n else 55 + n)"
  unfolding hex_digit_def by (auto simp: unat_of_nat simp del: of_nat_add)

lemma hex_value_digit: "n < 16 \<Longrightarrow> hex_value (hex_digit n) = Some n"
  by (auto simp: hex_value_def unat_hex_digit)

lemma json_unescape_u:
  assumes "unat c < 0x20"
  shows "json_unescape (0x5C # 0x75 # 0x30 # 0x30 # hex_digit (unat c div 16) # hex_digit (unat c mod 16) # r) =
    map_option ((#) c) (json_unescape r)"
proof -
  have "hex_value 0x30 = Some 0"
    by (simp add: hex_value_def)
  moreover have "unat c div 16 * 16 + unat c mod 16 = unat c"
    by (rule div_mult_mod_eq)
  ultimately have "hex_number [0x30, 0x30, hex_digit (unat c div 16), hex_digit (unat c mod 16)] = Some (unat c)"
    using assms by (simp add: hex_value_digit)
  moreover have "word_of_nat (unat c) = c"
    by simp
  ultimately show ?thesis
    using assms by (simp del: hex_number.simps)
qed

lemma json_unescape_encode: "json_unescape (json_encode_chars d) = Some d"
proof (induction d)
  case (Cons c d)
  consider "c = 0x5C \<or> c = 0x22" | "c \<noteq> 0x5C" "c \<noteq> 0x22" "unat c < 0x20"
    | "c \<noteq> 0x5C" "c \<noteq> 0x22" "\<not> unat c < 0x20"
    by blast
  then show ?case
  proof cases
    case 1
    then show ?thesis
      using Cons.IH by auto
  next
    case 2
    then show ?thesis
      using Cons.IH json_unescape_u [OF 2(3), of "json_encode_chars d"] by (simp add: ctrl_char_unat)
  qed (use Cons.IH in \<open>simp add: ctrl_char_unat\<close>)
qed simp

subsection \<open>Properties\<close>

lemma json_contents_None: "json_contents head (seg, h) = None \<longleftrightarrow> seg = None"
  by (simp add: json_contents_def)

lemma writes_json:
  assumes w: "writes (\<forall>k size. alloc k size) (json_ok st0 head) (json_contents head) f (chunk UINT32_MAX d)"
    and ok: "json_ok st0 head (seg, h)"
  shows "\<exists>seg' h'. f (seg, h) = Some (seg', h') \<and> json_ok st0 head (seg', h') \<and>
    (seg' = None \<or> (\<exists>t. json_contents head (seg, h) = Some t \<and>
        json_contents head (seg', h') = Some (t @ d))) \<and>
    ((\<forall>k size. alloc k size) \<and> seg \<noteq> None \<and> length d \<le> UINT32_MAX \<longrightarrow> seg' \<noteq> None)"
proof -
  obtain seg' h' where s: "f (seg, h) = Some (seg', h')" "json_ok st0 head (seg', h')"
      and c: "json_contents head (seg', h') = None \<or>
        json_contents head (seg', h') = join_text (json_contents head (seg, h)) (chunk UINT32_MAX d)"
      and r: "(\<forall>k size. alloc k size) \<Longrightarrow>
        json_contents head (seg', h') = join_text (json_contents head (seg, h)) (chunk UINT32_MAX d)"
    by (rule writesD [OF w ok]) (metis surj_pair)
  have "seg' = None \<or> (\<exists>t. json_contents head (seg, h) = Some t \<and>
        json_contents head (seg', h') = Some (t @ d))"
    using c json_contents_None [of head seg' h']
    by (cases "json_contents head (seg, h)") (auto simp: chunk_def split: if_splits)
  moreover have "(\<forall>k size. alloc k size) \<and> seg \<noteq> None \<and> length d \<le> UINT32_MAX \<longrightarrow> seg' \<noteq> None"
    using r json_contents_None [of head seg' h'] json_contents_None [of head seg h]
    by (cases "json_contents head (seg, h)") (auto simp: chunk_def)
  ultimately show ?thesis
    using s by blast
qed

text \<open>
  C8. Appending to a well-formed chain never accesses memory outside of a
  segment: either the operation fails, and returns the null pointer, or the text of the chain
  is the old text followed by the new bytes. It fails only if an allocation fails, if the writer
  had failed before, or if the bytes are more than a 32-bit length can count.
\<close>

theorem json_append_correct:
  assumes "json_ok st0 head (seg, h)"
  shows "\<exists>seg' h'. json_append alloc seg d h = Some (seg', h') \<and> json_ok st0 head (seg', h') \<and>
    (seg' = None \<or> (\<exists>t. json_contents head (seg, h) = Some t \<and>
        json_contents head (seg', h') = Some (t @ d))) \<and>
    ((\<forall>k size. alloc k size) \<and> seg \<noteq> None \<and> length d \<le> UINT32_MAX \<longrightarrow> seg' \<noteq> None)"
  using writes_json [OF js.append_writes assms, of alloc d] by (simp add: json_put_def)

theorem json_append_correct_witness:
  "json_ok Map.empty 0 (Some 0, heap1) \<and>
   (\<exists>seg' h'. json_append (\<lambda>_ _. True) (Some 0) [65, 66] heap1 = Some (seg', h') \<and>
     json_contents 0 (seg', h') = Some [65, 66])"
  using json_append_correct [OF heap1_ok, of "\<lambda>_ _. True" "[65, 66]"] heap1_ok heap1_text
  by (auto simp: UINT32_MAX_def)

text \<open>
  C9. Encoding a string into the chain appends a body from which a
  strict reader of JSON strings gets the bytes back: quotes, backslashes and control characters
  are all escaped, and the size computed beforehand is the size written. It fails only as appending does.
\<close>

theorem json_encode_str_correct:
  assumes "json_ok st0 head (seg, h)"
  shows "\<exists>seg' h'. json_encode_str alloc seg raw h = Some (seg', h') \<and> json_ok st0 head (seg', h') \<and>
    (seg' = None \<or> (\<exists>t e. json_contents head (seg, h) = Some t \<and>
        json_contents head (seg', h') = Some (t @ e) \<and> json_unescape e = Some raw \<and>
        length e = json_str_encoded_size raw)) \<and>
    ((\<forall>k size. alloc k size) \<and> seg \<noteq> None \<and> json_str_encoded_size raw \<le> UINT32_MAX \<longrightarrow> seg' \<noteq> None)"
  using writes_json [OF js.encode_writes assms, of alloc raw]
  by (auto simp: json_put_str_def json_unescape_encode length_json_encode_chars)

theorem json_encode_str_correct_witness:
  "json_ok Map.empty 0 (Some 0, heap1) \<and>
   (\<exists>seg' h' e. json_encode_str (\<lambda>_ _. True) (Some 0) [34, 10, 92] heap1 = Some (Some seg', h') \<and>
     json_contents 0 (Some seg', h') = Some e \<and> json_unescape e = Some [34, 10, 92])"
proof -
  have "json_str_encoded_size [34, 10, 92] \<le> UINT32_MAX"
    by (simp add: UINT32_MAX_def)
  then show ?thesis
    using json_encode_str_correct [OF heap1_ok, of "\<lambda>_ _. True" "[34, 10, 92]"] heap1_ok heap1_text by auto
qed

text \<open>
  C10. Freeing a chain that a writer built, also one that has failed,
  terminates, frees every segment once, and leaves the memory as it was before the writer
  started: nothing leaks and nothing else is freed.
\<close>

theorem json_seg_free_correct:
  assumes "json_ok st0 head (seg, h)"
  shows "\<exists>h'. json_seg_free (Some head) h = Some h' \<and> store h' = st0"
  using json_seg_free_ok [OF assms] by blast

theorem json_seg_free_correct_witness:
  "json_ok Map.empty 0 (Some 0, heap1) \<and>
   (\<exists>h'. json_seg_free (Some 0) heap1 = Some h' \<and> store h' = Map.empty)"
  using json_seg_free_correct [OF heap1_ok] heap1_ok by blast

text \<open>
  The length of a chain is the length of its text, and an iterator
  delivers the text in pieces of any sizes: two reads of \<open>m\<close> and \<open>n\<close> bytes give the first
  \<open>m\<close> bytes and the next \<open>n\<close>.
\<close>

theorem json_it_read_correct:
  assumes "json_ok st0 head (seg, h)" and "json_contents head (seg, h) = Some t"
  shows "json_length h (Some head) = Some (length t) \<and>
    (\<exists>it it'. json_it_read h (Some head, 0) m = Some (it, take m t) \<and>
       json_it_read h it n = Some (it', take n (drop m t)))"
proof -
  have at: "at_text (store h) (Some head) 0 t"
    by (rule json_contents_at_text [OF assms])
  obtain s p where 1: "json_it_read h (Some head, 0) m = Some ((s, p), take m t)"
      "at_text (store h) s p (drop m t)"
    using json_it_read_text [OF at, of m] by blast
  then show ?thesis
    using json_it_read_text [OF 1(2), of n] json_chain_length [OF at] by blast
qed

theorem json_it_read_correct_witness:
  "json_ok Map.empty 0 (Some 0, heap1) \<and> json_contents 0 (Some 0, heap1) = Some [] \<and>
   json_length heap1 (Some 0) = Some 0"
  using json_it_read_correct [OF heap1_ok heap1_text, of 3 4] heap1_ok heap1_text by simp

text \<open>
  C11. Converting a chain of segments to a Java string through the 256
  byte window gives the same result, exceptions included, as converting its whole text at once:
  no character is lost or split where the window or a segment ends, the compacting copy never
  overlaps itself, and the loop ends.
\<close>

theorem json_to_jstring_streaming:
  assumes "json_ok st0 head (seg, h)" and "json_contents head (seg, h) = Some t"
  shows "java_json_to_jstring_checked alloc h (Some head) =
    Some (java_utf8_to_jstring_checked alloc t (length t))"
  by (rule java_json_to_jstring_checked_eq [OF assms])

theorem json_to_jstring_streaming_witness:
  "json_ok Map.empty 0 (Some 0, heap1) \<and> json_contents 0 (Some 0, heap1) = Some [] \<and>
   java_json_to_jstring_checked (\<lambda>_ _. True) heap1 (Some 0) =
     Some (java_utf8_to_jstring_checked (\<lambda>_ _. True) [] 0)"
  using json_to_jstring_streaming [OF heap1_ok heap1_text, of "\<lambda>_ _. True"] heap1_ok heap1_text by simp

end
