(* ===== verification/Convert_Json.thy ===== *)
theory Convert_Json
  imports Json "HOL-Library.Monad_Syntax"
begin

text \<open>
  The objects of the \<^verbatim>\<open>libddwaf\<close> library, as far as the sources read them, and their serialisation
  to JSON in \<^verbatim>\<open>src/main/c/output.c\<close> (\<^verbatim>\<open>output_convert_json\<close> and \<^verbatim>\<open>_convert_json\<close>). The writer
  is the segmented buffer of the theory \<open>Json\<close>, used through its interface.
\<close>

subsection \<open>Objects of the rule engine\<close>

text \<open>
  A \<^verbatim>\<open>ddwaf_object\<close>: its \<^verbatim>\<open>parameterName\<close> (the empty list also for the null pointer, whose
  \<^verbatim>\<open>parameterNameLength\<close> is zero) and what its \<^verbatim>\<open>type\<close> and union hold. The number of entries of
  an array or a map is the length of its list. A double is kept as its 64 bits.
\<close>

datatype ddwaf_object = DdwafObject (parameterName: "byte list") (payload: ddwaf_value)
and ddwaf_value =
    DDWAF_OBJ_INVALID
  | DDWAF_OBJ_SIGNED "64 word"
  | DDWAF_OBJ_UNSIGNED "64 word"
  | DDWAF_OBJ_STRING "byte list"
  | DDWAF_OBJ_ARRAY "ddwaf_object list"
  | DDWAF_OBJ_MAP "ddwaf_object list"
  | DDWAF_OBJ_BOOL bool
  | DDWAF_OBJ_FLOAT "64 word"
  | DDWAF_OBJ_NULL

subsection \<open>Decimal numbers\<close>

text \<open>What \<^verbatim>\<open>sprintf\<close> prints for \<^verbatim>\<open>PRIu64\<close> and \<^verbatim>\<open>PRId64\<close>.\<close>

fun dec_nat :: "nat \<Rightarrow> byte list" where
  "dec_nat n = (if n < 10 then [of_nat (48 + n)] else dec_nat (n div 10) @ [of_nat (48 + n mod 10)])"

declare dec_nat.simps [simp del]

definition dec_int :: "int \<Rightarrow> byte list" where
  "dec_int i = (if i < 0 then [45] @ dec_nat (nat (- i)) else dec_nat (nat i))"

text \<open>\<^verbatim>\<open>sprintf\<close> to a buffer of \<open>n\<close> bytes: the text and its terminator must fit.\<close>

definition sprintf_to :: "nat \<Rightarrow> byte list \<Rightarrow> byte list option" where
  "sprintf_to n txt = (if length txt < n then Some txt else None)"

subsection \<open>Serialisation\<close>

text \<open>
  \<^verbatim>\<open>_convert_json\<close>. The writer state is the current segment and the heap. The elements of an
  array or map are never null pointers; the null check of the argument is made in
  \<open>output_convert_json\<close>, the only place where the argument can be null.
\<close>

text \<open>The \<^verbatim>\<open>for\<close> loop over the entries, with a comma after every entry but the last.\<close>

fun entries_loop ::
    "allocator \<Rightarrow> ('x \<Rightarrow> json_writer_state \<Rightarrow> json_writer_state option) \<Rightarrow> 'x list \<Rightarrow>
       json_writer_state \<Rightarrow> json_writer_state option" where
  "entries_loop alloc body [] s = Some s"
| "entries_loop alloc body (x # xs) s = do {
     s \<leftarrow> body x s;
     s \<leftarrow> (if xs \<noteq> [] then json_put alloc [0x2C] s else Some s);
     entries_loop alloc body xs s }"

lemma entries_loop_cong [fundef_cong]:
  "xs = ys \<Longrightarrow> s = t \<Longrightarrow> (\<And>x u. x \<in> set ys \<Longrightarrow> f x u = g x u) \<Longrightarrow>
     entries_loop alloc f xs s = entries_loop alloc g ys t"
proof (induction xs arbitrary: ys s t)
  case (Cons x xs)
  have "f x t = g x t"
    using Cons.prems(1) by (intro Cons.prems(3)) auto
  moreover have "entries_loop alloc f xs = entries_loop alloc g xs"
    using Cons.prems(1) by (intro ext Cons.IH Cons.prems(3)) auto
  ultimately show ?case
    using Cons.prems(1,2) by auto
qed auto

lemma size_entry [simp]: "el \<in> set es \<Longrightarrow> size el < Suc (Suc (size_list size es))"
  using size_list_estimation' [of el es "size el" size] by simp

function convert_json :: "allocator \<Rightarrow> ddwaf_object \<Rightarrow> nat \<Rightarrow> json_writer_state \<Rightarrow> json_writer_state option" where
  "convert_json alloc cur_obj depth s =
     (if MAX_JSON_DEPTH < depth \<or> fst s = None then json_fail s
      else (case payload cur_obj of
          DDWAF_OBJ_INVALID \<Rightarrow> json_fail s
        | DDWAF_OBJ_SIGNED val \<Rightarrow> do {
            str \<leftarrow> sprintf_to 21 (dec_int (sint val));
            json_put alloc str s }
        | DDWAF_OBJ_UNSIGNED val \<Rightarrow> do {
            str \<leftarrow> sprintf_to 21 (dec_nat (unat val));
            json_put alloc str s }
        | DDWAF_OBJ_STRING str \<Rightarrow> do {
            s \<leftarrow> json_put alloc [0x22] s;
            s \<leftarrow> json_put_str alloc str s;
            json_put alloc [0x22] s }
        | DDWAF_OBJ_ARRAY es \<Rightarrow> do {
            s \<leftarrow> json_put alloc [0x5B] s;
            s \<leftarrow> entries_loop alloc (\<lambda>el. convert_json alloc el (depth + 1)) es s;
            json_put alloc [0x5D] s }
        | DDWAF_OBJ_MAP es \<Rightarrow> do {
            s \<leftarrow> json_put alloc [0x7B] s;
            s \<leftarrow> entries_loop alloc (\<lambda>el s. do {
              s \<leftarrow> json_put alloc [0x22] s;
              s \<leftarrow> json_put_str alloc (parameterName el) s;
              s \<leftarrow> json_put alloc [0x22, 0x3A] s;
              convert_json alloc el (depth + 1) s }) es s;
            json_put alloc [0x7D] s }
        | DDWAF_OBJ_BOOL b \<Rightarrow>
            if b then json_put alloc [0x74, 0x72, 0x75, 0x65] s
            else json_put alloc [0x66, 0x61, 0x6C, 0x73, 0x65] s
        | DDWAF_OBJ_FLOAT f64 \<Rightarrow> Some s
        | DDWAF_OBJ_NULL \<Rightarrow> Some s))"
  by pat_completeness auto
termination
proof (relation "measure (\<lambda>(alloc, cur_obj, depth, s). size cur_obj)", goal_cases)
  case (2 alloc cur_obj depth s es s' el)
  then show ?case
    by (cases cur_obj) auto
next
  case (3 alloc cur_obj depth s es s' el)
  then show ?case
    by (cases cur_obj) auto
qed simp

declare convert_json.simps [simp del]

definition output_convert_json ::
    "allocator \<Rightarrow> ddwaf_object option \<Rightarrow> json_heap \<Rightarrow> (nat option \<times> json_heap) option" where
  "output_convert_json alloc obj h =
     (case json_seg_new alloc 0 h of
        (None, h') \<Rightarrow> Some (None, h')
      | (Some initial_seg, h') \<Rightarrow> do {
          (res, h'') \<leftarrow> (case obj of None \<Rightarrow> Some (None, h') | Some cur_obj \<Rightarrow> convert_json alloc cur_obj 0 (Some initial_seg, h'));
          if res \<noteq> None then Some (Some initial_seg, h'')
          else do {
            h3 \<leftarrow> json_seg_free (Some initial_seg) h'';
            Some (None, h3) }})"

subsection \<open>The printed text\<close>

text \<open>The text of an object, and what the serialiser requires of it at depth \<open>d\<close>.\<close>

fun commas :: "byte list list \<Rightarrow> byte list" where
  "commas [] = []"
| "commas (x # xs) = x @ (if xs \<noteq> [] then [0x2C] else []) @ commas xs"

primrec json_print :: "ddwaf_object \<Rightarrow> byte list"
and json_print_value :: "ddwaf_value \<Rightarrow> byte list"
where
  "json_print (DdwafObject nm v) = json_print_value v"
| "json_print_value DDWAF_OBJ_INVALID = []"
| "json_print_value (DDWAF_OBJ_SIGNED w) = dec_int (sint w)"
| "json_print_value (DDWAF_OBJ_UNSIGNED w) = dec_nat (unat w)"
| "json_print_value (DDWAF_OBJ_STRING str) = [0x22] @ json_encode_chars str @ [0x22]"
| "json_print_value (DDWAF_OBJ_ARRAY es) = [0x5B] @ commas (map json_print es) @ [0x5D]"
| "json_print_value (DDWAF_OBJ_MAP es) =
     [0x7B] @ commas (map (\<lambda>(k, t). [0x22] @ json_encode_chars k @ [0x22, 0x3A] @ t)
        (zip (map parameterName es) (map json_print es))) @ [0x7D]"
| "json_print_value (DDWAF_OBJ_BOOL b) =
     (if b then [0x74, 0x72, 0x75, 0x65] else [0x66, 0x61, 0x6C, 0x73, 0x65])"
| "json_print_value (DDWAF_OBJ_FLOAT w) = []"
| "json_print_value DDWAF_OBJ_NULL = []"

primrec printable :: "ddwaf_object \<Rightarrow> nat \<Rightarrow> bool"
and printable_value :: "ddwaf_value \<Rightarrow> nat \<Rightarrow> bool"
where
  "printable (DdwafObject nm v) = (\<lambda>d. d \<le> MAX_JSON_DEPTH \<and> printable_value v d)"
| "printable_value DDWAF_OBJ_INVALID = (\<lambda>d. False)"
| "printable_value (DDWAF_OBJ_SIGNED w) = (\<lambda>d. True)"
| "printable_value (DDWAF_OBJ_UNSIGNED w) = (\<lambda>d. True)"
| "printable_value (DDWAF_OBJ_STRING str) = (\<lambda>d. json_str_encoded_size str \<le> UINT32_MAX)"
| "printable_value (DDWAF_OBJ_ARRAY es) = (\<lambda>d. \<forall>p \<in> set (map printable es). p (d + 1))"
| "printable_value (DDWAF_OBJ_MAP es) = (\<lambda>d. (\<forall>p \<in> set (map printable es). p (d + 1)) \<and>
     (\<forall>k \<in> set (map parameterName es). json_str_encoded_size k \<le> UINT32_MAX))"
| "printable_value (DDWAF_OBJ_BOOL b) = (\<lambda>d. True)"
| "printable_value (DDWAF_OBJ_FLOAT w) = (\<lambda>d. True)"
| "printable_value DDWAF_OBJ_NULL = (\<lambda>d. True)"

definition json_text :: "nat \<Rightarrow> ddwaf_object \<Rightarrow> byte list option" where
  "json_text d ob = (if printable ob d then Some (json_print ob) else None)"

subsection \<open>Printed numbers fit their buffer\<close>

lemma length_dec_nat: "n < 10 ^ k \<Longrightarrow> 0 < k \<Longrightarrow> length (dec_nat n) \<le> k"
proof (induction n arbitrary: k rule: dec_nat.induct)
  case (1 n)
  show ?case
  proof (cases "n < 10")
    case True
    with 1(3) show ?thesis
      by (subst dec_nat.simps) simp
  next
    case False
    then obtain j where j: "k = Suc j" "0 < j"
      using 1(2,3) by (cases k; cases "k - 1") auto
    then have "n div 10 < 10 ^ j"
      using 1(2) by (simp add: less_mult_imp_div_less mult.commute)
    then have "length (dec_nat (n div 10)) \<le> j"
      using 1(1) False j by blast
    with False j show ?thesis
      by (subst dec_nat.simps) simp
  qed
qed

lemma dec_nat_fits: "sprintf_to 21 (dec_nat (unat (w :: 64 word))) = Some (dec_nat (unat w))"
proof -
  have "unat w < 2 ^ 64"
    using unsigned_less [of w] by simp
  then have "unat w < 10 ^ 20"
    by simp
  then show ?thesis
    using length_dec_nat [of "unat w" 20] by (simp add: sprintf_to_def)
qed

lemma dec_int_fits: "sprintf_to 21 (dec_int (sint (w :: 64 word))) = Some (dec_int (sint w))"
proof -
  have "- (2 ^ 63) \<le> sint w" "sint w < 2 ^ 63"
    using sint_ge [of w] sint_lt [of w] by simp_all
  then have "nat (sint w) < 10 ^ 19" "nat (- sint w) < 10 ^ 19"
    by simp_all
  then show ?thesis
    using length_dec_nat [of "nat (sint w)" 19] length_dec_nat [of "nat (- sint w)" 19]
    by (simp add: sprintf_to_def dec_int_def)
qed

subsection \<open>The serialiser writes the text\<close>

fun commas_opt :: "byte list option list \<Rightarrow> byte list option" where
  "commas_opt [] = Some []"
| "commas_opt (x # xs) = join_text x (join_text (Some (if xs \<noteq> [] then [0x2C] else [])) (commas_opt xs))"

lemma commas_opt_None: "None \<in> set xs \<Longrightarrow> commas_opt xs = None"
  by (induction xs) auto

lemma commas_opt_Some: "commas_opt (map Some ts) = Some (commas ts)"
  by (induction ts) auto

lemma commas_opt_if:
  "commas_opt (map (\<lambda>x. if p x then Some (f x) else None) xs) =
    (if \<forall>x \<in> set xs. p x then Some (commas (map f xs)) else None)"
proof (cases "\<forall>x \<in> set xs. p x")
  case True
  then have "map (\<lambda>x. if p x then Some (f x) else None) xs = map Some (map f xs)"
    by simp
  then show ?thesis
    using True by (metis commas_opt_Some)
next
  case False
  then show ?thesis
    by (auto intro!: commas_opt_None)
qed

lemma chunk_small: "length d \<le> UINT32_MAX \<Longrightarrow> chunk UINT32_MAX d = Some d"
  by (simp add: chunk_def)

lemma chunk_short [simp]: "length d \<le> 1000 \<Longrightarrow> chunk UINT32_MAX d = Some d"
  by (simp add: chunk_def UINT32_MAX_def)

abbreviation json_writes :: "allocator \<Rightarrow> (nat \<rightharpoonup> json_segment) \<Rightarrow> nat \<Rightarrow>
    (json_writer_state \<Rightarrow> json_writer_state option) \<Rightarrow> byte list option \<Rightarrow> bool" where
  "json_writes alloc st0 head \<equiv> writes (\<forall>k n. alloc k n) (json_ok st0 head) (json_contents head)"

lemma put_writes: "length d \<le> 1000 \<Longrightarrow> json_writes alloc st0 head (json_put alloc d) (Some d)"
  using js.append_writes [of alloc st0 head d] by simp

lemma put_str_writes:
  "json_writes alloc st0 head (json_put_str alloc d)
     (if json_str_encoded_size d \<le> UINT32_MAX then Some (json_encode_chars d) else None)"
  using js.encode_writes [of alloc st0 head d] by (simp add: chunk_def length_json_encode_chars)

lemma entries_loop_writes:
  assumes "\<And>x. x \<in> set xs \<Longrightarrow> json_writes alloc st0 head (body x) (r x)"
  shows "json_writes alloc st0 head (entries_loop alloc body xs) (commas_opt (map r xs))"
  using assms
proof (induction xs)
  case Nil
  have "entries_loop alloc body [] = Some"
    by (rule ext) simp
  then show ?case
    using writes_skip by simp
next
  case (Cons x xs)
  have sep: "json_writes alloc st0 head (\<lambda>s. if xs \<noteq> [] then json_put alloc [0x2C] s else Some s)
      (Some (if xs \<noteq> [] then [0x2C] else []))"
    using put_writes [of "[0x2C]"] writes_skip by (cases xs) simp_all
  have "json_writes alloc st0 head (\<lambda>s. Option.bind (body x s) (\<lambda>s. Option.bind
      (if xs \<noteq> [] then json_put alloc [0x2C] s else Some s) (entries_loop alloc body xs)))
      (join_text (r x) (join_text (Some (if xs \<noteq> [] then [0x2C] else [])) (commas_opt (map r xs))))"
    by (intro writes_seq sep Cons.IH) (use Cons.prems in auto)
  moreover have "entries_loop alloc body (x # xs) = (\<lambda>s. Option.bind (body x s) (\<lambda>s. Option.bind
      (if xs \<noteq> [] then json_put alloc [0x2C] s else Some s) (entries_loop alloc body xs)))"
    by (rule ext) simp
  ultimately show ?case
    by simp
qed

text \<open>The guard at the start of the function: a writer that has failed stays failed.\<close>

lemma guarded_writes:
  assumes "\<not> b \<Longrightarrow> json_writes alloc st0 head f r" and "b \<Longrightarrow> r = None"
  shows "json_writes alloc st0 head (\<lambda>s. if b \<or> fst s = None then json_fail s else f s) r"
  unfolding writes_def
proof (intro allI impI)
  fix s assume s: "json_ok st0 head s"
  show "\<exists>s'. (if b \<or> fst s = None then json_fail s else f s) = Some s' \<and> json_ok st0 head s' \<and>
      (json_contents head s' = None \<or> json_contents head s' = join_text (json_contents head s) r) \<and>
      ((\<forall>k n. alloc k n) \<longrightarrow> json_contents head s' = join_text (json_contents head s) r)"
  proof (cases "b \<or> fst s = None")
    case True
    then have "join_text (json_contents head s) r = None"
      using assms(2) by (cases s) (auto simp: json_contents_def)
    then show ?thesis
      using True js.fail_writes [of alloc st0 head] s unfolding writes_def by (cases s) auto
  next
    case False
    then show ?thesis
      using assms(1) s unfolding writes_def by (cases s) auto
  qed
qed

lemma member_writes:
  assumes "json_writes alloc st0 head f r"
  shows "json_writes alloc st0 head (\<lambda>s. do {
      s \<leftarrow> json_put alloc [0x22] s;
      s \<leftarrow> json_put_str alloc k s;
      s \<leftarrow> json_put alloc [0x22, 0x3A] s;
      f s })
    (join_text (Some [0x22]) (join_text
       (if json_str_encoded_size k \<le> UINT32_MAX then Some (json_encode_chars k) else None)
       (join_text (Some [0x22, 0x3A]) r)))"
  by (intro writes_seq put_str_writes assms) (rule put_writes, simp)+

lemma map_text:
  "commas_opt (map (\<lambda>el. join_text (Some [0x22]) (join_text
       (if json_str_encoded_size (parameterName el) \<le> UINT32_MAX
        then Some (json_encode_chars (parameterName el)) else None)
       (join_text (Some [0x22, 0x3A]) (json_text d el)))) es) =
   (if \<forall>el \<in> set es. printable el d \<and> json_str_encoded_size (parameterName el) \<le> UINT32_MAX
    then Some (commas (map (\<lambda>(k, t). [0x22] @ json_encode_chars k @ [0x22, 0x3A] @ t)
        (zip (map parameterName es) (map json_print es)))) else None)"
proof -
  have "(\<lambda>el. join_text (Some [0x22]) (join_text
       (if json_str_encoded_size (parameterName el) \<le> UINT32_MAX
        then Some (json_encode_chars (parameterName el)) else None)
       (join_text (Some [0x22, 0x3A]) (json_text d el)))) =
     (\<lambda>el. if printable el d \<and> json_str_encoded_size (parameterName el) \<le> UINT32_MAX
        then Some ([0x22] @ json_encode_chars (parameterName el) @ [0x22, 0x3A] @ json_print el) else None)"
    by (rule ext) (simp add: json_text_def)
  moreover have "map (\<lambda>(k, t). [0x22] @ json_encode_chars k @ [0x22, 0x3A] @ t)
        (zip (map parameterName es) (map json_print es)) =
      map (\<lambda>el. [0x22] @ json_encode_chars (parameterName el) @ [0x22, 0x3A] @ json_print el) es"
    by (simp add: zip_map_map zip_same_conv_map)
  ultimately show ?thesis
    by (simp only: commas_opt_if)
qed

lemma array_text:
  "commas_opt (map (json_text d) es) =
   (if \<forall>el \<in> set es. printable el d then Some (commas (map json_print es)) else None)"
  using commas_opt_if [of "\<lambda>el. printable el d" json_print es] by (simp add: json_text_def [abs_def])

lemma convert_json_writes: "json_writes alloc st0 head (convert_json alloc ob d) (json_text d ob)"
proof (induction ob arbitrary: d rule: measure_induct_rule [of size])
  case (less ob)
  obtain nm v where ob: "ob = DdwafObject nm v"
    by (cases ob)
  define body where "body = (\<lambda>s. case v of
          DDWAF_OBJ_INVALID \<Rightarrow> json_fail s
        | DDWAF_OBJ_SIGNED val \<Rightarrow> do {
            str \<leftarrow> sprintf_to 21 (dec_int (sint val));
            json_put alloc str s }
        | DDWAF_OBJ_UNSIGNED val \<Rightarrow> do {
            str \<leftarrow> sprintf_to 21 (dec_nat (unat val));
            json_put alloc str s }
        | DDWAF_OBJ_STRING str \<Rightarrow> do {
            s \<leftarrow> json_put alloc [0x22] s;
            s \<leftarrow> json_put_str alloc str s;
            json_put alloc [0x22] s }
        | DDWAF_OBJ_ARRAY es \<Rightarrow> do {
            s \<leftarrow> json_put alloc [0x5B] s;
            s \<leftarrow> entries_loop alloc (\<lambda>el. convert_json alloc el (d + 1)) es s;
            json_put alloc [0x5D] s }
        | DDWAF_OBJ_MAP es \<Rightarrow> do {
            s \<leftarrow> json_put alloc [0x7B] s;
            s \<leftarrow> entries_loop alloc (\<lambda>el s. do {
              s \<leftarrow> json_put alloc [0x22] s;
              s \<leftarrow> json_put_str alloc (parameterName el) s;
              s \<leftarrow> json_put alloc [0x22, 0x3A] s;
              convert_json alloc el (d + 1) s }) es s;
            json_put alloc [0x7D] s }
        | DDWAF_OBJ_BOOL b \<Rightarrow>
            if b then json_put alloc [0x74, 0x72, 0x75, 0x65] s
            else json_put alloc [0x66, 0x61, 0x6C, 0x73, 0x65] s
        | DDWAF_OBJ_FLOAT f64 \<Rightarrow> Some s
        | DDWAF_OBJ_NULL \<Rightarrow> Some s)"
  have fn: "convert_json alloc ob d = (\<lambda>s. if MAX_JSON_DEPTH < d \<or> fst s = None then json_fail s else body s)"
    by (rule ext, subst convert_json.simps) (simp add: ob body_def)
  have el: "json_writes alloc st0 head (convert_json alloc el (d + 1)) (json_text (d + 1) el)"
    if "v = DDWAF_OBJ_ARRAY es \<or> v = DDWAF_OBJ_MAP es" "el \<in> set es" for el es
    by (rule less.IH) (use that ob in auto)
  have "json_writes alloc st0 head body (json_text d ob)" if d: "\<not> MAX_JSON_DEPTH < d"
  proof (cases v)
    case DDWAF_OBJ_INVALID
    then show ?thesis
      using js.fail_writes [of alloc st0 head] by (simp add: body_def ob json_text_def)
  next
    case (DDWAF_OBJ_SIGNED w)
    have "length (dec_int (sint w)) \<le> 1000"
      using dec_int_fits [of w] by (simp add: sprintf_to_def split: if_splits)
    then show ?thesis
      using put_writes d by (simp add: body_def ob json_text_def DDWAF_OBJ_SIGNED dec_int_fits)
  next
    case (DDWAF_OBJ_UNSIGNED w)
    have "length (dec_nat (unat w)) \<le> 1000"
      using dec_nat_fits [of w] by (simp add: sprintf_to_def split: if_splits)
    then show ?thesis
      using put_writes d by (simp add: body_def ob json_text_def DDWAF_OBJ_UNSIGNED dec_nat_fits)
  next
    case (DDWAF_OBJ_STRING str)
    have "json_writes alloc st0 head body (join_text (Some [0x22]) (join_text
        (if json_str_encoded_size str \<le> UINT32_MAX then Some (json_encode_chars str) else None) (Some [0x22])))" (is "json_writes _ _ _ _ ?r")
      unfolding body_def DDWAF_OBJ_STRING ddwaf_value.case
      by (intro writes_seq put_str_writes) (rule put_writes, simp)+
    moreover have "?r = json_text d ob"
      unfolding ob using d by (auto simp: ob json_text_def DDWAF_OBJ_STRING)
    ultimately show ?thesis
      by (simp only:)
  next
    case (DDWAF_OBJ_ARRAY es)
    have "json_writes alloc st0 head body
        (join_text (Some [0x5B]) (join_text (commas_opt (map (json_text (d + 1)) es)) (Some [0x5D])))" (is "json_writes _ _ _ _ ?r")
      unfolding body_def DDWAF_OBJ_ARRAY ddwaf_value.case
      by (intro writes_seq entries_loop_writes el [of es]) (use DDWAF_OBJ_ARRAY put_writes in auto)
    moreover have "?r = json_text d ob"
      unfolding array_text using d by (auto simp: ob json_text_def DDWAF_OBJ_ARRAY)
    ultimately show ?thesis
      by (simp only:)
  next
    case (DDWAF_OBJ_MAP es)
    have "json_writes alloc st0 head body
        (join_text (Some [0x7B]) (join_text (commas_opt (map (\<lambda>el. join_text (Some [0x22]) (join_text
       (if json_str_encoded_size (parameterName el) \<le> UINT32_MAX
        then Some (json_encode_chars (parameterName el)) else None)
       (join_text (Some [0x22, 0x3A]) (json_text (d + 1) el)))) es)) (Some [0x7D])))" (is "json_writes _ _ _ _ ?r")
      unfolding body_def DDWAF_OBJ_MAP ddwaf_value.case
      by (intro writes_seq entries_loop_writes member_writes el [of es]) (use DDWAF_OBJ_MAP put_writes in auto)
    moreover have "?r = json_text d ob"
      unfolding map_text using d by (auto simp: ob json_text_def DDWAF_OBJ_MAP ball_conj_distrib)
    ultimately show ?thesis
      by (simp only:)
  next
    case (DDWAF_OBJ_BOOL b)
    then show ?thesis
      using put_writes d by (cases b) (simp_all add: body_def ob json_text_def)
  next
    case (DDWAF_OBJ_FLOAT w)
    then show ?thesis
      using writes_skip d by (simp add: body_def ob json_text_def)
  next
    case DDWAF_OBJ_NULL
    then show ?thesis
      using writes_skip d by (simp add: body_def ob json_text_def)
  qed
  then show ?case
    unfolding fn by (rule guarded_writes) (simp_all add: ob json_text_def)
qed

lemma join_text_nil: "join_text (Some []) b = b"
  by (cases b) simp_all

lemma freed_heap_ok:
  assumes "json_ok st0 head (cur, h)"
  shows "\<exists>h'. json_seg_free (Some head) h = Some h' \<and> store h' = st0 \<and> heap_ok h'"
proof -
  have "\<forall>a \<in> dom st0. a < brk h"
    using assms unfolding json_ok_def json_ok_path_def by (fastforce simp: dom_def)
  then show ?thesis
    using json_seg_free_ok [OF assms] by (auto simp: heap_ok_def)
qed

lemma output_convert_json_ok:
  assumes "heap_ok h"
  shows "\<exists>seg h'. output_convert_json alloc ob h = Some (seg, h') \<and>
    (case seg of
       None \<Rightarrow> store h' = store h \<and> heap_ok h' \<and> ((\<forall>k n. alloc k n) \<longrightarrow> (\<forall>x. ob = Some x \<longrightarrow> json_text 0 x = None))
     | Some a \<Rightarrow> \<exists>cur x. json_ok (store h) a (cur, h') \<and> ob = Some x \<and> json_text 0 x \<noteq> None \<and>
         json_contents a (cur, h') = json_text 0 x)"
  using assms
proof (rule json_seg_new_ok [of h alloc])
  fix k assume "\<not> alloc (brk h) k" "json_seg_new alloc 0 h = (None, h\<lparr>brk := brk h + 1\<rparr>)"
  then show ?thesis
    using assms by (auto simp: output_convert_json_def heap_ok_def less_Suc_eq)
next
  fix h1 assume new: "json_seg_new alloc 0 h = (Some (brk h), h1)"
    and ok: "json_ok (store h) (brk h) (Some (brk h), h1)" and c: "json_contents (brk h) (Some (brk h), h1) = Some []"
  show ?thesis
  proof (cases ob)
    case None
    then show ?thesis
      using freed_heap_ok [OF ok] new by (auto simp: output_convert_json_def)
  next
    case (Some x)
    obtain cur h2 where r: "convert_json alloc x 0 (Some (brk h), h1) = Some (cur, h2)"
        "json_ok (store h) (brk h) (cur, h2)"
        "json_contents (brk h) (cur, h2) = None \<or> json_contents (brk h) (cur, h2) = json_text 0 x"
        "(\<forall>k n. alloc k n) \<Longrightarrow> json_contents (brk h) (cur, h2) = json_text 0 x"
      by (rule writesD [OF convert_json_writes ok, of alloc x 0]) (use c in \<open>auto simp: join_text_nil\<close>)
    show ?thesis
    proof (cases cur)
      case None
      then have "json_contents (brk h) (cur, h2) = None"
        by (simp add: json_contents_None)
      then show ?thesis
        using None r freed_heap_ok [OF r(2)] new Some by (auto simp: output_convert_json_def)
    next
      case (Some b)
      moreover have "json_contents (brk h) (cur, h2) \<noteq> None"
        using Some by (simp add: json_contents_None)
      ultimately show ?thesis
        using r new \<open>ob = Some x\<close>
        by (auto simp: output_convert_json_def intro!: exI [of _ cur])
    qed
  qed
qed

subsection \<open>The text is JSON\<close>

text \<open>A grammar of JSON texts (RFC 8259), without the forms that the serialiser never uses.\<close>

definition json_digits :: "byte list \<Rightarrow> bool" where
  "json_digits u \<longleftrightarrow> u \<noteq> [] \<and> (\<forall>c \<in> set u. 48 \<le> unat c \<and> unat c \<le> 57) \<and> (hd u = 48 \<longrightarrow> length u = 1)"

inductive json_value :: "byte list \<Rightarrow> bool" where
  natural: "json_digits u \<Longrightarrow> json_value u"
| negative: "json_digits u \<Longrightarrow> json_value (45 # u)"
| string: "json_unescape b \<noteq> None \<Longrightarrow> json_value ([0x22] @ b @ [0x22])"
| array: "(\<forall>t \<in> set ts. json_value t) \<Longrightarrow> json_value ([0x5B] @ commas ts @ [0x5D])"
| object: "(\<forall>(k, t) \<in> set ms. json_unescape k \<noteq> None \<and> json_value t) \<Longrightarrow>
    json_value ([0x7B] @ commas (map (\<lambda>(k, t). [0x22] @ k @ [0x22, 0x3A] @ t) ms) @ [0x7D])"
| literal_true: "json_value [0x74, 0x72, 0x75, 0x65]"
| literal_false: "json_value [0x66, 0x61, 0x6C, 0x73, 0x65]"

lemma digit_unat: "n < 10 \<Longrightarrow> unat (of_nat (48 + n) :: byte) = 48 + n"
  by (simp add: unat_of_nat del: of_nat_add)

lemma dec_nat_digits: "json_digits (dec_nat n) \<and> (hd (dec_nat n) = 48 \<longrightarrow> n = 0)"
proof (induction n rule: dec_nat.induct)
  case (1 n)
  show ?case
  proof (cases "n < 10")
    case True
    then have "dec_nat n = [of_nat (48 + n)]"
      by (simp add: dec_nat.simps)
    moreover have "of_nat (48 + n) = (48 :: byte) \<longleftrightarrow> n = 0"
      using digit_unat [OF True] unfolding word_unat_eq_iff by simp
    ultimately show ?thesis
      using digit_unat [OF True] True by (simp add: json_digits_def del: of_nat_add)
  next
    case False
    then have e: "dec_nat n = dec_nat (n div 10) @ [of_nat (48 + n mod 10)]"
      by (subst dec_nat.simps) simp
    have IH: "json_digits (dec_nat (n div 10))" "hd (dec_nat (n div 10)) = 48 \<longrightarrow> n div 10 = 0"
      using 1 False by simp_all
    then have ne: "dec_nat (n div 10) \<noteq> []"
      by (simp add: json_digits_def)
    have hd: "hd (dec_nat n) \<noteq> 48"
      using IH(2) False ne by (auto simp: e)
    moreover have "\<forall>c \<in> set (dec_nat n). 48 \<le> unat c \<and> unat c \<le> 57"
      using IH(1) digit_unat [of "n mod 10"] by (auto simp: e json_digits_def simp del: of_nat_add)
    ultimately show ?thesis
      using ne by (auto simp: json_digits_def e)
  qed
qed

text \<open>Objects without the two types that the serialiser does not know, doubles and nulls.\<close>

primrec plain :: "ddwaf_object \<Rightarrow> bool"
and plain_value :: "ddwaf_value \<Rightarrow> bool"
where
  "plain (DdwafObject nm v) = plain_value v"
| "plain_value DDWAF_OBJ_INVALID = False"
| "plain_value (DDWAF_OBJ_SIGNED w) = True"
| "plain_value (DDWAF_OBJ_UNSIGNED w) = True"
| "plain_value (DDWAF_OBJ_STRING str) = True"
| "plain_value (DDWAF_OBJ_ARRAY es) = list_all id (map plain es)"
| "plain_value (DDWAF_OBJ_MAP es) = list_all id (map plain es)"
| "plain_value (DDWAF_OBJ_BOOL b) = True"
| "plain_value (DDWAF_OBJ_FLOAT w) = False"
| "plain_value DDWAF_OBJ_NULL = False"

lemma json_print_value:
  "plain ob \<Longrightarrow> json_value (json_print ob)"
  "plain_value v \<Longrightarrow> json_value (json_print_value v)"
proof (induction ob and v)
  case (DDWAF_OBJ_SIGNED w)
  then show ?case
    using dec_nat_digits by (auto simp: dec_int_def intro: json_value.intros)
next
  case (DDWAF_OBJ_UNSIGNED w)
  then show ?case
    using dec_nat_digits by (auto intro: json_value.intros)
next
  case (DDWAF_OBJ_STRING str)
  then show ?case
    using json_value.string [of "json_encode_chars str"] by (simp add: json_unescape_encode)
next
  case (DDWAF_OBJ_ARRAY es)
  then have "\<forall>t \<in> set (map json_print es). json_value t"
    by (auto simp: list_all_iff)
  from json_value.array [OF this] show ?case
    by simp
next
  case (DDWAF_OBJ_MAP es)
  let ?ms = "map (\<lambda>el. (json_encode_chars (parameterName el), json_print el)) es"
  have "\<forall>(k, t) \<in> set ?ms. json_unescape k \<noteq> None \<and> json_value t"
    using DDWAF_OBJ_MAP by (auto simp: list_all_iff json_unescape_encode)
  from json_value.object [OF this] show ?case
    by (simp add: zip_map_map zip_same_conv_map comp_def)
qed (auto intro: json_value.intros)

subsection \<open>Properties\<close>

text \<open>
  C15. \<^verbatim>\<open>output_convert_json\<close> either returns a chain whose text is the
  printed object, or it returns null and has freed everything it allocated, also when an
  allocation fails half way. Without a failed allocation it returns null exactly for objects
  that contain an invalid value, are nested more than 20 levels deep or contain a string whose
  escaped length does not fit 32 bits.
\<close>

theorem output_convert_json_correct:
  assumes "heap_ok h"
  shows "\<exists>seg h'. output_convert_json alloc (Some ob) h = Some (seg, h') \<and>
    (case seg of
       None \<Rightarrow> store h' = store h \<and> ((\<forall>k n. alloc k n) \<longrightarrow> \<not> printable ob 0)
     | Some a \<Rightarrow> printable ob 0 \<and> (\<exists>cur. json_ok (store h) a (cur, h') \<and>
         json_contents a (cur, h') = Some (json_print ob)))"
proof -
  obtain seg h' where "output_convert_json alloc (Some ob) h = Some (seg, h')"
    using output_convert_json_ok [OF assms, of alloc "Some ob"] by blast
  then show ?thesis
    using output_convert_json_ok [OF assms, of alloc "Some ob"]
    by (cases seg) (auto simp: json_text_def split: if_splits)
qed

theorem output_convert_json_correct_witness:
  "heap_ok heap0 \<and>
   (\<exists>a h' cur. output_convert_json (\<lambda>_ _. True) (Some (DdwafObject [] (DDWAF_OBJ_ARRAY
        [DdwafObject [] (DDWAF_OBJ_BOOL True), DdwafObject [] (DDWAF_OBJ_STRING [34])]))) heap0 = Some (Some a, h') \<and>
     json_contents a (cur, h') = Some [0x5B, 0x74, 0x72, 0x75, 0x65, 0x2C, 0x22, 0x5C, 0x22, 0x22, 0x5D])"
proof -
  let ?o = "DdwafObject [] (DDWAF_OBJ_ARRAY
        [DdwafObject [] (DDWAF_OBJ_BOOL True), DdwafObject [] (DDWAF_OBJ_STRING [34])])"
  have h: "heap_ok heap0"
    by (simp add: heap_ok_def heap0_def)
  have "printable ?o 0"
    by (simp add: MAX_JSON_DEPTH_def UINT32_MAX_def)
  moreover have "json_print ?o = [0x5B, 0x74, 0x72, 0x75, 0x65, 0x2C, 0x22, 0x5C, 0x22, 0x22, 0x5D]"
    by simp
  ultimately show ?thesis
    using output_convert_json_correct [OF h, of "\<lambda>_ _. True" ?o] h
    by (auto split: option.splits)
qed

text \<open>
  C16. What is returned is a JSON text: for objects without doubles and
  nulls the contents of the chain follow the grammar of RFC 8259, with every string escaped and
  every number in decimal, and they survive the conversion to a Java string unchanged in length
  and order (the text is what the streaming conversion reads).
\<close>

theorem output_convert_json_valid:
  assumes "heap_ok h" and "plain ob"
    and "output_convert_json alloc (Some ob) h = Some (Some a, h')"
  shows "\<exists>t. json_value t \<and> json_length h' (Some a) = Some (length t) \<and>
    java_json_to_jstring_checked alloc' h' (Some a) = Some (java_utf8_to_jstring_checked alloc' t (length t))"
proof -
  from output_convert_json_ok [OF assms(1), of alloc "Some ob"] assms(3)
  obtain cur where ok: "json_ok (store h) a (cur, h')" and c: "json_contents a (cur, h') = Some (json_print ob)"
    by (auto simp: json_text_def split: if_splits)
  then show ?thesis
    using json_print_value(1) [OF assms(2)] java_json_to_jstring_checked_eq [OF ok c]
      json_chain_length [OF json_contents_at_text [OF ok c]] by blast
qed

theorem output_convert_json_valid_witness:
  "\<exists>a h' t. output_convert_json (\<lambda>_ _. True) (Some (DdwafObject [] (DDWAF_OBJ_BOOL True))) heap0 = Some (Some a, h') \<and>
     json_value t \<and> json_length h' (Some a) = Some (length t)"
proof -
  let ?o = "DdwafObject [] (DDWAF_OBJ_BOOL True)"
  have h: "heap_ok heap0" and p: "plain ?o"
    by (simp_all add: heap_ok_def heap0_def)
  obtain a h' where "output_convert_json (\<lambda>_ _. True) (Some ?o) heap0 = Some (Some a, h')"
    using output_convert_json_ok [OF h, of "\<lambda>_ _. True" "Some ?o"]
    by (auto simp: json_text_def MAX_JSON_DEPTH_def split: option.splits)
  then show ?thesis
    using output_convert_json_valid [OF h p, of "\<lambda>_ _. True" a h' "\<lambda>_ _. True"] by blast
qed

text \<open>
  For doubles and nulls the serialiser writes nothing at all, so a
  map with a null member is printed as a text that is not JSON.
\<close>

theorem convert_json_drops_null:
  assumes "heap_ok h" and "\<forall>k n. alloc k n"
  shows "\<exists>a h' cur. output_convert_json alloc
      (Some (DdwafObject [] (DDWAF_OBJ_MAP [DdwafObject [0x61] DDWAF_OBJ_NULL]))) h = Some (Some a, h') \<and>
    json_contents a (cur, h') = Some [0x7B, 0x22, 0x61, 0x22, 0x3A, 0x7D]"
proof -
  let ?o = "DdwafObject [] (DDWAF_OBJ_MAP [DdwafObject [0x61] DDWAF_OBJ_NULL])"
  have "json_text 0 ?o = Some [0x7B, 0x22, 0x61, 0x22, 0x3A, 0x7D]"
    by (simp add: json_text_def MAX_JSON_DEPTH_def UINT32_MAX_def ctrl_char_def)
  then show ?thesis
    using output_convert_json_ok [OF assms(1), of alloc "Some ?o"] assms(2)
    by (auto split: option.splits)
qed

theorem convert_json_drops_null_witness:
  "heap_ok heap0 \<and> (\<exists>a h' cur. output_convert_json (\<lambda>_ _. True)
      (Some (DdwafObject [] (DDWAF_OBJ_MAP [DdwafObject [0x61] DDWAF_OBJ_NULL]))) heap0 = Some (Some a, h') \<and>
    json_contents a (cur, h') = Some [0x7B, 0x22, 0x61, 0x22, 0x3A, 0x7D])"
  using convert_json_drops_null [of heap0 "\<lambda>_ _. True"] by (simp add: heap_ok_def heap0_def)

end
