(* ===== verification/Jni.thy ===== *)
theory Jni
  imports Convert_Json "HOL-Library.State_Monad"
begin

text \<open>
  The JNI environment as the native code sees it, and \<^verbatim>\<open>src/main/c/java_call.c\<close>. The state \<open>jenv\<close>
  holds the pending exception, the number of live local references and of live weak global
  references that the native code owns, the heap of JSON segments, and a flag that is raised when
  a JNI function is called with an exception pending, which the JNI specification forbids for
  all functions but the few that query and clear exceptions and release references, or when the
  native code accesses memory out of bounds. The Java virtual machine itself is
  not code of this repository: it is the parameter \<open>jvm\<close>, a record of oracles that say what the
  \<open>k\<close>-th operation of the run does.
\<close>

subsection \<open>Java objects\<close>

text \<open>
  The objects the native code creates. A null reference is \<open>None\<close>. A map is a
  \<^verbatim>\<open>LinkedHashMap\<close>: its entries in insertion order.
\<close>

datatype jobject =
    JString "jchar list"
  | JLong "64 word"
  | JDouble "64 word"
  | JBoolean bool
  | JArrayList "jobject list"
  | JLinkedHashMap "(jobject \<times> jobject option) list"
  | JObject string "jobject option list"

fun lhm_put :: "'k \<Rightarrow> 'v \<Rightarrow> ('k \<times> 'v) list \<Rightarrow> ('k \<times> 'v) list" where
  "lhm_put k v [] = [(k, v)]"
| "lhm_put k v ((k', v') # m) = (if k' = k then (k, v) # m else (k', v') # lhm_put k v m)"

text \<open>ASCII string literals as bytes.\<close>

definition cstr :: "string \<Rightarrow> byte list" where
  "cstr s = map (\<lambda>c. of_char c) s"

text \<open>
  The levels of the engine in the order of their severity, and what the Java logger is called with: the
  level, which is a constant of the enumeration \<^verbatim>\<open>Level\<close> of \<^verbatim>\<open>slf4j\<close>, an exception, a pattern and its arguments.
\<close>

datatype log_level = DDWAF_LOG_TRACE | DDWAF_LOG_DEBUG | DDWAF_LOG_INFO | DDWAF_LOG_WARN | DDWAF_LOG_ERROR

record log_entry =
  lg_level :: string
  lg_throwable :: "jthrowable option"
  lg_pattern :: string
  lg_args :: "jobject list"

subsection \<open>The environment and the primitive operations\<close>

text \<open>\<open>logged\<close> are the calls that the Java logger has received.\<close>

record jenv =
  pending :: "jthrowable option"
  refs :: int
  weak_refs :: int
  misuse :: bool
  jtick :: nat
  mtick :: nat
  json_mem :: json_heap
  logged :: "log_entry list"

text \<open>
  \<open>throws k\<close>: the exception that the \<open>k\<close>-th JNI operation throws. \<open>nulls k\<close>: the \<open>k\<close>-th operation
  returns a null reference and throws nothing, as when a weak reference was cleared.
  \<open>malloc_ok\<close>, \<open>seg_alloc\<close>, \<open>gz_alloc\<close>: whether an allocation succeeds, of a buffer, of a JSON segment, and
  of the compressor in its \<open>k\<close>-th run. \<open>rte_cached\<close>: the class
  \<^verbatim>\<open>RuntimeException\<close> and its constructor have been looked up. \<open>min_level\<close>: the level below which
  nothing is logged. \<open>getenv\<close> and \<open>attach_ok\<close>: what \<^verbatim>\<open>GetEnv\<close> answers on the current thread, and
  whether the thread can be attached when it is not.
\<close>

datatype getenv_result = JNI_OK | JNI_EDETACHED | JNI_EVERSION

record jvm =
  throws :: "nat \<Rightarrow> jthrowable option"
  nulls :: "nat \<Rightarrow> bool"
  malloc_ok :: allocator
  seg_alloc :: allocator
  gz_alloc :: "nat \<Rightarrow> allocator"
  rte_cached :: bool
  min_level :: nat
  getenv :: getenv_result
  attach_ok :: bool

type_synonym 'a jni = "(jenv, 'a) state"

definition JNI_call :: "jvm \<Rightarrow> bool jni" where
  "JNI_call J = State (\<lambda>e.
     let e' = e\<lparr>jtick := jtick e + 1, misuse := misuse e \<or> pending e \<noteq> None\<rparr> in
     case throws J (jtick e) of
       None \<Rightarrow> (True, e')
     | Some t \<Rightarrow> (False, e'\<lparr>pending := Some t\<rparr>))"

definition ExceptionCheck :: "bool jni" where
  "ExceptionCheck = State (\<lambda>e. (pending e \<noteq> None, e))"

definition ExceptionClear :: "unit jni" where
  "ExceptionClear = State (\<lambda>e. ((), e\<lparr>pending := None\<rparr>))"

definition ExceptionOccurred :: "jthrowable option jni" where
  "ExceptionOccurred = State (\<lambda>e. (pending e, if pending e = None then e else e\<lparr>refs := refs e + 1\<rparr>))"

definition Throw :: "jthrowable \<Rightarrow> unit jni" where
  "Throw t = State (\<lambda>e. ((), e\<lparr>pending := Some t, misuse := misuse e \<or> pending e \<noteq> None\<rparr>))"

text \<open>\<^verbatim>\<open>ThrowNew\<close> creates the exception, and can fail to, with another exception.\<close>

definition ThrowNew :: "jvm \<Rightarrow> jthrowable \<Rightarrow> unit jni" where
  "ThrowNew J t = do { ok \<leftarrow> JNI_call J; if ok then State (\<lambda>e. ((), e\<lparr>pending := Some t\<rparr>)) else State_Monad.return () }"

definition DeleteLocalRef :: "'a option \<Rightarrow> unit jni" where
  "DeleteLocalRef r = State (\<lambda>e. ((), if r = None then e else e\<lparr>refs := refs e - 1\<rparr>))"

text \<open>A call that returns a local reference, and one that returns a weak global reference.\<close>

definition JNI_local :: "jvm \<Rightarrow> 'a option \<Rightarrow> 'a option jni" where
  "JNI_local J v = do {
     ok \<leftarrow> JNI_call J;
     if ok \<and> v \<noteq> None then State (\<lambda>e. (v, e\<lparr>refs := refs e + 1\<rparr>)) else State_Monad.return None }"

definition NewWeakGlobalRef :: "jvm \<Rightarrow> nat option jni" where
  "NewWeakGlobalRef J = do {
     ok \<leftarrow> JNI_call J;
     State (\<lambda>e. if ok \<and> \<not> nulls J (jtick e) then (Some (jtick e), e\<lparr>weak_refs := weak_refs e + 1\<rparr>) else (None, e)) }"

definition NewLocalRef :: "jvm \<Rightarrow> nat option \<Rightarrow> nat option jni" where
  "NewLocalRef J g = do {
     ok \<leftarrow> JNI_call J;
     State (\<lambda>e. if ok \<and> g \<noteq> None \<and> \<not> nulls J (jtick e) then (g, e\<lparr>refs := refs e + 1\<rparr>) else (None, e)) }"

definition DeleteWeakGlobalRef :: "unit jni" where
  "DeleteWeakGlobalRef = State (\<lambda>e. ((), e\<lparr>weak_refs := weak_refs e - 1\<rparr>))"

definition malloc :: "jvm \<Rightarrow> nat \<Rightarrow> bool jni" where
  "malloc J n = State (\<lambda>e. (malloc_ok J (mtick e) n, e\<lparr>mtick := mtick e + 1\<rparr>))"

text \<open>An access outside of an object: nothing is known after it.\<close>

definition undefined_access :: "'a option jni" where
  "undefined_access = State (\<lambda>e. (None, e\<lparr>misuse := True\<rparr>))"

text \<open>
  The conversion of a UTF-8 buffer to a Java string, run in the environment: its exceptions
  become pending and its result is a local reference.
\<close>

definition new_jstring :: "jvm \<Rightarrow> byte list \<Rightarrow> jobject option jni" where
  "new_jstring J bs = State (\<lambda>e.
     let e' = e\<lparr>mtick := mtick e + 2, misuse := misuse e \<or> pending e \<noteq> None\<rparr> in
     case java_utf8_to_jstring_checked (\<lambda>n. malloc_ok J (mtick e + n)) bs (length bs) of
       Inr s \<Rightarrow> (Some (JString s), e'\<lparr>refs := refs e + 1\<rparr>)
     | Inl (Pending t) \<Rightarrow> (None, e'\<lparr>pending := Some t\<rparr>)
     | Inl OutOfBounds \<Rightarrow> (None, e'\<lparr>misuse := True\<rparr>))"

subsection \<open>Calling methods\<close>

datatype j_method_type =
    JMETHOD_UNINITIALIZED
  | JMETHOD_STATIC
  | JMETHOD_NON_VIRTUAL
  | JMETHOD_CONSTRUCTOR
  | JMETHOD_VIRTUAL
  | JMETHOD_VIRTUAL_RETRIEVE_CLASS

record j_method =
  jm_type :: j_method_type
  class_glob :: "nat option"
  meth_id :: string

text \<open>
  \<^verbatim>\<open>java_wrap_exc\<close> of \<^verbatim>\<open>logging.c\<close> (\<^verbatim>\<open>_java_wrap_exc_relay\<close>): \<open>user_msg\<close> and \<open>epilog\<close> are the two
  formatted strings, in buffers that \<^verbatim>\<open>asprintf\<close> allocates. \<open>wrap_end\<close> is the part from the label
  \<^verbatim>\<open>error\<close> on.
\<close>

definition wrap_end :: "'a option \<Rightarrow> 'b option \<Rightarrow> 'c option \<Rightarrow> unit jni" where
  "wrap_end prev_throwable message_obj new_throwable = do {
     DeleteLocalRef prev_throwable;
     DeleteLocalRef message_obj;
     DeleteLocalRef new_throwable }"

definition java_wrap_exc :: "jvm \<Rightarrow> byte list \<Rightarrow> byte list \<Rightarrow> unit jni" where
  "java_wrap_exc J user_msg epilog =
     (if \<not> rte_cached J then State_Monad.return ()
      else do {
        prev_throwable \<leftarrow> ExceptionOccurred;
        case prev_throwable of
          None \<Rightarrow> State_Monad.return ()
        | Some prev \<Rightarrow> do {
            ok1 \<leftarrow> malloc J (length epilog + 1);
            if \<not> ok1 then wrap_end (Some prev) (None :: unit option) (None :: unit option) else do {
            ok2 \<leftarrow> malloc J (length user_msg + 1);
            if \<not> ok2 then wrap_end (Some prev) (None :: unit option) (None :: unit option) else do {
            ok3 \<leftarrow> malloc J (length epilog + length user_msg + 2);
            if \<not> ok3 then wrap_end (Some prev) (None :: unit option) (None :: unit option) else do {
            ExceptionClear;
            message_obj \<leftarrow> new_jstring J (user_msg @ [32] @ epilog);
            exc \<leftarrow> ExceptionCheck;
            if exc then do {
              ExceptionClear;
              Throw prev;
              wrap_end (Some prev) message_obj (None :: unit option) }
            else do {
            new_throwable \<leftarrow> JNI_local J (Some (RuntimeExceptionCause (utf16_of (user_msg @ [32] @ epilog)) prev));
            exc \<leftarrow> ExceptionCheck;
            if exc then do {
              ExceptionClear;
              Throw prev;
              wrap_end (Some prev) message_obj new_throwable }
            else do {
            (case new_throwable of Some t \<Rightarrow> Throw t | None \<Rightarrow> State_Monad.return ());
            wrap_end (Some prev) message_obj new_throwable }}}}}}})"

text \<open>\<^verbatim>\<open>_remove_path\<close>: what follows the last slash.\<close>

fun remove_path_loop :: "byte list \<Rightarrow> byte list \<Rightarrow> byte list" where
  "remove_path_loop [] res = res"
| "remove_path_loop (c # p) res = remove_path_loop p (if c = 0x2F then p else res)"

definition remove_path :: "byte list \<Rightarrow> byte list" where
  "remove_path p = remove_path_loop p p"

text \<open>\<^verbatim>\<open>java_wrap_exc\<close> as it is called: with the place of the call in the source.\<close>

definition wrap_exc :: "jvm \<Rightarrow> string \<Rightarrow> string \<Rightarrow> nat \<Rightarrow> byte list \<Rightarrow> unit jni" where
  "wrap_exc J file function line msg = java_wrap_exc J msg
     (cstr ''during native function '' @ cstr function @ cstr '', file '' @ remove_path (cstr file) @
      cstr '', line '' @ dec_nat line)"

text \<open>
  \<^verbatim>\<open>java_meth_init_checked\<close>: the result is the method that is stored through the pointer, or
  \<open>None\<close> when the function returns \<^verbatim>\<open>false\<close>.
\<close>

definition java_meth_init_checked ::
    "jvm \<Rightarrow> string \<Rightarrow> string \<Rightarrow> string \<Rightarrow> j_method_type \<Rightarrow> j_method option jni" where
  "java_meth_init_checked J class_name method_name sig type = do {
     class_local \<leftarrow> JNI_local J (Some ());
     if class_local = None then do {
       wrap_exc J ''java_call.c'' ''java_meth_init_checked'' 25 (cstr ''Could not find class '' @ cstr class_name);
       State_Monad.return None }
     else do {
       let method_name = (if type = JMETHOD_CONSTRUCTOR then ''<init>'' else method_name);
       class_global \<leftarrow> (if type \<noteq> JMETHOD_VIRTUAL then NewWeakGlobalRef J else State_Monad.return None);
       if type \<noteq> JMETHOD_VIRTUAL \<and> class_global = None then do {
         exc \<leftarrow> ExceptionCheck;
         (if \<not> exc then ThrowNew J (RuntimeException ''Failed creating global reference'') else State_Monad.return ());
         DeleteLocalRef class_local;
         State_Monad.return None }
       else do {
         found \<leftarrow> JNI_call J;
         if \<not> found then do {
           wrap_exc J ''java_call.c'' ''java_meth_init_checked'' 51
             (cstr ''Could not find method '' @ cstr class_name @ cstr ''.'' @ cstr method_name @ cstr sig);
           DeleteLocalRef class_local;
           State_Monad.return None }
         else do {
           DeleteLocalRef class_local;
           State_Monad.return (Some \<lparr>
             jm_type = (if type \<noteq> JMETHOD_VIRTUAL_RETRIEVE_CLASS then type else JMETHOD_VIRTUAL),
             class_glob = class_global,
             meth_id = method_name\<rparr>) }}}}"

text \<open>\<open>ret\<close> is what the Java method returns when it does not throw.\<close>

definition java_meth_call :: "jvm \<Rightarrow> j_method \<Rightarrow> 'a option \<Rightarrow> 'a option jni" where
  "java_meth_call J jmeth ret =
     (if jm_type jmeth = JMETHOD_UNINITIALIZED then do {
        ThrowNew J (RuntimeException ''j_method unitialized'');
        State_Monad.return None }
      else if jm_type jmeth \<noteq> JMETHOD_VIRTUAL then do {
        class_strongref \<leftarrow> NewLocalRef J (class_glob jmeth);
        if class_strongref = None then do {
          exc \<leftarrow> ExceptionCheck;
          (if \<not> exc then ThrowNew J (RuntimeException ''Cached class was garbage collected'')
           else State_Monad.return ());
          State_Monad.return None }
        else do {
          r \<leftarrow> JNI_local J ret;
          DeleteLocalRef class_strongref;
          State_Monad.return r }}
      else JNI_local J ret)"

definition java_meth_destroy :: "j_method \<Rightarrow> j_method jni" where
  "java_meth_destroy jmeth =
     (if class_glob jmeth \<noteq> None then do {
        DeleteWeakGlobalRef;
        State_Monad.return (jmeth\<lparr>class_glob := None\<rparr>) }
      else State_Monad.return jmeth)"

text \<open>\<^verbatim>\<open>java_static_field_checked\<close>: a weak global reference to the value of a static field.\<close>

definition java_static_field_checked :: "jvm \<Rightarrow> string \<Rightarrow> string \<Rightarrow> nat option jni" where
  "java_static_field_checked J name sig = do {
     id_ok \<leftarrow> JNI_call J;
     (local_obj, global_obj) \<leftarrow>
       (if \<not> id_ok then State_Monad.return (None, None)
        else do {
          local_obj \<leftarrow> JNI_local J (Some ());
          exc \<leftarrow> ExceptionCheck;
          if exc then State_Monad.return (local_obj, None)
          else do {
            global_obj \<leftarrow> NewWeakGlobalRef J;
            State_Monad.return (local_obj, global_obj) }});
     DeleteLocalRef local_obj;
     (if global_obj = None then do {
        exc \<leftarrow> ExceptionCheck;
        if exc then wrap_exc J ''java_call.c'' ''java_static_field_checked'' 151
          (cstr ''Error fetching static field '' @ cstr name @ cstr sig)
        else ThrowNew J (RuntimeException ''Could not fetch field'') }
      else State_Monad.return ());
     State_Monad.return global_obj }"

subsection \<open>Reasoning about the environment\<close>

text \<open>The postcondition \<open>Q\<close> holds of the result and the environment after \<open>f\<close>.\<close>

definition wp :: "('s, 'a) state \<Rightarrow> ('a \<Rightarrow> 's \<Rightarrow> bool) \<Rightarrow> 's \<Rightarrow> bool" where
  "wp f Q s = (case run_state f s of (r, s') \<Rightarrow> Q r s')"

named_theorems wps \<open>weakest preconditions of the operations\<close>

lemma wp_return [wps]: "wp (State_Monad.return x) Q s = Q x s"
  by (simp add: wp_def)

lemma wp_bind [wps]: "wp (State_Monad.bind f g) Q s = wp f (\<lambda>r. wp (g r) Q) s"
  by (simp add: wp_def split: prod.split)

lemma wp_State [wps]: "wp (State f) Q s = (case f s of (r, s') \<Rightarrow> Q r s')"
  by (simp add: wp_def)

lemma wp_if [wps]: "wp (if b then f else g) Q s = (if b then wp f Q s else wp g Q s)"
  by simp

lemma wp_mono: "wp f P s \<Longrightarrow> (\<And>r s'. P r s' \<Longrightarrow> Q r s') \<Longrightarrow> wp f Q s"
  by (auto simp: wp_def split: prod.splits)

lemma wp_run: "wp f Q s \<Longrightarrow> run_state f s = (r, s') \<Longrightarrow> Q r s'"
  by (simp add: wp_def)

text \<open>
  \<open>env_to e p d e'\<close>: from \<open>e\<close> to \<open>e'\<close> the pending exception has become \<open>p\<close>, there are \<open>d\<close> more local
  references and as many weak ones, the JSON segments are as before, and no JNI function was
  called when it should not have been.
\<close>

definition env_to :: "jenv \<Rightarrow> jthrowable option \<Rightarrow> int \<Rightarrow> jenv \<Rightarrow> bool" where
  "env_to e p d e' \<longleftrightarrow> pending e' = p \<and> refs e' = refs e + d \<and> weak_refs e' = weak_refs e \<and> misuse e' = misuse e \<and>
     store (json_mem e') = store (json_mem e) \<and> (heap_ok (json_mem e) \<longrightarrow> heap_ok (json_mem e'))"

lemma env_to_refl: "pending e = p \<Longrightarrow> env_to e p 0 e"
  by (simp add: env_to_def)

lemma env_to_trans: "env_to e p d e' \<Longrightarrow> env_to e' q c e'' \<Longrightarrow> env_to e q (d + c) e''"
  by (auto simp: env_to_def)

lemma env_to_pending: "env_to e p d e' \<Longrightarrow> pending e' = p"
  by (simp add: env_to_def)

lemmas env_prims [wps] = ExceptionCheck_def ExceptionClear_def ExceptionOccurred_def Throw_def
  DeleteLocalRef_def malloc_def DeleteWeakGlobalRef_def

text \<open>A virtual machine on which nothing fails.\<close>

definition calm :: "jvm \<Rightarrow> bool" where
  "calm J \<longleftrightarrow> (\<forall>k. throws J k = None) \<and> (\<forall>k. \<not> nulls J k) \<and> (\<forall>k n. malloc_ok J k n) \<and>
     (\<forall>k n. seg_alloc J k n) \<and> (\<forall>r k n. gz_alloc J r k n) \<and> rte_cached J"

lemma calmD:
  "throws J k = Some t \<Longrightarrow> \<not> calm J" "nulls J k \<Longrightarrow> \<not> calm J" "\<not> malloc_ok J k n \<Longrightarrow> \<not> calm J"
  "\<not> rte_cached J \<Longrightarrow> \<not> calm J"
  by (auto simp: calm_def)

definition jstring_fits :: "byte list \<Rightarrow> bool" where
  "jstring_fits bs \<longleftrightarrow> length bs \<le> 2 ^ 63 - 2 \<and> length (utf16_of bs) \<le> INT_MAX"

lemma wp_JNI_call [wps]: "wp (JNI_call J) Q e =
   (let e' = e\<lparr>jtick := jtick e + 1, misuse := misuse e \<or> pending e \<noteq> None\<rparr> in
     case throws J (jtick e) of None \<Rightarrow> Q True e' | Some t \<Rightarrow> Q False (e'\<lparr>pending := Some t\<rparr>))"
  by (simp add: JNI_call_def wp_def Let_def split: option.split)

lemma new_jstring_wp:
  assumes "pending e = None"
  shows "wp (new_jstring J bs) (\<lambda>r e'.
     (r = Some (JString (utf16_of bs)) \<and> jstring_fits bs \<and> env_to e None 1 e') \<or>
     (r = None \<and> (\<exists>t. env_to e (Some t) 0 e') \<and> \<not> (calm J \<and> jstring_fits bs))) e"
  using assms
  by (auto simp: wp_def new_jstring_def java_utf8_to_jstring_checked_eq env_to_def Let_def calmD
      jstring_fits_def)

lemma ThrowNew_wp: "wp (ThrowNew J t) (\<lambda>_ e'. \<exists>t'. pending e' = Some t' \<and> (calm J \<longrightarrow> t' = t) \<and> refs e' = refs e \<and>
    weak_refs e' = weak_refs e \<and> misuse e' = (misuse e \<or> pending e \<noteq> None) \<and> json_mem e' = json_mem e) e"
  by (auto simp: ThrowNew_def wps Let_def calmD split: option.split)

lemma JNI_local_wp:
  assumes "pending e = None"
  shows "wp (JNI_local J v) (\<lambda>r e'. (r = v \<and> env_to e None (if v = None then 0 else 1) e') \<or>
     (r = None \<and> (\<exists>t. env_to e (Some t) 0 e') \<and> \<not> calm J)) e"
  using assms by (auto simp: JNI_local_def wps Let_def env_to_def calmD split: option.split)

definition ready :: "j_method \<Rightarrow> bool" where
  "ready m \<longleftrightarrow> jm_type m \<noteq> JMETHOD_UNINITIALIZED \<and> (jm_type m \<noteq> JMETHOD_VIRTUAL \<longrightarrow> class_glob m \<noteq> None)"

lemma java_meth_call_wp:
  assumes "pending e = None"
  shows "wp (java_meth_call J m ret) (\<lambda>r e'. (r = ret \<and> env_to e None (if ret = None then 0 else 1) e') \<or>
     (r = None \<and> (\<exists>t. env_to e (Some t) 0 e') \<and> \<not> (calm J \<and> ready m))) e"
  using assms
  by (auto simp: java_meth_call_def NewLocalRef_def ThrowNew_def JNI_local_def wps Let_def env_to_def calmD
      ready_def split: option.split)

text \<open>The same facts as rules that split the outcomes.\<close>

lemma new_jstringI:
  assumes "pending e = None"
    and "\<And>e'. jstring_fits bs \<Longrightarrow> env_to e None 1 e' \<Longrightarrow> Q (Some (JString (utf16_of bs))) e'"
    and "\<And>e' t. env_to e (Some t) 0 e' \<Longrightarrow> \<not> (calm J \<and> jstring_fits bs) \<Longrightarrow> Q None e'"
  shows "wp (new_jstring J bs) Q e"
  by (rule wp_mono [OF new_jstring_wp [OF assms(1)]]) (use assms in auto)

lemma ThrowNewI:
  assumes "pending e = None" and "\<And>e' t'. env_to e (Some t') 0 e' \<Longrightarrow> Q () e'"
  shows "wp (ThrowNew J t) Q e"
  by (rule wp_mono [OF ThrowNew_wp]) (use assms in \<open>auto simp: env_to_def\<close>)

lemma JNI_localI:
  assumes "pending e = None"
    and "\<And>e'. env_to e None (if v = None then 0 else 1) e' \<Longrightarrow> Q v e'"
    and "\<And>e' t. env_to e (Some t) 0 e' \<Longrightarrow> \<not> calm J \<Longrightarrow> Q None e'"
  shows "wp (JNI_local J v) Q e"
  by (rule wp_mono [OF JNI_local_wp [OF assms(1)]]) (use assms in auto)

lemma java_meth_callI:
  assumes "pending e = None"
    and "\<And>e'. env_to e None (if ret = None then 0 else 1) e' \<Longrightarrow> Q ret e'"
    and "\<And>e' t. env_to e (Some t) 0 e' \<Longrightarrow> \<not> (calm J \<and> ready m) \<Longrightarrow> Q None e'"
  shows "wp (java_meth_call J m ret) Q e"
  by (rule wp_mono [OF java_meth_call_wp [OF assms(1)]]) (use assms in auto)

lemma java_wrap_exc_wp:
  assumes "pending e = Some t"
  shows "wp (java_wrap_exc J m ep) (\<lambda>_ e'. \<exists>t'. env_to e (Some t') 0 e' \<and>
     (t' = RuntimeExceptionCause (utf16_of (m @ [32] @ ep)) t \<or>
      t' = t \<and> \<not> (calm J \<and> jstring_fits (m @ [32] @ ep)))) e"
  using assms
  by (auto simp: java_wrap_exc_def wrap_end_def wps env_to_def calmD intro!: new_jstringI JNI_localI)

lemma java_wrap_excI:
  assumes "pending e \<noteq> None" and "\<And>e' t'. env_to e (Some t') 0 e' \<Longrightarrow> Q () e'"
  shows "wp (java_wrap_exc J m ep) Q e"
proof -
  obtain t where "pending e = Some t"
    using assms(1) by auto
  from java_wrap_exc_wp [OF this] show ?thesis
    by (rule wp_mono) (use assms(2) in auto)
qed

lemma wrap_excI:
  assumes "pending e \<noteq> None" and "\<And>e' t'. env_to e (Some t') 0 e' \<Longrightarrow> Q () e'"
  shows "wp (wrap_exc J file fn line m) Q e"
  unfolding wrap_exc_def by (rule java_wrap_excI) (use assms in auto)

lemma java_wrap_exc_none: "pending e = None \<Longrightarrow> wp (java_wrap_exc J m ep) (\<lambda>_ e'. e' = e) e"
  by (simp add: java_wrap_exc_def wps)

subsection \<open>The contract of the checked functions\<close>

text \<open>
  The convention of the sources: a function whose name ends in \<^verbatim>\<open>_checked\<close> leaves an exception
  pending when it fails. \<open>spec\<close> is what the function should return, \<open>None\<close> where it has to throw.
  On success the result is that value, owned by the caller as one more local reference unless
  it is null, and no exception is pending. On failure the result is null and an exception is
  pending; on a virtual machine on which nothing fails this happens only where \<open>spec\<close> says so.
  \<open>L\<close> counts the local references that are left over after a success; under \<open>S\<close> none is left over
  after a failure.
\<close>

definition ref_of :: "'a option \<Rightarrow> int" where
  "ref_of v = (if v = None then 0 else 1)"

lemma ref_of_simps [simp]: "ref_of None = 0" "ref_of (Some x) = 1"
  by (simp_all add: ref_of_def)

definition outcome ::
    "jvm \<Rightarrow> 'a option option \<Rightarrow> int \<Rightarrow> bool \<Rightarrow> jenv \<Rightarrow> 'a option \<Rightarrow> jenv \<Rightarrow> bool" where
  "outcome J spec L S e r e' \<longleftrightarrow>
     (\<exists>v. spec = Some v \<and> r = v \<and> env_to e None (ref_of v + L) e') \<or>
     (r = None \<and> (\<exists>t d. 0 \<le> d \<and> (S \<longrightarrow> d = 0) \<and> env_to e (Some t) d e') \<and> (calm J \<longrightarrow> spec = None))"

definition checked :: "jvm \<Rightarrow> 'a option jni \<Rightarrow> 'a option option \<Rightarrow> int \<Rightarrow> bool \<Rightarrow> bool" where
  "checked J f spec L S \<longleftrightarrow> (\<forall>e. pending e = None \<longrightarrow> wp f (outcome J spec L S e) e)"

lemma checkedI:
  assumes "checked J f spec L S" and "pending e = None"
    and "\<And>v e'. spec = Some v \<Longrightarrow> env_to e None (ref_of v + L) e' \<Longrightarrow> Q v e'"
    and "\<And>e' t d. 0 \<le> d \<Longrightarrow> (S \<Longrightarrow> d = 0) \<Longrightarrow> env_to e (Some t) d e' \<Longrightarrow> (calm J \<Longrightarrow> spec = None) \<Longrightarrow> Q None e'"
  shows "wp f Q e"
proof -
  have "wp f (outcome J spec L S e) e"
    using assms(1,2) by (simp add: checked_def)
  then show ?thesis
  proof (rule wp_mono)
    fix r e' assume "outcome J spec L S e r e'"
    then consider v where "spec = Some v" "r = v" "env_to e None (ref_of v + L) e'"
      | t d where "r = None" "0 \<le> d" "S \<Longrightarrow> d = 0" "env_to e (Some t) d e'" "calm J \<Longrightarrow> spec = None"
      unfolding outcome_def by blast
    then show "Q r e'"
      by cases (use assms(3,4) in blast)+
  qed
qed

lemma checked_run:
  "checked J f spec L S \<Longrightarrow> pending e = None \<Longrightarrow> run_state f e = (r, e') \<Longrightarrow> outcome J spec L S e r e'"
  by (auto simp: checked_def dest: wp_run)

text \<open>The interface: a family of functions that keep the contract and leave nothing over.\<close>

locale checked_function =
  fixes J :: jvm and f :: "'x \<Rightarrow> 'a option jni" and spec :: "'x \<Rightarrow> 'a option option"
  assumes contract: "checked J (f x) (spec x) 0 True"
begin

lemma callI:
  assumes "pending e = None"
    and "\<And>v e'. spec x = Some v \<Longrightarrow> env_to e None (ref_of v) e' \<Longrightarrow> Q v e'"
    and "\<And>e' t. env_to e (Some t) 0 e' \<Longrightarrow> (calm J \<Longrightarrow> spec x = None) \<Longrightarrow> Q None e'"
  shows "wp (f x) Q e"
  by (rule checkedI [OF contract assms(1)]) (use assms(2,3) in auto)

text \<open>The three facts a caller uses: failures are visible, references balance, no misuse.\<close>

lemma visible:
  "pending e = None \<Longrightarrow> run_state (f x) e = (r, e') \<Longrightarrow> r \<noteq> None \<Longrightarrow> pending e' = None \<and> spec x = Some r"
  using checked_run [OF contract, of e x r e'] by (auto simp: outcome_def env_to_def)

lemma balanced:
  "pending e = None \<Longrightarrow> run_state (f x) e = (r, e') \<Longrightarrow> refs e' = refs e + ref_of r \<and> misuse e' = misuse e"
  using checked_run [OF contract, of e x r e'] by (auto simp: outcome_def env_to_def)

lemma total:
  "pending e = None \<Longrightarrow> run_state (f x) e = (r, e') \<Longrightarrow> calm J \<Longrightarrow> spec x = Some v \<Longrightarrow> r = v \<and> pending e' = None"
  using checked_run [OF contract, of e x r e'] by (auto simp: outcome_def env_to_def)

end

definition jstring_spec :: "byte list \<Rightarrow> jobject option option" where
  "jstring_spec bs = (if jstring_fits bs then Some (Some (JString (utf16_of bs))) else None)"

interpretation jstr: checked_function J "new_jstring J" jstring_spec for J
proof unfold_locales
  fix bs
  show "checked J (new_jstring J bs) (jstring_spec bs) 0 True"
    unfolding checked_def jstring_spec_def
    by (auto simp: outcome_def intro!: wp_mono [OF new_jstring_wp])
qed

definition meth_spec :: "j_method \<times> 'a option \<Rightarrow> 'a option option" where
  "meth_spec = (\<lambda>(m, ret). if ready m then Some ret else None)"

lemma java_meth_call_unready: "\<not> ready m \<Longrightarrow> pending e = None \<Longrightarrow>
   wp (java_meth_call J m ret) (\<lambda>r e'. r = None \<and> (\<exists>t. env_to e (Some t) 0 e')) e"
  by (auto simp: java_meth_call_def NewLocalRef_def ThrowNew_def wps Let_def env_to_def ready_def split: option.split)

interpretation meth: checked_function J "\<lambda>(m, ret). java_meth_call J m ret" meth_spec for J
proof unfold_locales
  fix x :: "j_method \<times> 'a option"
  obtain m ret where x: "x = (m, ret)"
    by (cases x)
  show "checked J (case x of (m, ret) \<Rightarrow> java_meth_call J m ret) (meth_spec x) 0 True"
    unfolding checked_def x prod.case meth_spec_def
  proof (intro allI impI)
    fix e :: jenv assume e: "pending e = None"
    show "wp (java_meth_call J m ret) (outcome J (if ready m then Some ret else None) 0 True e) e"
    proof (cases "ready m")
      case True
      then show ?thesis
        by (intro wp_mono [OF java_meth_call_wp [OF e]]) (auto simp: outcome_def ref_of_def)
    next
      case False
      then show ?thesis
        by (intro wp_mono [OF java_meth_call_unready [OF _ e]]) (auto simp: outcome_def)
    qed
  qed
qed

lemma meth_callI:
  assumes "pending e = None"
    and "\<And>e'. ready m \<Longrightarrow> env_to e None (ref_of ret) e' \<Longrightarrow> Q ret e'"
    and "\<And>e' t. env_to e (Some t) 0 e' \<Longrightarrow> (calm J \<Longrightarrow> \<not> ready m) \<Longrightarrow> Q None e'"
  shows "wp (java_meth_call J m ret) Q e"
proof (rule meth.callI [of e "(m, ret)" Q J, unfolded prod.case meth_spec_def, OF assms(1)])
  fix e' t assume "env_to e (Some t) 0 e'" "calm J \<Longrightarrow> (if ready m then Some ret else None) = None"
  then show "Q None e'"
    by (intro assms(3)) (auto split: if_splits)
qed (use assms(2) in \<open>auto split: if_splits\<close>)

subsection \<open>Loops that leave through an error label\<close>

text \<open>A \<^verbatim>\<open>for\<close> loop over \<open>xs\<close>; the body returns \<open>None\<close> where the code jumps to its error label.\<close>

primrec jni_loop :: "('x \<Rightarrow> 'a \<Rightarrow> 'a option jni) \<Rightarrow> 'x list \<Rightarrow> 'a \<Rightarrow> 'a option jni" where
  "jni_loop body [] acc = State_Monad.return (Some acc)"
| "jni_loop body (x # xs) acc = do {
     r \<leftarrow> body x acc;
     case r of None \<Rightarrow> State_Monad.return None | Some acc' \<Rightarrow> jni_loop body xs acc' }"

lemma jni_loop_cong [fundef_cong]:
  "xs = ys \<Longrightarrow> acc = acc' \<Longrightarrow> (\<And>x a. x \<in> set ys \<Longrightarrow> f x a = g x a) \<Longrightarrow> jni_loop f xs acc = jni_loop g ys acc'"
proof (induction xs arbitrary: ys acc acc')
  case (Cons x xs)
  then have "(\<lambda>r. case r of None \<Rightarrow> State_Monad.return None | Some acc' \<Rightarrow> jni_loop f xs acc') =
      (\<lambda>r. case r of None \<Rightarrow> State_Monad.return None | Some acc' \<Rightarrow> jni_loop g xs acc')"
    by (intro ext) (auto split: option.split)
  with Cons.prems show ?case
    by auto
qed auto

lemma jni_loop_wp:
  assumes "\<And>x ys acc e. I (x # ys) acc e \<Longrightarrow> x \<in> set xs \<Longrightarrow>
      wp (body x acc) (\<lambda>r e'. case r of None \<Rightarrow> E e' | Some acc' \<Rightarrow> I ys acc' e') e"
    and "I xs acc e"
  shows "wp (jni_loop body xs acc) (\<lambda>r e'. case r of None \<Rightarrow> E e' | Some acc' \<Rightarrow> I [] acc' e') e"
  using assms
proof (induction xs arbitrary: acc e)
  case Nil
  then show ?case by (simp add: wps)
next
  case (Cons x xs)
  have "wp (body x acc) (\<lambda>r e'. case r of None \<Rightarrow> E e' | Some acc' \<Rightarrow> I xs acc' e') e"
    using Cons.prems by simp
  then show ?case
    unfolding jni_loop.simps wp_bind
  proof (rule wp_mono)
    fix r e' assume "case r of None \<Rightarrow> E e' | Some acc' \<Rightarrow> I xs acc' e'"
    then show "wp (case r of None \<Rightarrow> State_Monad.return None | Some acc' \<Rightarrow> jni_loop body xs acc')
        (\<lambda>r e'. case r of None \<Rightarrow> E e' | Some acc' \<Rightarrow> I [] acc' e') e'"
      using Cons.IH Cons.prems(1) by (cases r) (simp_all add: wps)
  qed
qed

text \<open>
  What a loop should compute: \<open>step\<close> gives the next accumulator and the number of references that
  the iteration leaves over, or \<open>None\<close> where the iteration has to throw.
\<close>

primrec spec_loop :: "('x \<Rightarrow> 'a \<Rightarrow> ('a \<times> int) option) \<Rightarrow> 'x list \<Rightarrow> 'a \<Rightarrow> ('a \<times> int) option" where
  "spec_loop step [] acc = Some (acc, 0)"
| "spec_loop step (x # xs) acc =
     (case step x acc of
        None \<Rightarrow> None
      | Some (acc', l) \<Rightarrow> map_option (\<lambda>(a, l'). (a, l + l')) (spec_loop step xs acc'))"

definition body_outcome ::
    "int \<Rightarrow> jvm \<Rightarrow> ('a \<times> int) option \<Rightarrow> bool \<Rightarrow> jenv \<Rightarrow> 'a option \<Rightarrow> jenv \<Rightarrow> bool" where
  "body_outcome D J res S e r e' \<longleftrightarrow>
     (\<exists>acc' l. res = Some (acc', l) \<and> r = Some acc' \<and> 0 \<le> l \<and> (S \<longrightarrow> l = 0) \<and> env_to e None l e') \<or>
     (r = None \<and> (\<exists>t d. D \<le> d \<and> (S \<longrightarrow> d = D) \<and> env_to e (Some t) d e') \<and> (calm J \<longrightarrow> res = None))"

lemma jni_loop_spec:
  assumes "\<And>x acc e. x \<in> set xs \<Longrightarrow> pending e = None \<Longrightarrow>
      wp (body x acc) (body_outcome D J (step x acc) S e) e"
    and "pending e = None"
  shows "wp (jni_loop body xs acc) (body_outcome D J (spec_loop step xs acc) S e) e"
  using assms
proof (induction xs arbitrary: acc e)
  case Nil
  then show ?case
    by (simp add: wps body_outcome_def env_to_refl)
next
  case (Cons x xs)
  have "wp (body x acc) (body_outcome D J (step x acc) S e) e"
    using Cons.prems by simp
  then show ?case
    unfolding jni_loop.simps wp_bind
  proof (rule wp_mono)
    fix r e1 assume o1: "body_outcome D J (step x acc) S e r e1"
    show "wp (case r of None \<Rightarrow> State_Monad.return None | Some acc' \<Rightarrow> jni_loop body xs acc')
        (body_outcome D J (spec_loop step (x # xs) acc) S e) e1"
    proof (cases r)
      case None
      then show ?thesis
        using o1 by (auto simp: wps body_outcome_def)
    next
      case (Some acc1)
      then obtain l where s: "step x acc = Some (acc1, l)" "0 \<le> l" "S \<longrightarrow> l = 0" and e1: "env_to e None l e1"
        using o1 by (auto simp: body_outcome_def)
      have "wp (jni_loop body xs acc1) (body_outcome D J (spec_loop step xs acc1) S e1) e1"
        using Cons.IH Cons.prems(1) env_to_pending [OF e1] by simp
      then show ?thesis
        unfolding Some option.case
      proof (rule wp_mono)
        fix r2 e2 assume "body_outcome D J (spec_loop step xs acc1) S e1 r2 e2"
        then show "body_outcome D J (spec_loop step (x # xs) acc) S e r2 e2"
          using s env_to_trans [OF e1] unfolding body_outcome_def by fastforce
      qed
    qed
  qed
qed

subsection \<open>Methods and static fields\<close>

lemma java_meth_init_wp:
  assumes "pending e = None"
  shows "wp (java_meth_init_checked J cls name sig type) (\<lambda>r e'.
     refs e' = refs e \<and> misuse e' = misuse e \<and>
     (case r of
        Some jm \<Rightarrow> pending e' = None \<and> (type \<noteq> JMETHOD_UNINITIALIZED \<longrightarrow> ready jm) \<and>
          weak_refs e' = weak_refs e + (if class_glob jm = None then 0 else 1)
      | None \<Rightarrow> pending e' \<noteq> None \<and> weak_refs e' \<le> weak_refs e + 1 \<and> \<not> calm J)) e"
  using assms
  by (auto simp: java_meth_init_checked_def NewWeakGlobalRef_def wps env_to_def ready_def calmD Let_def
      intro!: JNI_localI wrap_excI ThrowNewI split: option.split)

lemma java_meth_destroy_wp:
  "wp (java_meth_destroy m) (\<lambda>m' e'. class_glob m' = None \<and> jm_type m' = jm_type m \<and>
     e' = e\<lparr>weak_refs := weak_refs e - (if class_glob m = None then 0 else 1)\<rparr>) e"
  by (simp add: java_meth_destroy_def wps)

lemma java_static_field_wp:
  assumes "pending e = None"
  shows "wp (java_static_field_checked J name sig) (\<lambda>r e'.
     refs e' = refs e \<and> misuse e' = misuse e \<and> (r = None \<longleftrightarrow> pending e' \<noteq> None) \<and>
     weak_refs e' = weak_refs e + (if r = None then 0 else 1) \<and> (calm J \<longrightarrow> r \<noteq> None)) e"
  using assms
  by (auto simp: java_static_field_checked_def NewWeakGlobalRef_def wps env_to_def calmD Let_def
      intro!: JNI_localI wrap_excI ThrowNewI split: option.split)

subsection \<open>Properties\<close>

definition env0 :: jenv where
  "env0 = \<lparr>pending = None, refs = 0, weak_refs = 0, misuse = False, jtick = 0, mtick = 0, json_mem = heap0,
     logged = []\<rparr>"

definition calm_jvm :: jvm where
  "calm_jvm = \<lparr>throws = (\<lambda>_. None), nulls = (\<lambda>_. False), malloc_ok = (\<lambda>_ _. True),
     seg_alloc = (\<lambda>_ _. True), gz_alloc = (\<lambda>_ _ _. True), rte_cached = True, min_level = 0,
     getenv = JNI_OK, attach_ok = True\<rparr>"

lemma env0_simps [simp]: "pending env0 = None" "refs env0 = 0" "weak_refs env0 = 0" "misuse env0 = False"
  "jtick env0 = 0" "mtick env0 = 0" "json_mem env0 = heap0" "logged env0 = []"
  by (simp_all add: env0_def)

lemma calm_calm_jvm [simp]: "calm calm_jvm"
  by (simp add: calm_def calm_jvm_def)

text \<open>
  C12. Wrapping the pending exception never loses it: afterwards an exception
  is pending, either a \<^verbatim>\<open>RuntimeException\<close> with the given message whose cause is the earlier one or, only when
  something fails or the message is too long for a Java string, the earlier one; no local reference is left over, whichever allocation or JNI call fails, and
  no JNI function is called with an exception pending.
\<close>

theorem java_wrap_exc_keeps:
  assumes "pending e = Some t" and "run_state (java_wrap_exc J msg epilog) e = (r, e')"
  shows "(pending e' = Some (RuntimeExceptionCause (utf16_of (msg @ [32] @ epilog)) t) \<or>
      pending e' = Some t \<and> \<not> (calm J \<and> jstring_fits (msg @ [32] @ epilog))) \<and>
    refs e' = refs e \<and> weak_refs e' = weak_refs e \<and> misuse e' = misuse e"
  using wp_run [OF java_wrap_exc_wp [OF assms(1)] assms(2)] by (auto simp: env_to_def)

theorem java_wrap_exc_keeps_witness:
  "pending (snd (run_state (java_wrap_exc calm_jvm [65] [66]) (env0\<lparr>pending := Some OutOfMemoryError\<rparr>))) =
     Some (RuntimeExceptionCause (utf16_of [65, 32, 66]) OutOfMemoryError)"
  using java_wrap_exc_keeps [of "env0\<lparr>pending := Some OutOfMemoryError\<rparr>" OutOfMemoryError,
      OF _ surjective_pairing, of calm_jvm "[65]" "[66]"] length_utf16_of [of "[65, 32, 66]"]
  by (simp add: jstring_fits_def INT_MAX_def)

text \<open>
  C13. The contract that all callers rely on: called with no exception
  pending, \<^verbatim>\<open>java_meth_call\<close> either returns what the Java method returns, as one new local
  reference unless it is null, with no exception pending, or returns null with an exception
  pending and no reference left over; and it cannot fail on a method that was initialised and
  a virtual machine that works.
\<close>

theorem java_meth_call_contract:
  assumes "pending e = None" and "run_state (java_meth_call J m ret) e = (r, e')"
  shows "misuse e' = misuse e \<and> weak_refs e' = weak_refs e \<and>
    (pending e' = None \<and> r = ret \<and> refs e' = refs e + (if ret = None then 0 else 1) \<or>
     pending e' \<noteq> None \<and> r = None \<and> refs e' = refs e \<and> \<not> (calm J \<and> ready m))"
  using wp_run [OF java_meth_call_wp [OF assms(1)] assms(2)] by (auto simp: env_to_def)

theorem java_meth_call_contract_witness:
  "pending env0 = None \<and>
   fst (run_state (java_meth_call calm_jvm \<lparr>jm_type = JMETHOD_STATIC, class_glob = Some 1, meth_id = ''valueOf''\<rparr>
     (Some (JLong 7))) env0) = Some (JLong 7)"
  using java_meth_call_contract [of env0 calm_jvm
      "\<lparr>jm_type = JMETHOD_STATIC, class_glob = Some 1, meth_id = ''valueOf''\<rparr>" "Some (JLong 7)"
      "fst (run_state (java_meth_call calm_jvm \<lparr>jm_type = JMETHOD_STATIC, class_glob = Some 1, meth_id = ''valueOf''\<rparr>
         (Some (JLong 7))) env0)"
      "snd (run_state (java_meth_call calm_jvm \<lparr>jm_type = JMETHOD_STATIC, class_glob = Some 1, meth_id = ''valueOf''\<rparr>
         (Some (JLong 7))) env0)"]
  by (simp add: ready_def)

text \<open>
  A defect of \<^verbatim>\<open>java_meth_init_checked\<close>: when the class is found but
  the method is not, the function returns \<^verbatim>\<open>false\<close>, stores nothing in \<^verbatim>\<open>*jmeth\<close>, and the weak
  global reference to the class is never deleted.
\<close>

theorem java_meth_init_leaks_class:
  assumes "pending e = None" and "type \<noteq> JMETHOD_VIRTUAL"
    and "throws J (jtick e) = None" and "throws J (jtick e + 1) = None" and "\<not> nulls J (jtick e + 2)"
    and "throws J (jtick e + 2) = Some t"
    and "run_state (java_meth_init_checked J cls name sig type) e = (r, e')"
  shows "r = None \<and> weak_refs e' = weak_refs e + 1 \<and> refs e' = refs e"
proof -
  have "wp (java_meth_init_checked J cls name sig type)
      (\<lambda>r e'. r = None \<and> weak_refs e' = weak_refs e + 1 \<and> refs e' = refs e) e"
    using assms(1-6)
    by (auto simp: java_meth_init_checked_def NewWeakGlobalRef_def JNI_local_def wps env_to_def Let_def
        intro!: wrap_excI)
  then show ?thesis
    by (rule wp_run [OF _ assms(7)])
qed

theorem java_meth_init_leaks_class_witness:
  "weak_refs (snd (run_state (java_meth_init_checked
      (calm_jvm\<lparr>throws := (\<lambda>k. if k = 2 then Some (OtherThrowable ''NoSuchMethodError'') else None)\<rparr>)
      ''Foo'' ''add'' ''()V'' JMETHOD_STATIC) env0)) = 1"
  using java_meth_init_leaks_class [of env0 JMETHOD_STATIC
      "calm_jvm\<lparr>throws := (\<lambda>k. if k = 2 then Some (OtherThrowable ''NoSuchMethodError'') else None)\<rparr>"
      "OtherThrowable ''NoSuchMethodError''" "''Foo''" "''add''" "''()V''", OF _ _ _ _ _ _ surjective_pairing]
  by (simp add: calm_jvm_def)

end
