(* ===== verification/Logging.thy ===== *)
theory Logging
  imports Jni
begin

text \<open>
  \<^verbatim>\<open>src/main/c/logging.c\<close>: sending a message to the Java logger, from Java threads and from
  threads of the rule engine. The messages are formatted by \<^verbatim>\<open>vasprintf\<close>; here they are
  arguments. The name of a source file is given without the directory that \<^verbatim>\<open>file_strip_idx\<close> strips off. (Wrapping the pending exception is in the theory \<open>Jni\<close>, with the functions
  that need it.)
\<close>

subsection \<open>Levels\<close>

fun level_rank :: "log_level \<Rightarrow> nat" where
  "level_rank DDWAF_LOG_TRACE = 0"
| "level_rank DDWAF_LOG_DEBUG = 1"
| "level_rank DDWAF_LOG_INFO = 2"
| "level_rank DDWAF_LOG_WARN = 3"
| "level_rank DDWAF_LOG_ERROR = 4"

definition log_level_enabled :: "jvm \<Rightarrow> log_level \<Rightarrow> bool" where
  "log_level_enabled J level \<longleftrightarrow> min_level J \<le> level_rank level"

text \<open>
  \<^verbatim>\<open>_get_min_log_level\<close>: \<open>loggable\<close> is what the logger answers for a level; the call itself can
  throw. \<open>None\<close> is the result \<^verbatim>\<open>false\<close>.
\<close>

fun get_min_log_level_from :: "jvm \<Rightarrow> (log_level \<Rightarrow> bool) \<Rightarrow> log_level list \<Rightarrow> log_level option jni" where
  "get_min_log_level_from J loggable [] = State_Monad.return (Some DDWAF_LOG_ERROR)"
| "get_min_log_level_from J loggable (l # ls) = do {
     ok \<leftarrow> JNI_call J;
     if ok \<and> loggable l then State_Monad.return (Some l)
     else do {
       exc \<leftarrow> ExceptionCheck;
       if exc then State_Monad.return None else get_min_log_level_from J loggable ls }}"

definition get_min_log_level :: "jvm \<Rightarrow> (log_level \<Rightarrow> bool) \<Rightarrow> log_level option jni" where
  "get_min_log_level J loggable =
     get_min_log_level_from J loggable [DDWAF_LOG_TRACE, DDWAF_LOG_DEBUG, DDWAF_LOG_INFO, DDWAF_LOG_WARN]"

subsection \<open>Sending a message\<close>

text \<open>
  \<^verbatim>\<open>_attach_vm\<close>: whether there is an environment, and whether the thread was attached for it.
\<close>

definition attach_vm :: "jvm \<Rightarrow> bool \<times> bool" where
  "attach_vm J =
     (case getenv J of
        JNI_OK \<Rightarrow> (True, False)
      | JNI_EDETACHED \<Rightarrow> if attach_ok J then (True, True) else (False, False)
      | JNI_EVERSION \<Rightarrow> (False, False))"

text \<open>The static variables with the levels hold the constants of these names.\<close>

fun lvl_api_to_java :: "log_level \<Rightarrow> string" where
  "lvl_api_to_java DDWAF_LOG_TRACE = ''TRACE''"
| "lvl_api_to_java DDWAF_LOG_DEBUG = ''DEBUG''"
| "lvl_api_to_java DDWAF_LOG_INFO = ''INFO''"
| "lvl_api_to_java DDWAF_LOG_WARN = ''WARN''"
| "lvl_api_to_java DDWAF_LOG_ERROR = ''ERROR''"

definition LOGGING_PATTERN :: string where
  "LOGGING_PATTERN = ''%s (%s on %s:%s)''"

text \<open>\<^verbatim>\<open>NewStringUTF\<close> of a C string of ASCII characters.\<close>

definition ascii_string :: "byte list \<Rightarrow> jobject" where
  "ascii_string cs = JString (map ucast cs)"

definition NewStringUTF :: "jvm \<Rightarrow> byte list \<Rightarrow> jobject option jni" where
  "NewStringUTF J cs = JNI_local J (Some (ascii_string cs))"

text \<open>The elements of the array: \<open>None\<close> when one of them could not be set.\<close>

fun set_elems :: "jvm \<Rightarrow> jobject list \<Rightarrow> jobject list \<Rightarrow> jobject list option jni" where
  "set_elems J [] arr = State_Monad.return (Some arr)"
| "set_elems J (x # xs) arr = do {
     JNI_call J;
     exc \<leftarrow> ExceptionCheck;
     if exc then State_Monad.return None else set_elems J xs (arr @ [x]) }"

text \<open>The call of the Java logger; when it throws, the message counts as lost.\<close>

definition call_logger :: "jvm \<Rightarrow> log_entry \<Rightarrow> unit jni" where
  "call_logger J x = do {
     ok \<leftarrow> JNI_call J;
     if ok then State (\<lambda>e. ((), e\<lparr>logged := logged e @ [x]\<rparr>)) else State_Monad.return () }"

text \<open>
  The part of \<^verbatim>\<open>_waf_logging_c_throwable\<close> before its label \<^verbatim>\<open>error\<close>. The result are the local references that it
  has created, in the order of the label. The text of an \<^verbatim>\<open>int\<close> always fits into its buffer.
\<close>

definition waf_logging_body ::
    "jvm \<Rightarrow> log_level \<Rightarrow> byte list \<Rightarrow> byte list \<Rightarrow> nat \<Rightarrow> byte list \<Rightarrow> jthrowable option \<Rightarrow> unit option list jni" where
  "waf_logging_body J level function file line message throwable = do {
     message_jstr \<leftarrow> new_jstring J message;
     (case message_jstr of None \<Rightarrow> State_Monad.return [] | Some m \<Rightarrow> do {
     file_jstr \<leftarrow> NewStringUTF J file;
     (case file_jstr of None \<Rightarrow> State_Monad.return [Some ()] | Some f \<Rightarrow> do {
     function_jstr \<leftarrow> NewStringUTF J function;
     (case function_jstr of None \<Rightarrow> State_Monad.return [Some (), Some ()] | Some g \<Rightarrow> do {
     line_jstr \<leftarrow> NewStringUTF J (dec_nat line);
     (case line_jstr of None \<Rightarrow> State_Monad.return [Some (), Some (), Some ()] | Some l \<Rightarrow> do {
     args_arr \<leftarrow> JNI_local J (Some ());
     (case args_arr of None \<Rightarrow> State_Monad.return [Some (), Some (), Some (), Some ()] | Some _ \<Rightarrow> do {
     elems \<leftarrow> set_elems J [m, g, f, l] [];
     (case elems of
        None \<Rightarrow> State_Monad.return ()
      | Some args \<Rightarrow> call_logger J \<lparr>lg_level = lvl_api_to_java level, lg_throwable = throwable,
          lg_pattern = LOGGING_PATTERN, lg_args = args\<rparr>);
     State_Monad.return [Some (), Some (), Some (), Some (), Some ()] }) }) }) }) }) }"

fun delete_refs :: "'a option list \<Rightarrow> unit jni" where
  "delete_refs [] = State_Monad.return ()"
| "delete_refs (r # rs) = do { DeleteLocalRef r; delete_refs rs }"

text \<open>The result says whether the thread was detached at the end.\<close>

definition waf_logging_c_throwable ::
    "jvm \<Rightarrow> log_level \<Rightarrow> byte list \<Rightarrow> byte list \<Rightarrow> nat \<Rightarrow> byte list \<Rightarrow> jthrowable option \<Rightarrow> bool jni" where
  "waf_logging_c_throwable J level function file line message throwable =
     (case attach_vm J of (has_env, attached) \<Rightarrow>
       if \<not> has_env then State_Monad.return False
       else do {
         prev_thr \<leftarrow> ExceptionOccurred;
         (if prev_thr \<noteq> None then ExceptionClear else State_Monad.return ());
         created \<leftarrow> waf_logging_body J level function file line message throwable;
         exc \<leftarrow> ExceptionCheck;
         (if exc then ExceptionClear else State_Monad.return ());
         delete_refs created;
         (case prev_thr of
            None \<Rightarrow> State_Monad.return ()
          | Some t \<Rightarrow> do { Throw t; DeleteLocalRef prev_thr });
         State_Monad.return attached })"

text \<open>The callback that the engine is given, and the function behind the macros \<^verbatim>\<open>JAVA_LOG\<close> and \<^verbatim>\<open>JAVA_LOG_THR\<close>.\<close>

definition waf_logging_c :: "jvm \<Rightarrow> log_level \<Rightarrow> byte list \<Rightarrow> byte list \<Rightarrow> nat \<Rightarrow> byte list \<Rightarrow> bool jni" where
  "waf_logging_c J level function file line message = waf_logging_c_throwable J level function file line message None"

definition java_log ::
    "jvm \<Rightarrow> log_level \<Rightarrow> string \<Rightarrow> string \<Rightarrow> nat \<Rightarrow> jthrowable option \<Rightarrow> byte list \<Rightarrow> unit jni" where
  "java_log J level function file line throwable message =
     (if \<not> log_level_enabled J level then State_Monad.return ()
      else do {
        ok \<leftarrow> malloc J (length message + 1);
        if \<not> ok then State_Monad.return ()
        else do {
          waf_logging_c_throwable J level (cstr function) (cstr file) line message throwable;
          State_Monad.return () }})"

subsection \<open>Logging is transparent\<close>

definition same_env :: "jenv \<Rightarrow> jenv \<Rightarrow> bool" where
  "same_env e e' \<longleftrightarrow> env_to e (pending e) 0 e'"

lemma set_elems_wp:
  assumes "pending e = None"
  shows "wp (set_elems J xs arr) (\<lambda>r e'. refs e' = refs e \<and> weak_refs e' = weak_refs e \<and> misuse e' = misuse e \<and>
     json_mem e' = json_mem e \<and> logged e' = logged e \<and>
     (r = Some (arr @ xs) \<and> pending e' = None \<or> r = None \<and> pending e' \<noteq> None \<and> \<not> calm J)) e"
  using assms
proof (induction xs arbitrary: e arr)
  case Nil
  then show ?case by (simp add: wps)
next
  case (Cons x xs)
  show ?case
  proof (cases "throws J (jtick e)")
    case None
    then show ?thesis
      using Cons.prems Cons.IH [of "e\<lparr>jtick := jtick e + 1, misuse := misuse e\<rparr>" "arr @ [x]"]
      by (simp add: wps Let_def)
  next
    case (Some t)
    then show ?thesis
      using Cons.prems by (simp add: wps Let_def calmD)
  qed
qed

lemma delete_refs_wp: "wp (delete_refs rs) (\<lambda>_ e'. e' = e\<lparr>refs := refs e - sum_list (map ref_of rs)\<rparr>) e"
proof (induction rs arbitrary: e)
  case Nil
  then show ?case by (simp add: wps)
next
  case (Cons r rs)
  show ?case
    by (cases r) (use Cons [of e] Cons [of "e\<lparr>refs := refs e - 1\<rparr>"] in \<open>simp_all add: wps algebra_simps\<close>)
qed

text \<open>
  The entry that a message should make. A logger that works receives it; one that fails may lose it, but receives nothing else.
\<close>

definition entry_of :: "log_level \<Rightarrow> byte list \<Rightarrow> byte list \<Rightarrow> nat \<Rightarrow> jthrowable option \<Rightarrow> byte list \<Rightarrow> log_entry" where
  "entry_of level function file line throwable message = \<lparr>lg_level = lvl_api_to_java level, lg_throwable = throwable,
     lg_pattern = LOGGING_PATTERN,
     lg_args = [JString (utf16_of message), ascii_string function, ascii_string file, ascii_string (dec_nat line)]\<rparr>"

definition delivered :: "bool \<Rightarrow> log_entry \<Rightarrow> jenv \<Rightarrow> jenv \<Rightarrow> bool" where
  "delivered w x e e' \<longleftrightarrow> logged e' = logged e @ [x] \<or> logged e' = logged e \<and> \<not> w"

lemma new_jstring_logged: "wp (new_jstring J bs) (\<lambda>_ e'. logged e' = logged e) e"
  by (auto simp: wp_def new_jstring_def Let_def split: sum.split fault.split)

lemma JNI_local_logged: "wp (JNI_local J v) (\<lambda>_ e'. logged e' = logged e) e"
  by (auto simp: JNI_local_def wps Let_def split: option.split)

lemma wp_conj: "wp f P e \<Longrightarrow> wp f Q e \<Longrightarrow> wp f (\<lambda>r e'. P r e' \<and> Q r e') e"
  by (auto simp: wp_def split: prod.splits)

lemma new_jstring_logI:
  assumes "pending e = None"
    and "\<And>e'. jstring_fits bs \<Longrightarrow> env_to e None 1 e' \<Longrightarrow> logged e' = logged e \<Longrightarrow> Q (Some (JString (utf16_of bs))) e'"
    and "\<And>e' t. env_to e (Some t) 0 e' \<Longrightarrow> logged e' = logged e \<Longrightarrow> \<not> (calm J \<and> jstring_fits bs) \<Longrightarrow> Q None e'"
  shows "wp (new_jstring J bs) Q e"
  by (rule wp_mono [OF wp_conj [OF new_jstring_wp [OF assms(1)] new_jstring_logged]]) (use assms in auto)

lemma JNI_local_logI:
  assumes "pending e = None"
    and "\<And>e'. env_to e None 1 e' \<Longrightarrow> logged e' = logged e \<Longrightarrow> Q (Some v) e'"
    and "\<And>e' t. env_to e (Some t) 0 e' \<Longrightarrow> logged e' = logged e \<Longrightarrow> \<not> calm J \<Longrightarrow> Q None e'"
  shows "wp (JNI_local J (Some v)) Q e"
  by (rule wp_mono [OF wp_conj [OF JNI_local_wp [OF assms(1)] JNI_local_logged]]) (use assms in auto)

lemma call_logger_wp:
  assumes "pending e = None"
  shows "wp (call_logger J x) (\<lambda>_ e'. refs e' = refs e \<and> weak_refs e' = weak_refs e \<and> misuse e' = misuse e \<and>
     json_mem e' = json_mem e \<and> delivered (calm J) x e e') e"
  using assms by (auto simp: call_logger_def delivered_def wps Let_def calmD split: option.split)

lemma waf_logging_body_wp:
  assumes "pending e = None"
  shows "wp (waf_logging_body J level function file line message throwable) (\<lambda>rs e'. refs e' = refs e + sum_list (map ref_of rs) \<and>
     weak_refs e' = weak_refs e \<and> misuse e' = misuse e \<and> store (json_mem e') = store (json_mem e) \<and>
     (heap_ok (json_mem e) \<longrightarrow> heap_ok (json_mem e')) \<and>
     delivered (calm J \<and> jstring_fits message) (entry_of level function file line throwable message) e e') e"
  using assms
  by (auto simp: waf_logging_body_def NewStringUTF_def wps env_to_def delivered_def entry_of_def
      simp del: set_elems.simps del: iffCE impCE
      intro!: new_jstring_logI JNI_local_logI wp_mono [OF set_elems_wp] wp_mono [OF call_logger_wp])

lemma waf_logging_wp:
  "wp (waf_logging_c_throwable J level function file line message throwable) (\<lambda>detached e'. same_env e e' \<and>
     (detached \<longleftrightarrow> getenv J = JNI_EDETACHED \<and> attach_ok J) \<and>
     delivered (calm J \<and> fst (attach_vm J) \<and> jstring_fits message) (entry_of level function file line throwable message) e e') e"
proof -
  have d: "wp (delete_refs rs) Q e1" if "Q () (e1\<lparr>refs := refs e1 - sum_list (map ref_of rs)\<rparr>)" for rs :: "unit option list" and Q e1
    by (rule wp_mono [OF delete_refs_wp]) (use that in simp)
  show ?thesis
    by (auto simp: waf_logging_c_throwable_def attach_vm_def same_env_def env_to_def delivered_def wps del: iffCE impCE
        intro!: wp_mono [OF waf_logging_body_wp] d split: getenv_result.split option.split)
qed

lemma java_log_wp: "wp (java_log J level function file line throwable message) (\<lambda>_ e'. same_env e e' \<and>
    (if log_level_enabled J level
     then delivered (calm J \<and> fst (attach_vm J) \<and> jstring_fits message) (entry_of level (cstr function) (cstr file) line throwable message) e e'
     else e' = e)) e"
  by (auto simp: java_log_def wps intro!: wp_mono [OF waf_logging_wp])
    (auto simp: same_env_def env_to_def delivered_def calmD)

lemma java_logI:
  assumes "\<And>e'. env_to e (pending e) 0 e' \<Longrightarrow> Q () e'"
  shows "wp (java_log J level function file line throwable message) Q e"
  by (rule wp_mono [OF java_log_wp]) (use assms in \<open>auto simp: same_env_def\<close>)



end
