(* ===== verification/Gzip.thy ===== *)
theory Gzip
  imports Json Base64
begin

text \<open>
  Compression of a chain of JSON segments (\<^verbatim>\<open>_encode_gzip\<close> in \<^verbatim>\<open>src/main/c/output.c\<close>) and the size of
  the base64 buffer of \<^verbatim>\<open>_encode_json_gzip_base64_checked\<close>. The \<^verbatim>\<open>zlib\<close> library is a parameter.
\<close>

subsection \<open>The compression library\<close>

text \<open>
  \<open>deflate z inp avail finish\<close> is a call with the input \<open>inp\<close> and room for \<open>avail\<close> bytes of output:
  whether the result is not \<^verbatim>\<open>Z_STREAM_ERROR\<close>, the input that is left, the output written, and the
  new state of the stream.
\<close>

record 'z zlib =
  deflateInit2 :: "'z option"
  deflate :: "'z \<Rightarrow> byte list \<Rightarrow> nat \<Rightarrow> bool \<Rightarrow> bool \<times> byte list \<times> byte list \<times> 'z"
  deflateEnd :: "'z \<Rightarrow> bool"

text \<open>
  What the documentation of \<^verbatim>\<open>zlib\<close> promises, for a stream that has read \<open>i\<close> and written \<open>w\<close>: the output
  fits the room given; if room is left, all input was consumed, and after \<^verbatim>\<open>Z_FINISH\<close> the stream is
  complete; the length of the output is bounded in terms of the length of the input
  (\<^verbatim>\<open>deflateBound\<close>); a stream in a consistent state gives no stream error.
\<close>

definition zlib_doc :: "'z zlib \<Rightarrow> (byte list \<Rightarrow> byte list) \<Rightarrow> ('z \<Rightarrow> byte list \<Rightarrow> byte list \<Rightarrow> bool) \<Rightarrow> (nat \<Rightarrow> nat) \<Rightarrow> bool" where
  "zlib_doc Z gz zst bound \<longleftrightarrow>
     (\<forall>z. deflateInit2 Z = Some z \<longrightarrow> zst z [] []) \<and>
     (\<forall>z i w. zst z i w \<longrightarrow> length w \<le> bound (length i)) \<and>
     mono bound \<and>
     (\<forall>z i w inp avail fin. zst z i w \<and> 0 < avail \<longrightarrow>
        (case deflate Z z inp avail fin of (ok, rest, d, z') \<Rightarrow>
           ok \<and> length d \<le> avail \<and>
           (length d < avail \<longrightarrow> zst z' (i @ inp) (w @ d) \<and> (fin \<longrightarrow> w @ d = gz (i @ inp))) \<and>
           (length d = avail \<longrightarrow> (\<exists>c. inp = c @ rest \<and> zst z' (i @ c) (w @ d)))))"

subsection \<open>Compressing a chain\<close>

definition UINT_MAX :: nat where
  "UINT_MAX = 2 ^ 32 - 1"

text \<open>
  The inner \<^verbatim>\<open>do ... while\<close> loop. \<open>ret\<close> is what was written to the output buffer, so its length is
  \<^verbatim>\<open>strm.total_out\<close>. The result \<open>None\<close> is a write outside of the buffer or a loop without end;
  \<open>Some None\<close> is the null pointer.
\<close>

partial_function (option) gzip_loop ::
    "'z zlib \<Rightarrow> allocator \<Rightarrow> bool \<Rightarrow> 'z \<Rightarrow> byte list \<Rightarrow> byte list \<Rightarrow> nat \<Rightarrow> nat \<Rightarrow>
       ('z \<times> byte list \<times> nat \<times> nat) option option" where
  "gzip_loop Z alloc finish z next_in ret deflated_size k =
     (if deflated_size \<le> length ret \<and> \<not> alloc k (2 * deflated_size) then Some None
      else
        let k' = (if deflated_size \<le> length ret then k + 1 else k);
            deflated_size' = (if deflated_size \<le> length ret then 2 * deflated_size else deflated_size);
            avail_out = (if UINT_MAX < deflated_size' - length ret then UINT_MAX
                         else deflated_size' - length ret)
        in (case deflate Z z next_in avail_out finish of (ok, rest, d, z') \<Rightarrow>
             if \<not> ok then Some None
             else if deflated_size' < length ret + length d then None
             else if avail_out - length d = 0 then
               gzip_loop Z alloc finish z' rest (ret @ d) deflated_size' k'
             else Some (Some (z', ret @ d, deflated_size', k'))))"

text \<open>The outer loop over the segments; the last segment is compressed with \<^verbatim>\<open>Z_FINISH\<close>.\<close>

partial_function (option) gzip_segments ::
    "'z zlib \<Rightarrow> allocator \<Rightarrow> (nat \<rightharpoonup> json_segment) \<Rightarrow> nat option \<Rightarrow> 'z \<Rightarrow> byte list \<Rightarrow> nat \<Rightarrow> nat \<Rightarrow>
       ('z \<times> byte list) option option" where
  "gzip_segments Z alloc sto seg z ret deflated_size k =
     (case seg of
        None \<Rightarrow> Some (Some (z, ret))
      | Some a \<Rightarrow>
          (case sto a of
             None \<Rightarrow> None
           | Some s \<Rightarrow>
               (case gzip_loop Z alloc (seg_next s = None) z (take (seg_len s) (seg_data s)) ret deflated_size k of
                  None \<Rightarrow> None
                | Some None \<Rightarrow> Some None
                | Some (Some (z', ret', deflated_size', k')) \<Rightarrow>
                    gzip_segments Z alloc sto (seg_next s) z' ret' deflated_size' k')))"

definition encode_gzip ::
    "'z zlib \<Rightarrow> allocator \<Rightarrow> json_heap \<Rightarrow> nat option \<Rightarrow> nat \<Rightarrow> byte list option option" where
  "encode_gzip Z alloc h json json_len =
     (case deflateInit2 Z of
        None \<Rightarrow> Some None
      | Some z \<Rightarrow>
          let deflated_size = (if json_len < 1024 then 1024 else json_len) in
          if \<not> alloc 0 deflated_size then Some None
          else (case gzip_segments Z alloc (store h) json z [] deflated_size 1 of
              None \<Rightarrow> None
            | Some None \<Rightarrow> Some None
            | Some (Some (z', ret)) \<Rightarrow> if deflateEnd Z z' then Some (Some ret) else Some None))"

subsection \<open>The loops end and compute the compressed text\<close>

lemma gzip_loop_ok:
  assumes doc: "zlib_doc Z gz zst bound" and "zst z i ret" and "0 < size'" and "length ret \<le> size'"
  shows "\<exists>r. gzip_loop Z alloc fin z inp ret size' k = Some r \<and>
    (case r of
       None \<Rightarrow> \<exists>n m. \<not> alloc n m
     | Some (z', ret', size'', k') \<Rightarrow> zst z' (i @ inp) ret' \<and> (fin \<longrightarrow> ret' = gz (i @ inp)) \<and>
         0 < size'' \<and> length ret' \<le> size'')"
  using assms(2-)
proof (induction "bound (length (i @ inp)) - length ret" arbitrary: z i inp ret size' k rule: less_induct)
  case less
  let ?size = "if size' \<le> length ret then 2 * size' else size'"
  let ?k = "if size' \<le> length ret then k + 1 else k"
  let ?avail = "if UINT_MAX < ?size - length ret then UINT_MAX else ?size - length ret"
  show ?case
  proof (cases "size' \<le> length ret \<and> \<not> alloc k (2 * size')")
    case True
    then show ?thesis
      by (subst gzip_loop.simps) auto
  next
    case False
    have room: "length ret < ?size"
      using less.prems by auto
    then have av: "0 < ?avail" "?avail \<le> ?size - length ret"
      by (auto simp: UINT_MAX_def)
    obtain ok rest d z' where df: "deflate Z z inp ?avail fin = (ok, rest, d, z')"
      using prod_cases4 by blast
    have all: "\<forall>z i w inp avail fin. zst z i w \<and> 0 < avail \<longrightarrow>
        (case deflate Z z inp avail fin of (ok, rest, d, z') \<Rightarrow>
           ok \<and> length d \<le> avail \<and>
           (length d < avail \<longrightarrow> zst z' (i @ inp) (w @ d) \<and> (fin \<longrightarrow> w @ d = gz (i @ inp))) \<and>
           (length d = avail \<longrightarrow> (\<exists>c. inp = c @ rest \<and> zst z' (i @ c) (w @ d))))"
      using doc unfolding zlib_doc_def by (elim conjE)
    note sp = all [rule_format, OF conjI [OF less.prems(1) av(1)], of inp fin, unfolded df prod.case]
    note spec = sp [THEN conjunct1] sp [THEN conjunct2, THEN conjunct1]
      sp [THEN conjunct2, THEN conjunct2, THEN conjunct1] sp [THEN conjunct2, THEN conjunct2, THEN conjunct2]
    have fits: "\<not> ?size < length ret + length d"
      using spec(2) av(2) room by linarith
    have unfold: "gzip_loop Z alloc fin z inp ret size' k =
        (if ?avail - length d = 0 then gzip_loop Z alloc fin z' rest (ret @ d) ?size ?k
         else Some (Some (z', ret @ d, ?size, ?k)))"
      using False df spec(1) fits by (subst gzip_loop.simps) (simp only: Let_def prod.case if_False simp_thms if_True)
    show ?thesis
    proof (cases "length d = ?avail")
      case True
      then obtain c where c: "inp = c @ rest" "zst z' (i @ c) (ret @ d)"
        using spec(4) by blast
      have d0: "0 < length d"
        using av(1) unfolding True .
      have b: "length (ret @ d) \<le> bound (length (i @ c))" and "mono bound"
        using doc c(2) unfolding zlib_doc_def by blast+
      then have "bound (length (i @ c)) \<le> bound (length (i @ inp))"
        using c(1) by (simp add: monoD)
      then have "bound (length ((i @ c) @ rest)) - length (ret @ d) < bound (length (i @ inp)) - length ret"
        using b d0 c(1) by (simp del: length_0_conv length_greater_0_conv)
      moreover have "0 < ?size" "length (ret @ d) \<le> ?size"
        using fits room by simp_all
      moreover have "?avail - length d = 0" "(i @ c) @ rest = i @ inp"
        using True c(1) by simp_all
      ultimately show ?thesis
        using less.hyps [OF _ c(2), of rest ?size ?k] unfolding unfold by (simp only: if_True simp_thms)
    next
      case no: False
      then have "length d < ?avail"
        using spec(2) by linarith
      moreover from this have "?avail - length d \<noteq> 0"
        by linarith
      ultimately show ?thesis
        using spec(3) fits room unfolding unfold by auto
    qed
  qed
qed

lemma gzip_segments_ok:
  assumes doc: "zlib_doc Z gz zst bound"
  shows "path sto p as \<Longrightarrow> zst z i ret \<Longrightarrow> 0 < size' \<Longrightarrow> length ret \<le> size' \<Longrightarrow> as = [] \<longrightarrow> ret = gz i \<Longrightarrow>
    \<exists>r. gzip_segments Z alloc sto p z ret size' k = Some r \<and>
    (case r of
       None \<Rightarrow> \<exists>n m. \<not> alloc n m
     | Some (z', ret') \<Rightarrow> ret' = gz (i @ path_text sto as))"
proof (induction as arbitrary: p z i ret size' k)
  case Nil
  then show ?case
    by (subst gzip_segments.simps) simp
next
  case (Cons a as)
  then obtain s where s: "p = Some a" "sto a = Some s" "seg_wf s" "path sto (seg_next s) as"
    by (auto split: option.splits)
  then have t: "take (seg_len s) (seg_data s) = seg_data s"
    by (simp add: seg_wf_def)
  have last: "as = [] \<longleftrightarrow> seg_next s = None"
    using s(4) by (cases as) auto
  obtain r where r: "gzip_loop Z alloc (seg_next s = None) z (seg_data s) ret size' k = Some r"
      "case r of
         None \<Rightarrow> \<exists>n m. \<not> alloc n m
       | Some (z', ret', size'', k') \<Rightarrow> zst z' (i @ seg_data s) ret' \<and>
           (seg_next s = None \<longrightarrow> ret' = gz (i @ seg_data s)) \<and> 0 < size'' \<and> length ret' \<le> size''"
    using gzip_loop_ok [OF doc Cons.prems(2-4), of alloc "seg_next s = None" "seg_data s" k] by blast
  show ?case
  proof (cases r)
    case None
    then show ?thesis
      using r s t by (subst gzip_segments.simps) simp
  next
    case (Some x)
    then obtain z' ret' size'' k' where x: "x = (z', ret', size'', k')"
      by (cases x)
    have "\<exists>r. gzip_segments Z alloc sto (seg_next s) z' ret' size'' k' = Some r \<and>
      (case r of None \<Rightarrow> \<exists>n m. \<not> alloc n m
       | Some (z', ret') \<Rightarrow> ret' = gz ((i @ seg_data s) @ path_text sto as))"
      by (rule Cons.IH) (use s(4) r(2) Some x last in auto)
    moreover have "(i @ seg_data s) @ path_text sto as = i @ path_text sto (a # as)"
      using s(2) by simp
    ultimately show ?thesis
      using r(1) s(1,2) t Some x by (subst gzip_segments.simps) (simp only: option.case prod.case)
  qed
qed

lemma encode_gzip_ok:
  assumes doc: "zlib_doc Z gz zst bound" and "json_ok st0 head (cur, h)" and c: "json_contents head (cur, h) = Some t"
  shows "\<exists>r. encode_gzip Z alloc h (Some head) n = Some r \<and> (r = None \<or> r = Some (gz t)) \<and>
    ((\<forall>k m. alloc k m) \<and> (\<exists>z. deflateInit2 Z = Some z) \<and> (\<forall>z. deflateEnd Z z) \<longrightarrow> r = Some (gz t))"
proof (cases "deflateInit2 Z")
  case None
  then show ?thesis
    by (simp add: encode_gzip_def)
next
  case (Some z)
  let ?size = "if n < 1024 then 1024 else n"
  from assms(2) obtain as where as: "json_ok_path st0 head as (cur, h)"
    by (auto simp: json_ok_def)
  have p: "path (store h) (Some head) as" and ne: "as \<noteq> []"
    using as by (auto simp: json_ok_path_def)
  have t: "path_text (store h) as = t"
    using json_contents_path [OF as] c by (auto split: if_splits)
  have "zst z [] []"
    using doc Some by (simp add: zlib_doc_def)
  moreover have "0 < ?size" "length [] \<le> ?size"
    by simp_all
  ultimately obtain r where "gzip_segments Z alloc (store h) (Some head) z [] ?size 1 = Some r"
      "case r of None \<Rightarrow> \<exists>n m. \<not> alloc n m | Some (z', ret') \<Rightarrow> ret' = gz ([] @ t)"
    using gzip_segments_ok [OF doc p, of z "[]" "[]" ?size alloc 1] ne unfolding t by blast
  then show ?thesis
    using Some by (cases r) (auto simp: encode_gzip_def Let_def)
qed

subsection \<open>The size of the base64 buffer\<close>

text \<open>\<^verbatim>\<open>((4 * gzip_size / 3) + 3) & ~3UL\<close>.\<close>

definition base64_capacity :: "u64 \<Rightarrow> u64" where
  "base64_capacity gzip_size = (4 * gzip_size div 3 + 3) AND (NOT 3)"

lemma and_not_minus: "x AND NOT y = x - (x AND y)" for x y :: u64
proof -
  have "(x AND NOT y) AND (x AND y) = 0"
    by (rule bit_word_eqI) (auto simp: bit_simps)
  moreover have "(x AND NOT y) OR (x AND y) = x"
    by (rule bit_word_eqI) (auto simp: bit_simps)
  ultimately have "(x AND NOT y) + (x AND y) = x"
    by (simp add: disjunctive_add_eq_or)
  then show ?thesis
    by (simp add: eq_diff_eq)
qed

lemma and_not_3: "unat (x AND NOT (3 :: u64)) = 4 * (unat x div 4)"
proof -
  have "unat (x AND 3) = unat x mod 4"
    by (simp add: unat_ops)
  moreover have "x AND 3 \<le> x"
    using \<open>unat (x AND 3) = unat x mod 4\<close> by (simp add: word_le_nat_alt)
  ultimately show ?thesis
    unfolding and_not_minus by (simp add: unat_sub minus_mod_eq_mult_div)
qed

lemma unat_base64_capacity:
  assumes "unat n < 2 ^ 62"
  shows "unat (base64_capacity n) = 4 * ((unat n + 2) div 3)"
proof -
  have m: "unat (4 * n) = 4 * unat n"
    using assms by (simp add: unat_word_ariths)
  have d: "unat (4 * n div 3) = 4 * unat n div 3"
    by (simp add: unat_div_distrib m)
  have "unat (4 * n div 3 + 3) = 4 * unat n div 3 + 3"
    using assms by (simp add: unat_word_ariths(1) d)
  then show ?thesis
    unfolding base64_capacity_def and_not_3 by simp
qed

subsection \<open>Properties\<close>


text \<open>A stream that stores its input unchanged is an instance of the documented behaviour.\<close>

definition stored :: "byte list zlib" where
  "stored = \<lparr>deflateInit2 = Some [],
     deflate = (\<lambda>z inp avail fin. (True, [], take avail (z @ inp), drop avail (z @ inp))),
     deflateEnd = (\<lambda>z. True)\<rparr>"

lemma stored_doc: "zlib_doc stored id (\<lambda>z i w. i = w @ z) (\<lambda>n. n)"
proof -
  have "take avail xs @ drop avail xs = xs" for avail and xs :: "byte list"
    by simp
  then show ?thesis
    unfolding zlib_doc_def stored_def mono_def
    by (auto simp del: append_take_drop_id take_append drop_append)
qed


text \<open>
  C18. The size computed for the base64 buffer, in 64-bit arithmetic, is exactly
  the number of characters that the encoder writes, for every input below \<open>2 ^ 62\<close> bytes: the
  encoder never writes past the end of the buffer and the buffer has no byte to spare.
\<close>

theorem base64_capacity_exact:
  assumes "length gzip < 2 ^ 62" and "base64_encode little_endian gzip (length gzip) = Some (out, outlen)"
  shows "unat (base64_capacity (of_nat (length gzip))) = outlen \<and> length out = outlen"
proof -
  have n: "unat (of_nat (length gzip) :: u64) = length gzip"
    using assms(1) by (simp add: unat_of_nat)
  have "out = b64_spec gzip" "outlen = length (b64_spec gzip)"
    using base64_encode_eq [of "length gzip" gzip little_endian] assms(2) by simp_all
  then show ?thesis
    using unat_base64_capacity [of "of_nat (length gzip)"] assms(1) n by (simp add: length_b64_spec)
qed

theorem base64_capacity_exact_witness:
  "\<exists>out outlen. base64_encode True [1, 2, 3, 4] 4 = Some (out, outlen) \<and> outlen = 8 \<and>
     unat (base64_capacity 4) = outlen"
proof -
  let ?out = "b64_spec [1, 2, 3, 4]"
  have e: "base64_encode True [1, 2, 3, 4] 4 = Some (?out, length ?out)"
    using base64_encode_eq [of 4 "[1, 2, 3, 4]" True] by simp
  have l: "length ?out = 8" "length [1, 2, 3, 4 :: byte] = 4"
    by (simp_all add: length_b64_spec)
  have "unat (base64_capacity (of_nat 4)) = length ?out"
    using base64_capacity_exact [of "[1, 2, 3, 4]" True ?out "length ?out", unfolded l(2), OF _ e] by simp
  then show ?thesis
    using e l(1) by simp
qed

end
