(* ===== verification/Output.thy ===== *)
theory Output
  imports Convert_Json Logging
begin

text \<open>
  The conversion of the diagnostics of the rule engine to Java objects, of \<^verbatim>\<open>src/main/c/output.c\<close>:
  strings, arrays of strings, maps of such arrays, sections and the whole object. The static
  method handles of the file are the record \<open>output_globals\<close>. The one function of the \<^verbatim>\<open>libddwaf\<close>
  library that is called is a parameter, in the record \<open>ddwaf_lib\<close>.
\<close>

record output_globals =
  rsi_init :: j_method
  sect_info_err_init :: j_method
  sect_info_normal_init :: j_method
  array_list_init :: j_method
  array_list_add :: j_method
  linked_hm_init :: j_method
  map_put :: j_method
  long_valueOf :: j_method
  double_valueOf :: j_method
  boolean_valueOf :: j_method

text \<open>\<^verbatim>\<open>ddwaf_object_get_string\<close> of the library: the bytes of a string object, null for others.\<close>

record ddwaf_lib =
  ddwaf_object_get_string :: "ddwaf_object \<Rightarrow> byte list option"

definition MAX_JINT :: nat where
  "MAX_JINT = 2 ^ 31 - 1"

subsection \<open>Reading maps\<close>

definition map_get_object_checked :: "jvm \<Rightarrow> ddwaf_object option \<Rightarrow> byte list \<Rightarrow> ddwaf_object option jni" where
  "map_get_object_checked J obj str =
     (case map_option payload obj of
        Some (DDWAF_OBJ_MAP es) \<Rightarrow> State_Monad.return (find (\<lambda>el. parameterName el = str) es)
      | _ \<Rightarrow> do {
          ThrowNew J (RuntimeException ''ddwaf map expected'');
          State_Monad.return None })"

definition map_get_string_checked :: "jvm \<Rightarrow> ddwaf_lib \<Rightarrow> ddwaf_object option \<Rightarrow> byte list \<Rightarrow> jobject option jni" where
  "map_get_string_checked J D obj str = do {
     el \<leftarrow> map_get_object_checked J obj str;
     exc \<leftarrow> ExceptionCheck;
     case el of
       None \<Rightarrow> State_Monad.return None
     | Some ob \<Rightarrow>
         if exc then State_Monad.return None
         else (case ddwaf_object_get_string D ob of
             None \<Rightarrow> do {
               ThrowNew J (RuntimeException ''ddwaf string expected'');
               State_Monad.return None }
           | Some v \<Rightarrow> new_jstring J v) }"

subsection \<open>Arrays of strings\<close>

definition strarr_body :: "jvm \<Rightarrow> output_globals \<Rightarrow> ddwaf_lib \<Rightarrow> ddwaf_object \<Rightarrow> jobject list \<Rightarrow> jobject list option jni" where
  "strarr_body J G D el ret =
     (case ddwaf_object_get_string D el of
        None \<Rightarrow> do {
          ThrowNew J (RuntimeException ''expected array to contain only strings'');
          State_Monad.return None }
      | Some str \<Rightarrow> do {
          jstr \<leftarrow> new_jstring J str;
          exc \<leftarrow> ExceptionCheck;
          if exc then State_Monad.return None
          else do {
            java_meth_call J (array_list_add G) (None :: jobject option);
            DeleteLocalRef jstr;
            exc \<leftarrow> ExceptionCheck;
            if exc then State_Monad.return None
            else State_Monad.return (Some (ret @ [the jstr])) }})"

definition convert_strarr_checked :: "jvm \<Rightarrow> output_globals \<Rightarrow> ddwaf_lib \<Rightarrow> ddwaf_object option \<Rightarrow> jobject option jni" where
  "convert_strarr_checked J G D ob =
     (case ob of
        None \<Rightarrow> State_Monad.return None
      | Some el \<Rightarrow>
          (case payload el of
             DDWAF_OBJ_ARRAY es \<Rightarrow>
               if es = [] then State_Monad.return None
               else if MAX_JINT < length es then do {
                 ThrowNew J (RuntimeException ''too many elements in ddwaf array'');
                 State_Monad.return None }
               else do {
                 ret \<leftarrow> java_meth_call J (array_list_init G) (Some (JArrayList []));
                 if ret = None then State_Monad.return None
                 else do {
                   r \<leftarrow> jni_loop (strarr_body J G D) es [];
                   case r of
                     None \<Rightarrow> do { DeleteLocalRef ret; State_Monad.return None }
                   | Some xs \<Rightarrow> State_Monad.return (Some (JArrayList xs)) }}
           | _ \<Rightarrow> do {
               ThrowNew J (RuntimeException ''ddwaf array expected'');
               State_Monad.return None }))"

definition map_get_object_strarr_checked ::
    "jvm \<Rightarrow> output_globals \<Rightarrow> ddwaf_lib \<Rightarrow> ddwaf_object option \<Rightarrow> byte list \<Rightarrow> jobject option jni" where
  "map_get_object_strarr_checked J G D obj str = do {
     el \<leftarrow> map_get_object_checked J obj str;
     exc \<leftarrow> ExceptionCheck;
     if exc \<or> el = None then State_Monad.return None else convert_strarr_checked J G D el }"

subsection \<open>Maps of arrays of strings\<close>

text \<open>
  \<^verbatim>\<open>Map.put\<close> returns the value it replaces, as a local reference; the code drops it.
\<close>

definition lhm_prev :: "'k \<Rightarrow> ('k \<times> 'v option) list \<Rightarrow> 'v option" where
  "lhm_prev k m = (case map_of m k of None \<Rightarrow> None | Some v \<Rightarrow> v)"

type_synonym jentries = "(jobject \<times> jobject option) list"

definition errmap_body ::
    "jvm \<Rightarrow> output_globals \<Rightarrow> ddwaf_lib \<Rightarrow> ddwaf_object \<Rightarrow> jentries \<Rightarrow> jentries option jni" where
  "errmap_body J G D el ret =
     (case payload el of
        DDWAF_OBJ_ARRAY _ \<Rightarrow> do {
          jkey \<leftarrow> new_jstring J (parameterName el);
          exc \<leftarrow> ExceptionCheck;
          if exc then State_Monad.return None
          else do {
            str_list \<leftarrow> convert_strarr_checked J G D (Some el);
            exc \<leftarrow> ExceptionCheck;
            if exc then do { DeleteLocalRef jkey; State_Monad.return None }
            else do {
              java_meth_call J (map_put G) (lhm_prev (the jkey) ret);
              DeleteLocalRef jkey;
              DeleteLocalRef str_list;
              exc \<leftarrow> ExceptionCheck;
              if exc then State_Monad.return None
              else State_Monad.return (Some (lhm_put (the jkey) str_list ret)) }}}
      | _ \<Rightarrow> do {
          ThrowNew J (RuntimeException ''ddwaf array expected inside map'');
          State_Monad.return None })"

definition map_get_object_errmap_checked ::
    "jvm \<Rightarrow> output_globals \<Rightarrow> ddwaf_lib \<Rightarrow> ddwaf_object option \<Rightarrow> byte list \<Rightarrow> jobject option jni" where
  "map_get_object_errmap_checked J G D obj str = do {
     el \<leftarrow> map_get_object_checked J obj str;
     exc \<leftarrow> ExceptionCheck;
     if exc \<or> el = None then State_Monad.return None
     else (case payload (the el) of
         DDWAF_OBJ_MAP es \<Rightarrow>
           if es = [] then State_Monad.return None
           else do {
             ret \<leftarrow> java_meth_call J (linked_hm_init G) (Some (JLinkedHashMap []));
             exc \<leftarrow> ExceptionCheck;
             if exc then State_Monad.return None
             else do {
               r \<leftarrow> jni_loop (errmap_body J G D) es [];
               case r of
                 None \<Rightarrow> do { DeleteLocalRef ret; State_Monad.return None }
               | Some m \<Rightarrow> State_Monad.return (Some (JLinkedHashMap m)) }}
       | _ \<Rightarrow> do {
           ThrowNew J (RuntimeException ''ddwaf map expected'');
           State_Monad.return None }) }"

subsection \<open>Sections and diagnostics\<close>

text \<open>
  A sequence of conversions that each jump to the label \<^verbatim>\<open>err\<close> when they throw: the references
  made so far (null references included), and whether all went well.
\<close>

primrec fetch_all :: "('x \<Rightarrow> 'a option jni) \<Rightarrow> 'x list \<Rightarrow> 'a option list \<Rightarrow> ('a option list \<times> bool) jni" where
  "fetch_all f [] acc = State_Monad.return (acc, True)"
| "fetch_all f (x # xs) acc = do {
     r \<leftarrow> f x;
     exc \<leftarrow> ExceptionCheck;
     if exc then State_Monad.return (acc @ [r], False) else fetch_all f xs (acc @ [r]) }"

text \<open>
  The fields of a section: \<open>loaded\<close>, \<open>skipped\<close>, \<open>failed\<close> are arrays of strings, \<open>warnings\<close> and
  \<open>errors\<close> are maps. The constructor takes \<open>skipped\<close> before \<open>loaded\<close>.
\<close>

datatype sect_field = Strarr string | Errmap string

definition section_fields :: "sect_field list" where
  "section_fields = [Strarr ''loaded'', Strarr ''skipped'', Strarr ''failed'', Errmap ''warnings'', Errmap ''errors'']"

definition get_field ::
    "jvm \<Rightarrow> output_globals \<Rightarrow> ddwaf_lib \<Rightarrow> ddwaf_object option \<Rightarrow> sect_field \<Rightarrow> jobject option jni" where
  "get_field J G D obj fld =
     (case fld of
        Strarr nm \<Rightarrow> map_get_object_strarr_checked J G D obj (cstr nm)
      | Errmap nm \<Rightarrow> map_get_object_errmap_checked J G D obj (cstr nm))"

definition convert_section_checked ::
    "jvm \<Rightarrow> output_globals \<Rightarrow> ddwaf_lib \<Rightarrow> ddwaf_object option \<Rightarrow> byte list \<Rightarrow> jobject option jni" where
  "convert_section_checked J G D root sect_name = do {
     section \<leftarrow> map_get_object_checked J root sect_name;
     exc \<leftarrow> ExceptionCheck;
     if exc \<or> section = None then State_Monad.return None
     else do {
       error \<leftarrow> map_get_string_checked J D section (cstr ''error'');
       exc \<leftarrow> ExceptionCheck;
       if exc then State_Monad.return None
       else if error \<noteq> None then do {
         res \<leftarrow> java_meth_call J (sect_info_err_init G) (Some (JObject ''SectionInfo'' [error]));
         DeleteLocalRef error;
         State_Monad.return res }
       else do {
         (fields, ok) \<leftarrow> fetch_all (get_field J G D section) section_fields [];
         ret \<leftarrow> (if ok then java_meth_call J (sect_info_normal_init G)
                    (Some (JObject ''SectionInfo'' ([fields ! 1, fields ! 0] @ drop 2 fields)))
                 else State_Monad.return None);
         delete_refs fields;
         State_Monad.return ret }}}"

definition diagnostics_sections :: "string list" where
  "diagnostics_sections = [''rules'', ''custom_rules'', ''rules_data'', ''rules_override'', ''exclusions'',
     ''exclusion_data'', ''actions'', ''processors'', ''scanners'']"

definition output_convert_diagnostics_checked ::
    "jvm \<Rightarrow> output_globals \<Rightarrow> ddwaf_lib \<Rightarrow> ddwaf_object option \<Rightarrow> jobject option jni" where
  "output_convert_diagnostics_checked J G D obj = do {
     rulesetVersion \<leftarrow> map_get_string_checked J D obj (cstr ''ruleset_version'');
     error \<leftarrow> map_get_string_checked J D obj (cstr ''error'');
     exc \<leftarrow> ExceptionCheck;
     if exc then State_Monad.return None
     else do {
       (sections, ok) \<leftarrow> fetch_all (\<lambda>nm. convert_section_checked J G D obj (cstr nm)) diagnostics_sections [];
       ret \<leftarrow> (if ok then java_meth_call J (rsi_init G)
                  (Some (JObject ''WafDiagnostics'' ([error, rulesetVersion] @ sections)))
               else State_Monad.return None);
       delete_refs ([rulesetVersion, error] @ sections);
       State_Monad.return ret }}"

subsection \<open>What the conversions should return\<close>

definition map_find :: "ddwaf_object option \<Rightarrow> byte list \<Rightarrow> ddwaf_object option option" where
  "map_find obj str =
     (case map_option payload obj of
        Some (DDWAF_OBJ_MAP es) \<Rightarrow> Some (find (\<lambda>el. parameterName el = str) es)
      | _ \<Rightarrow> None)"

definition string_field_spec :: "ddwaf_lib \<Rightarrow> ddwaf_object option \<Rightarrow> byte list \<Rightarrow> jobject option option" where
  "string_field_spec D obj str =
     (case map_find obj str of
        None \<Rightarrow> None
      | Some None \<Rightarrow> Some None
      | Some (Some ob) \<Rightarrow> (case ddwaf_object_get_string D ob of None \<Rightarrow> None | Some v \<Rightarrow> jstring_spec v))"

definition strarr_step :: "output_globals \<Rightarrow> ddwaf_lib \<Rightarrow> ddwaf_object \<Rightarrow> jobject list \<Rightarrow> (jobject list \<times> int) option" where
  "strarr_step G D el acc =
     (case ddwaf_object_get_string D el of
        None \<Rightarrow> None
      | Some str \<Rightarrow>
          if jstring_fits str \<and> ready (array_list_add G) then Some (acc @ [JString (utf16_of str)], 0) else None)"

definition strarr_spec :: "output_globals \<Rightarrow> ddwaf_lib \<Rightarrow> ddwaf_object option \<Rightarrow> jobject option option" where
  "strarr_spec G D ob =
     (case map_option payload ob of
        None \<Rightarrow> Some None
      | Some (DDWAF_OBJ_ARRAY es) \<Rightarrow>
          if es = [] then Some None
          else if MAX_JINT < length es \<or> \<not> ready (array_list_init G) then None
          else map_option (\<lambda>(xs, l). Some (JArrayList xs)) (spec_loop (strarr_step G D) es [])
      | Some _ \<Rightarrow> None)"

lemma map_get_objectI:
  assumes "pending e = None"
    and "\<And>r. map_find obj str = Some r \<Longrightarrow> Q r e"
    and "\<And>e' t. map_find obj str = None \<Longrightarrow> env_to e (Some t) 0 e' \<Longrightarrow> Q None e'"
  shows "wp (map_get_object_checked J obj str) Q e"
  using assms unfolding map_get_object_checked_def map_find_def
  by (auto simp: wps intro!: ThrowNewI split: option.split ddwaf_value.split)

lemma map_get_string_contract: "checked J (map_get_string_checked J D obj str) (string_field_spec D obj str) 0 True"
  unfolding checked_def
proof (intro allI impI)
  fix e :: jenv assume e: "pending e = None"
  show "wp (map_get_string_checked J D obj str) (outcome J (string_field_spec D obj str) 0 True e) e"
    unfolding map_get_string_checked_def wp_bind
  proof (rule map_get_objectI [OF e])
    fix r assume r: "map_find obj str = Some r"
    show "wp ExceptionCheck (\<lambda>exc. wp (case r of None \<Rightarrow> State_Monad.return None
        | Some ob \<Rightarrow> if exc then State_Monad.return None
            else (case ddwaf_object_get_string D ob of
               None \<Rightarrow> do { ThrowNew J (RuntimeException ''ddwaf string expected''); State_Monad.return None }
             | Some v \<Rightarrow> new_jstring J v)) (outcome J (string_field_spec D obj str) 0 True e)) e"
      using e r
      by (auto simp: wps string_field_spec_def outcome_def env_to_refl intro!: ThrowNewI jstr.callI
          split: option.split)
  next
    fix e' t assume "map_find obj str = None" "env_to e (Some t) 0 e'"
    then show "wp ExceptionCheck (\<lambda>exc. wp (case None of None \<Rightarrow> State_Monad.return None
        | Some ob \<Rightarrow> if exc then State_Monad.return None
            else (case ddwaf_object_get_string D ob of
               None \<Rightarrow> do { ThrowNew J (RuntimeException ''ddwaf string expected''); State_Monad.return None }
             | Some v \<Rightarrow> new_jstring J v)) (outcome J (string_field_spec D obj str) 0 True e)) e'"
      by (auto simp: wps string_field_spec_def outcome_def)
  qed
qed

lemma strarr_body_wp:
  assumes "pending e = None"
  shows "wp (strarr_body J G D el acc) (body_outcome 0 J (strarr_step G D el acc) True e) e"
  using assms
  by (auto simp: strarr_body_def strarr_step_def wps body_outcome_def env_to_def jstring_spec_def
      intro!: ThrowNewI jstr.callI meth_callI split: option.split if_splits)

lemma loopI:
  assumes "\<And>x acc e. x \<in> set xs \<Longrightarrow> pending e = None \<Longrightarrow> wp (body x acc) (body_outcome D J (step x acc) S e) e"
    and "pending e = None"
    and "\<And>acc' l e'. spec_loop step xs acc = Some (acc', l) \<Longrightarrow> 0 \<le> l \<Longrightarrow> (S \<Longrightarrow> l = 0) \<Longrightarrow> env_to e None l e' \<Longrightarrow> Q (Some acc') e'"
    and "\<And>t d e'. D \<le> d \<Longrightarrow> (S \<Longrightarrow> d = D) \<Longrightarrow> env_to e (Some t) d e' \<Longrightarrow> (calm J \<Longrightarrow> spec_loop step xs acc = None) \<Longrightarrow> Q None e'"
  shows "wp (jni_loop body xs acc) Q e"
proof (rule wp_mono [OF jni_loop_spec [OF assms(1,2)]])
  fix r e' assume "body_outcome D J (spec_loop step xs acc) S e r e'"
  then consider acc' l where "spec_loop step xs acc = Some (acc', l)" "r = Some acc'" "0 \<le> l" "S \<Longrightarrow> l = 0" "env_to e None l e'"
    | t d where "r = None" "D \<le> d" "S \<Longrightarrow> d = D" "env_to e (Some t) d e'" "calm J \<Longrightarrow> spec_loop step xs acc = None"
    unfolding body_outcome_def by blast
  then show "Q r e'"
    by cases (use assms(3,4) in blast)+
qed

lemma convert_strarr_contract: "checked J (convert_strarr_checked J G D ob) (strarr_spec G D ob) 0 True"
  unfolding checked_def
proof (intro allI impI)
  fix e :: jenv assume e: "pending e = None"
  show "wp (convert_strarr_checked J G D ob) (outcome J (strarr_spec G D ob) 0 True e) e"
  proof (cases "\<exists>el es. ob = Some el \<and> payload el = DDWAF_OBJ_ARRAY es \<and> es \<noteq> [] \<and> length es \<le> MAX_JINT")
    case False
    then show ?thesis
      using e by (auto simp: convert_strarr_checked_def strarr_spec_def wps outcome_def env_to_refl
          intro!: ThrowNewI split: option.split ddwaf_value.split)
  next
    case True
    then obtain el es where ob: "ob = Some el" "payload el = DDWAF_OBJ_ARRAY es" "es \<noteq> []" "\<not> MAX_JINT < length es"
      by auto
    have sp: "strarr_spec G D ob = (if \<not> ready (array_list_init G) then None
        else map_option (\<lambda>(xs, l). Some (JArrayList xs)) (spec_loop (strarr_step G D) es []))"
      using ob by (simp add: strarr_spec_def)
    show ?thesis
      unfolding sp
      using e ob
      by (auto simp: convert_strarr_checked_def wps outcome_def env_to_def
          intro!: meth_callI loopI [OF strarr_body_wp])
  qed
qed

interpretation strarr: checked_function J "convert_strarr_checked J G D" "strarr_spec G D" for J G D
  by unfold_locales (rule convert_strarr_contract)

interpretation strfield: checked_function J "\<lambda>(obj, str). map_get_string_checked J D obj str"
  "\<lambda>(obj, str). string_field_spec D obj str" for J D
  by unfold_locales (auto intro: map_get_string_contract)

definition strarr_field_spec :: "output_globals \<Rightarrow> ddwaf_lib \<Rightarrow> ddwaf_object option \<Rightarrow> byte list \<Rightarrow> jobject option option" where
  "strarr_field_spec G D obj str =
     (case map_find obj str of None \<Rightarrow> None | Some None \<Rightarrow> Some None | Some (Some el) \<Rightarrow> strarr_spec G D (Some el))"

lemma strarr_field_contract:
  "checked J (map_get_object_strarr_checked J G D obj str) (strarr_field_spec G D obj str) 0 True"
  unfolding checked_def
  by (auto simp: map_get_object_strarr_checked_def strarr_field_spec_def wps outcome_def env_to_refl env_to_def
      intro!: map_get_objectI strarr.callI split: option.split)

subsection \<open>Maps\<close>

definition errmap_step ::
    "output_globals \<Rightarrow> ddwaf_lib \<Rightarrow> ddwaf_object \<Rightarrow> jentries \<Rightarrow> (jentries \<times> int) option" where
  "errmap_step G D el acc =
     (case payload el of
        DDWAF_OBJ_ARRAY _ \<Rightarrow>
          (case (jstring_spec (parameterName el), strarr_spec G D (Some el)) of
             (Some (Some k), Some v) \<Rightarrow>
               if ready (map_put G) then Some (lhm_put k v acc, ref_of (lhm_prev k acc)) else None
           | _ \<Rightarrow> None)
      | _ \<Rightarrow> None)"

lemma ref_of_nonneg: "0 \<le> ref_of v"
  by (simp add: ref_of_def)

lemma errmap_body_wp:
  assumes "pending e = None"
  shows "wp (errmap_body J G D el acc) (body_outcome 0 J (errmap_step G D el acc) False e) e"
proof (cases "\<exists>es. payload el = DDWAF_OBJ_ARRAY es")
  case False
  then show ?thesis
    using assms by (auto simp: errmap_body_def errmap_step_def wps body_outcome_def env_to_def
        intro!: ThrowNewI split: ddwaf_value.split)
next
  case True
  then show ?thesis
    using assms
    by (auto simp: errmap_body_def errmap_step_def wps body_outcome_def env_to_def jstring_spec_def ref_of_nonneg
        intro!: jstr.callI strarr.callI meth_callI split: option.split if_splits)
qed

definition errmap_result ::
    "output_globals \<Rightarrow> ddwaf_lib \<Rightarrow> ddwaf_object option \<Rightarrow> byte list \<Rightarrow> (jobject option \<times> int) option" where
  "errmap_result G D obj str =
     (case map_find obj str of
        None \<Rightarrow> None
      | Some None \<Rightarrow> Some (None, 0)
      | Some (Some el) \<Rightarrow>
          (case payload el of
             DDWAF_OBJ_MAP es \<Rightarrow>
               if es = [] then Some (None, 0)
               else if \<not> ready (linked_hm_init G) then None
               else map_option (\<lambda>(m, l). (Some (JLinkedHashMap m), l)) (spec_loop (errmap_step G D) es [])
           | _ \<Rightarrow> None))"

text \<open>The value and the number of references left over, taken from a result of this form.\<close>

definition value_of :: "('a \<times> int) option \<Rightarrow> 'a option" where
  "value_of = map_option fst"

definition leak_of :: "('a \<times> int) option \<Rightarrow> int" where
  "leak_of r = (case r of None \<Rightarrow> 0 | Some (v, l) \<Rightarrow> l)"

lemma value_leak_simps [simp]:
  "value_of None = None" "value_of (Some (v, l)) = Some v" "leak_of None = 0" "leak_of (Some (v, l)) = l"
  by (simp_all add: value_of_def leak_of_def)

lemma errmap_contract:
  "checked J (map_get_object_errmap_checked J G D obj str) (value_of (errmap_result G D obj str))
     (leak_of (errmap_result G D obj str)) False"
  unfolding checked_def
proof (intro allI impI)
  fix e :: jenv assume e: "pending e = None"
  let ?res = "errmap_result G D obj str"
  show "wp (map_get_object_errmap_checked J G D obj str) (outcome J (value_of ?res) (leak_of ?res) False e) e"
  proof (cases "\<exists>el es. map_find obj str = Some (Some el) \<and> payload el = DDWAF_OBJ_MAP es \<and> es \<noteq> []")
    case False
    then show ?thesis
      using e by (auto simp: map_get_object_errmap_checked_def errmap_result_def wps outcome_def env_to_def
          intro!: map_get_objectI ThrowNewI split: option.split ddwaf_value.split)
  next
    case True
    then obtain el es where el: "map_find obj str = Some (Some el)" "payload el = DDWAF_OBJ_MAP es" "es \<noteq> []"
      by auto
    have res: "?res = (if \<not> ready (linked_hm_init G) then None
        else map_option (\<lambda>(m, l). (Some (JLinkedHashMap m), l)) (spec_loop (errmap_step G D) es []))"
      using el by (simp add: errmap_result_def)
    show ?thesis
      unfolding res
      using e el
      by (auto simp: map_get_object_errmap_checked_def wps outcome_def env_to_def value_of_def leak_of_def
          intro!: map_get_objectI meth_callI loopI [OF errmap_body_wp])
  qed
qed

subsection \<open>Sections\<close>

definition fetched ::
    "jvm \<Rightarrow> ('x \<Rightarrow> ('a option \<times> int) option) \<Rightarrow> 'x list \<Rightarrow> 'a option list \<Rightarrow> jenv \<Rightarrow> 'a option list \<times> bool \<Rightarrow> jenv \<Rightarrow> bool" where
  "fetched J res xs acc e r e' \<longleftrightarrow> (\<exists>new. fst r = acc @ new \<and>
     (if snd r then (\<forall>x \<in> set xs. res x \<noteq> None) \<and> new = map (fst \<circ> the \<circ> res) xs \<and>
        env_to e None (sum_list (map ref_of new) + sum_list (map (leak_of \<circ> res) xs)) e'
      else (\<exists>t d. 0 \<le> d \<and> env_to e (Some t) (sum_list (map ref_of new) + d) e') \<and>
        (calm J \<longrightarrow> (\<exists>x \<in> set xs. res x = None))))"

lemma fetch_all_wp:
  assumes "\<And>x. x \<in> set xs \<Longrightarrow> checked J (f x) (value_of (res x)) (leak_of (res x)) False"
    and "\<And>x. x \<in> set xs \<Longrightarrow> 0 \<le> leak_of (res x)"
    and "pending e = None"
  shows "wp (fetch_all f xs acc) (fetched J res xs acc e) e"
  using assms
proof (induction xs arbitrary: acc e)
  case Nil
  then show ?case
    by (simp add: wps env_to_refl fetched_def)
next
  case (Cons x xs)
  show ?case
    unfolding fetch_all.simps wp_bind
  proof (rule checkedI [OF Cons.prems(1) Cons.prems(3)])
    fix v e1 assume v: "value_of (res x) = Some v" and e1: "env_to e None (ref_of v + leak_of (res x)) e1"
    from v obtain l where res: "res x = Some (v, l)"
      by (auto simp: value_of_def)
    have "wp (fetch_all f xs (acc @ [v])) (fetched J res xs (acc @ [v]) e1) e1"
      by (rule Cons.IH) (use Cons.prems env_to_pending [OF e1] in auto)
    then have "wp (fetch_all f xs (acc @ [v])) (fetched J res (x # xs) acc e) e1"
    proof (rule wp_mono)
      fix r e2 assume "fetched J res xs (acc @ [v]) e1 r e2"
      then obtain rs ok new where r: "r = (rs, ok)" "rs = (acc @ [v]) @ new"
          "if ok then (\<forall>x \<in> set xs. res x \<noteq> None) \<and> new = map (fst \<circ> the \<circ> res) xs \<and>
             env_to e1 None (sum_list (map ref_of new) + sum_list (map (leak_of \<circ> res) xs)) e2
           else (\<exists>t d. 0 \<le> d \<and> env_to e1 (Some t) (sum_list (map ref_of new) + d) e2) \<and>
             (calm J \<longrightarrow> (\<exists>x \<in> set xs. res x = None))"
        by (cases r) (auto simp: fetched_def)
      have l: "0 \<le> l"
        using Cons.prems(2) [of x] res by simp
      show "fetched J res (x # xs) acc e r e2"
      proof (cases ok)
        case True
        then have "env_to e1 None (sum_list (map ref_of new) + sum_list (map (leak_of \<circ> res) xs)) e2"
          using r(3) by auto
        from env_to_trans [OF e1 this]
        have "env_to e None (ref_of v + l + (sum_list (map ref_of new) + sum_list (map (leak_of \<circ> res) xs))) e2"
          using res by simp
        then show ?thesis
          using True r res by (auto simp: fetched_def algebra_simps intro!: exI [of _ "v # new"])
      next
        case False
        then obtain t d where d: "0 \<le> d" "env_to e1 (Some t) (sum_list (map ref_of new) + d) e2"
          using r(3) by auto
        then have "env_to e (Some t) (ref_of v + l + (sum_list (map ref_of new) + d)) e2"
          using env_to_trans [OF e1] res by simp
        then have "\<exists>t d. 0 \<le> d \<and> env_to e (Some t) (sum_list (map ref_of (v # new)) + d) e2"
          using d(1) l by (intro exI [of _ t] exI [of _ "l + d"]) (simp add: algebra_simps)
        then show ?thesis
          using False r by (auto simp: fetched_def intro!: exI [of _ "v # new"])
      qed
    qed
    then show "wp ExceptionCheck (\<lambda>exc. wp (if exc then State_Monad.return (acc @ [v], False)
        else fetch_all f xs (acc @ [v])) (fetched J res (x # xs) acc e)) e1"
      using env_to_pending [OF e1] by (simp add: wps)
  next
    fix e1 t d assume d: "0 \<le> d" "env_to e (Some t) d e1" "calm J \<Longrightarrow> value_of (res x) = None"
    then show "wp ExceptionCheck (\<lambda>exc. wp (if exc then State_Monad.return (acc @ [None], False)
        else fetch_all f xs (acc @ [None])) (fetched J res (x # xs) acc e)) e1"
      using env_to_pending [OF d(2)]
      by (auto simp: wps value_of_def fetched_def intro!: exI [of _ "[None]"])
  qed simp
qed

lemma fetch_allI:
  assumes "\<And>x. x \<in> set xs \<Longrightarrow> checked J (f x) (value_of (res x)) (leak_of (res x)) False"
    and "\<And>x. x \<in> set xs \<Longrightarrow> 0 \<le> leak_of (res x)" and "pending e = None"
    and "\<And>e'. \<forall>x \<in> set xs. res x \<noteq> None \<Longrightarrow>
      env_to e None (sum_list (map ref_of (map (fst \<circ> the \<circ> res) xs)) + sum_list (map (leak_of \<circ> res) xs)) e' \<Longrightarrow>
      Q (map (fst \<circ> the \<circ> res) xs, True) e'"
    and "\<And>rs e' t d. 0 \<le> d \<Longrightarrow> env_to e (Some t) (sum_list (map ref_of rs) + d) e' \<Longrightarrow>
      (calm J \<Longrightarrow> \<exists>x \<in> set xs. res x = None) \<Longrightarrow> Q (rs, False) e'"
  shows "wp (fetch_all f xs []) Q e"
proof (rule wp_mono [OF fetch_all_wp [OF assms(1-3)]])
  fix r e' assume "fetched J res xs [] e r e'"
  then consider
      "r = (map (fst \<circ> the \<circ> res) xs, True)" "\<forall>x \<in> set xs. res x \<noteq> None"
        "env_to e None (sum_list (map ref_of (map (fst \<circ> the \<circ> res) xs)) + sum_list (map (leak_of \<circ> res) xs)) e'"
    | rs t d where "r = (rs, False)" "0 \<le> d" "env_to e (Some t) (sum_list (map ref_of rs) + d) e'"
        "calm J \<Longrightarrow> \<exists>x \<in> set xs. res x = None"
    unfolding fetched_def by (cases r; cases "snd r") auto
  then show "Q r e'"
    by cases (use assms(4,5) in blast)+
qed

lemma delete_refsI:
  assumes "Q () (e\<lparr>refs := refs e - sum_list (map ref_of rs)\<rparr>)"
  shows "wp (delete_refs rs) Q e"
  by (rule wp_mono [OF delete_refs_wp]) (use assms in simp)

definition field_result ::
    "output_globals \<Rightarrow> ddwaf_lib \<Rightarrow> ddwaf_object option \<Rightarrow> sect_field \<Rightarrow> (jobject option \<times> int) option" where
  "field_result G D obj fld =
     (case fld of
        Strarr nm \<Rightarrow> map_option (\<lambda>v. (v, 0)) (strarr_field_spec G D obj (cstr nm))
      | Errmap nm \<Rightarrow> errmap_result G D obj (cstr nm))"

lemma checked_weaken: "checked J f spec L True \<Longrightarrow> checked J f spec L False"
  unfolding checked_def outcome_def by (blast intro: wp_mono)

lemma get_field_contract:
  "checked J (get_field J G D obj fld) (value_of (field_result G D obj fld)) (leak_of (field_result G D obj fld)) False"
proof (cases fld)
  case (Strarr nm)
  have "value_of (map_option (\<lambda>v. (v, 0)) r) = r" "leak_of (map_option (\<lambda>v. (v, 0)) r) = 0" for r :: "jobject option option"
    by (cases r; simp)+
  then show ?thesis
    using checked_weaken [OF strarr_field_contract] Strarr by (simp add: get_field_def field_result_def)
next
  case (Errmap nm)
  then show ?thesis
    using errmap_contract by (simp add: get_field_def field_result_def)
qed

lemma spec_loop_leak:
  assumes "\<And>x acc a l. x \<in> set xs \<Longrightarrow> step x acc = Some (a, l) \<Longrightarrow> 0 \<le> l" and "spec_loop step xs acc = Some (a, l)"
  shows "0 \<le> l"
  using assms
proof (induction xs arbitrary: acc a l)
  case (Cons x xs)
  then obtain acc' l1 l2 where l: "step x acc = Some (acc', l1)" "spec_loop step xs acc' = Some (a, l2)" "l = l1 + l2"
    by (auto split: option.splits prod.splits)
  then have "0 \<le> l1"
    using Cons.prems(1) [of x] by auto
  moreover have "0 \<le> l2"
    by (rule Cons.IH [OF Cons.prems(1) l(2)]) simp_all
  ultimately show ?case
    using l(3) by simp
qed simp

lemma errmap_leak: "0 \<le> leak_of (errmap_result G D obj str)"
proof -
  have "0 \<le> l" if "errmap_step G D el acc = Some (a, l)" for el acc a l
    using that by (auto simp: errmap_step_def ref_of_nonneg split: ddwaf_value.splits option.splits if_splits prod.splits)
  then show ?thesis
    using spec_loop_leak [of _ "errmap_step G D"]
    by (auto simp: errmap_result_def leak_of_def split: option.splits ddwaf_value.splits)
qed

lemma field_leak: "0 \<le> leak_of (field_result G D obj fld)"
  using errmap_leak by (auto simp: field_result_def leak_of_def split: sect_field.split option.split)

definition section_result ::
    "output_globals \<Rightarrow> ddwaf_lib \<Rightarrow> ddwaf_object option \<Rightarrow> byte list \<Rightarrow> (jobject option \<times> int) option" where
  "section_result G D root sect_name =
     (case map_find root sect_name of
        None \<Rightarrow> None
      | Some None \<Rightarrow> Some (None, 0)
      | Some (Some section) \<Rightarrow>
          (case string_field_spec D (Some section) (cstr ''error'') of
             None \<Rightarrow> None
           | Some (Some error) \<Rightarrow>
               if ready (sect_info_err_init G) then Some (Some (JObject ''SectionInfo'' [Some error]), 0) else None
           | Some None \<Rightarrow>
               let get = field_result G D (Some section);
                   fields = map (fst \<circ> the \<circ> get) section_fields
               in if (\<forall>x \<in> set section_fields. get x \<noteq> None) \<and> ready (sect_info_normal_init G)
                  then Some (Some (JObject ''SectionInfo'' ([fields ! 1, fields ! 0] @ drop 2 fields)),
                         sum_list (map (leak_of \<circ> get) section_fields))
                  else None))"

text \<open>
  The common end of the two constructors: the fields are converted, the object is created, and
  the references to the fields are deleted in every case.
\<close>

lemma construct_wp:
  fixes pre :: "'b option list" and mk :: "'b option list \<Rightarrow> 'c"
  assumes f: "\<And>x. x \<in> set xs \<Longrightarrow> checked J (f x) (value_of (res x)) (leak_of (res x)) False"
    and l: "\<And>x. x \<in> set xs \<Longrightarrow> 0 \<le> leak_of (res x)" and e: "pending e = None"
    and good: "\<And>e'. \<forall>x \<in> set xs. res x \<noteq> None \<Longrightarrow> ready m \<Longrightarrow>
      env_to e None (1 + sum_list (map (leak_of \<circ> res) xs) - sum_list (map ref_of pre)) e' \<Longrightarrow>
      Q (Some (mk (map (fst \<circ> the \<circ> res) xs))) e'"
    and bad: "\<And>e' t d. 0 \<le> d \<Longrightarrow> env_to e (Some t) (d - sum_list (map ref_of pre)) e' \<Longrightarrow>
      (calm J \<Longrightarrow> \<not> ((\<forall>x \<in> set xs. res x \<noteq> None) \<and> ready m)) \<Longrightarrow> Q None e'"
  shows "wp (do {
     (vs, ok) \<leftarrow> fetch_all f xs [];
     ret \<leftarrow> (if ok then java_meth_call J m (Some (mk vs)) else State_Monad.return None);
     delete_refs (pre @ vs);
     State_Monad.return ret }) Q e"
  unfolding wp_bind
proof (rule fetch_allI [OF f l e])
  let ?vs = "map (fst \<circ> the \<circ> res) xs"
  let ?L = "sum_list (map (leak_of \<circ> res) xs)"
  fix e1 assume all: "\<forall>x \<in> set xs. res x \<noteq> None" and e1: "env_to e None (sum_list (map ref_of ?vs) + ?L) e1"
  have L: "0 \<le> ?L"
    using l by (intro sum_list_nonneg) auto
  have del: "wp (delete_refs (pre @ ?vs)) (\<lambda>_. wp (State_Monad.return r) Q) e2"
    if "r = Some (mk ?vs) \<and> ready m \<and> env_to e1 None 1 e2 \<or> r = None \<and> (\<exists>t. env_to e1 (Some t) 0 e2) \<and> (calm J \<longrightarrow> \<not> ready m)" for r e2
    by (rule wp_mono [OF delete_refs_wp], simp only: wp_return)
      (use that all e1 L in \<open>auto simp: env_to_def intro!: good bad [of ?L]\<close>)
  show "wp (case (?vs, True) of (vs, ok) \<Rightarrow> do {
      ret \<leftarrow> (if ok then java_meth_call J m (Some (mk vs)) else State_Monad.return None);
      delete_refs (pre @ vs);
      State_Monad.return ret }) Q e1"
    using env_to_pending [OF e1] unfolding prod.case wp_bind if_True
    by (intro meth_callI del) auto
next
  fix rs :: "'b option list" and e1 t d assume "0 \<le> d" and e1: "env_to e (Some t) (sum_list (map ref_of rs) + d) e1"
    and "calm J \<Longrightarrow> \<exists>x \<in> set xs. res x = None"
  then show "wp (case (rs, False) of (vs, ok) \<Rightarrow> do {
      ret \<leftarrow> (if ok then java_meth_call J m (Some (mk vs)) else State_Monad.return None);
      delete_refs (pre @ vs);
      State_Monad.return ret }) Q e1"
    unfolding prod.case wp_bind if_False wp_return
    by (intro wp_mono [OF delete_refs_wp]) (auto simp: env_to_def intro!: bad [of d])
qed simp_all

lemma section_contract:
  "checked J (convert_section_checked J G D root sect_name) (value_of (section_result G D root sect_name))
     (leak_of (section_result G D root sect_name)) False"
  unfolding checked_def
proof (intro allI impI)
  fix e :: jenv assume e: "pending e = None"
  let ?res = "section_result G D root sect_name"
  let ?post = "outcome J (value_of ?res) (leak_of ?res) False e"
  show "wp (convert_section_checked J G D root sect_name) ?post e"
  proof (cases "map_find root sect_name")
    case None
    then show ?thesis
      using e by (auto simp: convert_section_checked_def section_result_def wps outcome_def env_to_def
          intro!: map_get_objectI)
  next
    case (Some sec0)
    show ?thesis
    proof (cases sec0)
      case None
      then show ?thesis
        using e Some by (auto simp: convert_section_checked_def section_result_def wps outcome_def env_to_refl
            intro!: map_get_objectI)
    next
      case sect: (Some sec)
      let ?get = "field_result G D (Some sec)"
      note fields = construct_wp [where pre = "[]", unfolded append_Nil wp_bind, OF get_field_contract field_leak]
      have err: "wp (map_get_string_checked J D (Some sec) (cstr ''error'')) Q e1"
        if "pending e1 = None"
          "\<And>v e'. string_field_spec D (Some sec) (cstr ''error'') = Some v \<Longrightarrow> env_to e1 None (ref_of v) e' \<Longrightarrow> Q v e'"
          "\<And>e' t. env_to e1 (Some t) 0 e' \<Longrightarrow> (calm J \<Longrightarrow> string_field_spec D (Some sec) (cstr ''error'') = None) \<Longrightarrow> Q None e'"
          for Q e1
        using strfield.callI [of e1 D "(Some sec, cstr ''error'')" Q J] that by simp
      show ?thesis
      proof (cases "string_field_spec D (Some sec) (cstr ''error'')")
        case None
        then show ?thesis
          using e Some sect
          by (auto simp: convert_section_checked_def section_result_def wps outcome_def env_to_def
              intro!: map_get_objectI err)
      next
        case (Some v)
        show ?thesis
        proof (cases v)
          case None
          have res: "?res = (if (\<forall>x \<in> set section_fields. ?get x \<noteq> None) \<and> ready (sect_info_normal_init G)
              then Some (Some (JObject ''SectionInfo'' ([map (fst \<circ> the \<circ> ?get) section_fields ! 1,
                  map (fst \<circ> the \<circ> ?get) section_fields ! 0] @ drop 2 (map (fst \<circ> the \<circ> ?get) section_fields))),
                sum_list (map (leak_of \<circ> ?get) section_fields)) else None)"
            using \<open>map_find root sect_name = Some sec0\<close> sect Some None by (simp add: section_result_def Let_def)
          show ?thesis
            unfolding res
            using e \<open>map_find root sect_name = Some sec0\<close> sect Some None
            by (auto simp: convert_section_checked_def wps outcome_def env_to_def
                intro!: map_get_objectI err fields) fastforce+
        next
          case v: (Some y)
          have res: "?res = (if ready (sect_info_err_init G) then Some (Some (JObject ''SectionInfo'' [Some y]), 0) else None)"
            using \<open>map_find root sect_name = Some sec0\<close> sect Some v by (simp add: section_result_def)
          show ?thesis
            unfolding res
            using e \<open>map_find root sect_name = Some sec0\<close> sect Some v
            by (auto simp: convert_section_checked_def wps outcome_def env_to_def
                intro!: map_get_objectI err meth_callI)
        qed
      qed
    qed
  qed
qed

lemma section_leak: "0 \<le> leak_of (section_result G D root sect_name)"
proof -
  have "0 \<le> sum_list (map (leak_of \<circ> field_result G D obj) xs)" for obj xs
    by (intro sum_list_nonneg) (auto simp: field_leak)
  then show ?thesis
    by (auto simp: section_result_def leak_of_def Let_def split: option.split)
qed

subsection \<open>Diagnostics\<close>

definition diagnostics_result ::
    "output_globals \<Rightarrow> ddwaf_lib \<Rightarrow> ddwaf_object option \<Rightarrow> (jobject option \<times> int) option" where
  "diagnostics_result G D obj =
     (case (string_field_spec D obj (cstr ''ruleset_version''), string_field_spec D obj (cstr ''error'')) of
        (Some version, Some error) \<Rightarrow>
          let get = (\<lambda>nm. section_result G D obj (cstr nm)) in
          if (\<forall>nm \<in> set diagnostics_sections. get nm \<noteq> None) \<and> ready (rsi_init G)
          then Some (Some (JObject ''WafDiagnostics'' ([error, version] @ map (fst \<circ> the \<circ> get) diagnostics_sections)),
                 sum_list (map (leak_of \<circ> get) diagnostics_sections))
          else None
      | _ \<Rightarrow> None)"

lemma map_get_string_pending:
  assumes "pending e \<noteq> None" and "map_find obj str \<noteq> None"
  shows "wp (map_get_string_checked J D obj str) (\<lambda>r e'. r = None \<and> e' = e) e"
  using assms
  by (auto simp: map_get_string_checked_def map_get_object_checked_def map_find_def wps
      split: option.splits ddwaf_value.splits)

lemma diagnostics_contract:
  assumes "obj = Some ob" and "payload ob = DDWAF_OBJ_MAP es"
  shows "checked J (output_convert_diagnostics_checked J G D obj) (value_of (diagnostics_result G D obj))
     (leak_of (diagnostics_result G D obj)) False"
  unfolding checked_def
proof (intro allI impI)
  fix e :: jenv assume e: "pending e = None"
  let ?f = "map_get_string_checked J D obj" and ?s = "string_field_spec D obj"
  let ?res = "diagnostics_result G D obj"
  let ?get = "\<lambda>nm. section_result G D obj (cstr nm)"
  let ?rest = "\<lambda>version error. do {
     (sections, ok) \<leftarrow> fetch_all (\<lambda>nm. convert_section_checked J G D obj (cstr nm)) diagnostics_sections [];
     ret \<leftarrow> (if ok then java_meth_call J (rsi_init G)
                (Some (JObject ''WafDiagnostics'' ([error, version] @ sections)))
             else State_Monad.return None);
     delete_refs ([version, error] @ sections);
     State_Monad.return ret }"
  have found: "map_find obj str \<noteq> None" for str
    using assms by (simp add: map_find_def)
  have skip: "wp (?f str) Q e1" if "pending e1 = Some t" "Q None e1" for str Q e1 t
    by (rule wp_mono [OF map_get_string_pending [OF _ found]]) (use that in auto)
  have str: "wp (?f str) Q e1"
    if "pending e1 = None" "\<And>v e'. ?s str = Some v \<Longrightarrow> env_to e1 None (ref_of v) e' \<Longrightarrow> Q v e'"
      "\<And>e' t. env_to e1 (Some t) 0 e' \<Longrightarrow> (calm J \<Longrightarrow> ?s str = None) \<Longrightarrow> Q None e'" for Q e1 str
    using strfield.callI [of e1 D "(obj, str)" Q J] that by simp
  show "wp (output_convert_diagnostics_checked J G D obj) (outcome J (value_of ?res) (leak_of ?res) False e) e"
    unfolding output_convert_diagnostics_checked_def wp_bind
  proof (rule str [OF e])
    fix e1 t assume e1: "env_to e (Some t) 0 e1" "calm J \<Longrightarrow> ?s (cstr ''ruleset_version'') = None"
    show "wp (?f (cstr ''error'')) (\<lambda>error. wp ExceptionCheck (\<lambda>exc. wp (if exc then State_Monad.return None else ?rest None error) (outcome J (value_of ?res) (leak_of ?res) False e))) e1"
      by (rule skip [OF env_to_pending [OF e1(1)]])
        (use e1 env_to_pending [OF e1(1)] in \<open>auto simp: wps outcome_def diagnostics_result_def\<close>)
  next
    fix v e1 assume v: "?s (cstr ''ruleset_version'') = Some v" and e1: "env_to e None (ref_of v) e1"
    show "wp (?f (cstr ''error'')) (\<lambda>error. wp ExceptionCheck (\<lambda>exc. wp (if exc then State_Monad.return None else ?rest v error) (outcome J (value_of ?res) (leak_of ?res) False e))) e1"
    proof (rule str [OF env_to_pending [OF e1]])
      fix e2 t assume e2: "env_to e1 (Some t) 0 e2" "calm J \<Longrightarrow> ?s (cstr ''error'') = None"
      have "env_to e (Some t) (ref_of v) e2"
        using env_to_trans [OF e1 e2(1)] by simp
      then show "wp ExceptionCheck (\<lambda>exc. wp (if exc then State_Monad.return None else ?rest v None) (outcome J (value_of ?res) (leak_of ?res) False e)) e2"
        using e2 v env_to_pending [OF e2(1)] ref_of_nonneg [of v]
        by (auto simp: wps outcome_def diagnostics_result_def split: option.split)
    next
      fix w e2 assume w: "?s (cstr ''error'') = Some w" and e2: "env_to e1 None (ref_of w) e2"
      have res: "?res = (if (\<forall>nm \<in> set diagnostics_sections. ?get nm \<noteq> None) \<and> ready (rsi_init G)
          then Some (Some (JObject ''WafDiagnostics'' ([w, v] @ map (fst \<circ> the \<circ> ?get) diagnostics_sections)),
                 sum_list (map (leak_of \<circ> ?get) diagnostics_sections))
          else None)"
        using v w by (simp add: diagnostics_result_def Let_def)
      have e12: "env_to e None (ref_of v + ref_of w) e2"
        by (rule env_to_trans [OF e1 e2])
      have "wp (?rest v w) (outcome J (value_of ?res) (leak_of ?res) False e) e2"
        by (rule construct_wp [OF section_contract section_leak env_to_pending [OF e2]]; drule env_to_trans [OF e12])
          (simp_all add: res outcome_def, fastforce+)
      then show "wp ExceptionCheck (\<lambda>exc. wp (if exc then State_Monad.return None else ?rest v w) (outcome J (value_of ?res) (leak_of ?res) False e)) e2"
        using env_to_pending [OF e2] by (simp add: wps)
    qed
  qed
qed

subsection \<open>Distinct keys leave nothing over\<close>

text \<open>In every map below an object, no two keys become the same Java string.\<close>

primrec distinct_keys :: "ddwaf_object \<Rightarrow> bool"
and distinct_keys_value :: "ddwaf_value \<Rightarrow> bool"
where
  "distinct_keys (DdwafObject nm v) = distinct_keys_value v"
| "distinct_keys_value DDWAF_OBJ_INVALID = True"
| "distinct_keys_value (DDWAF_OBJ_SIGNED w) = True"
| "distinct_keys_value (DDWAF_OBJ_UNSIGNED w) = True"
| "distinct_keys_value (DDWAF_OBJ_STRING str) = True"
| "distinct_keys_value (DDWAF_OBJ_ARRAY es) = list_all id (map distinct_keys es)"
| "distinct_keys_value (DDWAF_OBJ_MAP es) =
     (list_all id (map distinct_keys es) \<and> distinct (map (utf16_of \<circ> parameterName) es))"
| "distinct_keys_value (DDWAF_OBJ_BOOL b) = True"
| "distinct_keys_value (DDWAF_OBJ_FLOAT w) = True"
| "distinct_keys_value DDWAF_OBJ_NULL = True"

lemma distinct_keys_payload: "distinct_keys ob = distinct_keys_value (payload ob)"
  by (cases ob) simp

lemma lhm_put_new: "k \<notin> fst ` set m \<Longrightarrow> lhm_put k v m = m @ [(k, v)]"
  by (induction m) auto

lemma lhm_prev_new: "k \<notin> fst ` set m \<Longrightarrow> lhm_prev k m = None"
  using map_of_eq_None_iff [of m k] by (simp add: lhm_prev_def)

text \<open>A loop that puts entries under distinct new keys appends them in order and drops no value.\<close>

lemma spec_loop_puts:
  assumes "\<And>x acc acc' l. x \<in> set xs \<Longrightarrow> step x acc = Some (acc', l) \<Longrightarrow>
      acc' = lhm_put (key x) (val x) acc \<and> l = ref_of (lhm_prev (key x) acc)"
    and "distinct (map key xs)" and "set (map key xs) \<inter> fst ` set acc = {}"
    and "spec_loop step xs acc = Some (m, l)"
  shows "m = acc @ map (\<lambda>x. (key x, val x)) xs \<and> l = 0"
  using assms
proof (induction xs arbitrary: acc m l)
  case (Cons x xs)
  from Cons.prems(4) obtain acc1 l1 l2 where step: "step x acc = Some (acc1, l1)"
    and rest: "spec_loop step xs acc1 = Some (m, l2)" and l: "l = l1 + l2"
    by (auto split: option.splits prod.splits)
  have new: "key x \<notin> fst ` set acc"
    using Cons.prems(3) by auto
  then have acc1: "acc1 = acc @ [(key x, val x)]" "l1 = 0"
    using Cons.prems(1) [OF _ step] lhm_put_new [OF new] lhm_prev_new [OF new] by auto
  have "m = acc1 @ map (\<lambda>x. (key x, val x)) xs \<and> l2 = 0"
    using Cons.prems acc1 by (intro Cons.IH [OF _ _ _ rest]) auto
  then show ?case
    using acc1 l by simp
qed simp

lemma map_find_distinct:
  assumes "map_find (Some ob) str = Some (Some el)" and "distinct_keys ob"
  shows "distinct_keys el"
proof -
  obtain es where "payload ob = DDWAF_OBJ_MAP es" "find (\<lambda>el. parameterName el = str) es = Some el"
    using assms(1) by (auto simp: map_find_def split: ddwaf_value.splits)
  then show ?thesis
    using assms(2) by (auto simp: distinct_keys_payload [of ob] list_all_iff find_Some_iff)
qed

lemma errmap_no_leak:
  assumes "distinct_keys ob"
  shows "leak_of (errmap_result G D (Some ob) str) = 0"
proof (cases "\<exists>el es m l. map_find (Some ob) str = Some (Some el) \<and> payload el = DDWAF_OBJ_MAP es \<and>
    spec_loop (errmap_step G D) es [] = Some (m, l)")
  case False
  then show ?thesis
    by (auto simp: errmap_result_def leak_of_def split: option.split ddwaf_value.split)
next
  case True
  then obtain el es m l where el: "map_find (Some ob) str = Some (Some el)" "payload el = DDWAF_OBJ_MAP es"
      "spec_loop (errmap_step G D) es [] = Some (m, l)"
    by auto
  have d: "distinct (map (\<lambda>x. JString (utf16_of (parameterName x))) es)"
    using map_find_distinct [OF el(1) assms] el(2) by (auto simp: distinct_keys_payload distinct_map inj_on_def)
  have "l = 0"
    using spec_loop_puts [OF _ d _ el(3), of "\<lambda>x. the (strarr_spec G D (Some x))"]
    by (fastforce simp: errmap_step_def jstring_spec_def split: ddwaf_value.splits option.splits if_splits)
  then show ?thesis
    using el by (simp add: errmap_result_def)
qed

lemma field_no_leak: "distinct_keys ob \<Longrightarrow> leak_of (field_result G D (Some ob) fld) = 0"
  using errmap_no_leak by (auto simp: field_result_def leak_of_def split: sect_field.split option.split)

lemma section_no_leak:
  assumes "distinct_keys ob"
  shows "leak_of (section_result G D (Some ob) nm) = 0"
  using map_find_distinct [OF _ assms] field_no_leak
  by (auto simp: section_result_def leak_of_def [of "Some _"] Let_def comp_def split: option.split)

lemma diagnostics_no_leak:
  assumes "distinct_keys ob"
  shows "leak_of (diagnostics_result G D (Some ob)) = 0"
  using section_no_leak [OF assms] by (simp add: diagnostics_result_def Let_def comp_def split: option.split)

subsection \<open>Properties\<close>

text \<open>Method handles as they are after the initialisation, and a library that reads strings.\<close>

definition meth0 :: j_method where
  "meth0 = \<lparr>jm_type = JMETHOD_CONSTRUCTOR, class_glob = Some 0, meth_id = ''<init>''\<rparr>"

definition globals0 :: output_globals where
  "globals0 = \<lparr>rsi_init = meth0, sect_info_err_init = meth0, sect_info_normal_init = meth0, array_list_init = meth0,
     array_list_add = meth0, linked_hm_init = meth0, map_put = meth0, long_valueOf = meth0,
     double_valueOf = meth0, boolean_valueOf = meth0\<rparr>"

definition lib0 :: ddwaf_lib where
  "lib0 = \<lparr>ddwaf_object_get_string =
     (\<lambda>ob. case payload ob of DDWAF_OBJ_STRING str \<Rightarrow> Some str | _ \<Rightarrow> None)\<rparr>"

lemma ready_globals0 [simp]: "ready (rsi_init globals0)" "ready (sect_info_normal_init globals0)"
  "ready (sect_info_err_init globals0)" "ready (array_list_init globals0)" "ready (array_list_add globals0)"
  "ready (linked_hm_init globals0)" "ready (map_put globals0)" "ready (long_valueOf globals0)"
  "ready (double_valueOf globals0)" "ready (boolean_valueOf globals0)"
  by (simp_all add: globals0_def meth0_def ready_def)

text \<open>
  The conversion of an array of strings: the result is the list of
  the converted strings, in order, as one new local reference, or null for an absent or empty
  array; otherwise an exception is pending and no reference is left over. On a
  virtual machine on which nothing fails the exception occurs exactly for what is not an array
  of strings, or too long.
\<close>

theorem convert_strarr_correct:
  assumes "pending e = None" and "run_state (convert_strarr_checked J G D ob) e = (r, e')"
  shows "misuse e' = misuse e \<and> refs e' = refs e + ref_of r \<and>
    (pending e' = None \<longrightarrow> strarr_spec G D ob = Some r) \<and>
    (pending e' \<noteq> None \<longrightarrow> r = None) \<and>
    (calm J \<longrightarrow> (pending e' = None \<longleftrightarrow> strarr_spec G D ob \<noteq> None))"
  using checked_run [OF convert_strarr_contract assms] by (auto simp: outcome_def env_to_def)

theorem convert_strarr_correct_witness:
  "pending env0 = None \<and>
   fst (run_state (convert_strarr_checked calm_jvm globals0 lib0
      (Some (DdwafObject [] (DDWAF_OBJ_ARRAY [DdwafObject [] (DDWAF_OBJ_STRING [])])))) env0)
     = Some (JArrayList [JString []])"
proof -
  let ?a = "DdwafObject [] (DDWAF_OBJ_ARRAY [DdwafObject [] (DDWAF_OBJ_STRING [])])"
  have "strarr_spec globals0 lib0 (Some ?a) = Some (Some (JArrayList [JString []]))"
    by (simp add: strarr_spec_def strarr_step_def lib0_def jstring_fits_def INT_MAX_def MAX_JINT_def
        utf16_of_def decode8.simps)
  then show ?thesis
    using convert_strarr_correct [of env0 calm_jvm globals0 lib0 "Some ?a", OF _ surjective_pairing] by simp
qed



text \<open>
  A defect of \<^verbatim>\<open>output_convert_diagnostics_checked\<close>: when the version is a
  string and \<^verbatim>\<open>error\<close> is not, the function returns at once and the reference to the version is not
  deleted.
\<close>

theorem diagnostics_leaks_version:
  assumes "pending e = None" and "calm J"
    and "string_field_spec D (Some ob) (cstr ''ruleset_version'') = Some (Some v)"
    and "string_field_spec D (Some ob) (cstr ''error'') = None"
    and "run_state (output_convert_diagnostics_checked J G D (Some ob)) e = (r, e')"
  shows "r = None \<and> refs e' = refs e + 1"
proof -
  have str: "wp (map_get_string_checked J D (Some ob) str) Q e1"
    if "pending e1 = None" "\<And>v e'. string_field_spec D (Some ob) str = Some v \<Longrightarrow> env_to e1 None (ref_of v) e' \<Longrightarrow> Q v e'"
      "\<And>e' t. env_to e1 (Some t) 0 e' \<Longrightarrow> (calm J \<Longrightarrow> string_field_spec D (Some ob) str = None) \<Longrightarrow> Q None e'" for Q e1 str
    using strfield.callI [of e1 D "(Some ob, str)" Q J] that by simp
  have "wp (output_convert_diagnostics_checked J G D (Some ob)) (\<lambda>r e'. r = None \<and> refs e' = refs e + 1) e"
    using assms(1-4)
    by (auto simp: output_convert_diagnostics_checked_def wps env_to_def intro!: str)
  then show ?thesis
    by (rule wp_run [OF _ assms(5)])
qed

theorem diagnostics_leaks_version_witness:
  "refs (snd (run_state (output_convert_diagnostics_checked calm_jvm globals0 lib0
      (Some (DdwafObject [] (DDWAF_OBJ_MAP
         [DdwafObject (cstr ''ruleset_version'') (DDWAF_OBJ_STRING []),
          DdwafObject (cstr ''error'') (DDWAF_OBJ_BOOL True)])))) env0)) = 1"
proof -
  let ?a = "DdwafObject [] (DDWAF_OBJ_MAP
         [DdwafObject (cstr ''ruleset_version'') (DDWAF_OBJ_STRING []),
          DdwafObject (cstr ''error'') (DDWAF_OBJ_BOOL True)])"
  have "string_field_spec lib0 (Some ?a) (cstr ''ruleset_version'') = Some (Some (JString []))"
    "string_field_spec lib0 (Some ?a) (cstr ''error'') = None"
    by (simp_all add: string_field_spec_def map_find_def lib0_def jstring_spec_def jstring_fits_def INT_MAX_def
        utf16_of_def decode8.simps cstr_def)
  then show ?thesis
    using diagnostics_leaks_version [of env0 calm_jvm lib0 ?a "JString []" globals0, OF _ _ _ _ surjective_pairing] by simp
qed

lemma map_get_string_no_map:
  assumes "\<And>str. map_find obj str = None"
    and "\<And>e'. pending e' \<noteq> None \<Longrightarrow> misuse e' = (misuse e \<or> pending e \<noteq> None) \<Longrightarrow> Q None e'"
  shows "wp (map_get_string_checked J D obj str) Q e"
proof -
  have "map_get_object_checked J obj str = do { ThrowNew J (RuntimeException ''ddwaf map expected''); State_Monad.return None }"
    using assms(1) [of str]
    by (auto simp: map_get_object_checked_def map_find_def split: option.split ddwaf_value.split)
  then show ?thesis
    unfolding map_get_string_checked_def wp_bind
    by (simp only: wp_bind, intro wp_mono [OF ThrowNew_wp]) (elim exE conjE, simp add: wps, rule assms(2); simp)
qed

text \<open>
  A defect of the same function: given anything but a map, it asks for a
  second entry after the first request has thrown, so \<^verbatim>\<open>ThrowNew\<close> is called with an
  exception pending.
\<close>

theorem diagnostics_misuse:
  assumes "map_find obj (cstr ''error'') = None"
    and "run_state (output_convert_diagnostics_checked J G D obj) e = (r, e')"
  shows "misuse e' \<and> r = None"
proof -
  have "map_find obj str = None" for str
    using assms(1) by (auto simp: map_find_def split: option.splits ddwaf_value.splits)
  then have "wp (output_convert_diagnostics_checked J G D obj) (\<lambda>r e'. misuse e' \<and> r = None) e"
    by (auto simp: output_convert_diagnostics_checked_def wps intro!: map_get_string_no_map)
  then show ?thesis
    by (rule wp_run [OF _ assms(2)])
qed

theorem diagnostics_misuse_witness:
  "misuse (snd (run_state (output_convert_diagnostics_checked calm_jvm globals0 lib0 None) env0))"
  using diagnostics_misuse [of None calm_jvm globals0 lib0 env0, OF _ surjective_pairing] by (simp add: map_find_def)

end
