(* ===== verification/Attributes.thy ===== *)
theory Attributes
  imports Output Gzip
begin

text \<open>
  The attributes that a run of the rule engine derives, and their conversion to Java values
  (\<^verbatim>\<open>src/main/c/output.c\<close>): schemas are printed as JSON, compressed and encoded in base64,
  fingerprints are strings, and other values are converted recursively. The compression library
  is the parameter \<open>Z\<close>.
\<close>

subsection \<open>Schemas: JSON, compressed, in base64\<close>

definition is_derivative :: "ddwaf_object \<Rightarrow> byte list \<Rightarrow> bool" where
  "is_derivative entry prefix =
     (let prefix_size = length prefix in
      if length (parameterName entry) < prefix_size then False
      else take prefix_size (parameterName entry) = prefix)"

definition MAX_SIZE_OF_SCHEMA :: nat where
  "MAX_SIZE_OF_SCHEMA = 2500"

definition get_json_mem :: "json_heap jni" where
  "get_json_mem = State (\<lambda>e. (json_mem e, e))"

definition set_json_mem :: "json_heap \<Rightarrow> unit jni" where
  "set_json_mem h = State (\<lambda>e. ((), e\<lparr>json_mem := h\<rparr>))"

definition run_count :: "nat jni" where
  "run_count = State (\<lambda>e. (mtick e, e\<lparr>mtick := mtick e + 1\<rparr>))"

definition encode_json_gzip_base64_checked ::
    "jvm \<Rightarrow> 'z zlib \<Rightarrow> bool \<Rightarrow> ddwaf_object \<Rightarrow> jobject option jni" where
  "encode_json_gzip_base64_checked J Z little_endian obj = do {
     h \<leftarrow> get_json_mem;
     case output_convert_json (seg_alloc J) (Some obj) h of
       None \<Rightarrow> undefined_access
     | Some (None, h') \<Rightarrow> do { set_json_mem h'; State_Monad.return None }
     | Some (Some json, h') \<Rightarrow>
         (case json_length h' (Some json) of
            None \<Rightarrow> undefined_access
          | Some json_len \<Rightarrow>
              if MAX_SIZE_OF_SCHEMA < json_len then
                (case json_seg_free (Some json) h' of
                   None \<Rightarrow> undefined_access
                 | Some h'' \<Rightarrow> do { set_json_mem h''; State_Monad.return None })
              else do {
                k \<leftarrow> run_count;
                case encode_gzip Z (gz_alloc J k) h' (Some json) json_len of
                  None \<Rightarrow> undefined_access
                | Some gzip \<Rightarrow>
                    (case json_seg_free (Some json) h' of
                       None \<Rightarrow> undefined_access
                     | Some h'' \<Rightarrow> do {
                         set_json_mem h'';
                         case gzip of
                           None \<Rightarrow> do {
                             java_log J DDWAF_LOG_DEBUG ''_encode_json_gzip_base64_checked'' ''output.c'' 682 None (cstr ''gzip encoding of derivative failed'');
                             State_Monad.return None }
                         | Some gz \<Rightarrow> do {
                             let capacity = unat (base64_capacity (of_nat (length gz)));
                             ok \<leftarrow> malloc J capacity;
                             if \<not> ok then State_Monad.return None
                             else (case base64_encode little_endian gz (length gz) of
                                 None \<Rightarrow> undefined_access
                               | Some (base64, base64_len) \<Rightarrow>
                                   if capacity < base64_len then undefined_access
                                   else new_jstring J (take base64_len base64)) }}) }) }"

subsection \<open>Values of any type\<close>

text \<open>
  \<^verbatim>\<open>convert_ddwaf_object_to_jobject\<close>. The bodies of its two loops, with the recursive call as an
  argument, return \<open>None\<close> where the code returns null, after the releases that the code makes there.
\<close>

definition elem_body ::
    "jvm \<Rightarrow> output_globals \<Rightarrow> jobject option \<Rightarrow> (ddwaf_object \<Rightarrow> jobject option jni) \<Rightarrow>
       ddwaf_object \<Rightarrow> jobject list \<Rightarrow> jobject list option jni" where
  "elem_body J G ret conv el acc = do {
     elem \<leftarrow> conv el;
     exc \<leftarrow> ExceptionCheck;
     if exc then do { DeleteLocalRef ret; State_Monad.return None }
     else do {
       java_meth_call J (array_list_add G) (None :: jobject option);
       DeleteLocalRef elem;
       exc \<leftarrow> ExceptionCheck;
       if exc then do { DeleteLocalRef ret; State_Monad.return None }
       else State_Monad.return (Some (acc @ [the elem])) }}"

definition entry_body ::
    "jvm \<Rightarrow> output_globals \<Rightarrow> jobject option \<Rightarrow> (ddwaf_object \<Rightarrow> jobject option jni) \<Rightarrow>
       ddwaf_object \<Rightarrow> jentries \<Rightarrow> jentries option jni" where
  "entry_body J G ret conv el acc = do {
     key \<leftarrow> new_jstring J (parameterName el);
     exc \<leftarrow> ExceptionCheck;
     if exc then do { DeleteLocalRef ret; State_Monad.return None }
     else do {
       v \<leftarrow> conv el;
       exc \<leftarrow> ExceptionCheck;
       if exc then do { DeleteLocalRef key; State_Monad.return None }
       else do {
         java_meth_call J (map_put G) (lhm_prev (the key) acc);
         DeleteLocalRef key;
         DeleteLocalRef v;
         exc \<leftarrow> ExceptionCheck;
         if exc then do { DeleteLocalRef ret; State_Monad.return None }
         else State_Monad.return (Some (lhm_put (the key) v acc)) }}}"

lemma body_congs [fundef_cong]:
  "el = el' \<Longrightarrow> f el' = g el' \<Longrightarrow> J = J' \<Longrightarrow> G = G' \<Longrightarrow> ret = ret' \<Longrightarrow> acc = acc' \<Longrightarrow>
     elem_body J G ret f el acc = elem_body J' G' ret' g el' acc'"
  "el = el' \<Longrightarrow> f el' = g el' \<Longrightarrow> J = J' \<Longrightarrow> G = G' \<Longrightarrow> ret = ret' \<Longrightarrow> ms = ms' \<Longrightarrow>
     entry_body J G ret f el ms = entry_body J' G' ret' g el' ms'"
  by (simp_all add: elem_body_def entry_body_def cong: if_cong)

function convert_ddwaf_object_to_jobject :: "jvm \<Rightarrow> output_globals \<Rightarrow> ddwaf_object \<Rightarrow> jobject option jni" where
  "convert_ddwaf_object_to_jobject J G obj =
     (case payload obj of
        DDWAF_OBJ_INVALID \<Rightarrow> do {
          ThrowNew J (RuntimeException ''Unsupported ddwaf object type'');
          State_Monad.return None }
      | DDWAF_OBJ_SIGNED i \<Rightarrow> java_meth_call J (long_valueOf G) (Some (JLong i))
      | DDWAF_OBJ_UNSIGNED u \<Rightarrow> java_meth_call J (long_valueOf G) (Some (JLong u))
      | DDWAF_OBJ_FLOAT f64 \<Rightarrow> java_meth_call J (double_valueOf G) (Some (JDouble f64))
      | DDWAF_OBJ_BOOL b \<Rightarrow> java_meth_call J (boolean_valueOf G) (Some (JBoolean b))
      | DDWAF_OBJ_STRING str \<Rightarrow> new_jstring J str
      | DDWAF_OBJ_ARRAY es \<Rightarrow>
          if MAX_JINT < length es then do {
            ThrowNew J (RuntimeException ''Too many elements in ddwaf array'');
            State_Monad.return None }
          else do {
            ret \<leftarrow> java_meth_call J (array_list_init G) (Some (JArrayList []));
            if ret = None then State_Monad.return None
            else do {
              r \<leftarrow> jni_loop (elem_body J G ret (convert_ddwaf_object_to_jobject J G)) es [];
              State_Monad.return (map_option JArrayList r) }}
      | DDWAF_OBJ_MAP es \<Rightarrow> do {
          ret \<leftarrow> java_meth_call J (linked_hm_init G) (Some (JLinkedHashMap []));
          if ret = None then State_Monad.return None
          else do {
            r \<leftarrow> jni_loop (entry_body J G ret (convert_ddwaf_object_to_jobject J G)) es [];
            State_Monad.return (map_option JLinkedHashMap r) }}
      | DDWAF_OBJ_NULL \<Rightarrow> do {
          ThrowNew J (RuntimeException ''Unknown ddwaf object type'');
          State_Monad.return None })"
  by pat_completeness auto
termination
proof (relation "measure (\<lambda>(J, G, obj). size obj)", goal_cases)
  case (2 J G obj es ret el acc)
  then show ?case by (cases obj) auto
next
  case (3 J G obj es ret el acc)
  then show ?case by (cases obj) auto
qed simp

declare convert_ddwaf_object_to_jobject.simps [simp del]

subsection \<open>Attributes\<close>

text \<open>
  The value of an entry. A map is put into the result by statements of its own in the code; they
  are the same as those for the other values, and the conversion of a map never returns null
  without an exception.
\<close>

definition attribute_value ::
    "jvm \<Rightarrow> output_globals \<Rightarrow> 'z zlib \<Rightarrow> bool \<Rightarrow> ddwaf_object \<Rightarrow> jobject option jni" where
  "attribute_value J G Z little_endian entry =
     (if is_derivative entry (cstr ''_dd.appsec.s.'') then
        encode_json_gzip_base64_checked J Z little_endian entry
      else if is_derivative entry (cstr ''_dd.appsec.fp.'') then
        (case payload entry of DDWAF_OBJ_STRING str \<Rightarrow> new_jstring J str | _ \<Rightarrow> undefined_access)
      else (case payload entry of
          DDWAF_OBJ_STRING str \<Rightarrow> new_jstring J str
        | DDWAF_OBJ_SIGNED i \<Rightarrow> java_meth_call J (long_valueOf G) (Some (JLong i))
        | DDWAF_OBJ_UNSIGNED u \<Rightarrow> java_meth_call J (long_valueOf G) (Some (JLong u))
        | DDWAF_OBJ_FLOAT f64 \<Rightarrow> java_meth_call J (double_valueOf G) (Some (JDouble f64))
        | DDWAF_OBJ_BOOL b \<Rightarrow> java_meth_call J (boolean_valueOf G) (Some (JBoolean b))
        | DDWAF_OBJ_MAP _ \<Rightarrow> convert_ddwaf_object_to_jobject J G entry
        | _ \<Rightarrow> State_Monad.return None))"

definition attribute_body ::
    "jvm \<Rightarrow> output_globals \<Rightarrow> 'z zlib \<Rightarrow> bool \<Rightarrow> ddwaf_object \<Rightarrow> jentries \<Rightarrow> jentries option jni" where
  "attribute_body J G Z little_endian entry ret = do {
     key \<leftarrow> new_jstring J (parameterName entry);
     exc \<leftarrow> ExceptionCheck;
     if exc then State_Monad.return None
     else do {
       val \<leftarrow> attribute_value J G Z little_endian entry;
       exc \<leftarrow> ExceptionCheck;
       if exc then do { DeleteLocalRef key; State_Monad.return None }
       else if val = None then do {
         java_log J DDWAF_LOG_DEBUG ''output_convert_attributes_checked'' ''output.c'' 770 None (cstr ''Failed serializing derivative entry for '' @
           replicate (length (parameterName entry)) 0x20);
         DeleteLocalRef key;
         State_Monad.return (Some ret) }
       else do {
         java_meth_call J (map_put G) (lhm_prev (the key) ret);
         DeleteLocalRef key;
         DeleteLocalRef val;
         exc \<leftarrow> ExceptionCheck;
         if exc then State_Monad.return None
         else State_Monad.return (Some (lhm_put (the key) val ret)) }}}"

definition output_convert_attributes_checked ::
    "jvm \<Rightarrow> output_globals \<Rightarrow> 'z zlib \<Rightarrow> bool \<Rightarrow> ddwaf_object \<Rightarrow> jobject option jni" where
  "output_convert_attributes_checked J G Z little_endian obj =
     (case payload obj of
        DDWAF_OBJ_MAP es \<Rightarrow> do {
          ret \<leftarrow> java_meth_call J (linked_hm_init G) (Some (JLinkedHashMap []));
          exc \<leftarrow> ExceptionCheck;
          if exc then State_Monad.return None
          else do {
            r \<leftarrow> jni_loop (attribute_body J G Z little_endian) es [];
            case r of
              None \<Rightarrow> do { DeleteLocalRef ret; State_Monad.return None }
            | Some m \<Rightarrow> State_Monad.return (Some (JLinkedHashMap m)) }}
      | _ \<Rightarrow> undefined_access)"


subsection \<open>Schemas are compressed JSON in base64\<close>

text \<open>
  What the documentation of \<^verbatim>\<open>zlib\<close> promises of the compressor, and that its initialisation and
  finalisation succeed.
\<close>

definition zlib_works :: "'z zlib \<Rightarrow> bool" where
  "zlib_works Z \<longleftrightarrow> deflateInit2 Z \<noteq> None \<and> (\<forall>z. deflateEnd Z z)"

definition short_json :: "ddwaf_object \<Rightarrow> bool" where
  "short_json ob \<longleftrightarrow> printable ob 0 \<and> length (json_print ob) \<le> MAX_SIZE_OF_SCHEMA"

definition schema_text :: "(byte list \<Rightarrow> byte list) \<Rightarrow> ddwaf_object \<Rightarrow> byte list" where
  "schema_text gz ob = b64_spec (gz (json_print ob))"

lemmas mem_prims [wps] = get_json_mem_def set_json_mem_def run_count_def

lemma calm_allocs: "calm J \<Longrightarrow> seg_alloc J k n" "calm J \<Longrightarrow> gz_alloc J m k n"
  by (simp_all add: calm_def)

lemma encode_end_wp:
  assumes "pending e = None" and "length gzip < 2 ^ 62"
    and "\<And>e'. jstring_fits (b64_spec gzip) \<Longrightarrow> env_to e None 1 e' \<Longrightarrow> Q (Some (JString (utf16_of (b64_spec gzip)))) e'"
    and "\<And>e'. env_to e None 0 e' \<Longrightarrow> \<not> calm J \<Longrightarrow> Q None e'"
    and "\<And>e' t. env_to e (Some t) 0 e' \<Longrightarrow> (calm J \<Longrightarrow> \<not> jstring_fits (b64_spec gzip)) \<Longrightarrow> Q None e'"
  shows "wp (do {
     let capacity = unat (base64_capacity (of_nat (length gzip)));
     ok \<leftarrow> malloc J capacity;
     if \<not> ok then State_Monad.return None
     else (case base64_encode little_endian gzip (length gzip) of
         None \<Rightarrow> undefined_access
       | Some (base64, base64_len) \<Rightarrow>
           if capacity < base64_len then undefined_access
           else new_jstring J (take base64_len base64)) }) Q e"
proof -
  have cap: "unat (base64_capacity (of_nat (length gzip))) = length (b64_spec gzip)"
    using assms(2) unat_base64_capacity [of "of_nat (length gzip)"] by (simp add: unat_of_nat length_b64_spec)
  show ?thesis
  proof (cases "malloc_ok J (mtick e) (length (b64_spec gzip))")
    case True
    then show ?thesis
      using assms(1) unfolding base64_encode_eq [OF order_refl] cap Let_def
      by (auto simp: wps env_to_def intro!: new_jstringI assms(3,5))
  next
    case False
    then show ?thesis
      using assms(1) unfolding base64_encode_eq [OF order_refl] cap Let_def
      by (auto simp: wps env_to_def calmD intro!: assms(4))
  qed
qed

text \<open>
  The three ways in which the function ends: the text as a Java string, null without an
  exception, and null with an exception. The JSON segments are released in each of them.
\<close>

lemma schemaI:
  assumes doc: "zlib_doc Z gz zst bound" and small: "\<And>t. length t \<le> MAX_SIZE_OF_SCHEMA \<Longrightarrow> length (gz t) < 2 ^ 62"
    and e: "pending e = None" and h: "heap_ok (json_mem e)"
    and good: "\<And>e'. short_json ob \<Longrightarrow> jstring_fits (schema_text gz ob) \<Longrightarrow> env_to e None 1 e' \<Longrightarrow>
      Q (Some (JString (utf16_of (schema_text gz ob)))) e'"
    and null: "\<And>e'. env_to e None 0 e' \<Longrightarrow> (calm J \<Longrightarrow> zlib_works Z \<Longrightarrow> \<not> short_json ob) \<Longrightarrow> Q None e'"
    and throw: "\<And>e' t. short_json ob \<Longrightarrow> env_to e (Some t) 0 e' \<Longrightarrow> (calm J \<Longrightarrow> \<not> jstring_fits (schema_text gz ob)) \<Longrightarrow> Q None e'"
  shows "wp (encode_json_gzip_base64_checked J Z le ob) Q e"
proof -
  obtain seg h1 where conv: "output_convert_json (seg_alloc J) (Some ob) (json_mem e) = Some (seg, h1)"
    and seg: "case seg of
       None \<Rightarrow> store h1 = store (json_mem e) \<and> heap_ok h1 \<and>
         ((\<forall>k n. seg_alloc J k n) \<longrightarrow> (\<forall>x. Some ob = Some x \<longrightarrow> json_text 0 x = None))
     | Some a \<Rightarrow> \<exists>cur x. json_ok (store (json_mem e)) a (cur, h1) \<and> Some ob = Some x \<and> json_text 0 x \<noteq> None \<and>
         json_contents a (cur, h1) = json_text 0 x"
    using output_convert_json_ok [OF h, of "seg_alloc J" "Some ob"] by blast
  show ?thesis
  proof (cases seg)
    case None
    have "\<not> short_json ob" if "calm J"
      using seg None calm_allocs(1) [OF that] by (auto simp: short_json_def json_text_def split: if_splits)
    then show ?thesis
      using None seg conv e by (auto simp: encode_json_gzip_base64_checked_def wps env_to_def intro!: null)
  next
    case (Some a)
    from seg Some obtain cur t where ok: "json_ok (store (json_mem e)) a (cur, h1)"
      and c: "json_contents a (cur, h1) = Some t" and t: "printable ob 0" "t = json_print ob"
      by (auto simp: json_text_def split: if_splits)
    obtain h2 where free: "json_seg_free (Some a) h1 = Some h2" "store h2 = store (json_mem e)" "heap_ok h2"
      using freed_heap_ok [OF ok] by auto
    have len: "json_length h1 (Some a) = Some (length t)"
      by (rule json_chain_length [OF json_contents_at_text [OF ok c]])
    obtain r where r: "encode_gzip Z (gz_alloc J (mtick e)) h1 (Some a) (length t) = Some r"
        "r = None \<or> r = Some (gz t)"
        "(\<forall>k m. gz_alloc J (mtick e) k m) \<and> (\<exists>z. deflateInit2 Z = Some z) \<and> (\<forall>z. deflateEnd Z z) \<longrightarrow> r = Some (gz t)"
      using encode_gzip_ok [OF doc ok c, of "gz_alloc J (mtick e)" "length t"] by blast
    have works: "r = Some (gz t)" if "calm J" "zlib_works Z"
      using r(3) that by (auto simp: zlib_works_def calm_allocs)
    show ?thesis
    proof (cases "length t \<le> MAX_SIZE_OF_SCHEMA")
      case False
      then show ?thesis
        using Some conv e free len t
        by (auto simp: encode_json_gzip_base64_checked_def wps env_to_def short_json_def intro!: null)
    next
      case short: True
      let ?e1 = "e\<lparr>mtick := mtick e + 1, json_mem := h2\<rparr>"
      have e1: "env_to e None 0 ?e1" "pending ?e1 = None"
        using e free by (simp_all add: env_to_def)
      have nlt: "(MAX_SIZE_OF_SCHEMA < length t) = False"
        using short by simp
      note steps = wp_bind mem_prims wp_State prod.case conv Some option.case len nlt if_False r(1) free(1)
      show ?thesis
      proof (cases r)
        case None
        have "wp (java_log J DDWAF_LOG_DEBUG fn fl line thr m) (\<lambda>_. wp (State_Monad.return None) Q) ?e1" for fn fl line thr m
          by (intro java_logI) (use None works env_to_trans [OF e1(1)] e1(2) in \<open>auto simp: wps intro!: null\<close>)
        then show ?thesis
          unfolding encode_json_gzip_base64_checked_def by (simp only: steps None)
      next
        case (Some g)
        then have g: "g = gz t"
          using r(2) by simp
        have tx: "schema_text gz ob = b64_spec (gz t)" and sh: "short_json ob"
          using t short by (simp_all add: schema_text_def short_json_def)
        show ?thesis
          unfolding encode_json_gzip_base64_checked_def
          by (simp only: steps \<open>seg = Some a\<close> Some g)
            (rule encode_end_wp [OF e1(2) small [OF short]]; drule env_to_trans [OF e1(1)];
              use tx sh good null throw in auto)
      qed
    qed
  qed
qed

subsection \<open>Values of any type: what they become\<close>

lemma spec_loop_cong [fundef_cong]:
  "xs = ys \<Longrightarrow> acc = acc' \<Longrightarrow> (\<And>x a. x \<in> set ys \<Longrightarrow> f x a = g x a) \<Longrightarrow> spec_loop f xs acc = spec_loop g ys acc'"
proof (induction xs arbitrary: ys acc acc')
  case (Cons x xs)
  then show ?case
    by (auto split: option.split prod.split)
qed auto

definition elem_step ::
    "output_globals \<Rightarrow> (ddwaf_object \<Rightarrow> (jobject option \<times> int) option) \<Rightarrow> ddwaf_object \<Rightarrow> jobject list \<Rightarrow> (jobject list \<times> int) option" where
  "elem_step G conv el acc =
     (case conv el of
        Some (Some v, l) \<Rightarrow> if ready (array_list_add G) then Some (acc @ [v], l) else None
      | _ \<Rightarrow> None)"

definition entry_step ::
    "output_globals \<Rightarrow> (ddwaf_object \<Rightarrow> (jobject option \<times> int) option) \<Rightarrow> ddwaf_object \<Rightarrow> jentries \<Rightarrow> (jentries \<times> int) option" where
  "entry_step G conv el acc =
     (if \<not> jstring_fits (parameterName el) then None
      else (case conv el of
          None \<Rightarrow> None
        | Some (v, l) \<Rightarrow>
            let k = JString (utf16_of (parameterName el)) in
            if ready (map_put G) then Some (lhm_put k v acc, l + ref_of (lhm_prev k acc)) else None))"

lemma elem_step_cong [fundef_cong]:
  "el = el' \<Longrightarrow> f el' = g el' \<Longrightarrow> G = G' \<Longrightarrow> acc = acc' \<Longrightarrow> elem_step G f el acc = elem_step G' g el' acc'"
  by (simp add: elem_step_def)

lemma entry_step_cong [fundef_cong]:
  "el = el' \<Longrightarrow> f el' = g el' \<Longrightarrow> G = G' \<Longrightarrow> acc = acc' \<Longrightarrow> entry_step G f el acc = entry_step G' g el' acc'"
  by (simp add: entry_step_def)

definition call_spec :: "j_method \<Rightarrow> 'a \<Rightarrow> ('a option \<times> int) option" where
  "call_spec m v = (if ready m then Some (Some v, 0) else None)"

text \<open>The Java value of an object, and the number of values that duplicate keys replace on the way.\<close>

function to_jobject :: "output_globals \<Rightarrow> ddwaf_object \<Rightarrow> (jobject option \<times> int) option" where
  "to_jobject G obj =
     (case payload obj of
        DDWAF_OBJ_SIGNED i \<Rightarrow> call_spec (long_valueOf G) (JLong i)
      | DDWAF_OBJ_UNSIGNED u \<Rightarrow> call_spec (long_valueOf G) (JLong u)
      | DDWAF_OBJ_FLOAT f64 \<Rightarrow> call_spec (double_valueOf G) (JDouble f64)
      | DDWAF_OBJ_BOOL b \<Rightarrow> call_spec (boolean_valueOf G) (JBoolean b)
      | DDWAF_OBJ_STRING str \<Rightarrow> map_option (\<lambda>v. (v, 0)) (jstring_spec str)
      | DDWAF_OBJ_ARRAY es \<Rightarrow>
          if MAX_JINT < length es \<or> \<not> ready (array_list_init G) then None
          else map_option (\<lambda>(xs, l). (Some (JArrayList xs), l)) (spec_loop (elem_step G (to_jobject G)) es [])
      | DDWAF_OBJ_MAP es \<Rightarrow>
          if \<not> ready (linked_hm_init G) then None
          else map_option (\<lambda>(m, l). (Some (JLinkedHashMap m), l)) (spec_loop (entry_step G (to_jobject G)) es [])
      | _ \<Rightarrow> None)"
  by pat_completeness auto
termination
proof (relation "measure (\<lambda>(G, obj). size obj)", goal_cases)
  case (2 G obj es el acc)
  then show ?case by (cases obj) auto
next
  case (3 G obj es el acc)
  then show ?case by (cases obj) auto
qed simp

declare to_jobject.simps [simp del]

text \<open>The two loops keep the contract when the conversion of the elements does.\<close>

lemma elem_body_wp:
  assumes "checked J (conv el) (value_of (res el)) (leak_of (res el)) False"
    and "0 \<le> leak_of (res el)" and "\<And>v l. res el = Some (v, l) \<Longrightarrow> v \<noteq> None" and "pending e = None"
  shows "wp (elem_body J G (Some r) conv el acc) (body_outcome (-1) J (elem_step G res el acc) False e) e"
proof (cases "res el")
  case None
  then show ?thesis
    using assms(1,4) unfolding elem_body_def wp_bind
    by (intro checkedI [where f = "conv el"]) (auto simp: wps env_to_def body_outcome_def elem_step_def)
next
  case (Some vl)
  then obtain y l where y: "res el = Some (Some y, l)" "0 \<le> l"
    using assms(2,3) by (cases vl) auto
  then show ?thesis
    using assms(1,4) unfolding elem_body_def wp_bind
    by (intro checkedI [where f = "conv el"])
      (auto simp: wps env_to_def body_outcome_def elem_step_def intro!: meth_callI)
qed

lemma entry_body_wp:
  assumes "checked J (conv el) (value_of (res el)) (leak_of (res el)) False"
    and "0 \<le> leak_of (res el)" and "pending e = None"
  shows "wp (entry_body J G (Some r) conv el acc) (body_outcome (-1) J (entry_step G res el acc) False e) e"
proof (cases "res el")
  case None
  show ?thesis
    using assms None unfolding entry_body_def wp_bind
    by (auto simp: wps env_to_def body_outcome_def entry_step_def intro!: new_jstringI checkedI [OF assms(1)])
next
  case (Some vl)
  then obtain v l where y: "res el = Some (v, l)" "0 \<le> l"
    using assms(2) by (cases vl) auto
  show ?thesis
    using assms y unfolding entry_body_def wp_bind
    by (auto simp: wps env_to_def body_outcome_def entry_step_def Let_def ref_of_nonneg
        intro!: new_jstringI checkedI [OF assms(1)] meth_callI)
qed

lemma to_jobject_some: "to_jobject G obj = Some (v, l) \<Longrightarrow> v \<noteq> None"
  by (subst (asm) to_jobject.simps) (auto simp: call_spec_def jstring_spec_def split: ddwaf_value.splits if_splits)

lemma size_elem: "payload obj = DDWAF_OBJ_ARRAY es \<or> payload obj = DDWAF_OBJ_MAP es \<Longrightarrow> el \<in> set es \<Longrightarrow> size el < size obj"
  by (cases obj) auto

lemma to_jobject_leak: "0 \<le> leak_of (to_jobject G obj)"
proof (induction obj rule: measure_induct_rule [where f = size])
  case (less obj)
  have "0 \<le> l" if es: "payload obj = DDWAF_OBJ_ARRAY es" and "spec_loop (elem_step G (to_jobject G)) es [] = Some (xs, l)" for es xs l
  proof (rule spec_loop_leak [OF _ that(2)])
    fix el acc a l assume "el \<in> set es" "elem_step G (to_jobject G) el acc = Some (a, l)"
    then show "0 \<le> l"
      using less size_elem [of obj es el] es by (fastforce simp: elem_step_def split: option.splits if_splits prod.splits)
  qed
  moreover have "0 \<le> l" if es: "payload obj = DDWAF_OBJ_MAP es" and "spec_loop (entry_step G (to_jobject G)) es [] = Some (m, l)" for es m l
  proof (rule spec_loop_leak [OF _ that(2)])
    fix el acc a l assume "el \<in> set es" and step: "entry_step G (to_jobject G) el acc = Some (a, l)"
    then have "0 \<le> leak_of (to_jobject G el)"
      using less size_elem [of obj es el] es by blast
    then show "0 \<le> l"
      using step by (auto simp: entry_step_def Let_def ref_of_def split: option.splits if_splits prod.splits)
  qed
  ultimately show ?case
    by (subst to_jobject.simps)
      (auto simp: call_spec_def jstring_spec_def leak_of_def split: ddwaf_value.split option.split)
qed

lemma convert_object_contract:
  "checked J (convert_ddwaf_object_to_jobject J G obj) (value_of (to_jobject G obj)) (leak_of (to_jobject G obj)) False"
proof (induction obj rule: measure_induct_rule [where f = size])
  case (less obj)
  let ?conv = "convert_ddwaf_object_to_jobject J G"
  have body: "wp (elem_body J G (Some r) ?conv el acc) (body_outcome (-1) J (elem_step G (to_jobject G) el acc) False e) e"
    if "size el < size obj" "pending e = None" for r el acc e
    by (rule elem_body_wp) (use less [OF that(1)] to_jobject_leak to_jobject_some that(2) in auto)
  have body': "wp (entry_body J G (Some r) ?conv el acc) (body_outcome (-1) J (entry_step G (to_jobject G) el acc) False e) e"
    if "size el < size obj" "pending e = None" for r el acc e
    by (rule entry_body_wp) (use less [OF that(1)] to_jobject_leak that(2) in auto)
  have call: "checked J (java_meth_call J m (Some v)) (value_of (call_spec m v)) (leak_of (call_spec m v)) False" for m and v :: jobject
    unfolding checked_def by (auto simp: outcome_def call_spec_def env_to_def intro!: meth_callI)
  show ?case
  proof (cases "payload obj")
    case (DDWAF_OBJ_ARRAY es)
    note el = size_elem [OF disjI1, OF DDWAF_OBJ_ARRAY]
    have res: "to_jobject G obj = (if MAX_JINT < length es \<or> \<not> ready (array_list_init G) then None
        else map_option (\<lambda>(xs, l). (Some (JArrayList xs), l)) (spec_loop (elem_step G (to_jobject G)) es []))"
      by (subst to_jobject.simps) (simp add: DDWAF_OBJ_ARRAY)
    show ?thesis
      unfolding checked_def res
      by (subst convert_ddwaf_object_to_jobject.simps)
        (auto simp: DDWAF_OBJ_ARRAY wps outcome_def env_to_def value_of_def leak_of_def
          intro!: ThrowNewI meth_callI loopI [OF body [OF el]])
  next
    case (DDWAF_OBJ_MAP es)
    note el = size_elem [OF disjI2, OF DDWAF_OBJ_MAP]
    have res: "to_jobject G obj = (if \<not> ready (linked_hm_init G) then None
        else map_option (\<lambda>(m, l). (Some (JLinkedHashMap m), l)) (spec_loop (entry_step G (to_jobject G)) es []))"
      by (subst to_jobject.simps) (simp add: DDWAF_OBJ_MAP)
    show ?thesis
      unfolding checked_def res
      by (subst convert_ddwaf_object_to_jobject.simps)
        (auto simp: DDWAF_OBJ_MAP wps outcome_def env_to_def value_of_def leak_of_def
          intro!: meth_callI loopI [OF body' [OF el]])
  next
    case (DDWAF_OBJ_STRING str)
    then have res: "to_jobject G obj = map_option (\<lambda>v. (v, 0)) (jstring_spec str)"
      "convert_ddwaf_object_to_jobject J G obj = new_jstring J str"
      by (subst to_jobject.simps convert_ddwaf_object_to_jobject.simps; simp)+
    show ?thesis
      unfolding checked_def res by (auto simp: outcome_def value_of_def leak_of_def env_to_def intro!: jstr.callI split: option.splits)
  qed (simp_all add: call to_jobject.simps [of G obj] convert_ddwaf_object_to_jobject.simps [of J G obj],
      auto simp: checked_def wps outcome_def env_to_def intro!: ThrowNewI)
qed

subsection \<open>Attributes: what they become\<close>

text \<open>
  The value of an attribute: \<open>None\<close> where an exception has to be thrown; the value itself is
  \<open>None\<close> for an entry that is left out.
\<close>

definition attr_value ::
    "output_globals \<Rightarrow> (byte list \<Rightarrow> byte list) \<Rightarrow> ddwaf_object \<Rightarrow> (jobject option \<times> int) option" where
  "attr_value G gz entry =
     (if is_derivative entry (cstr ''_dd.appsec.s.'') then
        (if short_json entry then map_option (\<lambda>v. (v, 0)) (jstring_spec (schema_text gz entry)) else Some (None, 0))
      else (case payload entry of
          DDWAF_OBJ_INVALID \<Rightarrow> Some (None, 0)
        | DDWAF_OBJ_ARRAY _ \<Rightarrow> Some (None, 0)
        | DDWAF_OBJ_NULL \<Rightarrow> Some (None, 0)
        | _ \<Rightarrow> to_jobject G entry))"

definition attr_step ::
    "output_globals \<Rightarrow> (byte list \<Rightarrow> byte list) \<Rightarrow> ddwaf_object \<Rightarrow> jentries \<Rightarrow> (jentries \<times> int) option" where
  "attr_step G gz entry acc =
     (if \<not> jstring_fits (parameterName entry) then None
      else (case attr_value G gz entry of
          None \<Rightarrow> None
        | Some (None, l) \<Rightarrow> Some (acc, l)
        | Some (Some v, l) \<Rightarrow>
            let k = JString (utf16_of (parameterName entry)) in
            if ready (map_put G) then Some (lhm_put k (Some v) acc, l + ref_of (lhm_prev k acc)) else None))"

text \<open>Fingerprints are strings: the code reads them as such without looking at the type.\<close>

definition fingerprint_ok :: "ddwaf_object \<Rightarrow> bool" where
  "fingerprint_ok entry \<longleftrightarrow>
     (is_derivative entry (cstr ''_dd.appsec.fp.'') \<longrightarrow> (\<exists>str. payload entry = DDWAF_OBJ_STRING str))"

lemma attr_value_leak: "0 \<le> leak_of (attr_value G gz entry)"
  using to_jobject_leak [of G entry]
  by (auto simp: attr_value_def leak_of_def jstring_spec_def split: ddwaf_value.split option.split)

lemma scalar_convert:
  assumes "\<not> is_derivative entry (cstr ''_dd.appsec.s.'')" and "fingerprint_ok entry"
  shows "attribute_value J G Z le entry =
    (if payload entry \<in> {DDWAF_OBJ_INVALID, DDWAF_OBJ_NULL} \<or> (\<exists>es. payload entry = DDWAF_OBJ_ARRAY es)
     then State_Monad.return None else convert_ddwaf_object_to_jobject J G entry)"
  using assms
  by (auto simp: attribute_value_def fingerprint_ok_def convert_ddwaf_object_to_jobject.simps [of J G entry]
      split: ddwaf_value.split)

lemma attribute_valueI:
  assumes doc: "zlib_doc Z gz zst bound" and small: "\<And>t. length t \<le> MAX_SIZE_OF_SCHEMA \<Longrightarrow> length (gz t) < 2 ^ 62"
    and e: "pending e = None" and h: "heap_ok (json_mem e)" and fp: "fingerprint_ok entry"
    and good: "\<And>v l e'. attr_value G gz entry = Some (v, l) \<Longrightarrow> env_to e None (ref_of v + l) e' \<Longrightarrow> Q v e'"
    and null: "\<And>e'. env_to e None 0 e' \<Longrightarrow>
      (calm J \<Longrightarrow> zlib_works Z \<Longrightarrow> attr_value G gz entry = Some (None, 0)) \<Longrightarrow> Q None e'"
    and throw: "\<And>e' t d. 0 \<le> d \<Longrightarrow> env_to e (Some t) d e' \<Longrightarrow> (calm J \<Longrightarrow> attr_value G gz entry = None) \<Longrightarrow> Q None e'"
  shows "wp (attribute_value J G Z le entry) Q e"
proof (cases "is_derivative entry (cstr ''_dd.appsec.s.'')")
  case True
  then have "attribute_value J G Z le entry = encode_json_gzip_base64_checked J Z le entry"
    by (simp add: attribute_value_def)
  then show ?thesis
    using True good null throw [of 0]
    by (auto simp: attr_value_def jstring_spec_def intro!: schemaI [OF doc small e h])
next
  case False
  show ?thesis
  proof (cases "payload entry \<in> {DDWAF_OBJ_INVALID, DDWAF_OBJ_NULL} \<or> (\<exists>es. payload entry = DDWAF_OBJ_ARRAY es)")
    case True
    then have "attr_value G gz entry = Some (None, 0)"
      using False by (auto simp: attr_value_def)
    then show ?thesis
      using True null [of e] e by (simp add: scalar_convert [OF False fp] wps env_to_refl)
  next
    case conv: False
    then have v: "attr_value G gz entry = to_jobject G entry"
      using False by (auto simp: attr_value_def split: ddwaf_value.split)
    have "wp (convert_ddwaf_object_to_jobject J G entry) Q e"
    proof (rule checkedI [OF convert_object_contract e])
      fix w e' assume "value_of (to_jobject G entry) = Some w" "env_to e None (ref_of w + leak_of (to_jobject G entry)) e'"
      then show "Q w e'"
        using v by (auto simp: value_of_def intro!: good)
    next
      fix e' t d assume "0 \<le> d" "env_to e (Some t) d e'" "calm J \<Longrightarrow> value_of (to_jobject G entry) = None"
      then show "Q None e'"
        using v by (intro throw [of d t]) (auto simp: value_of_def)
    qed
    then show ?thesis
      using conv by (simp add: scalar_convert [OF False fp])
  qed
qed

definition attr_put :: "output_globals \<Rightarrow> (byte list \<Rightarrow> byte list) \<Rightarrow> ddwaf_object \<Rightarrow> jentries \<Rightarrow> jentries \<Rightarrow> bool" where
  "attr_put G gz entry acc acc' \<longleftrightarrow> acc' = acc \<or>
     (\<exists>v l. attr_value G gz entry = Some (Some v, l) \<and>
        acc' = lhm_put (JString (utf16_of (parameterName entry))) (Some v) acc)"

lemma attribute_body_wp:
  assumes doc: "zlib_doc Z gz zst bound" and small: "\<And>t. length t \<le> MAX_SIZE_OF_SCHEMA \<Longrightarrow> length (gz t) < 2 ^ 62"
    and e: "pending e = None" and h: "heap_ok (json_mem e)" and fp: "fingerprint_ok entry"
  shows "wp (attribute_body J G Z le entry acc) (\<lambda>r e'. case r of
      None \<Rightarrow> (\<exists>t d. 0 \<le> d \<and> env_to e (Some t) d e') \<and> (calm J \<and> zlib_works Z \<longrightarrow> attr_step G gz entry acc = None)
    | Some acc' \<Rightarrow> (\<exists>d. 0 \<le> d \<and> env_to e None d e' \<and>
        (calm J \<and> zlib_works Z \<longrightarrow> attr_step G gz entry acc = Some (acc', d))) \<and> attr_put G gz entry acc acc') e"
proof -
  let ?k = "JString (utf16_of (parameterName entry))"
  let ?post = "\<lambda>r e'. case r of
      None \<Rightarrow> (\<exists>t d. 0 \<le> d \<and> env_to e (Some t) d e') \<and> (calm J \<and> zlib_works Z \<longrightarrow> attr_step G gz entry acc = None)
    | Some acc' \<Rightarrow> (\<exists>d. 0 \<le> d \<and> env_to e None d e' \<and>
        (calm J \<and> zlib_works Z \<longrightarrow> attr_step G gz entry acc = Some (acc', d))) \<and> attr_put G gz entry acc acc'"
  have skip: "wp (do { java_log J DDWAF_LOG_DEBUG fn fl line thr msg; DeleteLocalRef (Some ?k); State_Monad.return (Some acc) }) ?post e2"
    if fits: "jstring_fits (parameterName entry)" and e1: "env_to e None 1 e1" and "env_to e1 None l e2" "0 \<le> l" "calm J \<Longrightarrow> zlib_works Z \<Longrightarrow> attr_value G gz entry = Some (None, l)" for e1 e2 fn fl line thr msg l
    by (subst wp_bind, rule java_logI) (use that in \<open>auto simp: wps env_to_def attr_step_def attr_put_def\<close>)
  have main: "wp (attribute_value J G Z le entry) (\<lambda>val. wp (do {
       exc \<leftarrow> ExceptionCheck;
       if exc then do { DeleteLocalRef (Some ?k); State_Monad.return None }
       else if val = None then do {
         java_log J DDWAF_LOG_DEBUG ''output_convert_attributes_checked'' ''output.c'' 770 None (cstr ''Failed serializing derivative entry for '' @
           replicate (length (parameterName entry)) 0x20);
         DeleteLocalRef (Some ?k);
         State_Monad.return (Some acc) }
       else do {
         java_meth_call J (map_put G) (lhm_prev ?k acc);
         DeleteLocalRef (Some ?k);
         DeleteLocalRef val;
         exc \<leftarrow> ExceptionCheck;
         if exc then State_Monad.return None
         else State_Monad.return (Some (lhm_put ?k val acc)) }}) ?post) e1" (is "wp _ (\<lambda>val. wp (?rest val) _) _")
    if fits: "jstring_fits (parameterName entry)" and e1: "env_to e None 1 e1" for e1
  proof (rule attribute_valueI [OF doc small env_to_pending [OF e1] _ fp])
    show "heap_ok (json_mem e1)"
      using h e1 by (simp add: env_to_def)
  next
    fix v l e2 assume v: "attr_value G gz entry = Some (v, l)" and e2: "env_to e1 None (ref_of v + l) e2"
    then have "0 \<le> l"
      using attr_value_leak [of G gz entry] by simp
    show "wp (?rest v) ?post e2"
    proof (cases v)
      case None
      then show ?thesis
        using skip [OF fits e1, of l e2] e2 env_to_pending [OF e2] v \<open>0 \<le> l\<close> by (simp add: wp_bind ExceptionCheck_def wp_State)
    next
      case (Some y)
      have "0 \<le> l + ref_of (lhm_prev ?k acc)"
        using \<open>0 \<le> l\<close> by (simp add: ref_of_def)
      then show ?thesis
        using Some e1 e2 v fits \<open>0 \<le> l\<close>
        by (auto simp: wps env_to_def attr_step_def attr_put_def Let_def intro!: meth_callI)
    qed
  next
    fix e2 assume "env_to e1 None 0 e2" "calm J \<Longrightarrow> zlib_works Z \<Longrightarrow> attr_value G gz entry = Some (None, 0)"
    then show "wp (?rest None) ?post e2"
      using skip [OF fits e1, of 0] env_to_pending by (simp add: wp_bind ExceptionCheck_def wp_State)
  next
    fix e2 t d assume "0 \<le> d" "env_to e1 (Some t) d e2" "calm J \<Longrightarrow> attr_value G gz entry = None"
    then show "wp (?rest None) ?post e2"
      using e1 by (auto simp: wps env_to_def attr_step_def)
  qed
  show ?thesis
    unfolding attribute_body_def
  proof (subst wp_bind, rule new_jstringI [OF e], goal_cases)
    case (1 e1)
    then show ?case
      unfolding option.sel using main [OF 1] env_to_pending [OF 1(2)] by (simp add: wp_bind ExceptionCheck_def wp_State)
  next
    case (2 e1 t)
    then show ?case
      by (auto simp: wps env_to_def attr_step_def)
  qed
qed

subsection \<open>Base64 survives the conversion to a Java string\<close>

lemma utf16_of_ascii:
  assumes "\<forall>b \<in> set bs. b < 0x80"
  shows "utf16_of bs = map ucast bs"
proof -
  let ?ks = "map (ucast :: byte \<Rightarrow> u32) bs"
  have small: "unat (ucast b :: u32) < 0x80" if "b \<in> set bs" for b
    using assms that by (auto simp: word_less_nat_alt unat_ucast_mod)
  have ret: "ucast (ucast b :: u32) = b" for b :: byte
    by (rule bit_word_eqI) (simp add: bit_simps)
  have wide: "ucast (ucast b :: u32) = (ucast b :: jchar)" for b :: byte
    by (rule bit_word_eqI) (auto simp: bit_simps)
  have "concat (map write_utf8_codeunits ?ks) = bs"
    using small by (induction bs) (auto simp: write_utf8_codeunits_def word_less_nat_alt ret)
  moreover have "\<forall>k \<in> set ?ks. scalar k"
    using small by (force simp: scalar_def word_le_nat_alt)
  ultimately have "decode8 bs 0 = ?ks"
    using decode8_write [of ?ks "[]"] by simp
  moreover have "write_utf16_codeunits (ucast b) = [ucast b]" if "b \<in> set bs" for b
    using small [OF that] wide [of b] by (simp add: write_utf16_codeunits_def word_less_nat_alt)
  then have "concat (map write_utf16_codeunits ?ks) = map ucast bs"
    by (induction bs) auto
  ultimately show ?thesis
    by (simp add: utf16_of_def)
qed

lemma b64_letter_ascii: "b64_letter n < 0x80"
proof -
  have "unat (of_nat m :: byte) < 0x80" if "m < 0x80" for m
    using that by (simp add: unat_of_nat)
  then show ?thesis
    unfolding b64_letter_def word_less_nat_alt by (simp del: of_nat_add of_nat_diff)
qed

lemma b64_spec_ascii: "\<forall>b \<in> set (b64_spec bs). b < 0x80"
  by (induction bs rule: b64_spec.induct) (simp_all add: b64_letter_ascii)

lemma b64_java_string: "map ucast (utf16_of (b64_spec bs)) = b64_spec bs"
proof -
  have "ucast (ucast b :: jchar) = b" for b :: byte
    by (rule bit_word_eqI) (simp add: bit_simps)
  then show ?thesis
    by (simp add: utf16_of_ascii [OF b64_spec_ascii] comp_def)
qed

subsection \<open>All attributes\<close>

lemma attributes_loop:
  assumes doc: "zlib_doc Z gz zst bound" and small: "\<And>t. length t \<le> MAX_SIZE_OF_SCHEMA \<Longrightarrow> length (gz t) < 2 ^ 62"
    and e: "pending e = None" and h: "heap_ok (json_mem e)" and fp: "\<forall>entry \<in> set es. fingerprint_ok entry"
  shows "wp (jni_loop (attribute_body J G Z le) es []) (\<lambda>r e'. case r of
      None \<Rightarrow> (\<exists>t d. 0 \<le> d \<and> env_to e (Some t) d e') \<and> (calm J \<and> zlib_works Z \<longrightarrow> spec_loop (attr_step G gz) es [] = None)
    | Some m \<Rightarrow> \<exists>d. 0 \<le> d \<and> env_to e None d e' \<and>
        (calm J \<and> zlib_works Z \<longrightarrow> spec_loop (attr_step G gz) es [] = Some (m, d))) e"
proof -
  let ?I = "\<lambda>ys acc e'. \<exists>d. 0 \<le> d \<and> env_to e None d e' \<and> (calm J \<and> zlib_works Z \<longrightarrow>
      spec_loop (attr_step G gz) es [] = map_option (\<lambda>(a, l). (a, d + l)) (spec_loop (attr_step G gz) ys acc))"
  let ?E = "\<lambda>e'. (\<exists>t d. 0 \<le> d \<and> env_to e (Some t) d e') \<and> (calm J \<and> zlib_works Z \<longrightarrow> spec_loop (attr_step G gz) es [] = None)"
  have "wp (jni_loop (attribute_body J G Z le) es []) (\<lambda>r e'. case r of None \<Rightarrow> ?E e' | Some acc' \<Rightarrow> ?I [] acc' e') e"
  proof (rule jni_loop_wp)
    fix x ys acc e1 assume I: "?I (x # ys) acc e1" and x: "x \<in> set es"
    then obtain d where d: "0 \<le> d" "env_to e None d e1" "calm J \<and> zlib_works Z \<longrightarrow>
      spec_loop (attr_step G gz) es [] = map_option (\<lambda>(a, l). (a, d + l)) (spec_loop (attr_step G gz) (x # ys) acc)"
      by auto
    have e1: "pending e1 = None" "heap_ok (json_mem e1)"
      using d(2) h by (auto simp: env_to_def)
    show "wp (attribute_body J G Z le x acc) (\<lambda>r e'. case r of None \<Rightarrow> ?E e' | Some acc' \<Rightarrow> ?I ys acc' e') e1"
    proof (rule wp_mono [OF attribute_body_wp [OF doc small e1]])
      show "fingerprint_ok x"
        using fp x by simp
    next
      fix r e2 assume r: "case r of
          None \<Rightarrow> (\<exists>t d. 0 \<le> d \<and> env_to e1 (Some t) d e2) \<and> (calm J \<and> zlib_works Z \<longrightarrow> attr_step G gz x acc = None)
        | Some acc' \<Rightarrow> (\<exists>d. 0 \<le> d \<and> env_to e1 None d e2 \<and>
            (calm J \<and> zlib_works Z \<longrightarrow> attr_step G gz x acc = Some (acc', d))) \<and> attr_put G gz x acc acc'"
      show "case r of None \<Rightarrow> ?E e2 | Some acc' \<Rightarrow> ?I ys acc' e2"
      proof (cases r)
        case None
        then obtain t c where c: "0 \<le> c" "env_to e1 (Some t) c e2" "calm J \<and> zlib_works Z \<longrightarrow> attr_step G gz x acc = None"
          using r by auto
        then have "\<exists>t d. 0 \<le> d \<and> env_to e (Some t) d e2"
          using d(1) env_to_trans [OF d(2) c(2)] by (intro exI [of _ t] exI [of _ "d + c"]) simp
        then show ?thesis
          using None c(3) d(3) by simp
      next
        case (Some acc')
        then obtain c where c: "0 \<le> c" "env_to e1 None c e2" "calm J \<and> zlib_works Z \<longrightarrow> attr_step G gz x acc = Some (acc', c)"
          using r by auto
        have "env_to e None (d + c) e2"
          by (rule env_to_trans [OF d(2) c(2)])
        moreover have "map_option (\<lambda>(a, l). (a, d + l)) (spec_loop (attr_step G gz) (x # ys) acc) =
            map_option (\<lambda>(a, l). (a, d + c + l)) (spec_loop (attr_step G gz) ys acc')" if "attr_step G gz x acc = Some (acc', c)"
          using that by (simp add: option.map_comp comp_def case_prod_unfold add.assoc)
        ultimately show ?thesis
          using Some d(1,3) c(1,3) by (auto intro!: exI [of _ "d + c"])
      qed
    qed
  next
    show "?I es [] e"
      using e by (auto simp: option.map_id intro!: exI [of _ 0] env_to_refl)
  qed
  then show ?thesis
    by (rule wp_mono) (auto split: option.splits)
qed

lemma attributes_wp:
  assumes doc: "zlib_doc Z gz zst bound" and small: "\<And>t. length t \<le> MAX_SIZE_OF_SCHEMA \<Longrightarrow> length (gz t) < 2 ^ 62"
    and e: "pending e = None" and h: "heap_ok (json_mem e)" and ob: "payload ob = DDWAF_OBJ_MAP es"
    and fp: "\<forall>entry \<in> set es. fingerprint_ok entry"
  shows "wp (output_convert_attributes_checked J G Z le ob) (\<lambda>r e'. \<exists>d. 0 \<le> d \<and>
     (case r of
        None \<Rightarrow> (\<exists>t. env_to e (Some t) d e') \<and>
          (calm J \<and> zlib_works Z \<and> ready (linked_hm_init G) \<longrightarrow> spec_loop (attr_step G gz) es [] = None)
      | Some v \<Rightarrow> env_to e None (1 + d) e' \<and> (\<exists>m. v = JLinkedHashMap m \<and>
          (calm J \<and> zlib_works Z \<longrightarrow> spec_loop (attr_step G gz) es [] = Some (m, d))))) e"
proof -
  have loop: "wp (jni_loop (attribute_body J G Z le) es []) Q e1"
    if "env_to e None 1 e1" "\<And>m d e'. 0 \<le> d \<Longrightarrow> env_to e1 None d e' \<Longrightarrow>
        (calm J \<and> zlib_works Z \<longrightarrow> spec_loop (attr_step G gz) es [] = Some (m, d)) \<Longrightarrow> Q (Some m) e'"
      "\<And>t d e'. 0 \<le> d \<Longrightarrow> env_to e1 (Some t) d e' \<Longrightarrow>
        (calm J \<and> zlib_works Z \<longrightarrow> spec_loop (attr_step G gz) es [] = None) \<Longrightarrow> Q None e'" for Q e1
    by (rule wp_mono [OF attributes_loop [OF doc small _ _ fp]])
      (use that h in \<open>auto simp: env_to_def split: option.splits\<close>)
  show ?thesis
    unfolding output_convert_attributes_checked_def ob ddwaf_value.case
    using e by (auto simp: wps env_to_def intro!: meth_callI loop)
qed

subsection \<open>Properties\<close>



text \<open>
  C21. The recursive conversion of a value of any type and depth: the result is
  the Java value of the object, or null with an exception pending; on a virtual machine on
  which nothing fails the exception occurs exactly where the object has no Java value. No
  JNI function is called while an exception is pending.
\<close>

theorem convert_object_correct:
  assumes "pending e = None" and "run_state (convert_ddwaf_object_to_jobject J G obj) e = (r, e')"
  shows "misuse e' = misuse e \<and> refs e + ref_of r \<le> refs e' \<and>
    (pending e' \<noteq> None \<longrightarrow> r = None) \<and>
    (pending e' = None \<longrightarrow> r \<noteq> None \<and> map_option fst (to_jobject G obj) = Some r) \<and>
    (calm J \<longrightarrow> (pending e' = None \<longleftrightarrow> to_jobject G obj \<noteq> None))"
  using checked_run [OF convert_object_contract assms] to_jobject_leak [of G obj] to_jobject_some [of G obj]
  by (auto simp: outcome_def env_to_def value_of_def leak_of_def)

theorem convert_object_correct_witness:
  "pending env0 = None \<and>
   fst (run_state (convert_ddwaf_object_to_jobject calm_jvm globals0
      (DdwafObject [] (DDWAF_OBJ_ARRAY [DdwafObject [] (DDWAF_OBJ_SIGNED (-1))]))) env0)
     = Some (JArrayList [JLong (-1)])"
proof -
  let ?a = "DdwafObject [] (DDWAF_OBJ_ARRAY [DdwafObject [] (DDWAF_OBJ_SIGNED (-1))])"
  have "to_jobject globals0 ?a = Some (Some (JArrayList [JLong (-1)]), 0)"
    by (simp add: to_jobject.simps elem_step_def call_spec_def MAX_JINT_def)
  then show ?thesis
    using convert_object_correct [of env0 calm_jvm globals0 ?a, OF _ surjective_pairing] by simp
qed

text \<open>
  A defect of the same function: when the value of an entry of a map cannot
  be converted, the map created so far is not released.
\<close>

theorem convert_map_leaks:
  assumes "pending e = None" and "calm J" and "ready (linked_hm_init G)"
    and "jstring_fits (parameterName el)" and "to_jobject G el = None"
    and "run_state (convert_ddwaf_object_to_jobject J G (DdwafObject nm (DDWAF_OBJ_MAP [el]))) e = (r, e')"
  shows "r = None \<and> pending e' \<noteq> None \<and> refs e + 1 \<le> refs e'"
proof -
  have "wp (convert_ddwaf_object_to_jobject J G (DdwafObject nm (DDWAF_OBJ_MAP [el])))
      (\<lambda>r e'. r = None \<and> pending e' \<noteq> None \<and> refs e + 1 \<le> refs e') e"
    using assms(1-5)
    by (subst convert_ddwaf_object_to_jobject.simps)
      (auto simp: entry_body_def wps env_to_def value_of_def
        intro!: meth_callI new_jstringI checkedI [OF convert_object_contract])
  then show ?thesis
    by (rule wp_run [OF _ assms(6)])
qed

theorem convert_map_leaks_witness:
  "refs (snd (run_state (convert_ddwaf_object_to_jobject calm_jvm globals0
      (DdwafObject [] (DDWAF_OBJ_MAP [DdwafObject [] DDWAF_OBJ_NULL]))) env0)) \<ge> 1"
  using convert_map_leaks [of env0 calm_jvm globals0 "DdwafObject [] DDWAF_OBJ_NULL" "[]", OF _ _ _ _ _ surjective_pairing]
  by (simp add: jstring_fits_def INT_MAX_def utf16_of_def decode8.simps to_jobject.simps)



end
