(* ===== verification/Java_Strings.thy ===== *)
theory Java_Strings
  imports Logging
begin

text \<open>
  Reading Java strings: \<^verbatim>\<open>java_to_utf8_checked\<close> and \<^verbatim>\<open>java_to_utf8_limited_checked\<close> of
  \<^verbatim>\<open>src/main/c/utf16_utf8.c\<close>, on top of the conversion of the theory \<open>Utf16_Utf8\<close>. A result is the
  bytes of the string that is returned through the pointers, without the terminator.
\<close>

definition utf16_to_utf8 :: "jvm \<Rightarrow> jchar list \<Rightarrow> nat \<Rightarrow> byte list option jni" where
  "utf16_to_utf8 J inp len = State (\<lambda>e.
     let e' = e\<lparr>mtick := mtick e + len + 2\<rparr> in
     case java_utf16_to_utf8_checked (\<lambda>n. malloc_ok J (mtick e + n)) inp len of
       Inr (out, out_len) \<Rightarrow> (Some (take out_len out), e')
     | Inl (Pending t) \<Rightarrow> (None, e'\<lparr>pending := Some t, misuse := misuse e \<or> pending e \<noteq> None\<rparr>)
     | Inl OutOfBounds \<Rightarrow> (None, e'\<lparr>misuse := True\<rparr>))"

text \<open>\<^verbatim>\<open>GetStringChars\<close>: whether it returns the characters; it can fail with and without an exception.\<close>

definition GetStringChars :: "jvm \<Rightarrow> bool jni" where
  "GetStringChars J = do { ok \<leftarrow> JNI_call J; State (\<lambda>e. (ok \<and> \<not> nulls J (jtick e), e)) }"

definition to_utf8_checked_utf16_len :: "jvm \<Rightarrow> jchar list \<Rightarrow> nat \<Rightarrow> byte list option jni" where
  "to_utf8_checked_utf16_len J str utf16_len = do {
     ok \<leftarrow> GetStringChars J;
     if \<not> ok then do {
       exc \<leftarrow> ExceptionCheck;
       (if \<not> exc then ThrowNew J (RuntimeException ''Error calling GetStringChars'')
        else wrap_exc J ''utf16_utf8.c'' ''_to_utf8_checked_utf16_len'' 317
          (cstr ''Error calling GetStringChars on string of size '' @ dec_nat utf16_len));
       State_Monad.return None }
     else utf16_to_utf8 J str utf16_len }"

definition java_to_utf8_checked :: "jvm \<Rightarrow> jchar list \<Rightarrow> byte list option jni" where
  "java_to_utf8_checked J str = do {
     JNI_call J;
     exc \<leftarrow> ExceptionCheck;
     if exc then do {
       wrap_exc J ''utf16_utf8.c'' ''java_to_utf8_checked'' 335 (cstr ''Error getting the length of putative string'');
       State_Monad.return None }
     else to_utf8_checked_utf16_len J str (length str) }"

definition java_to_utf8_limited_checked :: "jvm \<Rightarrow> jchar list \<Rightarrow> int \<Rightarrow> byte list option jni" where
  "java_to_utf8_limited_checked J str max_len = do {
     JNI_call J;
     exc \<leftarrow> ExceptionCheck;
     if exc then do {
       wrap_exc J ''utf16_utf8.c'' ''java_to_utf8_limited_checked'' 348 (cstr ''Error getting the length of putative string'');
       State_Monad.return None }
     else if max_len < 0 \<or> int (length str) \<le> max_len then to_utf8_checked_utf16_len J str (length str)
     else do {
       ok \<leftarrow> malloc J (2 * nat max_len);
       if \<not> ok then do {
         ThrowNew J (RuntimeException ''malloc failed allocated jchar array'');
         State_Monad.return None }
       else do {
         JNI_call J;
         exc \<leftarrow> ExceptionCheck;
         if exc then do {
           wrap_exc J ''utf16_utf8.c'' ''java_to_utf8_limited_checked'' 365
             (cstr ''Error calling GetStringRegion for substring of size '' @ dec_nat (nat max_len));
           State_Monad.return None }
         else utf16_to_utf8 J (take (nat max_len) str) (nat max_len) }}}"

subsection \<open>The bytes are the UTF-8 form of the characters\<close>

lemma calm_malloc: "calm J \<Longrightarrow> malloc_ok J k n"
  by (simp add: calm_def)

lemma utf16_to_utf8I:
  assumes "pending e = None" and "len \<le> length inp" and "len < 2 ^ 31"
    and "\<And>e'. env_to e None 0 e' \<Longrightarrow> Q (Some (utf8_of (take len inp))) e'"
    and "\<And>e' t. env_to e (Some t) 0 e' \<Longrightarrow> \<not> calm J \<Longrightarrow> Q None e'"
  shows "wp (utf16_to_utf8 J inp len) Q e"
proof -
  let ?r = "java_utf16_to_utf8_checked (\<lambda>n. malloc_ok J (mtick e + n)) inp len"
  consider "?r = Inl out_of_memory" "\<not> calm J" | "?r = Inr (utf8_of (take len inp) @ [0], length (utf8_of (take len inp)))"
    using java_utf16_to_utf8_checked_eq [OF assms(2,3), of "\<lambda>n. malloc_ok J (mtick e + n)"] calm_malloc by blast
  then show ?thesis
    by cases (use assms(1,4,5) in \<open>simp_all add: utf16_to_utf8_def wp_State Let_def env_to_def\<close>)
qed

text \<open>A Java string has at most \<open>INT_MAX\<close> characters.\<close>

definition utf8_spec :: "jchar list \<Rightarrow> int \<Rightarrow> byte list" where
  "utf8_spec str max_len = utf8_of (if max_len < 0 then str else take (nat max_len) str)"

lemma to_utf8_lenI:
  assumes "pending e = None" and "length str < 2 ^ 31"
    and "\<And>e'. env_to e None 0 e' \<Longrightarrow> Q (Some (utf8_of str)) e'"
    and "\<And>e' t. env_to e (Some t) 0 e' \<Longrightarrow> \<not> calm J \<Longrightarrow> Q None e'"
  shows "wp (to_utf8_checked_utf16_len J str (length str)) Q e"
  using assms
  by (auto simp: to_utf8_checked_utf16_len_def GetStringChars_def wps env_to_def Let_def calmD
      intro!: utf16_to_utf8I ThrowNewI wrap_excI split: option.split)

lemma java_to_utf8I:
  assumes "pending e = None" and "length str < 2 ^ 31"
    and "\<And>e'. env_to e None 0 e' \<Longrightarrow> Q (Some (utf8_of str)) e'"
    and "\<And>e' t. env_to e (Some t) 0 e' \<Longrightarrow> \<not> calm J \<Longrightarrow> Q None e'"
  shows "wp (java_to_utf8_checked J str) Q e"
  using assms
  by (auto simp: java_to_utf8_checked_def wps env_to_def Let_def calmD
      intro!: to_utf8_lenI wrap_excI split: option.split)

lemma java_to_utf8_limitedI:
  assumes "pending e = None" and "length str < 2 ^ 31"
    and "\<And>e'. env_to e None 0 e' \<Longrightarrow> Q (Some (utf8_spec str max_len)) e'"
    and "\<And>e' t. env_to e (Some t) 0 e' \<Longrightarrow> \<not> calm J \<Longrightarrow> Q None e'"
  shows "wp (java_to_utf8_limited_checked J str max_len) Q e"
proof (cases "max_len < 0 \<or> int (length str) \<le> max_len")
  case True
  then have "utf8_spec str max_len = utf8_of str"
    by (auto simp: utf8_spec_def)
  with True show ?thesis
    using assms by (auto simp: java_to_utf8_limited_checked_def wps env_to_def Let_def calmD
        intro!: to_utf8_lenI wrap_excI split: option.split)
next
  case False
  then have n: "nat max_len < length str" "\<not> max_len < 0"
    by auto
  then have "utf8_spec str max_len = utf8_of (take (nat max_len) (take (nat max_len) str))"
    by (simp add: utf8_spec_def)
  with False n show ?thesis
    using assms by (auto simp: java_to_utf8_limited_checked_def wps env_to_def Let_def calmD
        intro!: utf16_to_utf8I wrap_excI ThrowNewI split: option.split)
qed

text \<open>
  C23. Reading a Java string with a limit: the result is the UTF-8 form of its
  first characters, as many as the limit allows, a negative limit meaning none, or an exception is
  pending, which cannot happen on a virtual machine on which nothing fails; references and
  buffers balance, and the buffer is never overrun.
\<close>

theorem java_to_utf8_limited_correct:
  assumes "pending e = None" and "length str < 2 ^ 31"
    and "run_state (java_to_utf8_limited_checked J str max_len) e = (r, e')"
  shows "misuse e' = misuse e \<and> refs e' = refs e \<and>
    (pending e' = None \<and> r = Some (utf8_spec str max_len) \<or> pending e' \<noteq> None \<and> r = None \<and> \<not> calm J)"
proof -
  have "wp (java_to_utf8_limited_checked J str max_len) (\<lambda>r e'. misuse e' = misuse e \<and> refs e' = refs e \<and>
    (pending e' = None \<and> r = Some (utf8_spec str max_len) \<or> pending e' \<noteq> None \<and> r = None \<and> \<not> calm J)) e"
    by (rule java_to_utf8_limitedI [OF assms(1,2)]) (auto simp: env_to_def)
  then show ?thesis
    by (rule wp_run [OF _ assms(3)])
qed

theorem java_to_utf8_limited_correct_witness:
  "pending env0 = None \<and>
   fst (run_state (java_to_utf8_limited_checked calm_jvm [0x41, 0xE9, 0x42] 2) env0) = Some [0x41, 0xC3, 0xA9]"
proof -
  have "utf8_spec [0x41, 0xE9, 0x42] 2 = utf8_of [0x41, 0xE9]"
    by (simp add: utf8_spec_def numeral_2_eq_2 del: Suc_eq_numeral)
  also have "\<dots> = [0x41, 0xC3, 0xA9]"
    by (simp add: utf8_of_def UTF16_LEAD_def UTF16_TRAIL_def REPL_CHAR_def write_utf8_codeunits_def)
  finally show ?thesis
    using java_to_utf8_limited_correct [of env0 "[0x41, 0xE9, 0x42]" calm_jvm 2, OF _ _ surjective_pairing] by simp
qed

end
