(* ===== verification/Budgets.thy ===== *)
theory Budgets
  imports Java_Strings "HOL-Library.Signed_Division"
begin

text \<open>
  Limits and time budgets of \<^verbatim>\<open>src/main/c/waf_jni.c\<close>: reading the limits of a run, the default
  timeout from a system property, and the computation of the time that is left. Signed C
  integers are \<open>int\<close>; a signed overflow, which C leaves undefined, is \<open>None\<close> in \<open>s64\<close> and raises
  \<open>misuse\<close> in the environment. The clock is a parameter: \<open>None\<close> is a failure of \<^verbatim>\<open>clock_gettime\<close>.
\<close>

subsection \<open>Limits\<close>

record limits =
  general_budget_in_us :: int
  run_budget_in_us :: int
  max_depth :: int
  max_elements :: int
  max_string_size :: int

text \<open>The fields of the Java object.\<close>

record jlimits =
  maxDepth :: int
  maxElements :: int
  maxStringSize :: int
  generalBudgetInUs :: int
  runBudgetInUs :: int

definition limits0 :: limits where
  "limits0 = \<lparr>general_budget_in_us = 0, run_budget_in_us = 0, max_depth = 0, max_elements = 0, max_string_size = 0\<rparr>"

text \<open>A field is read and the exception checked.\<close>

definition read_field :: "jvm \<Rightarrow> bool jni" where
  "read_field J = do { JNI_call J; exc \<leftarrow> ExceptionCheck; State_Monad.return (\<not> exc) }"

definition fetch_limits_checked :: "jvm \<Rightarrow> int \<Rightarrow> jlimits \<Rightarrow> limits jni" where
  "fetch_limits_checked J pw_run_timeout limits_obj = do {
     ok \<leftarrow> read_field J;
     if \<not> ok then State_Monad.return limits0 else do {
     ok \<leftarrow> read_field J;
     if \<not> ok then State_Monad.return limits0 else do {
     ok \<leftarrow> read_field J;
     if \<not> ok then State_Monad.return limits0 else do {
     ok \<leftarrow> read_field J;
     if \<not> ok then State_Monad.return limits0 else do {
     ok \<leftarrow> read_field J;
     if \<not> ok then State_Monad.return limits0 else
     State_Monad.return \<lparr>
       general_budget_in_us = generalBudgetInUs limits_obj,
       run_budget_in_us = (if 0 < runBudgetInUs limits_obj then runBudgetInUs limits_obj else pw_run_timeout),
       max_depth = maxDepth limits_obj,
       max_elements = maxElements limits_obj,
       max_string_size = maxStringSize limits_obj\<rparr> }}}}}"

subsection \<open>Time\<close>

definition s64 :: "int \<Rightarrow> int option" where
  "s64 x = (if - (2 ^ 63) \<le> x \<and> x < 2 ^ 63 then Some x else None)"

record timespec =
  tv_sec :: int
  tv_nsec :: int

definition get_time_checked :: "jvm \<Rightarrow> timespec option \<Rightarrow> timespec option jni" where
  "get_time_checked J clock =
     (case clock of
        None \<Rightarrow> do { ThrowNew J (RuntimeException ''Error getting time''); State_Monad.return None }
      | Some t \<Rightarrow> State_Monad.return (Some t))"

definition timespec_diff_ns :: "timespec \<Rightarrow> timespec \<Rightarrow> int option" where
  "timespec_diff_ns a b =
     (case s64 (tv_sec a - tv_sec b) of
        None \<Rightarrow> None
      | Some sec \<Rightarrow>
          (case s64 (sec * 1000000000) of
             None \<Rightarrow> None
           | Some sec_ns \<Rightarrow>
               (case s64 (tv_nsec a - tv_nsec b) of
                  None \<Rightarrow> None
                | Some ns \<Rightarrow> s64 (sec_ns + ns))))"

definition get_remaining_budget :: "jvm \<Rightarrow> timespec \<Rightarrow> timespec \<Rightarrow> limits \<Rightarrow> int option jni" where
  "get_remaining_budget J start end_time lims =
     (case timespec_diff_ns end_time start of
        None \<Rightarrow> undefined_access
      | Some diff_ns \<Rightarrow>
          let diff_us = diff_ns sdiv 1000 in
          (case s64 (general_budget_in_us lims - diff_us) of
             None \<Rightarrow> undefined_access
           | Some rem \<Rightarrow>
               let rem_gen_budget_in_us = (if rem < 0 then 0 else rem) in
               do {
                 java_log J DDWAF_LOG_DEBUG ''get_remaining_budget'' ''waf_jni.c'' 1992 None
                   (cstr ''Conversion of WAF arguments took '' @ dec_int diff_us @
                    cstr '' us; remaining general budget is '' @ dec_int rem_gen_budget_in_us @ cstr '' us'');
                 State_Monad.return (Some rem_gen_budget_in_us) }))"

definition get_run_budget :: "jvm \<Rightarrow> int \<Rightarrow> limits \<Rightarrow> u64 jni" where
  "get_run_budget J rem_gen_budget_in_us lims =
     (if run_budget_in_us lims < rem_gen_budget_in_us then do {
        java_log J DDWAF_LOG_DEBUG ''get_run_budget'' ''waf_jni.c'' 2005 None
          (cstr ''Using run budget of '' @ dec_int (run_budget_in_us lims) @ cstr '' us instead of '' @
           cstr ''remaining general budget of '' @ dec_int rem_gen_budget_in_us @ cstr '' us'');
        State_Monad.return (of_int (run_budget_in_us lims)) }
      else State_Monad.return (of_int rem_gen_budget_in_us))"

subsection \<open>The default timeout\<close>

text \<open>
  \<^verbatim>\<open>strtoll\<close> with base 10: the value, limited to 64 bits, and the text that is left. White space
  is that of the C locale.
\<close>

definition isspace :: "byte \<Rightarrow> bool" where
  "isspace c \<longleftrightarrow> c = 0x20 \<or> 0x09 \<le> c \<and> c \<le> 0x0D"

definition isdigit :: "byte \<Rightarrow> bool" where
  "isdigit c \<longleftrightarrow> 0x30 \<le> c \<and> c \<le> 0x39"

definition digits_value :: "byte list \<Rightarrow> int" where
  "digits_value ds = foldl (\<lambda>acc d. 10 * acc + (int (unat d) - 48)) 0 ds"

definition strtoll :: "byte list \<Rightarrow> int \<times> byte list" where
  "strtoll str =
     (let s = dropWhile isspace str;
          neg = (s \<noteq> [] \<and> hd s = 0x2D);
          s' = (if s \<noteq> [] \<and> (hd s = 0x2D \<or> hd s = 0x2B) then tl s else s);
          ds = takeWhile isdigit s';
          v = (if neg then - digits_value ds else digits_value ds)
      in if ds = [] then (0, str)
         else (max (- (2 ^ 63)) (min (2 ^ 63 - 1) v), drop (length ds) s'))"

text \<open>
  \<open>property\<close> is the value of the system property \<^verbatim>\<open>DD_APPSEC_WAF_TIMEOUT\<close>, \<open>run_timeout\<close> the constant
  \<^verbatim>\<open>DDWAF_RUN_TIMEOUT\<close> of the library. The part from the label \<^verbatim>\<open>end\<close> on is \<open>timeout_end\<close>.
\<close>

definition timeout_end :: "j_method option \<Rightarrow> jobject option \<Rightarrow> jobject option \<Rightarrow> unit jni" where
  "timeout_end get_prop env_key val_jstr = do {
     (case get_prop of
        None \<Rightarrow> State_Monad.return ()
      | Some m \<Rightarrow> if class_glob m = None then State_Monad.return () else do { java_meth_destroy m; State_Monad.return () });
     DeleteLocalRef env_key;
     DeleteLocalRef val_jstr }"

definition get_pw_run_timeout_checked :: "jvm \<Rightarrow> int \<Rightarrow> jchar list option \<Rightarrow> int jni" where
  "get_pw_run_timeout_checked J run_timeout property = do {
     get_prop \<leftarrow> java_meth_init_checked J ''java/lang/System'' ''getProperty''
       ''(Ljava/lang/String;)Ljava/lang/String;'' JMETHOD_STATIC;
     case get_prop of
       None \<Rightarrow> do { timeout_end None None None; State_Monad.return run_timeout }
     | Some m \<Rightarrow> do {
         env_key \<leftarrow> new_jstring J (cstr ''DD_APPSEC_WAF_TIMEOUT'');
         if env_key = None then do { timeout_end get_prop None None; State_Monad.return run_timeout }
         else do {
           val_jstr \<leftarrow> java_meth_call J m (map_option JString property);
           exc \<leftarrow> ExceptionCheck;
           if exc then do { timeout_end get_prop env_key val_jstr; State_Monad.return run_timeout }
           else (case property of
               None \<Rightarrow> do {
                 java_log J DDWAF_LOG_DEBUG ''_get_pw_run_timeout_checked'' ''waf_jni.c'' 1946 None
                   (cstr ''No property DD_APPSEC_WAF_TIMEOUT; using default '' @ dec_int run_timeout);
                 timeout_end get_prop env_key val_jstr;
                 State_Monad.return run_timeout }
             | Some str \<Rightarrow> do {
                 val_cstr \<leftarrow> java_to_utf8_checked J str;
                 case val_cstr of
                   None \<Rightarrow> do { timeout_end get_prop env_key val_jstr; State_Monad.return run_timeout }
                 | Some bs \<Rightarrow>
                     (case strtoll bs of (val, end_ptr) \<Rightarrow>
                       if end_ptr \<noteq> [] \<and> hd end_ptr \<noteq> 0 then do {
                         java_log J DDWAF_LOG_WARN ''_get_pw_run_timeout_checked'' ''waf_jni.c'' 1960 None
                           (cstr ''Invalid value of system property DD_APPSEC_WAF_TIMEOUT: '' @ [0x27] @
                            takeWhile (\<lambda>c. c \<noteq> 0) bs @ [0x27]);
                         timeout_end get_prop env_key val_jstr;
                         State_Monad.return val }
                       else do {
                         java_log J DDWAF_LOG_INFO ''_get_pw_run_timeout_checked'' ''waf_jni.c'' 1967 None
                           (cstr ''Using value '' @ dec_int val @ cstr '' us for DD_APPSEC_WAF_TIMEOUT'');
                         timeout_end get_prop env_key val_jstr;
                         State_Monad.return val }) }) }}}"

subsection \<open>Reasoning rules\<close>

lemma read_fieldI:
  assumes "pending e = None" and "\<And>e'. env_to e None 0 e' \<Longrightarrow> Q True e'"
    and "\<And>e' t. env_to e (Some t) 0 e' \<Longrightarrow> \<not> calm J \<Longrightarrow> Q False e'"
  shows "wp (read_field J) Q e"
  using assms by (auto simp: read_field_def wps Let_def env_to_def calmD split: option.split)

definition limits_of :: "int \<Rightarrow> jlimits \<Rightarrow> limits" where
  "limits_of pw_run_timeout lo = \<lparr>
       general_budget_in_us = generalBudgetInUs lo,
       run_budget_in_us = (if 0 < runBudgetInUs lo then runBudgetInUs lo else pw_run_timeout),
       max_depth = maxDepth lo, max_elements = maxElements lo, max_string_size = maxStringSize lo\<rparr>"

lemma fetch_limitsI:
  assumes "pending e = None" and "\<And>e'. env_to e None 0 e' \<Longrightarrow> Q (limits_of tmo lo) e'"
    and "\<And>e' t. env_to e (Some t) 0 e' \<Longrightarrow> \<not> calm J \<Longrightarrow> Q limits0 e'"
  shows "wp (fetch_limits_checked J tmo lo) Q e"
  using assms unfolding fetch_limits_checked_def limits_of_def
  by (auto simp: wp_bind wp_if wp_return env_to_def intro!: read_fieldI)

lemma get_timeI:
  assumes "pending e = None" and "\<And>t. clock = Some t \<Longrightarrow> Q (Some t) e"
    and "\<And>e' x. clock = None \<Longrightarrow> env_to e (Some x) 0 e' \<Longrightarrow> Q None e'"
  shows "wp (get_time_checked J clock) Q e"
  using assms by (auto simp: get_time_checked_def wps intro!: ThrowNewI split: option.split)

text \<open>A reading of the monotonic clock, in nanoseconds.\<close>

definition time_ok :: "timespec \<Rightarrow> bool" where
  "time_ok t \<longleftrightarrow> 0 \<le> tv_sec t \<and> tv_sec t < 2 ^ 33 \<and> 0 \<le> tv_nsec t \<and> tv_nsec t < 1000000000"

definition ns :: "timespec \<Rightarrow> int" where
  "ns t = tv_sec t * 1000000000 + tv_nsec t"

lemma diff_ns_ok:
  assumes "time_ok a" and "time_ok b"
  shows "timespec_diff_ns a b = Some (ns a - ns b)"
proof -
  have "\<bar>(tv_sec a - tv_sec b) * 1000000000\<bar> < 2 ^ 63 - 1000000000" "\<bar>tv_nsec a - tv_nsec b\<bar> < 1000000000"
    using assms by (auto simp: time_ok_def)
  then show ?thesis
    using assms by (auto simp: timespec_diff_ns_def s64_def ns_def time_ok_def algebra_simps)
qed

definition remaining :: "timespec \<Rightarrow> timespec \<Rightarrow> limits \<Rightarrow> int" where
  "remaining start end_time lims = max 0 (general_budget_in_us lims - (ns end_time - ns start) div 1000)"

lemma get_remaining_budgetI:
  assumes "pending e = None" and "time_ok start" "time_ok end_time" "ns start \<le> ns end_time"
    and "- (2 ^ 62) \<le> general_budget_in_us lims" "general_budget_in_us lims < 2 ^ 63"
    and Q: "\<And>e'. env_to e None 0 e' \<Longrightarrow> Q (Some (remaining start end_time lims)) e'"
  shows "wp (get_remaining_budget J start end_time lims) Q e"
proof -
  let ?d = "(ns end_time - ns start) div 1000"
  have d: "(ns end_time - ns start) sdiv 1000 = ?d"
    using assms(4) by (simp add: signed_divide_int_def div_int_pos_iff sgn_if)
  have "ns end_time - ns start < 2 ^ 63"
    using assms(2,3) by (auto simp: time_ok_def ns_def)
  then have "0 \<le> ?d" "?d < 2 ^ 62"
    using assms(4) by auto
  then have "s64 (general_budget_in_us lims - ?d) = Some (general_budget_in_us lims - ?d)"
    using assms(5,6) by (simp add: s64_def)
  then show ?thesis
    using assms(1) Q unfolding get_remaining_budget_def diff_ns_ok [OF assms(3,2)]
    by (auto simp: wps d Let_def remaining_def max_def intro!: java_logI)
qed

lemma get_run_budgetI:
  assumes "pending e = None"
    and "\<And>e'. env_to e None 0 e' \<Longrightarrow> Q (of_int (min (run_budget_in_us lims) rem)) e'"
  shows "wp (get_run_budget J rem lims) Q e"
proof (cases "run_budget_in_us lims < rem")
  case True
  then show ?thesis
    using assms by (auto simp: get_run_budget_def wps min_def intro!: java_logI)
next
  case False
  then show ?thesis
    using assms(1) assms(2) [of e] by (simp add: get_run_budget_def wps min_absorb2 env_to_refl)
qed

lemma timeout_endI:
  assumes "\<And>e'. e' = e\<lparr>weak_refs := weak_refs e - (case m of None \<Rightarrow> 0 | Some jm \<Rightarrow> if class_glob jm = None then 0 else 1),
      refs := refs e - ref_of k - ref_of v\<rparr> \<Longrightarrow> Q () e'"
  shows "wp (timeout_end m k v) Q e"
  using assms
  by (cases k; cases v) (auto simp: timeout_end_def java_meth_destroy_def wps split: option.split)

lemma java_meth_initI:
  assumes "pending e = None"
    and "\<And>jm e'. ready jm \<Longrightarrow> pending e' = None \<Longrightarrow> refs e' = refs e \<Longrightarrow> misuse e' = misuse e \<Longrightarrow>
      weak_refs e' = weak_refs e + (if class_glob jm = None then 0 else 1) \<Longrightarrow> Q (Some jm) e'"
    and "\<And>e'. pending e' \<noteq> None \<Longrightarrow> refs e' = refs e \<Longrightarrow> misuse e' = misuse e \<Longrightarrow> \<not> calm J \<Longrightarrow> Q None e'"
    and "type \<noteq> JMETHOD_UNINITIALIZED"
  shows "wp (java_meth_init_checked J cls name sig type) Q e"
  by (rule wp_mono [OF java_meth_init_wp [OF assms(1)]]) (use assms(2-4) in \<open>auto split: option.splits\<close>)

subsection \<open>Properties\<close>

text \<open>
  C24. With readings of the clock in order and budgets that are not negative, the
  arithmetic never overflows; what is left is the general budget less the microseconds that
  have passed, and nothing if more has passed; and the engine is given the smaller of
  that and the budget of the run.
\<close>

theorem budgets_correct:
  assumes "pending e = None" and "time_ok start" and "time_ok end_time" and "ns start \<le> ns end_time"
    and "0 \<le> general_budget_in_us lims" and "general_budget_in_us lims < 2 ^ 63"
    and "0 \<le> run_budget_in_us lims" and "run_budget_in_us lims < 2 ^ 63"
    and "run_state (get_remaining_budget J start end_time lims) e = (r, e')"
  shows "r = Some (max 0 (general_budget_in_us lims - (ns end_time - ns start) div 1000)) \<and> misuse e' = misuse e \<and>
    int (unat (fst (run_state (get_run_budget J (the r) lims) e'))) = min (run_budget_in_us lims) (the r)"
proof -
  have "wp (get_remaining_budget J start end_time lims)
      (\<lambda>r e'. r = Some (remaining start end_time lims) \<and> misuse e' = misuse e \<and> pending e' = None) e"
    by (rule get_remaining_budgetI [OF assms(1-4)]) (use assms(5,6) in \<open>auto simp: env_to_def\<close>)
  then have r: "r = Some (remaining start end_time lims)" "misuse e' = misuse e" "pending e' = None"
    using wp_run [OF _ assms(9)] by blast+
  let ?m = "min (run_budget_in_us lims) (remaining start end_time lims)"
  have "wp (get_run_budget J (remaining start end_time lims) lims) (\<lambda>b _. b = of_int ?m) e'"
    by (rule get_run_budgetI [OF r(3)]) simp
  then have "fst (run_state (get_run_budget J (the r) lims) e') = of_int ?m"
    using r(1) by (simp add: wp_def split: prod.splits)
  moreover have "0 \<le> ?m" "?m < 2 ^ 64"
    using assms(7,8) by (auto simp: remaining_def)
  then have "int (unat (of_int ?m :: u64)) = ?m"
    by (simp add: uint_word_of_int take_bit_int_eq_self flip: uint_nat)
  ultimately show ?thesis
    using r by (simp add: remaining_def)
qed

theorem budgets_correct_witness:
  "fst (run_state (get_remaining_budget calm_jvm \<lparr>tv_sec = 1, tv_nsec = 999999000\<rparr> \<lparr>tv_sec = 2, tv_nsec = 1500\<rparr>
     (limits0\<lparr>general_budget_in_us := 10, run_budget_in_us := 100\<rparr>)) env0) = Some 8"
  using budgets_correct [of env0 "\<lparr>tv_sec = 1, tv_nsec = 999999000\<rparr>" "\<lparr>tv_sec = 2, tv_nsec = 1500\<rparr>"
      "limits0\<lparr>general_budget_in_us := 10, run_budget_in_us := 100\<rparr>", OF _ _ _ _ _ _ _ _ surjective_pairing, of calm_jvm]
  by (simp add: time_ok_def ns_def limits0_def)

text \<open>
  C25. A defect: a negative default timeout, which the system property can set, is
  passed to the engine as an unsigned number, so the run is in effect not limited at all.
\<close>

theorem negative_timeout_unbounded:
  assumes "pending e = None" and "runBudgetInUs lo \<le> 0" and "tmo < 0" and "- (2 ^ 63) \<le> tmo" and "0 \<le> rem"
    and "run_state (get_run_budget J rem (limits_of tmo lo)) e = (b, e')"
  shows "2 ^ 63 \<le> uint b"
proof -
  have "wp (get_run_budget J rem (limits_of tmo lo)) (\<lambda>b _. b = of_int tmo) e"
    by (rule get_run_budgetI [OF assms(1)]) (use assms(2-5) in \<open>simp add: limits_of_def\<close>)
  then have "b = of_int tmo"
    by (rule wp_run [OF _ assms(6)])
  moreover have "uint (of_int tmo :: u64) = tmo + 2 ^ 64"
  proof -
    have "tmo mod 2 ^ 64 = (tmo + 2 ^ 64) mod 2 ^ 64"
      by simp
    also have "\<dots> = tmo + 2 ^ 64"
      using assms(3,4) by (intro mod_pos_pos_trivial) auto
    finally show ?thesis
      by (simp add: uint_word_of_int take_bit_eq_mod)
  qed
  ultimately show ?thesis
    using assms(4) by simp
qed

theorem negative_timeout_unbounded_witness:
  "2 ^ 63 \<le> uint (fst (run_state (get_run_budget calm_jvm 100 (limits_of (-1)
     \<lparr>maxDepth = 10, maxElements = 10, maxStringSize = 10, generalBudgetInUs = 100, runBudgetInUs = 0\<rparr>)) env0))"
  using negative_timeout_unbounded [of env0
      "\<lparr>maxDepth = 10, maxElements = 10, maxStringSize = 10, generalBudgetInUs = 100, runBudgetInUs = 0\<rparr>" "-1" 100 calm_jvm,
      OF _ _ _ _ _ surjective_pairing] by simp

lemma get_pw_run_timeout_wp:
  assumes "pending e = None" and "calm J" and "\<forall>str. property = Some str \<longrightarrow> length str < 2 ^ 31"
  shows "wp (get_pw_run_timeout_checked J run_timeout property)
      (\<lambda>r e'. pending e' = None \<and> refs e' = refs e \<and> weak_refs e' = weak_refs e \<and> misuse e' = misuse e \<and>
        r = (case property of None \<Rightarrow> run_timeout | Some str \<Rightarrow> fst (strtoll (utf8_of str)))) e"
proof -
  have fits: "jstring_fits (cstr ''DD_APPSEC_WAF_TIMEOUT'')"
    using length_utf16_of [of "cstr ''DD_APPSEC_WAF_TIMEOUT''"] by (simp add: jstring_fits_def INT_MAX_def cstr_def)
  then show ?thesis
    using assms
    by (auto simp: get_pw_run_timeout_checked_def wps env_to_def
        intro!: java_meth_initI new_jstringI meth_callI timeout_endI java_logI java_to_utf8I split: option.split prod.split)
qed

text \<open>
  The default timeout: on a virtual machine on which nothing fails it is
  the constant when the property is absent and otherwise the number at the start of
  its text, also when something else follows, although a warning says that the value is
  invalid. Local and weak references balance.
\<close>

theorem get_pw_run_timeout_correct:
  assumes "pending e = None" and "calm J" and "\<forall>str. property = Some str \<longrightarrow> length str < 2 ^ 31"
    and "run_state (get_pw_run_timeout_checked J run_timeout property) e = (r, e')"
  shows "pending e' = None \<and> refs e' = refs e \<and> weak_refs e' = weak_refs e \<and> misuse e' = misuse e \<and>
    r = (case property of None \<Rightarrow> run_timeout | Some str \<Rightarrow> fst (strtoll (utf8_of str)))"
  by (rule wp_run [OF get_pw_run_timeout_wp [OF assms(1-3)] assms(4)])

theorem get_pw_run_timeout_correct_witness:
  "fst (run_state (get_pw_run_timeout_checked calm_jvm 5000 (Some [0x37, 0x6D, 0x73])) env0) = 7"
proof -
  have u: "utf8_of [0x37, 0x6D, 0x73] = [0x37, 0x6D, 0x73]"
    by (simp add: utf8_of_def UTF16_LEAD_def UTF16_TRAIL_def REPL_CHAR_def write_utf8_codeunits_def)
  have t: "strtoll [0x37, 0x6D, 0x73] = (7, [0x6D, 0x73])"
    by (simp add: strtoll_def isspace_def isdigit_def digits_value_def)
  show ?thesis
    using get_pw_run_timeout_correct [of env0 calm_jvm "Some [0x37, 0x6D, 0x73]" 5000, OF _ _ _ surjective_pairing]
    by (simp add: u t)
qed

end
