(* ===== verification/Convert_Java.thy ===== *)
theory Convert_Java
  imports Budgets Output
begin

text \<open>
  The conversion of Java values to objects of the rule engine: \<^verbatim>\<open>_convert_checked\<close> and
  \<^verbatim>\<open>_get_char_buffer_data\<close> of \<^verbatim>\<open>src/main/c/waf_jni.c\<close>. The limits are passed by reference in the code;
  here they are an argument and a result. The functions of the library that build objects are
  the parameter \<open>object_lib\<close>, the cached methods the record \<open>waf_globals\<close>.
\<close>

subsection \<open>Java values\<close>

text \<open>
  The values as the native code can tell them apart. The key of an entry of a map is the text that
  its \<^verbatim>\<open>toString\<close> returns, \<open>None\<close> for a null key. A \<^verbatim>\<open>CharBuffer\<close> is a record of the array
  behind it (of the buffer itself, when it is direct), its offset in that array, its position and its
  limit. Numbers are the classes that are read by \<^verbatim>\<open>doubleValue\<close>, and the others. An object of any
  other class is known by the name of its class.
\<close>

datatype buffer_kind = Has_array | Direct_native | No_access

record char_buffer =
  cb_kind :: buffer_kind
  cb_array :: "jchar list"
  cb_offset :: nat
  cb_position :: nat
  cb_limit :: nat

datatype jvalue =
    JV_null
  | JV_array "jvalue list"
  | JV_primitive_array nat
  | JV_map "(jchar list option \<times> jvalue) list"
  | JV_iterable "jvalue list"
  | JV_string "jchar list"
  | JV_char_buffer char_buffer
  | JV_char_sequence "jchar list"
  | JV_double "64 word"
  | JV_long "64 word"
  | JV_boolean bool
  | JV_other "jchar list"

text \<open>The characters of a buffer as Java sees them.\<close>

definition cb_chars :: "char_buffer \<Rightarrow> jchar list" where
  "cb_chars cb = take (cb_limit cb - cb_position cb) (drop (cb_offset cb + cb_position cb) (cb_array cb))"

record waf_globals =
  map_entryset :: j_method
  iterable_iterator :: j_method
  iterator_next :: j_method
  entry_key :: j_method
  entry_value :: j_method
  to_string :: j_method
  charSequence_subSequence :: j_method
  charBuffer_order :: j_method
  class_get_name :: j_method

text \<open>
  The library: each function can fail in its \<open>k\<close>-th call. What its documentation promises is
  \<open>object_lib_doc\<close>.
\<close>

record object_lib =
  ddwaf_object_array_add :: "nat \<Rightarrow> ddwaf_object \<Rightarrow> ddwaf_object \<Rightarrow> ddwaf_object option"
  ddwaf_object_map_addl :: "nat \<Rightarrow> ddwaf_object \<Rightarrow> byte list \<Rightarrow> ddwaf_object \<Rightarrow> ddwaf_object option"
  ddwaf_object_stringl :: "nat \<Rightarrow> byte list \<Rightarrow> ddwaf_object option"
  ddwaf_object_float :: "nat \<Rightarrow> 64 word \<Rightarrow> ddwaf_object option"
  ddwaf_object_signed :: "nat \<Rightarrow> 64 word \<Rightarrow> ddwaf_object option"
  ddwaf_object_bool :: "nat \<Rightarrow> bool \<Rightarrow> ddwaf_object option"

definition lib_call :: "(nat \<Rightarrow> 'a) \<Rightarrow> 'a jni" where
  "lib_call f = State (\<lambda>e. (f (mtick e), e\<lparr>mtick := mtick e + 1\<rparr>))"

subsection \<open>Loops\<close>

definition pwinput_invalid :: ddwaf_object where
  "pwinput_invalid = DdwafObject [] (DDWAF_OBJ_MAP [])"

type_synonym conversion = "(ddwaf_object \<times> limits) jni"

text \<open>
  The call of a library function that returns whether it succeeded; \<open>None\<close> is the jump to the
  label \<^verbatim>\<open>error\<close> after the exception is thrown.
\<close>

definition lib_checked :: "jvm \<Rightarrow> string \<Rightarrow> (nat \<Rightarrow> ddwaf_object option) \<Rightarrow> ddwaf_object option jni" where
  "lib_checked J msg f = do {
     r \<leftarrow> lib_call f;
     case r of
       None \<Rightarrow> do { ThrowNew J (RuntimeException msg); State_Monad.return None }
     | Some ob \<Rightarrow> State_Monad.return (Some ob) }"

text \<open>A local reference to a value that the virtual machine returns without a possible failure.\<close>

definition local_of :: "jvalue \<Rightarrow> unit option" where
  "local_of v = (if v = JV_null then None else Some ())"

definition new_local :: "unit option \<Rightarrow> unit jni" where
  "new_local r = State (\<lambda>e. ((), e\<lparr>refs := refs e + ref_of r\<rparr>))"

text \<open>
  The part of the loops over arrays and iterables that converts an element, to which \<open>element\<close> refers, and adds
  it to the result.
\<close>

definition add_element ::
    "jvm \<Rightarrow> object_lib \<Rightarrow> conversion \<Rightarrow> unit option \<Rightarrow> ddwaf_object \<Rightarrow> (ddwaf_object \<times> limits) option jni" where
  "add_element J L converted element result = do {
     (val, lims) \<leftarrow> converted;
     exc \<leftarrow> ExceptionCheck;
     if exc then State_Monad.return None
     else do {
       r \<leftarrow> lib_call (\<lambda>k. ddwaf_object_array_add L k result val);
       DeleteLocalRef element;
       case r of
         None \<Rightarrow> do {
           ThrowNew J (RuntimeException ''ddwaf_object_array_add failed (OOM?)'');
           State_Monad.return None }
       | Some result' \<Rightarrow> State_Monad.return (Some (result', lims)) }}"

primrec array_loop ::
    "jvm \<Rightarrow> object_lib \<Rightarrow> (jvalue \<Rightarrow> limits \<Rightarrow> conversion) \<Rightarrow> jvalue list \<Rightarrow> ddwaf_object \<Rightarrow> limits \<Rightarrow>
       (ddwaf_object \<times> limits) option jni" where
  "array_loop J L conv [] result lims = State_Monad.return (Some (result, lims))"
| "array_loop J L conv (x # xs) result lims =
     (if max_elements lims \<le> 0 then do {
        java_log J DDWAF_LOG_INFO ''_convert_checked'' ''waf_jni.c'' 1457 None (cstr ''Interrupting iterating array due to the max of elements being reached'');
        State_Monad.return (Some (result, lims)) }
      else do {
        new_local (local_of x);
        r \<leftarrow> add_element J L (conv x lims) (local_of x) result;
        case r of
          None \<Rightarrow> State_Monad.return None
        | Some (result', lims') \<Rightarrow> array_loop J L conv xs result' lims' })"

text \<open>
  \<^verbatim>\<open>hasNext\<close>: its result when it does not throw; what the call returns when it throws is not
  specified, so the oracle decides. The loops only look for an exception when it is \<^verbatim>\<open>true\<close>.
\<close>

definition has_next :: "jvm \<Rightarrow> bool \<Rightarrow> bool jni" where
  "has_next J more_elements = do { ok \<leftarrow> JNI_call J; State (\<lambda>e. (if ok then more_elements else nulls J (jtick e), e)) }"

text \<open>
  The loop over an iterator. The result \<open>None\<close> is a jump to \<^verbatim>\<open>error\<close>. When the list is empty
  and \<^verbatim>\<open>hasNext\<close> throws and returns \<^verbatim>\<open>true\<close>, the check finds the exception.
\<close>

primrec iterable_loop ::
    "jvm \<Rightarrow> waf_globals \<Rightarrow> object_lib \<Rightarrow> (jvalue \<Rightarrow> limits \<Rightarrow> conversion) \<Rightarrow> jvalue list \<Rightarrow> ddwaf_object \<Rightarrow> limits \<Rightarrow>
       (ddwaf_object \<times> limits) option jni" where
  "iterable_loop J W L conv [] result lims = do {
     nxt \<leftarrow> has_next J False;
     State_Monad.return (if nxt then None else Some (result, lims)) }"
| "iterable_loop J W L conv (x # xs) result lims = do {
     nxt \<leftarrow> has_next J True;
     if \<not> nxt then State_Monad.return (Some (result, lims))
     else do {
       exc \<leftarrow> ExceptionCheck;
       if exc then State_Monad.return None
       else if max_elements lims \<le> 0 then do {
         java_log J DDWAF_LOG_DEBUG ''_convert_checked'' ''waf_jni.c'' 1561 None (cstr ''Interrupting iterable iteration due to the max of elements being reached'');
         State_Monad.return (Some (result, lims)) }
       else do {
         element \<leftarrow> java_meth_call J (iterator_next W) (local_of x);
         exc \<leftarrow> ExceptionCheck;
         if exc then State_Monad.return None
         else do {
           r \<leftarrow> add_element J L (conv x lims) element result;
           case r of
             None \<Rightarrow> State_Monad.return None
           | Some (result', lims') \<Rightarrow> iterable_loop J W L conv xs result' lims' }}}}"

text \<open>The part of the loop over a map that converts a value and adds the entry.\<close>

definition add_entry ::
    "jvm \<Rightarrow> object_lib \<Rightarrow> conversion \<Rightarrow> jchar list \<Rightarrow> unit option \<Rightarrow> unit option \<Rightarrow> ddwaf_object \<Rightarrow>
       (ddwaf_object \<times> limits) option jni" where
  "add_entry J L converted key key_jstr value_obj result = do {
     (val, lims) \<leftarrow> converted;
     exc \<leftarrow> ExceptionCheck;
     if exc then State_Monad.return None
     else do {
       key_cstr \<leftarrow> java_to_utf8_limited_checked J key (max_string_size lims);
       case key_cstr of
         None \<Rightarrow> State_Monad.return None
       | Some key_bytes \<Rightarrow> do {
           r \<leftarrow> lib_call (\<lambda>k. ddwaf_object_map_addl L k result key_bytes val);
           DeleteLocalRef value_obj;
           DeleteLocalRef key_jstr;
           case r of
             None \<Rightarrow> do {
               ThrowNew J (RuntimeException ''ddwaf_object_map_add failed (OOM?)'');
               State_Monad.return None }
           | Some result' \<Rightarrow> State_Monad.return (Some (result', lims)) }}}"

text \<open>The loop over the entries of a map. A null key has no \<^verbatim>\<open>toString\<close>: the call is not defined.\<close>

primrec map_loop ::
    "jvm \<Rightarrow> waf_globals \<Rightarrow> object_lib \<Rightarrow> (jvalue \<Rightarrow> limits \<Rightarrow> conversion) \<Rightarrow> (jchar list option \<times> jvalue) list \<Rightarrow>
       ddwaf_object \<Rightarrow> limits \<Rightarrow> (ddwaf_object \<times> limits) option jni" where
  "map_loop J W L conv [] result lims = do {
     nxt \<leftarrow> has_next J False;
     State_Monad.return (if nxt then None else Some (result, lims)) }"
| "map_loop J W L conv (x # xs) result lims = do {
     nxt \<leftarrow> has_next J True;
     if \<not> nxt then State_Monad.return (Some (result, lims))
     else do {
       exc \<leftarrow> ExceptionCheck;
       if exc then State_Monad.return None
       else if max_elements lims \<le> 0 then do {
         java_log J DDWAF_LOG_DEBUG ''_convert_checked'' ''waf_jni.c'' 1495 None
           (cstr ''Interrupting map iteration due to the max number of elements being reached'');
         State_Monad.return (Some (result, lims)) }
       else do {
         entry \<leftarrow> java_meth_call J (iterator_next W) (Some ());
         exc \<leftarrow> ExceptionCheck;
         if exc then State_Monad.return None else do {
         key_obj \<leftarrow> java_meth_call J (entry_key W) (map_option (\<lambda>_. ()) (fst x));
         exc \<leftarrow> ExceptionCheck;
         if exc then State_Monad.return None else
         (case fst x of
            None \<Rightarrow> undefined_access
          | Some key \<Rightarrow> do {
              key_jstr \<leftarrow> java_meth_call J (to_string W) (Some ());
              exc \<leftarrow> ExceptionCheck;
              if exc then do {
                wrap_exc J ''waf_jni.c'' ''_convert_checked'' 1506 (cstr ''Error calling toString() on map key'');
                State_Monad.return None }
              else do {
              value_obj \<leftarrow> java_meth_call J (entry_value W) (local_of (snd x));
              exc \<leftarrow> ExceptionCheck;
              if exc then State_Monad.return None
              else do {
                DeleteLocalRef key_obj;
                DeleteLocalRef entry;
                r \<leftarrow> add_entry J L (conv (snd x) lims) key key_jstr value_obj result;
                case r of
                  None \<Rightarrow> State_Monad.return None
                | Some (result', lims') \<Rightarrow> map_loop J W L conv xs result' lims' }}}) }}}}"

lemma loop_congs [fundef_cong]:
  "xs = ys \<Longrightarrow> (\<And>x l. x \<in> set ys \<Longrightarrow> f x l = g x l) \<Longrightarrow> J = J' \<Longrightarrow> L = L' \<Longrightarrow> res = res' \<Longrightarrow> lims = lims' \<Longrightarrow>
     array_loop J L f xs res lims = array_loop J' L' g ys res' lims'"
  "xs = ys \<Longrightarrow> (\<And>x l. x \<in> set ys \<Longrightarrow> f x l = g x l) \<Longrightarrow> J = J' \<Longrightarrow> W = W' \<Longrightarrow> L = L' \<Longrightarrow> res = res' \<Longrightarrow> lims = lims' \<Longrightarrow>
     iterable_loop J W L f xs res lims = iterable_loop J' W' L' g ys res' lims'"
  "ms = ms' \<Longrightarrow> (\<And>x l. x \<in> snd ` set ms' \<Longrightarrow> f x l = g x l) \<Longrightarrow> J = J' \<Longrightarrow> W = W' \<Longrightarrow> L = L' \<Longrightarrow> res = res' \<Longrightarrow> lims = lims' \<Longrightarrow>
     map_loop J W L f ms res lims = map_loop J' W' L' g ms' res' lims'"
proof -
  show "xs = ys \<Longrightarrow> (\<And>x l. x \<in> set ys \<Longrightarrow> f x l = g x l) \<Longrightarrow> J = J' \<Longrightarrow> L = L' \<Longrightarrow> res = res' \<Longrightarrow> lims = lims' \<Longrightarrow>
     array_loop J L f xs res lims = array_loop J' L' g ys res' lims'"
  proof (induction xs arbitrary: ys res res' lims lims')
    case (Cons x xs)
    then have "array_loop J L f xs = array_loop J L g xs" "f x = g x"
      by (auto intro!: ext)
    then show ?case
      unfolding Cons.prems(3-) Cons.prems(1) [symmetric] by (simp cong: if_cong option.case_cong)
  qed simp
  show "xs = ys \<Longrightarrow> (\<And>x l. x \<in> set ys \<Longrightarrow> f x l = g x l) \<Longrightarrow> J = J' \<Longrightarrow> W = W' \<Longrightarrow> L = L' \<Longrightarrow> res = res' \<Longrightarrow> lims = lims' \<Longrightarrow>
     iterable_loop J W L f xs res lims = iterable_loop J' W' L' g ys res' lims'"
  proof (induction xs arbitrary: ys res res' lims lims')
    case (Cons x xs)
    then have "iterable_loop J W L f xs = iterable_loop J W L g xs" "f x = g x"
      by (auto intro!: ext)
    then show ?case
      unfolding Cons.prems(3-) Cons.prems(1) [symmetric] by (simp cong: if_cong option.case_cong)
  qed simp
  show "ms = ms' \<Longrightarrow> (\<And>x l. x \<in> snd ` set ms' \<Longrightarrow> f x l = g x l) \<Longrightarrow> J = J' \<Longrightarrow> W = W' \<Longrightarrow> L = L' \<Longrightarrow> res = res' \<Longrightarrow> lims = lims' \<Longrightarrow>
     map_loop J W L f ms res lims = map_loop J' W' L' g ms' res' lims'"
  proof (induction ms arbitrary: ms' res res' lims lims')
    case (Cons x ms)
    then have "map_loop J W L f ms = map_loop J W L g ms" "f (snd x) = g (snd x)"
      by (auto intro!: ext)
    then show ?case
      unfolding Cons.prems(3-) Cons.prems(1) [symmetric] by (simp cong: if_cong option.case_cong)
  qed simp
qed

subsection \<open>Strings\<close>

text \<open>
  \<^verbatim>\<open>_get_char_buffer_data\<close>: \<open>Some call_release\<close> when there is an array that can be read; it starts at the
  position of the buffer and ends at its limit.
\<close>

definition get_char_buffer_data :: "jvm \<Rightarrow> waf_globals \<Rightarrow> char_buffer \<Rightarrow> bool option jni" where
  "get_char_buffer_data J W cb = do {
     ok \<leftarrow> read_field J;
     if \<not> ok then State_Monad.return None else do {
     ok \<leftarrow> read_field J;
     if \<not> ok then State_Monad.return None else do {
     ok \<leftarrow> read_field J;
     if \<not> ok then State_Monad.return None
     else if cb_kind cb = Has_array then do {
       javaArray \<leftarrow> JNI_local J (Some ());
       exc \<leftarrow> ExceptionCheck;
       if exc then State_Monad.return None
       else do {
         ok \<leftarrow> read_field J;
         if \<not> ok then do { DeleteLocalRef javaArray; State_Monad.return None }
         else State_Monad.return (Some True) }}
     else do {
       order \<leftarrow> java_meth_call J (charBuffer_order W) (Some ());
       exc \<leftarrow> ExceptionCheck;
       if exc then State_Monad.return None
       else do {
         DeleteLocalRef order;
         State_Monad.return (if cb_kind cb = Direct_native then Some False else None) }}}}}"

text \<open>The end of the string branches: the bytes become a string object.\<close>

definition string_object :: "jvm \<Rightarrow> object_lib \<Rightarrow> byte list option \<Rightarrow> ddwaf_object option jni" where
  "string_object J L bs =
     (case bs of
        None \<Rightarrow> State_Monad.return None
      | Some str \<Rightarrow> lib_checked J ''ddwaf_object_stringl failed (OOM?)'' (\<lambda>k. ddwaf_object_stringl L k str))"

text \<open>The branch for a \<^verbatim>\<open>CharSequence\<close> whose characters cannot be read in place.\<close>

definition convert_char_sequence ::
    "jvm \<Rightarrow> waf_globals \<Rightarrow> object_lib \<Rightarrow> int \<Rightarrow> jchar list \<Rightarrow> ddwaf_object option jni" where
  "convert_char_sequence J W L max_utf16_len chars = do {
     ok \<leftarrow> read_field J;
     if \<not> ok then State_Monad.return None
     else do {
       let delete_obj = (max_utf16_len < int (length chars));
       new_obj \<leftarrow> (if \<not> delete_obj then State_Monad.return None
                   else if max_utf16_len < 0 then do {
                     ThrowNew J (OtherThrowable ''java.lang.IndexOutOfBoundsException'');
                     State_Monad.return None }
                   else java_meth_call J (charSequence_subSequence W) (Some ()));
       exc \<leftarrow> ExceptionCheck;
       if exc then State_Monad.return None
       else do {
         let chars' = (if delete_obj then take (nat max_utf16_len) chars else chars);
         str \<leftarrow> java_meth_call J (to_string W) (Some ());
         DeleteLocalRef new_obj;
         exc \<leftarrow> ExceptionCheck;
         if exc then State_Monad.return None
         else do {
           utf8_out \<leftarrow> java_to_utf8_checked J chars';
           string_object J L utf8_out }}}}"

text \<open>
  The branch for a \<^verbatim>\<open>CharBuffer\<close>. A length that is negative or reaches past the end of the array makes the
  conversion read outside of the array.
\<close>

definition convert_char_buffer ::
    "jvm \<Rightarrow> waf_globals \<Rightarrow> object_lib \<Rightarrow> int \<Rightarrow> char_buffer \<Rightarrow> ddwaf_object option jni" where
  "convert_char_buffer J W L max_utf16_len cb = do {
     cbi \<leftarrow> get_char_buffer_data J W cb;
     exc \<leftarrow> ExceptionCheck;
     if exc then State_Monad.return None
     else (case cbi of
         None \<Rightarrow> convert_char_sequence J W L max_utf16_len (cb_chars cb)
       | Some call_release \<Rightarrow> do {
           let n = int (cb_limit cb) - int (cb_position cb);
           let utf16_len = (if max_utf16_len < n then max_utf16_len else n);
           if utf16_len < 0 \<or> int (length (cb_array cb)) < int (cb_position cb) + utf16_len then undefined_access
           else do {
             utf8_out \<leftarrow> utf16_to_utf8 J (drop (cb_position cb) (cb_array cb)) (nat utf16_len);
             DeleteLocalRef (if call_release then Some () else None);
             exc \<leftarrow> ExceptionCheck;
             if exc then State_Monad.return None else string_object J L utf8_out }}) }"

text \<open>The branch for objects of other classes, which only writes a message.\<close>

definition convert_other :: "jvm \<Rightarrow> waf_globals \<Rightarrow> jchar list \<Rightarrow> unit jni" where
  "convert_other J W class_name =
     (if \<not> log_level_enabled J DDWAF_LOG_DEBUG then State_Monad.return ()
      else do {
        new_local (Some ());
        nm \<leftarrow> java_meth_call J (class_get_name W) (Some ());
        exc \<leftarrow> ExceptionCheck;
        name_c \<leftarrow> (if exc then do { ExceptionClear; State_Monad.return (cstr ''<unknown class>'') }
                   else do {
                     name_c \<leftarrow> java_to_utf8_checked J class_name;
                     exc \<leftarrow> ExceptionCheck;
                     if exc then do { ExceptionClear; State_Monad.return (cstr ''<unknown class>'') }
                     else State_Monad.return (the name_c) });
        java_log J DDWAF_LOG_DEBUG ''_convert_checked'' ''waf_jni.c'' 1733 None (cstr ''Could not convert object of type '' @ name_c @ cstr ''; encoding as invalid'') })"

subsection \<open>Values\<close>

definition undefined_behaviour :: "unit jni" where
  "undefined_behaviour = State (\<lambda>e. ((), e\<lparr>misuse := True\<rparr>))"

text \<open>Numbers and booleans: a Java method gives the value, which becomes an object of the engine.\<close>

definition convert_double :: "jvm \<Rightarrow> object_lib \<Rightarrow> 64 word \<Rightarrow> ddwaf_object option jni" where
  "convert_double J L dval = do {
     ok \<leftarrow> read_field J;
     if \<not> ok then State_Monad.return None
     else lib_checked J ''ddwaf_object_signed failed'' (\<lambda>k. ddwaf_object_float L k dval) }"

definition convert_long :: "jvm \<Rightarrow> object_lib \<Rightarrow> 64 word \<Rightarrow> ddwaf_object option jni" where
  "convert_long J L lval = do {
     ok \<leftarrow> read_field J;
     if \<not> ok then State_Monad.return None
     else lib_checked J ''ddwaf_object_signed failed'' (\<lambda>k. ddwaf_object_signed L k lval) }"

definition convert_boolean :: "jvm \<Rightarrow> object_lib \<Rightarrow> bool \<Rightarrow> ddwaf_object option jni" where
  "convert_boolean J L bval = do {
     ok \<leftarrow> read_field J;
     if \<not> ok then State_Monad.return None
     else lib_checked J ''ddwaf_object_bool failed (OOM?)'' (\<lambda>k. ddwaf_object_bool L k bval) }"

definition or_invalid :: "limits \<Rightarrow> ddwaf_object option \<Rightarrow> ddwaf_object \<times> limits" where
  "or_invalid lims r = (case r of None \<Rightarrow> (pwinput_invalid, lims) | Some ob \<Rightarrow> (ob, lims))"

definition depth_message :: "string \<Rightarrow> limits \<Rightarrow> byte list" where
  "depth_message what lims = cstr ''Leaving '' @ cstr what @ cstr '' empty because max depth of '' @
     dec_int (max_depth lims) @ cstr '' has been reached''"

abbreviation empty_array :: ddwaf_object where
  "empty_array \<equiv> DdwafObject [] (DDWAF_OBJ_ARRAY [])"

abbreviation empty_map :: ddwaf_object where
  "empty_map \<equiv> DdwafObject [] (DDWAF_OBJ_MAP [])"

lemma size_members:
  "x \<in> set xs \<Longrightarrow> size x < Suc (size_list size xs)"
  "(k, x) \<in> set ms \<Longrightarrow> size x < Suc (size_list (size_prod (\<lambda>_. 0) size) ms)"
proof -
  show "x \<in> set xs \<Longrightarrow> size x < Suc (size_list size xs)"
    using size_list_estimation' [of x xs "size x" size] by simp
  show "(k, x) \<in> set ms \<Longrightarrow> size x < Suc (size_list (size_prod (\<lambda>_. 0) size) ms)"
    using size_list_estimation' [of "(k, x)" ms "size x" "size_prod (\<lambda>_. 0) size"] by simp
qed

text \<open>The question whether the object is an array: \<^verbatim>\<open>Class.isArray\<close> can throw.\<close>

definition is_array_check :: "jvm \<Rightarrow> jvalue \<Rightarrow> bool jni" where
  "is_array_check J obj =
     (if obj = JV_null then State_Monad.return True
      else do {
        new_local (Some ());
        ok \<leftarrow> read_field J;
        (if ok then DeleteLocalRef (Some ()) else State_Monad.return ());
        State_Monad.return ok })"

function convert_checked :: "jvm \<Rightarrow> waf_globals \<Rightarrow> object_lib \<Rightarrow> limits \<Rightarrow> jvalue \<Rightarrow> int \<Rightarrow> conversion" where
  "convert_checked J W L lims0 obj rec_level =
     (let lims = lims0\<lparr>max_elements := max_elements lims0 - 1\<rparr> in
      if max_depth lims < rec_level then do {
        ThrowNew J (RuntimeException ''Maximum recursion level exceeded'');
        undefined_behaviour;
        State_Monad.return (pwinput_invalid, lims) }
      else do {
        ok \<leftarrow> is_array_check J obj;
        if \<not> ok then State_Monad.return (pwinput_invalid, lims)
        else (case obj of
            JV_null \<Rightarrow> State_Monad.return (DdwafObject [] DDWAF_OBJ_NULL, lims)
          | JV_array xs \<Rightarrow>
              if max_depth lims \<le> rec_level then do {
                java_log J DDWAF_LOG_INFO ''_convert_checked'' ''waf_jni.c'' 1445 None (depth_message ''array'' lims);
                State_Monad.return (empty_array, lims) }
              else do {
                r \<leftarrow> array_loop J L (\<lambda>x l. convert_checked J W L l x (rec_level + 1)) xs empty_array lims;
                State_Monad.return (case r of None \<Rightarrow> (pwinput_invalid, lims) | Some r \<Rightarrow> r) }
          | JV_primitive_array n \<Rightarrow>
              if max_depth lims \<le> rec_level then do {
                java_log J DDWAF_LOG_INFO ''_convert_checked'' ''waf_jni.c'' 1445 None (depth_message ''array'' lims);
                State_Monad.return (empty_array, lims) }
              else if n = 0 then State_Monad.return (empty_array, lims)
              else if max_elements lims \<le> 0 then do {
                java_log J DDWAF_LOG_INFO ''_convert_checked'' ''waf_jni.c'' 1457 None (cstr ''Interrupting iterating array due to the max of elements being reached'');
                State_Monad.return (empty_array, lims) }
              else do {
                undefined_behaviour;
                State_Monad.return (pwinput_invalid, lims) }
          | JV_map ms \<Rightarrow>
              if max_depth lims \<le> rec_level then do {
                java_log J DDWAF_LOG_DEBUG ''_convert_checked'' ''waf_jni.c'' 1479 None (depth_message ''map'' lims);
                State_Monad.return (empty_map, lims) }
              else do {
                entry_set \<leftarrow> java_meth_call J (map_entryset W) (Some ());
                exc \<leftarrow> ExceptionCheck;
                if exc then State_Monad.return (pwinput_invalid, lims) else do {
                entry_set_it \<leftarrow> java_meth_call J (iterable_iterator W) (Some ());
                exc \<leftarrow> ExceptionCheck;
                if exc then State_Monad.return (pwinput_invalid, lims) else do {
                r \<leftarrow> map_loop J W L (\<lambda>x l. convert_checked J W L l x (rec_level + 1)) ms empty_map lims;
                case r of
                  None \<Rightarrow> State_Monad.return (pwinput_invalid, lims)
                | Some r \<Rightarrow> do {
                    DeleteLocalRef entry_set_it;
                    DeleteLocalRef entry_set;
                    State_Monad.return r }}}}
          | JV_iterable xs \<Rightarrow>
              if max_depth lims \<le> rec_level then do {
                java_log J DDWAF_LOG_DEBUG ''_convert_checked'' ''waf_jni.c'' 1547 None (depth_message ''array'' lims);
                State_Monad.return (empty_array, lims) }
              else do {
                it \<leftarrow> java_meth_call J (iterable_iterator W) (Some ());
                exc \<leftarrow> ExceptionCheck;
                if exc then State_Monad.return (pwinput_invalid, lims) else do {
                r \<leftarrow> iterable_loop J W L (\<lambda>x l. convert_checked J W L l x (rec_level + 1)) xs empty_array lims;
                case r of
                  None \<Rightarrow> State_Monad.return (pwinput_invalid, lims)
                | Some r \<Rightarrow> do { DeleteLocalRef it; State_Monad.return r }}}
          | JV_string str \<Rightarrow> do {
              str_c \<leftarrow> java_to_utf8_limited_checked J str (max_string_size lims);
              r \<leftarrow> string_object J L str_c;
              State_Monad.return (or_invalid lims r) }
          | JV_char_buffer cb \<Rightarrow> do {
              r \<leftarrow> convert_char_buffer J W L (max_string_size lims) cb;
              State_Monad.return (or_invalid lims r) }
          | JV_char_sequence chars \<Rightarrow> do {
              r \<leftarrow> convert_char_sequence J W L (max_string_size lims) chars;
              State_Monad.return (or_invalid lims r) }
          | JV_double dval \<Rightarrow> do {
              r \<leftarrow> convert_double J L dval;
              State_Monad.return (or_invalid lims r) }
          | JV_long lval \<Rightarrow> do {
              r \<leftarrow> convert_long J L lval;
              State_Monad.return (or_invalid lims r) }
          | JV_boolean bval \<Rightarrow> do {
              r \<leftarrow> convert_boolean J L bval;
              State_Monad.return (or_invalid lims r) }
          | JV_other class_name \<Rightarrow> do {
              convert_other J W class_name;
              State_Monad.return (pwinput_invalid, lims) }) })"
  by pat_completeness auto
termination
  by (relation "measure (\<lambda>(J, W, L, lims, obj, rec_level). size obj)") (auto simp: size_members)

declare convert_checked.simps [simp del]

subsection \<open>What the conversion should compute\<close>

text \<open>
  The value of an object under a depth limit \<open>md\<close> and a string limit \<open>sm\<close>, at depth \<open>rec_level\<close>, when
  \<open>n\<close> elements may still be converted; and how many are left then.
\<close>

primrec take_elems :: "('x \<Rightarrow> int \<Rightarrow> 'y \<times> int) \<Rightarrow> 'x list \<Rightarrow> 'y list \<Rightarrow> int \<Rightarrow> 'y list \<times> int" where
  "take_elems conv [] acc n = (acc, n)"
| "take_elems conv (x # xs) acc n =
     (if n \<le> 0 then (acc, n) else case conv x n of (y, n') \<Rightarrow> take_elems conv xs (acc @ [y]) n')"

lemma take_elems_cong [fundef_cong]:
  "xs = ys \<Longrightarrow> (\<And>x n. x \<in> set ys \<Longrightarrow> f x n = g x n) \<Longrightarrow> acc = acc' \<Longrightarrow> n = n' \<Longrightarrow>
     take_elems f xs acc n = take_elems g ys acc' n'"
proof (induction xs arbitrary: ys acc acc' n n')
  case (Cons x xs)
  then have "f x = g x" "take_elems f xs = take_elems g xs"
    by (auto intro!: ext)
  then show ?case
    unfolding Cons.prems(3-) Cons.prems(1) [symmetric] by (simp cong: if_cong)
qed simp

text \<open>The characters of a buffer as the code reads them.\<close>

definition buffer_text :: "char_buffer \<Rightarrow> jchar list" where
  "buffer_text cb = (if cb_kind cb = No_access then cb_chars cb
     else take (cb_limit cb - cb_position cb) (drop (cb_position cb) (cb_array cb)))"

definition entry_of :: "int \<Rightarrow> jchar list option \<Rightarrow> ddwaf_object \<Rightarrow> ddwaf_object" where
  "entry_of sm key v = DdwafObject (utf8_spec (the key) sm) (payload v)"

function to_ddwaf :: "int \<Rightarrow> int \<Rightarrow> jvalue \<Rightarrow> int \<Rightarrow> int \<Rightarrow> ddwaf_object \<times> int" where
  "to_ddwaf md sm obj rec_level n =
     (case obj of
        JV_null \<Rightarrow> (DdwafObject [] DDWAF_OBJ_NULL, n - 1)
      | JV_array xs \<Rightarrow>
          if md \<le> rec_level then (empty_array, n - 1)
          else apfst (\<lambda>es. DdwafObject [] (DDWAF_OBJ_ARRAY es))
            (take_elems (\<lambda>x. to_ddwaf md sm x (rec_level + 1)) xs [] (n - 1))
      | JV_primitive_array k \<Rightarrow> (empty_array, n - 1)
      | JV_map ms \<Rightarrow>
          if md \<le> rec_level then (empty_map, n - 1)
          else apfst (\<lambda>es. DdwafObject [] (DDWAF_OBJ_MAP es))
            (take_elems (\<lambda>x k. apfst (entry_of sm (fst x)) (to_ddwaf md sm (snd x) (rec_level + 1) k)) ms [] (n - 1))
      | JV_iterable xs \<Rightarrow>
          if md \<le> rec_level then (empty_array, n - 1)
          else apfst (\<lambda>es. DdwafObject [] (DDWAF_OBJ_ARRAY es))
            (take_elems (\<lambda>x. to_ddwaf md sm x (rec_level + 1)) xs [] (n - 1))
      | JV_string str \<Rightarrow> (DdwafObject [] (DDWAF_OBJ_STRING (utf8_spec str sm)), n - 1)
      | JV_char_buffer cb \<Rightarrow> (DdwafObject [] (DDWAF_OBJ_STRING (utf8_of (take (nat sm) (buffer_text cb)))), n - 1)
      | JV_char_sequence chars \<Rightarrow> (DdwafObject [] (DDWAF_OBJ_STRING (utf8_of (take (nat sm) chars))), n - 1)
      | JV_double dval \<Rightarrow> (DdwafObject [] (DDWAF_OBJ_FLOAT dval), n - 1)
      | JV_long lval \<Rightarrow> (DdwafObject [] (DDWAF_OBJ_SIGNED lval), n - 1)
      | JV_boolean bval \<Rightarrow> (DdwafObject [] (DDWAF_OBJ_BOOL bval), n - 1)
      | JV_other nm \<Rightarrow> (pwinput_invalid, n - 1))"
  by pat_completeness auto
termination
  by (relation "measure (\<lambda>(md, sm, obj, rec_level, n). size obj)") (auto simp: size_members)

declare to_ddwaf.simps [simp del]

text \<open>
  The values that Java code can pass: Java strings have fewer than \<open>2 ^ 31\<close> characters, buffers lie in their
  array. Two restrictions are needed because the code does not check: keys are not null, and arrays are arrays
  of objects.
\<close>

function good_value :: "jvalue \<Rightarrow> bool" where
  "good_value obj =
     (case obj of
        JV_array xs \<Rightarrow> list_all good_value xs
      | JV_primitive_array k \<Rightarrow> k = 0
      | JV_map ms \<Rightarrow> list_all (\<lambda>x. good_value (snd x) \<and> (\<exists>key. fst x = Some key \<and> length key < 2 ^ 31)) ms
      | JV_iterable xs \<Rightarrow> list_all good_value xs
      | JV_string str \<Rightarrow> length str < 2 ^ 31
      | JV_char_buffer cb \<Rightarrow> cb_position cb \<le> cb_limit cb \<and> cb_limit cb < 2 ^ 31 \<and>
          (cb_kind cb \<noteq> No_access \<longrightarrow> cb_limit cb \<le> length (cb_array cb))
      | JV_char_sequence chars \<Rightarrow> length chars < 2 ^ 31
      | JV_other nm \<Rightarrow> length nm < 2 ^ 31
      | _ \<Rightarrow> True)"
  by pat_completeness auto
termination
  by (relation "measure size") (auto simp: size_members)

declare good_value.simps [simp del]

definition object_lib_doc :: "object_lib \<Rightarrow> bool" where
  "object_lib_doc L \<longleftrightarrow>
     (\<forall>k nm es v. ddwaf_object_array_add L k (DdwafObject nm (DDWAF_OBJ_ARRAY es)) v \<in>
        {None, Some (DdwafObject nm (DDWAF_OBJ_ARRAY (es @ [v])))}) \<and>
     (\<forall>k nm es key v. ddwaf_object_map_addl L k (DdwafObject nm (DDWAF_OBJ_MAP es)) key v \<in>
        {None, Some (DdwafObject nm (DDWAF_OBJ_MAP (es @ [DdwafObject key (payload v)])))}) \<and>
     (\<forall>k str. ddwaf_object_stringl L k str \<in> {None, Some (DdwafObject [] (DDWAF_OBJ_STRING str))}) \<and>
     (\<forall>k w. ddwaf_object_float L k w \<in> {None, Some (DdwafObject [] (DDWAF_OBJ_FLOAT w))}) \<and>
     (\<forall>k w. ddwaf_object_signed L k w \<in> {None, Some (DdwafObject [] (DDWAF_OBJ_SIGNED w))}) \<and>
     (\<forall>k b. ddwaf_object_bool L k b \<in> {None, Some (DdwafObject [] (DDWAF_OBJ_BOOL b))})"

text \<open>Nothing fails: the virtual machine, the library, and the methods are initialised.\<close>

definition all_well :: "jvm \<Rightarrow> waf_globals \<Rightarrow> object_lib \<Rightarrow> bool" where
  "all_well J W L \<longleftrightarrow> calm J \<and>
     (\<forall>k ob v. ddwaf_object_array_add L k ob v \<noteq> None) \<and> (\<forall>k ob key v. ddwaf_object_map_addl L k ob key v \<noteq> None) \<and>
     (\<forall>k str. ddwaf_object_stringl L k str \<noteq> None) \<and> (\<forall>k w. ddwaf_object_float L k w \<noteq> None) \<and>
     (\<forall>k w. ddwaf_object_signed L k w \<noteq> None) \<and> (\<forall>k b. ddwaf_object_bool L k b \<noteq> None) \<and>
     ready (map_entryset W) \<and> ready (iterable_iterator W) \<and> ready (iterator_next W) \<and> ready (entry_key W) \<and>
     ready (entry_value W) \<and> ready (to_string W) \<and> ready (charSequence_subSequence W) \<and> ready (charBuffer_order W)"

lemma not_well:
  "\<not> calm J \<Longrightarrow> \<not> all_well J W L"
  "calm J \<longrightarrow> \<not> ready (map_entryset W) \<Longrightarrow> \<not> all_well J W L" "calm J \<longrightarrow> \<not> ready (iterable_iterator W) \<Longrightarrow> \<not> all_well J W L"
  "calm J \<longrightarrow> \<not> ready (iterator_next W) \<Longrightarrow> \<not> all_well J W L" "calm J \<longrightarrow> \<not> ready (entry_key W) \<Longrightarrow> \<not> all_well J W L"
  "calm J \<longrightarrow> \<not> ready (entry_value W) \<Longrightarrow> \<not> all_well J W L" "calm J \<longrightarrow> \<not> ready (to_string W) \<Longrightarrow> \<not> all_well J W L"
  "calm J \<longrightarrow> \<not> ready (charSequence_subSequence W) \<Longrightarrow> \<not> all_well J W L"
  "calm J \<longrightarrow> \<not> ready (charBuffer_order W) \<Longrightarrow> \<not> all_well J W L"
  by (auto simp: all_well_def)

subsection \<open>The code computes it\<close>

text \<open>
  \<open>w\<close> says that nothing fails. The exception of a failure is pending; references may be left over; the
  result is \<open>v\<close> unless an exception is pending.
\<close>

definition conv_post :: "bool \<Rightarrow> jenv \<Rightarrow> 'a \<Rightarrow> 'a \<Rightarrow> jenv \<Rightarrow> bool" where
  "conv_post w e v r e' \<longleftrightarrow> (\<exists>p d. 0 \<le> d \<and> env_to e p d e') \<and> (pending e' = None \<longrightarrow> r = v) \<and> (w \<longrightarrow> pending e' = None)"

lemma conv_callI:
  assumes "wp f (conv_post w e v) e"
    and "\<And>d e'. 0 \<le> d \<Longrightarrow> env_to e None d e' \<Longrightarrow> Q v e'"
    and "\<And>r d t e'. 0 \<le> d \<Longrightarrow> env_to e (Some t) d e' \<Longrightarrow> \<not> w \<Longrightarrow> Q r e'"
  shows "wp f Q e"
proof (rule wp_mono [OF assms(1)])
  fix r e' assume p: "conv_post w e v r e'"
  then obtain p d where d: "0 \<le> d" "env_to e p d e'" and p': "pending e' = p"
    by (auto simp: conv_post_def env_to_def)
  show "Q r e'"
    using p d p' assms(2) [of d e'] assms(3) [of d _ e' r] by (cases p) (auto simp: conv_post_def)
qed

lemma conv_postI:
  "0 \<le> d \<Longrightarrow> env_to e None d e' \<Longrightarrow> conv_post w e v v e'"
  "0 \<le> d \<Longrightarrow> env_to e (Some t) d e' \<Longrightarrow> \<not> w \<Longrightarrow> conv_post w e v r e'"
  by (auto simp: conv_post_def env_to_def)

lemma conv_post_trans: "env_to e None d e1 \<Longrightarrow> 0 \<le> d \<Longrightarrow> conv_post w e1 v r e2 \<Longrightarrow> conv_post w e v r e2"
  unfolding conv_post_def by (meson add_nonneg_nonneg env_to_trans)

lemma wp_conv_trans: "env_to e None d e1 \<Longrightarrow> 0 \<le> d \<Longrightarrow> wp f (conv_post w e1 v) e1 \<Longrightarrow> wp f (conv_post w e v) e1"
  by (erule wp_mono) (rule conv_post_trans)

lemma lib_callI:
  assumes "\<And>k. f k \<in> {None, Some ob}" and "w \<Longrightarrow> (\<And>k. f k \<noteq> None)"
    and "\<And>e'. env_to e (pending e) 0 e' \<Longrightarrow> Q (Some ob) e'" and "\<And>e'. env_to e (pending e) 0 e' \<Longrightarrow> \<not> w \<Longrightarrow> Q None e'"
  shows "wp (lib_call f) Q e"
proof -
  have "env_to e (pending e) 0 (e\<lparr>mtick := mtick e + 1\<rparr>)"
    by (simp add: env_to_def)
  then show ?thesis
    using assms(1) [of "mtick e"] assms(2) [of "mtick e"] assms(3,4)
    by (cases "f (mtick e)") (auto simp: lib_call_def wp_State)
qed

lemma lib_checkedI:
  assumes "pending e = None" and "\<And>k. f k \<in> {None, Some ob}" and "w \<Longrightarrow> (\<And>k. f k \<noteq> None)"
  shows "wp (lib_checked J msg f) (conv_post w e (Some ob)) e"
  unfolding lib_checked_def wp_bind
  by (rule lib_callI [OF assms(2,3)]) (use assms(1) in \<open>auto simp: wps env_to_def conv_post_def intro!: ThrowNewI\<close>)

lemma string_objectI:
  assumes "pending e = None" and "object_lib_doc L"
  shows "wp (string_object J L (Some str)) (conv_post (all_well J W L) e (Some (DdwafObject [] (DDWAF_OBJ_STRING str)))) e"
  unfolding string_object_def option.case
  by (rule lib_checkedI [OF assms(1)]) (use assms(2) in \<open>auto simp: object_lib_doc_def all_well_def\<close>)

lemma new_local_wp [wps]: "wp (new_local r) Q e = Q () (e\<lparr>refs := refs e + ref_of r\<rparr>)"
  by (simp add: new_local_def wp_State)

lemma has_nextI:
  assumes "pending e = None" and "\<And>e'. env_to e None 0 e' \<Longrightarrow> Q b e'"
    and "\<And>r e' t. env_to e (Some t) 0 e' \<Longrightarrow> \<not> calm J \<Longrightarrow> Q r e'"
  shows "wp (has_next J b) Q e"
  using assms by (auto simp: has_next_def wps Let_def env_to_def calmD split: option.split)

subsubsection \<open>Strings\<close>

lemma string_branch:
  assumes "pending e = None" and "object_lib_doc L" and "length str < 2 ^ 31"
  shows "wp (java_to_utf8_limited_checked J str sm) (\<lambda>str_c. wp (string_object J L str_c)
      (conv_post (all_well J W L) e (Some (DdwafObject [] (DDWAF_OBJ_STRING (utf8_spec str sm)))))) e"
proof (rule java_to_utf8_limitedI [OF assms(1,3)])
  fix e' assume e': "env_to e None 0 e'"
  show "wp (string_object J L (Some (utf8_spec str sm)))
      (conv_post (all_well J W L) e (Some (DdwafObject [] (DDWAF_OBJ_STRING (utf8_spec str sm))))) e'"
    by (rule wp_conv_trans [OF e' order_refl string_objectI [OF env_to_pending [OF e'] assms(2)]])
next
  fix e' t assume "env_to e (Some t) 0 e'" "\<not> calm J"
  then show "wp (string_object J L None)
      (conv_post (all_well J W L) e (Some (DdwafObject [] (DDWAF_OBJ_STRING (utf8_spec str sm))))) e'"
    by (auto simp: string_object_def wps all_well_def intro!: conv_postI(2) [of 0])
qed

lemma conv_post_alt: "conv_post w e v r e' \<longleftrightarrow>
    env_to e (pending e') (refs e' - refs e) e' \<and> refs e \<le> refs e' \<and> (pending e' = None \<longrightarrow> r = v) \<and> (w \<longrightarrow> pending e' = None)"
proof -
  have "(\<exists>d. 0 \<le> d \<and> refs e' = refs e + d) \<longleftrightarrow> refs e \<le> refs e'"
    by presburger
  then show ?thesis
    by (auto simp: conv_post_def env_to_def)
qed

text \<open>The two last steps of the string branches, after the environment has changed from \<open>e\<close> to \<open>e1\<close>.\<close>

lemma utf8_string_branch:
  assumes "object_lib_doc L" and "length chars < 2 ^ 31" and "env_to e None (refs e1 - refs e) e1" and "refs e \<le> refs e1"
  shows "wp (java_to_utf8_checked J chars) (\<lambda>out. wp (string_object J L out)
      (conv_post (all_well J W L) e (Some (DdwafObject [] (DDWAF_OBJ_STRING (utf8_of chars)))))) e1"
proof (rule java_to_utf8I [OF env_to_pending [OF assms(3)] assms(2)])
  fix e2 assume e2: "env_to e1 None 0 e2"
  have "env_to e None (refs e1 - refs e) e2"
    using env_to_trans [OF assms(3) e2] by simp
  then show "wp (string_object J L (Some (utf8_of chars)))
      (conv_post (all_well J W L) e (Some (DdwafObject [] (DDWAF_OBJ_STRING (utf8_of chars))))) e2"
    using assms(4) by (intro wp_conv_trans [OF _ _ string_objectI [OF env_to_pending [OF e2] assms(1)]]) auto
next
  fix e2 t assume e2: "env_to e1 (Some t) 0 e2" "\<not> calm J"
  have "env_to e (Some t) (refs e1 - refs e) e2"
    using env_to_trans [OF assms(3) e2(1)] by simp
  then show "wp (string_object J L None)
      (conv_post (all_well J W L) e (Some (DdwafObject [] (DDWAF_OBJ_STRING (utf8_of chars))))) e2"
    using e2(2) assms(4) by (auto simp: string_object_def wps all_well_def conv_post_alt env_to_def)
qed

lemma char_sequence_branch:
  assumes "pending e = None" and "object_lib_doc L" and "length chars < 2 ^ 31" and "0 \<le> sm"
  shows "wp (convert_char_sequence J W L sm chars)
      (conv_post (all_well J W L) e (Some (DdwafObject [] (DDWAF_OBJ_STRING (utf8_of (take (nat sm) chars)))))) e"
proof -
  obtain c where c: "c = take (nat sm) chars" "length c < 2 ^ 31"
    using assms(3) by simp
  note [simp] = conv_post_alt env_to_def not_well
  show ?thesis
  proof (cases "sm < int (length chars)")
    case True
    then show ?thesis
      using assms(1,4) c(2) unfolding convert_char_sequence_def Let_def c(1) [symmetric]
      by (auto simp: wps simp del: c(1) intro!: read_fieldI meth_callI utf8_string_branch [OF assms(2)])
  next
    case False
    then have "c = chars"
      using c(1) by simp
    with False show ?thesis
      using assms(1,3,4) unfolding convert_char_sequence_def Let_def c(1) [symmetric]
      by (auto simp: wps intro!: read_fieldI meth_callI utf8_string_branch [OF assms(2)])
  qed
qed

lemma get_char_buffer_dataI:
  assumes "pending e = None"
    and "\<And>e'. env_to e None 1 e' \<Longrightarrow> cb_kind cb = Has_array \<Longrightarrow> Q (Some True) e'"
    and "\<And>e'. env_to e None 0 e' \<Longrightarrow> cb_kind cb = Direct_native \<Longrightarrow> Q (Some False) e'"
    and "\<And>e'. env_to e None 0 e' \<Longrightarrow> cb_kind cb = No_access \<Longrightarrow> Q None e'"
    and "\<And>e' t. env_to e (Some t) 0 e' \<Longrightarrow> (calm J \<Longrightarrow> \<not> ready (charBuffer_order W)) \<Longrightarrow> Q None e'"
  shows "wp (get_char_buffer_data J W cb) Q e"
  using assms by (cases "cb_kind cb") (auto simp: get_char_buffer_data_def wps env_to_def intro!: read_fieldI JNI_localI meth_callI)

lemma string_after:
  assumes "object_lib_doc L" and "env_to e None (refs e1 - refs e) e1" and "refs e \<le> refs e1"
  shows "wp (string_object J L (Some bs)) (conv_post (all_well J W L) e (Some (DdwafObject [] (DDWAF_OBJ_STRING bs)))) e1"
  by (rule wp_conv_trans [OF assms(2) _ string_objectI [OF env_to_pending [OF assms(2)] assms(1)]]) (use assms(3) in simp)

lemma char_buffer_branch:
  assumes "pending e = None" and "object_lib_doc L" and "good_value (JV_char_buffer cb)" and "0 \<le> sm"
  shows "wp (convert_char_buffer J W L sm cb)
      (conv_post (all_well J W L) e (Some (DdwafObject [] (DDWAF_OBJ_STRING (utf8_of (take (nat sm) (buffer_text cb))))))) e"
proof -
  have cb: "cb_position cb \<le> cb_limit cb" "cb_limit cb < 2 ^ 31" "cb_kind cb \<noteq> No_access \<Longrightarrow> cb_limit cb \<le> length (cb_array cb)"
    using assms(3) by (simp_all add: good_value.simps)
  show ?thesis
  proof (cases "cb_kind cb = No_access")
    case True
    have "length (cb_chars cb) < 2 ^ 31" and t: "buffer_text cb = cb_chars cb"
      using True cb(2) by (auto simp: buffer_text_def cb_chars_def)
    note branch = char_sequence_branch [OF _ assms(2) this(1) assms(4), of _ J W]
    have "wp (convert_char_sequence J W L sm (cb_chars cb))
      (conv_post (all_well J W L) e (Some (DdwafObject [] (DDWAF_OBJ_STRING (utf8_of (take (nat sm) (cb_chars cb))))))) e'"
      if "env_to e None 0 e'" for e'
      by (rule wp_conv_trans [OF that order_refl branch [OF env_to_pending [OF that]]])
    with True show ?thesis
      using assms(1) unfolding convert_char_buffer_def t
      by (auto simp: wps conv_post_alt env_to_def not_well intro!: get_char_buffer_dataI)
  next
    case False
    obtain n :: nat where n: "int n = (if sm < int (cb_limit cb) - int (cb_position cb) then sm else int (cb_limit cb) - int (cb_position cb))"
      using assms(4) cb(1) by (metis diff_ge_0_iff_ge of_nat_le_iff zero_le_imp_eq_int)
    have ok: "n \<le> length (cb_array cb) - cb_position cb" "cb_position cb + n \<le> length (cb_array cb)" "n < 2 ^ 31"
      using n cb(1) cb(3) [OF False] cb(2) by (auto split: if_splits)
    have tx: "take (nat sm) (buffer_text cb) = take n (drop (cb_position cb) (cb_array cb))"
    proof -
      have "n = min (nat sm) (cb_limit cb - cb_position cb)"
        using n cb(1) by (auto simp: min_def split: if_splits)
      then show ?thesis
        using False by (simp add: buffer_text_def)
    qed
    show ?thesis
      using assms(1) ok False unfolding convert_char_buffer_def Let_def n [symmetric] tx
      by (auto simp: wps conv_post_alt env_to_def not_well
          intro!: get_char_buffer_dataI utf16_to_utf8I string_after [OF assms(2)])
  qed
qed

lemma convert_otherI:
  assumes "pending e = None" and "length nm < 2 ^ 31" and "\<And>d e'. 0 \<le> d \<Longrightarrow> env_to e None d e' \<Longrightarrow> Q () e'"
  shows "wp (convert_other J W nm) Q e"
proof (cases "log_level_enabled J DDWAF_LOG_DEBUG")
  case True
  then show ?thesis
    using assms(1,2) assms(3) [of 1] assms(3) [of 2] unfolding convert_other_def
    by (auto simp: wps env_to_def intro!: meth_callI java_to_utf8I java_logI)
next
  case False
  then show ?thesis
    using assms(3) [OF order_refl env_to_refl [OF assms(1)]] by (simp add: convert_other_def wps)
qed

subsubsection \<open>Loops\<close>

text \<open>
  Each loop computes \<open>take_elems\<close> of what its conversion computes. \<open>conv_ok\<close> is what the conversion of an
  element is known to do, by induction.
\<close>

definition conv_ok :: "bool \<Rightarrow> (jvalue \<Rightarrow> limits \<Rightarrow> conversion) \<Rightarrow> (jvalue \<Rightarrow> int \<Rightarrow> ddwaf_object \<times> int) \<Rightarrow> limits \<Rightarrow> jvalue \<Rightarrow> bool" where
  "conv_ok w conv g lims0 x \<longleftrightarrow> (\<forall>n e. pending e = None \<longrightarrow>
     wp (conv x (lims0\<lparr>max_elements := n\<rparr>)) (conv_post w e (fst (g x n), lims0\<lparr>max_elements := snd (g x n)\<rparr>)) e)"

lemma conv_okD: "conv_ok w conv g lims0 x \<Longrightarrow> pending e = None \<Longrightarrow> g x n = (v, n') \<Longrightarrow>
    wp (conv x (lims0\<lparr>max_elements := n\<rparr>)) (conv_post w e (v, lims0\<lparr>max_elements := n'\<rparr>)) e"
  unfolding conv_ok_def by (metis fst_conv snd_conv)

lemma array_add_facts:
  assumes "object_lib_doc L"
  shows "ddwaf_object_array_add L k (DdwafObject nm (DDWAF_OBJ_ARRAY es)) v \<in> {None, Some (DdwafObject nm (DDWAF_OBJ_ARRAY (es @ [v])))}"
    "all_well J W L \<Longrightarrow> ddwaf_object_array_add L k ob v \<noteq> None"
  using assms by (auto simp: object_lib_doc_def all_well_def)

text \<open>A failure after the environment has changed from \<open>e\<close> to \<open>e'\<close>.\<close>

lemma conv_failI:
  "pending e' \<noteq> None \<Longrightarrow> env_to e (pending e') (refs e' - refs e) e' \<Longrightarrow> refs e \<le> refs e' \<Longrightarrow> \<not> w \<Longrightarrow> conv_post w e v r e'"
  by (auto simp: conv_post_alt)

lemma add_elementI:
  assumes "wp conv (conv_post (all_well J W L) e (v, lims)) e" and "object_lib_doc L"
    and "\<And>d e'. 0 \<le> d \<Longrightarrow> env_to e None (d - ref_of element) e' \<Longrightarrow> Q (Some (DdwafObject nm (DDWAF_OBJ_ARRAY (acc @ [v])), lims)) e'"
    and "\<And>d t e'. 0 \<le> d \<Longrightarrow> env_to e (Some t) (d - ref_of element) e' \<Longrightarrow> \<not> all_well J W L \<Longrightarrow> Q None e'"
  shows "wp (add_element J L conv element (DdwafObject nm (DDWAF_OBJ_ARRAY acc))) Q e"
  unfolding add_element_def wp_bind
proof (rule conv_callI [OF assms(1)], goal_cases)
  case (1 d e2)
  then show ?case
    using assms(3) [of d] assms(4) [of d]
    by (auto simp: wps env_to_def ref_of_def
        intro!: lib_callI [where w = "all_well J W L", OF array_add_facts [OF assms(2)]] ThrowNewI split: option.split)
next
  case (2 r d t e2)
  then show ?case
    using assms(4) [of "d + ref_of element"] by (cases r) (auto simp: wps env_to_def ref_of_def split: if_splits)
qed

lemma array_loop_wp:
  assumes "object_lib_doc L" and "\<And>x. x \<in> set xs \<Longrightarrow> conv_ok (all_well J W L) conv g lims0 x" and "pending e = None"
  shows "wp (array_loop J L conv xs (DdwafObject [] (DDWAF_OBJ_ARRAY acc)) (lims0\<lparr>max_elements := n\<rparr>))
    (conv_post (all_well J W L) e (case take_elems g xs acc n of (es, n') \<Rightarrow>
       Some (DdwafObject [] (DDWAF_OBJ_ARRAY es), lims0\<lparr>max_elements := n'\<rparr>))) e"
  using assms(2,3)
proof (induction xs arbitrary: acc n e)
  case Nil
  then show ?case
    by (simp add: wps conv_post_alt env_to_refl)
next
  case (Cons x xs)
  show ?case
  proof (cases "n \<le> 0")
    case True
    then show ?thesis
      using Cons.prems(2) by (auto simp: wps conv_post_alt env_to_def intro!: java_logI)
  next
    case False
    obtain v n' where g: "g x n = (v, n')"
      by (cases "g x n")
    let ?Q = "conv_post (all_well J W L) e (case take_elems g xs (acc @ [v]) n' of (es, n') \<Rightarrow>
         Some (DdwafObject [] (DDWAF_OBJ_ARRAY es), lims0\<lparr>max_elements := n'\<rparr>))"
    let ?e1 = "e\<lparr>refs := refs e + ref_of (local_of x)\<rparr>"
    have step: "wp (conv x (lims0\<lparr>max_elements := n\<rparr>)) (conv_post (all_well J W L) ?e1 (v, lims0\<lparr>max_elements := n'\<rparr>)) ?e1"
      using Cons.prems by (intro conv_okD [where g = g]) (simp_all add: g)
    have IH: "wp (array_loop J L conv xs (DdwafObject [] (DDWAF_OBJ_ARRAY (acc @ [v]))) (lims0\<lparr>max_elements := n'\<rparr>)) ?Q e2"
      if "env_to e None (refs e2 - refs e) e2" "refs e \<le> refs e2" for e2
      by (rule wp_conv_trans [OF that(1) _ Cons.IH]) (use Cons.prems that env_to_pending in auto)
    have loop: "take_elems g (x # xs) acc n = take_elems g xs (acc @ [v]) n'"
      using False by (simp add: g)
    show ?thesis
      unfolding loop using False
      by (auto simp: wps env_to_def intro!: add_elementI [OF step assms(1)] IH conv_failI)
  qed
qed

lemma iterable_loop_wp:
  assumes "object_lib_doc L" and "\<And>x. x \<in> set xs \<Longrightarrow> conv_ok (all_well J W L) conv g lims0 x" and "pending e = None"
  shows "wp (iterable_loop J W L conv xs (DdwafObject [] (DDWAF_OBJ_ARRAY acc)) (lims0\<lparr>max_elements := n\<rparr>))
    (conv_post (all_well J W L) e (case take_elems g xs acc n of (es, n') \<Rightarrow>
       Some (DdwafObject [] (DDWAF_OBJ_ARRAY es), lims0\<lparr>max_elements := n'\<rparr>))) e"
  using assms(2,3)
proof (induction xs arbitrary: acc n e)
  case Nil
  then show ?case
    by (auto simp: wps conv_post_alt env_to_def not_well intro!: has_nextI)
next
  case (Cons x xs)
  show ?case
  proof (cases "n \<le> 0")
    case True
    then show ?thesis
      using Cons.prems(2) by (auto simp: wps conv_post_alt env_to_def not_well intro!: java_logI has_nextI)
  next
    case False
    obtain v n' where g: "g x n = (v, n')"
      by (cases "g x n")
    let ?Q = "conv_post (all_well J W L) e (case take_elems g xs (acc @ [v]) n' of (es, n') \<Rightarrow>
         Some (DdwafObject [] (DDWAF_OBJ_ARRAY es), lims0\<lparr>max_elements := n'\<rparr>))"
    have step: "wp (conv x (lims0\<lparr>max_elements := n\<rparr>)) (conv_post (all_well J W L) e1 (v, lims0\<lparr>max_elements := n'\<rparr>)) e1"
      if "pending e1 = None" for e1
      using Cons.prems that by (intro conv_okD [where g = g]) (simp_all add: g)
    have IH: "wp (iterable_loop J W L conv xs (DdwafObject [] (DDWAF_OBJ_ARRAY (acc @ [v]))) (lims0\<lparr>max_elements := n'\<rparr>)) ?Q e2"
      if "env_to e None (refs e2 - refs e) e2" "refs e \<le> refs e2" for e2
      by (rule wp_conv_trans [OF that(1) _ Cons.IH]) (use Cons.prems that env_to_pending in auto)
    have loop: "take_elems g (x # xs) acc n = take_elems g xs (acc @ [v]) n'"
      using False by (simp add: g)
    show ?thesis
      unfolding loop using False Cons.prems(2)
      by (auto simp: wps env_to_def not_well
           intro!: has_nextI meth_callI add_elementI [OF step assms(1)] IH conv_failI)
  qed
qed

text \<open>Adding an entry: the end of an iteration of the loop over a map.\<close>

lemma map_add_facts:
  assumes "object_lib_doc L"
  shows "ddwaf_object_map_addl L k (DdwafObject nm (DDWAF_OBJ_MAP es)) key v \<in>
      {None, Some (DdwafObject nm (DDWAF_OBJ_MAP (es @ [DdwafObject key (payload v)])))}"
    "all_well J W L \<Longrightarrow> ddwaf_object_map_addl L k ob key v \<noteq> None"
  using assms by (auto simp: object_lib_doc_def all_well_def)

lemma add_entryI:
  assumes "wp conv (conv_post (all_well J W L) e (v, lims)) e" and "object_lib_doc L" and "length key < 2 ^ 31"
    and "\<And>d e'. 0 \<le> d \<Longrightarrow> env_to e None (d - ref_of value_obj - ref_of key_jstr) e' \<Longrightarrow>
      Q (Some (DdwafObject nm (DDWAF_OBJ_MAP (acc @ [entry_of (max_string_size lims) (Some key) v])), lims)) e'"
    and "\<And>d t e'. 0 \<le> d \<Longrightarrow> env_to e (Some t) (d - ref_of value_obj - ref_of key_jstr) e' \<Longrightarrow> \<not> all_well J W L \<Longrightarrow> Q None e'"
  shows "wp (add_entry J L conv key key_jstr value_obj (DdwafObject nm (DDWAF_OBJ_MAP acc))) Q e"
  unfolding add_entry_def wp_bind
proof (rule conv_callI [OF assms(1)], goal_cases)
  case (1 d e2)
  then show ?case
    using assms(3) assms(4) [of d] assms(5) [of d] assms(5) [of "d + ref_of value_obj + ref_of key_jstr"]
    by (auto simp: wps env_to_def ref_of_def entry_of_def not_well simp del: not_None_eq del: iffCE impCE
        intro!: java_to_utf8_limitedI lib_callI [where w = "all_well J W L", OF map_add_facts [OF assms(2)]] ThrowNewI
        split: option.split)
next
  case (2 r d t e2)
  then show ?case
    using assms(5) [of "d + ref_of value_obj + ref_of key_jstr"]
    by (cases r) (auto simp: wps env_to_def ref_of_def split: if_splits)
qed

lemma map_loop_wp:
  assumes "object_lib_doc L" and "\<And>x. x \<in> set ms \<Longrightarrow> conv_ok (all_well J W L) conv g lims0 (snd x) \<and>
      (\<exists>key. fst x = Some key \<and> length key < 2 ^ 31)" and "pending e = None"
  shows "wp (map_loop J W L conv ms (DdwafObject [] (DDWAF_OBJ_MAP acc)) (lims0\<lparr>max_elements := n\<rparr>))
    (conv_post (all_well J W L) e
      (case take_elems (\<lambda>x k. apfst (entry_of (max_string_size lims0) (fst x)) (g (snd x) k)) ms acc n of (es, n') \<Rightarrow>
       Some (DdwafObject [] (DDWAF_OBJ_MAP es), lims0\<lparr>max_elements := n'\<rparr>))) e"
  (is "wp _ (conv_post ?w e (?spec ms acc n)) e")
  using assms(2,3)
proof (induction ms arbitrary: acc n e)
  case Nil
  then show ?case
    by (auto simp: wps conv_post_alt env_to_def not_well intro!: has_nextI)
next
  case (Cons x xs)
  show ?case
  proof (cases "n \<le> 0")
    case True
    then show ?thesis
      using Cons.prems(2) by (auto simp: wps conv_post_alt env_to_def not_well intro!: java_logI has_nextI)
  next
    case False
    obtain v n' where g: "g (snd x) n = (v, n')"
      by (cases "g (snd x) n")
    obtain key where key: "fst x = Some key" "length key < 2 ^ 31"
      using Cons.prems(1) [of x] by auto
    let ?en = "entry_of (max_string_size lims0) (Some key) v"
    have step: "wp (conv (snd x) (lims0\<lparr>max_elements := n\<rparr>)) (conv_post ?w e1 (v, lims0\<lparr>max_elements := n'\<rparr>)) e1"
      if "pending e1 = None" for e1
      using Cons.prems that by (intro conv_okD [where g = g]) (simp_all add: g)
    have IH: "wp (map_loop J W L conv xs (DdwafObject [] (DDWAF_OBJ_MAP (acc @ [?en]))) (lims0\<lparr>max_elements := n'\<rparr>))
        (conv_post ?w e (?spec xs (acc @ [?en]) n')) e2"
      if "env_to e None (refs e2 - refs e) e2" "refs e \<le> refs e2" for e2
      by (rule wp_conv_trans [OF that(1) _ Cons.IH]) (use Cons.prems that env_to_pending in auto)
    have loop: "?spec (x # xs) acc n = ?spec xs (acc @ [?en]) n'"
      using False by (simp add: g key(1))
    show ?thesis
      unfolding loop using False Cons.prems(2) key
      by (auto simp: wps env_to_def not_well del: iffCE impCE
           intro!: has_nextI meth_callI wrap_excI add_entryI [OF step assms(1)] IH conv_failI)
  qed
qed

subsubsection \<open>Values\<close>

lemma scalar_facts:
  assumes "object_lib_doc L"
  shows "ddwaf_object_float L k w \<in> {None, Some (DdwafObject [] (DDWAF_OBJ_FLOAT w))}"
    "all_well J W L \<Longrightarrow> ddwaf_object_float L k w \<noteq> None"
    "ddwaf_object_signed L k w \<in> {None, Some (DdwafObject [] (DDWAF_OBJ_SIGNED w))}"
    "all_well J W L \<Longrightarrow> ddwaf_object_signed L k w \<noteq> None"
    "ddwaf_object_bool L k b \<in> {None, Some (DdwafObject [] (DDWAF_OBJ_BOOL b))}"
    "all_well J W L \<Longrightarrow> ddwaf_object_bool L k b \<noteq> None"
  using assms by (auto simp: object_lib_doc_def all_well_def)

lemma scalar_branch:
  assumes "pending e = None" and "\<And>k. f k \<in> {None, Some ob}" and "all_well J W L \<Longrightarrow> (\<And>k. f k \<noteq> None)"
  shows "wp (do {
       r \<leftarrow> do { ok \<leftarrow> read_field J; if \<not> ok then State_Monad.return None else lib_checked J msg f };
       State_Monad.return (or_invalid lims r) }) (conv_post (all_well J W L) e (ob, lims)) e"
  unfolding wp_bind
proof (rule read_fieldI [OF assms(1)], goal_cases)
  case (1 e1)
  show ?case
    unfolding simp_thms if_False
    by (rule wp_mono [OF wp_conv_trans [OF 1 order_refl lib_checkedI [OF env_to_pending [OF 1] assms(2,3)]]])
      (auto simp: conv_post_alt or_invalid_def wp_return)
next
  case (2 e1 t)
  then show ?case
    using assms(1) by (simp add: wps conv_post_alt env_to_def not_well)
qed

lemma object_branch:
  assumes "wp f (conv_post w e (Some ob)) e"
  shows "wp (do { r \<leftarrow> f; State_Monad.return (or_invalid lims r) }) (conv_post w e (ob, lims)) e"
  unfolding wp_bind by (rule wp_mono [OF assms]) (auto simp: conv_post_alt or_invalid_def wp_return)

lemma text_branch:
  assumes "pending e = None" and "object_lib_doc L" and "length str < 2 ^ 31"
  shows "wp (do { str_c \<leftarrow> java_to_utf8_limited_checked J str sm; r \<leftarrow> string_object J L str_c; State_Monad.return (or_invalid lims r) })
      (conv_post (all_well J W L) e (DdwafObject [] (DDWAF_OBJ_STRING (utf8_spec str sm)), lims)) e"
proof -
  have "wp (do { str_c \<leftarrow> java_to_utf8_limited_checked J str sm; string_object J L str_c })
      (conv_post (all_well J W L) e (Some (DdwafObject [] (DDWAF_OBJ_STRING (utf8_spec str sm))))) e"
    unfolding wp_bind by (rule string_branch [OF assms])
  from object_branch [OF this, of lims] show ?thesis
    by (simp add: wp_bind)
qed

lemma return_branch: "pending e = None \<Longrightarrow> wp (State_Monad.return v) (conv_post w e v) e"
  by (simp add: wps conv_post_alt env_to_refl)

lemma log_branch: "pending e = None \<Longrightarrow> wp (do { java_log J lvl fn fl line thr m; State_Monad.return v }) (conv_post w e v) e"
  by (auto simp: wps conv_post_alt env_to_def intro!: java_logI)

lemma other_branch:
  "pending e = None \<Longrightarrow> length nm < 2 ^ 31 \<Longrightarrow> wp (do { convert_other J W nm; State_Monad.return v }) (conv_post w e v) e"
  by (auto simp: wps conv_post_alt env_to_def intro!: convert_otherI)

lemma array_branch:
  assumes "wp f (conv_post w e (Some v)) e"
  shows "wp (do { r \<leftarrow> f; State_Monad.return (case r of None \<Rightarrow> u | Some r \<Rightarrow> r) }) (conv_post w e v) e"
  unfolding wp_bind by (rule wp_mono [OF assms]) (auto simp: conv_post_alt wp_return)

lemma iterable_branch:
  assumes "pending e = None" and "\<And>e1. pending e1 = None \<Longrightarrow> wp f (conv_post (all_well J W L) e1 (Some v)) e1"
  shows "wp (do {
      it \<leftarrow> java_meth_call J (iterable_iterator W) (Some ());
      exc \<leftarrow> ExceptionCheck;
      if exc then State_Monad.return u else do {
        r \<leftarrow> f;
        case r of None \<Rightarrow> State_Monad.return u | Some r \<Rightarrow> do { DeleteLocalRef it; State_Monad.return r } }}) (conv_post (all_well J W L) e v) e"
proof -
  have step: "wp f (\<lambda>r. wp (case r of None \<Rightarrow> State_Monad.return u | Some r \<Rightarrow> do { DeleteLocalRef (Some ()); State_Monad.return r })
      (conv_post (all_well J W L) e v)) e1" if "env_to e None 1 e1" for e1
    by (rule wp_mono [OF assms(2) [OF env_to_pending [OF that]]])
      (use that in \<open>auto simp: wps conv_post_alt env_to_def split: option.split del: iffCE impCE\<close>)
  show ?thesis
    using assms(1)
    by (auto simp: wp_bind wp_if wp_return ExceptionCheck_def wp_State conv_post_alt env_to_def not_well del: iffCE impCE
        intro!: meth_callI step)
qed

lemma map_branch:
  assumes "pending e = None" and "\<And>e1. pending e1 = None \<Longrightarrow> wp f (conv_post (all_well J W L) e1 (Some v)) e1"
  shows "wp (do {
      entry_set \<leftarrow> java_meth_call J (map_entryset W) (Some ());
      exc \<leftarrow> ExceptionCheck;
      if exc then State_Monad.return u else do {
      it \<leftarrow> java_meth_call J (iterable_iterator W) (Some ());
      exc \<leftarrow> ExceptionCheck;
      if exc then State_Monad.return u else do {
        r \<leftarrow> f;
        case r of None \<Rightarrow> State_Monad.return u | Some r \<Rightarrow> do { DeleteLocalRef it; DeleteLocalRef entry_set; State_Monad.return r } }}})
      (conv_post (all_well J W L) e v) e"
proof -
  have step: "wp f (\<lambda>r. wp (case r of None \<Rightarrow> State_Monad.return u
      | Some r \<Rightarrow> do { DeleteLocalRef (Some ()); DeleteLocalRef (Some ()); State_Monad.return r })
      (conv_post (all_well J W L) e v)) e1" if "env_to e None 2 e1" for e1
    by (rule wp_mono [OF assms(2) [OF env_to_pending [OF that]]])
      (use that in \<open>auto simp: wps conv_post_alt env_to_def split: option.split del: iffCE impCE\<close>)
  show ?thesis
    using assms(1)
    by (auto simp: wp_bind wp_if wp_return ExceptionCheck_def wp_State conv_post_alt env_to_def not_well del: iffCE impCE
        intro!: meth_callI step)
qed

text \<open>The part of \<^verbatim>\<open>_convert_checked\<close> before the cases.\<close>

lemma check_branch:
  assumes "pending e = None" and "\<And>e'. pending e' = None \<Longrightarrow> wp f (conv_post (all_well J W L) e' v) e'"
  shows "wp (do { ok \<leftarrow> is_array_check J obj; if \<not> ok then State_Monad.return (bad, lims) else f }) (conv_post (all_well J W L) e v) e"
proof -
  have f: "wp f (conv_post (all_well J W L) e v) e'" if "env_to e None 0 e'" for e'
    by (rule wp_conv_trans [OF that order_refl assms(2) [OF env_to_pending [OF that]]])
  show ?thesis
    using assms(1) f [OF env_to_refl [OF assms(1)]]
    by (auto simp: is_array_check_def wps env_to_def conv_post_alt not_well del: iffCE impCE intro!: read_fieldI f)
qed

lemma convert_checked_wp:
  assumes "object_lib_doc L" and "good_value obj" and "pending e = None" and "0 \<le> max_string_size lims"
    and "rec_level \<le> max_depth lims"
  shows "wp (convert_checked J W L lims obj rec_level)
    (conv_post (all_well J W L) e (case to_ddwaf (max_depth lims) (max_string_size lims) obj rec_level (max_elements lims) of
       (ob, n) \<Rightarrow> (ob, lims\<lparr>max_elements := n\<rparr>))) e"
  using assms(2-)
proof (induction "size obj" arbitrary: obj e lims rec_level rule: less_induct)
  case less
  let ?lims = "lims\<lparr>max_elements := max_elements lims - 1\<rparr>"
  let ?w = "all_well J W L"
  let ?conv = "\<lambda>x l. convert_checked J W L l x (rec_level + 1)"
  let ?g = "\<lambda>x. to_ddwaf (max_depth lims) (max_string_size lims) x (rec_level + 1)"
  have IH: "conv_ok ?w ?conv ?g lims x" if "size x < size obj" "good_value x" "rec_level < max_depth lims" for x
    using less.hyps [of x _ "lims\<lparr>max_elements := _\<rparr>" "rec_level + 1"] that less.prems(3)
    by (simp add: conv_ok_def case_prod_beta)
  have depth: "\<not> max_depth lims < rec_level"
    using less.prems(4) by simp
  note unf = convert_checked.simps [of J W L lims obj rec_level] to_ddwaf.simps [of _ _ obj] good_value.simps [of obj]
  show ?case
  proof (cases obj)
    case JV_null
    show ?thesis
      unfolding unf unfolding JV_null jvalue.case Let_def using less.prems(2) depth
      by (auto simp: Let_def wp_return conv_post_alt env_to_refl intro!: check_branch)
  next
    case (JV_array xs)
    then have "list_all good_value xs"
      using less.prems(1) unfolding unf by simp
    then have IH: "x \<in> set xs \<Longrightarrow> conv_ok ?w ?conv ?g lims x" if "rec_level < max_depth lims" for x
      using that by (intro IH) (auto simp: JV_array list_all_iff size_members)
    note loop = array_loop_wp [OF assms(1) IH, where acc = "[]" and n = "max_elements lims - 1"]
    show ?thesis
      unfolding unf unfolding JV_array jvalue.case Let_def using less.prems(2) depth
      by (auto simp: apfst_def map_prod_def intro!: check_branch log_branch array_branch loop [THEN wp_mono] split: prod.split)
  next
    case (JV_primitive_array k)
    then have k: "k = 0"
      using less.prems(1) unfolding unf by simp
    show ?thesis
      unfolding unf unfolding JV_primitive_array jvalue.case Let_def k using less.prems(2) depth
      by (auto intro!: check_branch log_branch return_branch)
  next
    case (JV_map ms)
    then have "list_all (\<lambda>x. good_value (snd x) \<and> (\<exists>key. fst x = Some key \<and> length key < 2 ^ 31)) ms"
      using less.prems(1) unfolding unf by simp
    then have IH: "x \<in> set ms \<Longrightarrow> conv_ok ?w ?conv ?g lims (snd x) \<and> (\<exists>key. fst x = Some key \<and> length key < 2 ^ 31)"
      if "rec_level < max_depth lims" for x
      using that by (cases x) (auto intro!: IH simp: JV_map list_all_iff size_members)
    note loop = map_loop_wp [OF assms(1) IH, where acc = "[]" and n = "max_elements lims - 1"]
    show ?thesis
      unfolding unf unfolding JV_map jvalue.case Let_def using less.prems(2) depth
      by (auto simp: apfst_def map_prod_def intro!: check_branch log_branch map_branch loop [THEN wp_mono] split: prod.split)
  next
    case (JV_iterable xs)
    then have "list_all good_value xs"
      using less.prems(1) unfolding unf by simp
    then have IH: "x \<in> set xs \<Longrightarrow> conv_ok ?w ?conv ?g lims x" if "rec_level < max_depth lims" for x
      using that by (intro IH) (auto simp: JV_iterable list_all_iff size_members)
    note loop = iterable_loop_wp [OF assms(1) IH, where acc = "[]" and n = "max_elements lims - 1"]
    show ?thesis
      unfolding unf unfolding JV_iterable jvalue.case Let_def using less.prems(2) depth
      by (auto simp: apfst_def map_prod_def intro!: check_branch log_branch iterable_branch loop [THEN wp_mono] split: prod.split)
  next
    case (JV_string str)
    then have str: "length str < 2 ^ 31"
      using less.prems(1) unfolding unf by simp
    show ?thesis
      unfolding unf unfolding JV_string jvalue.case Let_def using less.prems(2) depth
      by (auto intro!: check_branch text_branch str assms(1))
  next
    case (JV_char_buffer cb)
    show ?thesis
      unfolding unf unfolding JV_char_buffer jvalue.case Let_def using less.prems(1,2,3) depth JV_char_buffer
      by (auto intro!: check_branch object_branch char_buffer_branch assms(1))
  next
    case (JV_char_sequence chars)
    then have "length chars < 2 ^ 31"
      using less.prems(1) unfolding unf by simp
    then show ?thesis
      unfolding unf unfolding JV_char_sequence jvalue.case Let_def using less.prems(2,3) depth
      by (auto intro!: check_branch object_branch char_sequence_branch assms(1))
  next
    case (JV_double dval)
    show ?thesis
      unfolding unf unfolding JV_double jvalue.case Let_def convert_double_def using less.prems(2) depth
      by (auto intro!: check_branch scalar_branch [OF _ scalar_facts(1,2) [OF assms(1)]])
  next
    case (JV_long lval)
    show ?thesis
      unfolding unf unfolding JV_long jvalue.case Let_def convert_long_def using less.prems(2) depth
      by (auto intro!: check_branch scalar_branch [OF _ scalar_facts(3,4) [OF assms(1)]])
  next
    case (JV_boolean bval)
    show ?thesis
      unfolding unf unfolding JV_boolean jvalue.case Let_def convert_boolean_def using less.prems(2) depth
      by (auto intro!: check_branch scalar_branch [OF _ scalar_facts(5,6) [OF assms(1)]])
  next
    case (JV_other nm)
    then have "length nm < 2 ^ 31"
      using less.prems(1) unfolding unf by simp
    then show ?thesis
      unfolding unf unfolding JV_other jvalue.case Let_def using less.prems(2) depth
      by (auto intro!: check_branch other_branch)
  qed
qed

subsection \<open>The limits are respected\<close>

text \<open>The number of values in an object.\<close>

primrec nodes :: "ddwaf_object \<Rightarrow> nat"
  and nodes_value :: "ddwaf_value \<Rightarrow> nat" where
  "nodes (DdwafObject nm v) = Suc (nodes_value v)"
| "nodes_value DDWAF_OBJ_INVALID = 0"
| "nodes_value (DDWAF_OBJ_SIGNED w) = 0"
| "nodes_value (DDWAF_OBJ_UNSIGNED w) = 0"
| "nodes_value (DDWAF_OBJ_STRING s) = 0"
| "nodes_value (DDWAF_OBJ_ARRAY es) = sum_list (map nodes es)"
| "nodes_value (DDWAF_OBJ_MAP es) = sum_list (map nodes es)"
| "nodes_value (DDWAF_OBJ_BOOL b) = 0"
| "nodes_value (DDWAF_OBJ_FLOAT w) = 0"
| "nodes_value DDWAF_OBJ_NULL = 0"

text \<open>Containers are nested at most \<open>d\<close> deep; keys and strings have at most \<open>n\<close> bytes.\<close>

primrec within :: "ddwaf_object \<Rightarrow> int \<Rightarrow> nat \<Rightarrow> bool"
  and within_value :: "ddwaf_value \<Rightarrow> int \<Rightarrow> nat \<Rightarrow> bool" where
  "within (DdwafObject nm v) = (\<lambda>d n. length nm \<le> n \<and> within_value v d n)"
| "within_value DDWAF_OBJ_INVALID = (\<lambda>d n. True)"
| "within_value (DDWAF_OBJ_SIGNED w) = (\<lambda>d n. True)"
| "within_value (DDWAF_OBJ_UNSIGNED w) = (\<lambda>d n. True)"
| "within_value (DDWAF_OBJ_STRING s) = (\<lambda>d n. length s \<le> n)"
| "within_value (DDWAF_OBJ_ARRAY es) = (\<lambda>d n. es = [] \<or> 0 < d \<and> list_all (\<lambda>f. f (d - 1) n) (map within es))"
| "within_value (DDWAF_OBJ_MAP es) = (\<lambda>d n. es = [] \<or> 0 < d \<and> list_all (\<lambda>f. f (d - 1) n) (map within es))"
| "within_value (DDWAF_OBJ_BOOL b) = (\<lambda>d n. True)"
| "within_value (DDWAF_OBJ_FLOAT w) = (\<lambda>d n. True)"
| "within_value DDWAF_OBJ_NULL = (\<lambda>d n. True)"

lemma utf8_spec_le: "0 \<le> sm \<Longrightarrow> length (utf8_spec str sm) \<le> 3 * nat sm"
  using length_utf8_of [of "take (nat sm) str"] by (simp add: utf8_spec_def)

lemma utf8_take_le: "length (utf8_of (take k str)) \<le> 3 * k"
  using length_utf8_of [of "take k str"] by simp

lemma entry_of_nodes [simp]: "nodes (entry_of sm key v) = nodes v"
  by (cases v) (simp add: entry_of_def)

lemma entry_of_within: "0 \<le> sm \<Longrightarrow> within v d (3 * nat sm) \<Longrightarrow> within (entry_of sm key v) d (3 * nat sm)"
  by (cases v) (simp add: entry_of_def utf8_spec_le)

text \<open>A conversion that started with \<open>n\<close> elements to go.\<close>

definition bounds_ok :: "int \<Rightarrow> nat \<Rightarrow> int \<Rightarrow> ddwaf_object \<times> int \<Rightarrow> bool" where
  "bounds_ok d m n = (\<lambda>(ob, n'). int (nodes ob) = n - n' \<and> min (n - 1) 0 \<le> n' \<and> within ob d m)"

lemma take_elems_bounds:
  assumes "\<And>x n. x \<in> set xs \<Longrightarrow> bounds_ok d m n (g x n)" and "take_elems g xs acc n = (es, n')"
    and "list_all (\<lambda>v. within v d m) acc"
  shows "int (sum_list (map nodes es)) = int (sum_list (map nodes acc)) + (n - n') \<and> min n 0 \<le> n' \<and>
    list_all (\<lambda>v. within v d m) es"
  using assms
proof (induction xs arbitrary: acc n)
  case (Cons x xs)
  show ?case
  proof (cases "n \<le> 0")
    case False
    obtain v k where g: "g x n = (v, k)"
      by (cases "g x n")
    have "int (nodes v) = n - k \<and> min (n - 1) 0 \<le> k \<and> within v d m"
      using Cons.prems(1) [of x n] g by (simp add: bounds_ok_def)
    moreover have "take_elems g xs (acc @ [v]) k = (es, n')"
      using Cons.prems(2) False g by simp
    ultimately show ?thesis
      using Cons.IH [of "acc @ [v]" k] Cons.prems(1,3) False by simp
  qed (use Cons.prems in simp)
qed simp

lemma container_bounds:
  assumes "\<And>x k. x \<in> set xs \<Longrightarrow> bounds_ok (d - 1) m k (g x k)"
    and "f = DDWAF_OBJ_ARRAY \<or> f = DDWAF_OBJ_MAP" and "0 < d"
  shows "bounds_ok d m n (apfst (\<lambda>es. DdwafObject [] (f es)) (take_elems g xs [] (n - 1)))"
proof -
  obtain es n' where es: "take_elems g xs [] (n - 1) = (es, n')"
    by (cases "take_elems g xs [] (n - 1)")
  show ?thesis
    using take_elems_bounds [OF assms(1) es] assms(2,3) by (auto simp: bounds_ok_def es list_all_iff)
qed

lemma entry_bounds: "0 \<le> sm \<Longrightarrow> bounds_ok d (3 * nat sm) n r \<Longrightarrow> bounds_ok d (3 * nat sm) n (apfst (entry_of sm key) r)"
  by (cases r) (simp add: bounds_ok_def entry_of_within)

lemma to_ddwaf_bounds:
  assumes "0 \<le> sm" and "rec_level \<le> md"
  shows "bounds_ok (md - rec_level) (3 * nat sm) n (to_ddwaf md sm obj rec_level n)"
  using assms(2)
proof (induction "size obj" arbitrary: obj rec_level n rule: less_induct)
  case less
  have IH: "bounds_ok (md - rec_level - 1) (3 * nat sm) k (to_ddwaf md sm x (rec_level + 1) k)"
    if "size x < size obj" "\<not> md \<le> rec_level" for x k
    using less.hyps [OF that(1), of "rec_level + 1" k] that(2) by (simp add: diff_diff_add)
  have leaf: "bounds_ok (md - rec_level) (3 * nat sm) n (DdwafObject [] v, n - 1)"
    if "nodes_value v = 0" "within_value v (md - rec_level) (3 * nat sm)" for v
    using that by (simp add: bounds_ok_def)
  show ?case
    unfolding to_ddwaf.simps [of _ _ obj] by (cases obj)
      (auto simp: pwinput_invalid_def utf8_spec_le utf8_take_le assms(1) size_members
        intro!: container_bounds entry_bounds IH leaf)
qed

subsection \<open>Properties\<close>


text \<open>A library that does what its documentation says and never fails, and initialised methods.\<close>

fun array_add :: "ddwaf_object \<Rightarrow> ddwaf_object \<Rightarrow> ddwaf_object option" where
  "array_add (DdwafObject nm (DDWAF_OBJ_ARRAY es)) v = Some (DdwafObject nm (DDWAF_OBJ_ARRAY (es @ [v])))"
| "array_add ob v = Some ob"

fun map_add :: "ddwaf_object \<Rightarrow> byte list \<Rightarrow> ddwaf_object \<Rightarrow> ddwaf_object option" where
  "map_add (DdwafObject nm (DDWAF_OBJ_MAP es)) key v = Some (DdwafObject nm (DDWAF_OBJ_MAP (es @ [DdwafObject key (payload v)])))"
| "map_add ob key v = Some ob"

definition sure_lib :: object_lib where
  "sure_lib = \<lparr>ddwaf_object_array_add = (\<lambda>_. array_add), ddwaf_object_map_addl = (\<lambda>_. map_add),
     ddwaf_object_stringl = (\<lambda>_ str. Some (DdwafObject [] (DDWAF_OBJ_STRING str))),
     ddwaf_object_float = (\<lambda>_ w. Some (DdwafObject [] (DDWAF_OBJ_FLOAT w))),
     ddwaf_object_signed = (\<lambda>_ w. Some (DdwafObject [] (DDWAF_OBJ_SIGNED w))),
     ddwaf_object_bool = (\<lambda>_ b. Some (DdwafObject [] (DDWAF_OBJ_BOOL b)))\<rparr>"

definition some_meth :: j_method where
  "some_meth = \<lparr>jm_type = JMETHOD_VIRTUAL, class_glob = None, meth_id = []\<rparr>"

definition sure_globals :: waf_globals where
  "sure_globals = \<lparr>map_entryset = some_meth, iterable_iterator = some_meth, iterator_next = some_meth, entry_key = some_meth,
     entry_value = some_meth, to_string = some_meth, charSequence_subSequence = some_meth, charBuffer_order = some_meth,
     class_get_name = some_meth\<rparr>"

lemma map_add_neq: "map_add ob key v \<noteq> None" and array_add_neq: "array_add ob v \<noteq> None"
  by (cases "(ob, key, v)" rule: map_add.cases; simp) (cases "(ob, v)" rule: array_add.cases; simp)

lemma sure_lib_doc [simp]: "object_lib_doc sure_lib"
  by (simp add: object_lib_doc_def sure_lib_def)

lemma all_sure [simp]: "all_well calm_jvm sure_globals sure_lib"
  using map_add_neq array_add_neq
  by (simp add: all_well_def sure_lib_def sure_globals_def some_meth_def ready_def)

text \<open>A map with a list of two numbers, of which the limit on elements lets only one through.\<close>

definition sample :: jvalue where
  "sample = JV_map [(Some [0x61, 0x62], JV_array [JV_long 1, JV_long 2])]"

definition sample_limits :: limits where
  "sample_limits = limits0\<lparr>max_depth := 4, max_elements := 3, max_string_size := 1\<rparr>"

lemma sample_spec:
  "to_ddwaf 4 1 sample 0 3 =
     (DdwafObject [] (DDWAF_OBJ_MAP [DdwafObject [0x61] (DDWAF_OBJ_ARRAY [DdwafObject [] (DDWAF_OBJ_SIGNED 1)])]), 0)"
proof -
  have "utf8_of [0x61] = [0x61]"
    by (simp add: utf8_of_def UTF16_LEAD_def UTF16_TRAIL_def REPL_CHAR_def write_utf8_codeunits_def)
  then show ?thesis
    by (simp add: sample_def to_ddwaf.simps entry_of_def utf8_spec_def)
qed

lemma sample_good: "good_value sample"
  by (simp add: sample_def good_value.simps)


text \<open>
  C27. The limits are respected: the object has no more values than the limit on
  elements, its containers are nested no deeper than the limit on the depth, and no key or string is
  longer than three bytes for each character of the limit on strings.
\<close>

theorem convert_checked_limits:
  assumes "object_lib_doc L" and "good_value obj" and "pending e = None" and "0 \<le> max_string_size lims" and "0 \<le> max_depth lims"
    and "0 < max_elements lims"
    and "run_state (convert_checked J W L lims obj 0) e = ((ob, lims'), e')" and "pending e' = None"
  shows "int (nodes ob) \<le> max_elements lims \<and> within ob (max_depth lims) (3 * nat (max_string_size lims)) \<and>
    max_elements lims' = max_elements lims - int (nodes ob)"
proof -
  have "(ob, max_elements lims') = to_ddwaf (max_depth lims) (max_string_size lims) obj 0 (max_elements lims)"
    using wp_run [OF convert_checked_wp [OF assms(1-5), of J W] assms(7)] assms(8)
    by (auto simp: conv_post_alt split: prod.splits)
  then show ?thesis
    using to_ddwaf_bounds [OF assms(4,5), of "max_elements lims" obj] assms(6) by (auto simp: bounds_ok_def split: prod.splits)
qed

theorem convert_checked_limits_witness:
  "int (nodes (fst (fst (run_state (convert_checked calm_jvm sure_globals sure_lib sample_limits sample 0) env0)))) \<le> 3"
proof -
  obtain ob lims' e' where r: "run_state (convert_checked calm_jvm sure_globals sure_lib sample_limits sample 0) env0 = ((ob, lims'), e')"
    by (metis surj_pair)
  have "pending e' = None"
    using wp_run [OF convert_checked_wp [of sure_lib sample env0 sample_limits 0] r]
    by (auto simp: conv_post_alt sample_good sample_limits_def limits0_def)
  from convert_checked_limits [OF _ _ _ _ _ _ r this] r show ?thesis
    by (simp add: sample_good sample_limits_def limits0_def)
qed

end
