(* ===== verification/Results.thy ===== *)
theory Results
  imports Attributes Convert_Java
begin

text \<open>
  What happens after a run of the engine: the metrics (\<^verbatim>\<open>src/main/c/metrics.c\<close> and
  \<^verbatim>\<open>_update_metrics\<close>), the exceptions for error codes, and the Java object for the result
  (\<^verbatim>\<open>_create_result_checked\<close> of \<^verbatim>\<open>src/main/c/waf_jni.c\<close>). The function \<^verbatim>\<open>ddwaf_object_find\<close> of the library
  is the parameter \<open>ofind\<close>.
\<close>

type_synonym finder = "ddwaf_object \<Rightarrow> byte list \<Rightarrow> ddwaf_object option"

record result_globals =
  create_exception :: j_method
  timeout_exception_init :: j_method
  result_with_data_init :: j_method
  action_ok :: jobject
  action_match :: jobject
  result_with_data_empty_map :: jobject

subsection \<open>Exceptions of the engine\<close>

text \<open>
  Both functions create a throwable and throw it. \<^verbatim>\<open>createException\<close> chooses a subclass of
  \<^verbatim>\<open>AbstractWafException\<close> by the error code.
\<close>

definition throw_created :: "jvm \<Rightarrow> j_method \<Rightarrow> jthrowable \<Rightarrow> unit jni" where
  "throw_created J meth t = do {
     exc \<leftarrow> java_meth_call J meth (Some ());
     pend \<leftarrow> ExceptionCheck;
     if \<not> pend then Throw t else State_Monad.return () }"

definition throw_pwaf_exception :: "jvm \<Rightarrow> result_globals \<Rightarrow> int \<Rightarrow> unit jni" where
  "throw_pwaf_exception J R retcode = throw_created J (create_exception R) (AbstractWafException retcode)"

definition throw_pwaf_timeout_exception :: "jvm \<Rightarrow> result_globals \<Rightarrow> unit jni" where
  "throw_pwaf_timeout_exception J R = throw_created J (timeout_exception_init R) TimeoutWafException"

subsection \<open>Metrics\<close>

text \<open>The two counters of the Java object; \<^verbatim>\<open>addAndGet\<close> of \<^verbatim>\<open>AtomicLong\<close> wraps around.\<close>

record metrics =
  total_run_time_ns :: "64 word"
  total_ddwaf_run_time_ns :: "64 word"

text \<open>
  \<^verbatim>\<open>MonitorEnter\<close> fails without an exception; \<^verbatim>\<open>MonitorExit\<close> by a thread that does not own the monitor throws.
\<close>

definition MonitorEnter :: "jvm \<Rightarrow> bool jni" where
  "MonitorEnter J = State (\<lambda>e. (\<not> nulls J (jtick e), e\<lparr>jtick := jtick e + 1, misuse := misuse e \<or> pending e \<noteq> None\<rparr>))"

definition MonitorExit :: "bool \<Rightarrow> unit jni" where
  "MonitorExit owned = State (\<lambda>e. ((), if owned then e
     else e\<lparr>pending := Some (OtherThrowable ''java.lang.IllegalMonitorStateException'')\<rparr>))"

text \<open>A counter is fetched and increased: the counter after the call, the reference to it, and whether it worked.\<close>

definition add_and_get :: "jvm \<Rightarrow> 64 word \<Rightarrow> 64 word \<Rightarrow> (64 word \<times> unit option \<times> bool) jni" where
  "add_and_get J counter delta = do {
     obj \<leftarrow> JNI_local J (Some ());
     exc \<leftarrow> ExceptionCheck;
     if exc then State_Monad.return (counter, obj, False)
     else do {
       JNI_call J;
       exc \<leftarrow> ExceptionCheck;
       State_Monad.return (if exc then (counter, obj, False) else (counter + delta, obj, True)) }}"

definition metrics_update_checked :: "jvm \<Rightarrow> metrics \<Rightarrow> 64 word \<Rightarrow> 64 word \<Rightarrow> metrics jni" where
  "metrics_update_checked J m run_time_ns ddwaf_run_time_ns = do {
     owned \<leftarrow> MonitorEnter J;
     (m', rt_obj, ddrt_obj) \<leftarrow>
       (if \<not> owned then do {
          ThrowNew J (RuntimeException ''Error entering monitor on the metrics object'');
          State_Monad.return (m, None, None) }
        else do {
          (rt, rt_obj, ok) \<leftarrow> (if 0 <s run_time_ns then add_and_get J (total_run_time_ns m) run_time_ns
                               else State_Monad.return (total_run_time_ns m, None, True));
          if \<not> ok then State_Monad.return (m, rt_obj, None)
          else do {
            (ddrt, ddrt_obj, ok) \<leftarrow> add_and_get J (total_ddwaf_run_time_ns m) ddwaf_run_time_ns;
            State_Monad.return (m\<lparr>total_run_time_ns := rt, total_ddwaf_run_time_ns := ddrt\<rparr>, rt_obj, ddrt_obj) }});
     DeleteLocalRef rt_obj;
     DeleteLocalRef ddrt_obj;
     MonitorExit owned;
     State_Monad.return m' }"

definition duration_of :: "finder \<Rightarrow> ddwaf_object \<Rightarrow> 64 word" where
  "duration_of ofind res =
     (case ofind res (cstr ''duration'') of
        None \<Rightarrow> 0
      | Some ob \<Rightarrow> (case payload ob of DDWAF_OBJ_UNSIGNED u \<Rightarrow> u | _ \<Rightarrow> 0))"

text \<open>\<^verbatim>\<open>_update_metrics\<close>; the result is the metrics object afterwards, \<open>None\<close> for null.\<close>

definition update_metrics :: "jvm \<Rightarrow> finder \<Rightarrow> metrics option \<Rightarrow> ddwaf_object \<Rightarrow> metrics option jni" where
  "update_metrics J ofind metrics_obj ddwaf_result = do {
     earlier_exc \<leftarrow> ExceptionOccurred;
     (if earlier_exc \<noteq> None then ExceptionClear else State_Monad.return ());
     metrics' \<leftarrow> (case metrics_obj of
         None \<Rightarrow> State_Monad.return None
       | Some m \<Rightarrow> do {
           m' \<leftarrow> metrics_update_checked J m 0 (duration_of ofind ddwaf_result);
           State_Monad.return (Some m') });
     (case earlier_exc of
        None \<Rightarrow> State_Monad.return ()
      | Some earlier \<Rightarrow> do {
          subseq_exc \<leftarrow> ExceptionOccurred;
          (if subseq_exc = None then State_Monad.return ()
           else do {
             java_log J DDWAF_LOG_ERROR ''_update_metrics'' ''waf_jni.c'' 2075 subseq_exc
               (cstr ''Exception updating metrics will be suppressed due to earlier exception'');
             DeleteLocalRef subseq_exc;
             ExceptionClear });
          Throw earlier;
          DeleteLocalRef earlier_exc });
     State_Monad.return metrics' }"

subsection \<open>The result of a run\<close>

definition has_events :: "finder \<Rightarrow> ddwaf_object \<Rightarrow> bool" where
  "has_events ofind res =
     (case ofind res (cstr ''event'') of
        None \<Rightarrow> True
      | Some ob \<Rightarrow> (case payload ob of DDWAF_OBJ_BOOL b \<Rightarrow> b | _ \<Rightarrow> False))"

text \<open>\<^verbatim>\<open>consume_json_and_free\<close>: prints the object to a buffer that is released at once.\<close>

definition consume_json_and_free :: "jvm \<Rightarrow> ddwaf_object option \<Rightarrow> unit jni" where
  "consume_json_and_free J obj =
     (if obj = None then State_Monad.return ()
      else do {
        h \<leftarrow> get_json_mem;
        case output_convert_json (seg_alloc J) obj h of
          None \<Rightarrow> undefined_behaviour
        | Some (None, h') \<Rightarrow> set_json_mem h'
        | Some (Some seg, h') \<Rightarrow>
            (case json_length h' (Some seg) of
               None \<Rightarrow> undefined_behaviour
             | Some len \<Rightarrow> do {
                 str \<leftarrow> malloc J (len + 1);
                 (if \<not> str then State_Monad.return ()
                  else case json_it_read h' (Some seg, 0) len of
                    None \<Rightarrow> undefined_behaviour
                  | Some (it, out) \<Rightarrow> if len < length out then undefined_behaviour else State_Monad.return ());
                 (case json_seg_free (Some seg) h' of
                    None \<Rightarrow> undefined_behaviour
                  | Some h'' \<Rightarrow> set_json_mem h'') }) })"

text \<open>The conversion of the text in the segments to a Java string, run in the environment.\<close>

definition json_to_jstring :: "jvm \<Rightarrow> json_heap \<Rightarrow> nat \<Rightarrow> jobject option jni" where
  "json_to_jstring J h seg = State (\<lambda>e.
     let e' = e\<lparr>mtick := mtick e + 2, misuse := misuse e \<or> pending e \<noteq> None\<rparr> in
     case java_json_to_jstring_checked (\<lambda>n. malloc_ok J (mtick e + n)) h (Some seg) of
       None \<Rightarrow> (None, e'\<lparr>misuse := True\<rparr>)
     | Some (Inr s) \<Rightarrow> (Some (JString s), e'\<lparr>refs := refs e + 1\<rparr>)
     | Some (Inl (Pending t)) \<Rightarrow> (None, e'\<lparr>pending := Some t\<rparr>)
     | Some (Inl OutOfBounds) \<Rightarrow> (None, e'\<lparr>misuse := True\<rparr>))"

text \<open>
  The three optional parts of the result. Each is \<open>None\<close> after a jump to the error label (or, for the actions, an
  early return), and otherwise \<open>Some\<close> of a possibly null reference.
\<close>

definition nonempty_map :: "ddwaf_object option \<Rightarrow> bool" where
  "nonempty_map ob =
     (case ob of None \<Rightarrow> False | Some x \<Rightarrow> (case payload x of DDWAF_OBJ_MAP es \<Rightarrow> es \<noteq> [] | _ \<Rightarrow> False))"

definition nonempty_array :: "ddwaf_object option \<Rightarrow> bool" where
  "nonempty_array ob =
     (case ob of None \<Rightarrow> False | Some x \<Rightarrow> (case payload x of DDWAF_OBJ_ARRAY es \<Rightarrow> es \<noteq> [] | _ \<Rightarrow> False))"

definition result_actions ::
    "jvm \<Rightarrow> output_globals \<Rightarrow> result_globals \<Rightarrow> ddwaf_object option \<Rightarrow> (jobject \<times> bool) option jni" where
  "result_actions J G R actions_obj =
     (if \<not> nonempty_map actions_obj then State_Monad.return (Some (result_with_data_empty_map R, False))
      else do {
        actions_jmap \<leftarrow> convert_ddwaf_object_to_jobject J G (the actions_obj);
        case actions_jmap of
          None \<Rightarrow> do {
            wrap_exc J ''waf_jni.c'' ''_create_result_checked'' 2173 (cstr ''Error creating actions map'');
            State_Monad.return None }
        | Some m \<Rightarrow> State_Monad.return (Some (m, True)) })"

definition result_data :: "jvm \<Rightarrow> ddwaf_object option \<Rightarrow> jobject option option jni" where
  "result_data J events_obj =
     (if \<not> nonempty_array events_obj then State_Monad.return (Some None)
      else do {
        h \<leftarrow> get_json_mem;
        case output_convert_json (seg_alloc J) events_obj h of
          None \<Rightarrow> undefined_access
        | Some (None, h') \<Rightarrow> do {
            set_json_mem h';
            ThrowNew J (IllegalArgumentException ''failed converting events array to json'');
            State_Monad.return None }
        | Some (Some seg, h') \<Rightarrow> do {
            data_obj \<leftarrow> json_to_jstring J h' seg;
            (case json_seg_free (Some seg) h' of
               None \<Rightarrow> undefined_behaviour
             | Some h'' \<Rightarrow> set_json_mem h'');
            exc \<leftarrow> ExceptionCheck;
            if exc then do {
              wrap_exc J ''waf_jni.c'' ''_create_result_checked'' 2194 (cstr ''Failed converting json to Java string'');
              State_Monad.return None }
            else State_Monad.return (Some data_obj) }})"

definition result_attributes ::
    "jvm \<Rightarrow> output_globals \<Rightarrow> 'z zlib \<Rightarrow> bool \<Rightarrow> ddwaf_object option \<Rightarrow> jobject option option jni" where
  "result_attributes J G Z little_endian attributes_obj =
     (if \<not> nonempty_map attributes_obj then State_Monad.return (Some None)
      else do {
        attributes \<leftarrow> output_convert_attributes_checked J G Z little_endian (the attributes_obj);
        if attributes = None then do {
          wrap_exc J ''waf_jni.c'' ''_create_result_checked'' 2210 (cstr ''Failed encoding inferred attributes'');
          State_Monad.return None }
        else State_Monad.return (Some attributes) })"

definition keep_of :: "finder \<Rightarrow> ddwaf_object \<Rightarrow> bool" where
  "keep_of ofind res =
     (case ofind res (cstr ''keep'') of
        None \<Rightarrow> True
      | Some ob \<Rightarrow> (case payload ob of DDWAF_OBJ_BOOL b \<Rightarrow> b | _ \<Rightarrow> True))"

text \<open>\<open>ok\<close>: the code of the engine is \<^verbatim>\<open>DDWAF_OK\<close>.\<close>

definition create_result_checked ::
    "jvm \<Rightarrow> output_globals \<Rightarrow> result_globals \<Rightarrow> 'z zlib \<Rightarrow> bool \<Rightarrow> finder \<Rightarrow> bool \<Rightarrow> ddwaf_object \<Rightarrow> jobject option jni" where
  "create_result_checked J G R Z little_endian ofind ok ddwaf_result = do {
     actions \<leftarrow> result_actions J G R (ofind ddwaf_result (cstr ''actions''));
     case actions of
       None \<Rightarrow> State_Monad.return None
     | Some (actions_jmap, del_actions_jmap) \<Rightarrow> do {
         let actions_ref = (if del_actions_jmap then Some () else None);
         dat \<leftarrow> result_data J (ofind ddwaf_result (cstr ''events''));
         case dat of
           None \<Rightarrow> do { DeleteLocalRef actions_ref; State_Monad.return None }
         | Some data_obj \<Rightarrow> do {
             let attributes_obj = ofind ddwaf_result (cstr ''attributes'');
             consume_json_and_free J (Some ddwaf_result);
             consume_json_and_free J attributes_obj;
             attrs \<leftarrow> result_attributes J G Z little_endian attributes_obj;
             case attrs of
               None \<Rightarrow> do { DeleteLocalRef actions_ref; State_Monad.return None }
             | Some attributes \<Rightarrow> do {
                 result \<leftarrow> java_meth_call J (result_with_data_init R) (Some (JObject ''Waf$ResultWithData''
                   [Some (if ok then action_ok R else action_match R), data_obj, Some actions_jmap, attributes,
                    Some (JBoolean (keep_of ofind ddwaf_result)), Some (JLong (duration_of ofind ddwaf_result)),
                    Some (JBoolean (has_events ofind ddwaf_result))]));
                 DeleteLocalRef actions_ref;
                 DeleteLocalRef data_obj;
                 State_Monad.return result }}}}"

subsection \<open>Exceptions and metrics\<close>

lemma throw_createdI:
  assumes "pending e = None" and "\<And>d t' e'. 0 \<le> d \<Longrightarrow> env_to e (Some t') d e' \<Longrightarrow> (calm J \<and> ready m \<Longrightarrow> t' = t) \<Longrightarrow> Q () e'"
  shows "wp (throw_created J m t) Q e"
  using assms(1) assms(2) [of 0] assms(2) [of 1]
  by (auto simp: throw_created_def wps env_to_def intro!: meth_callI)

lemma add_and_getI:
  assumes "pending e = None" and "\<And>e'. env_to e None 1 e' \<Longrightarrow> Q (c + delta, Some (), True) e'"
    and "\<And>e' t. env_to e (Some t) 0 e' \<Longrightarrow> \<not> calm J \<Longrightarrow> Q (c, None, False) e'"
    and "\<And>e' t. env_to e (Some t) 1 e' \<Longrightarrow> \<not> calm J \<Longrightarrow> Q (c, Some (), False) e'"
  shows "wp (add_and_get J c delta) Q e"
  using assms
  by (auto simp: add_and_get_def wps env_to_def Let_def calmD intro!: JNI_localI split: option.split)

definition add_times :: "metrics \<Rightarrow> 64 word \<Rightarrow> 64 word \<Rightarrow> metrics" where
  "add_times m r d = m\<lparr>total_run_time_ns := total_run_time_ns m + (if 0 <s r then r else 0),
     total_ddwaf_run_time_ns := total_ddwaf_run_time_ns m + d\<rparr>"

lemma metrics_updateI:
  assumes "pending e = None" and "\<And>e'. env_to e None 0 e' \<Longrightarrow> Q (add_times m r d) e'"
    and "\<And>m' e' t. env_to e (Some t) 0 e' \<Longrightarrow> \<not> calm J \<Longrightarrow> Q m' e'"
  shows "wp (metrics_update_checked J m r d) Q e"
  using assms
  by (auto simp: metrics_update_checked_def MonitorEnter_def MonitorExit_def add_times_def wps env_to_def calmD
      intro!: ThrowNewI add_and_getI)

lemma update_metricsI:
  assumes "\<And>e'. env_to e None 0 e' \<Longrightarrow> pending e = None \<Longrightarrow> Q (map_option (\<lambda>m. add_times m 0 (duration_of ofind res)) mo) e'"
    and "\<And>mo' e' t. env_to e (Some t) 0 e' \<Longrightarrow> pending e \<noteq> None \<longrightarrow> pending e = Some t \<Longrightarrow> (calm J \<Longrightarrow> pending e \<noteq> None) \<Longrightarrow> Q mo' e'"
  shows "wp (update_metrics J ofind mo res) Q e"
proof (cases "pending e")
  case None
  then show ?thesis
    using assms(1) [of e] assms(1) assms(2)
    by (cases mo) (auto simp: update_metrics_def wps env_to_def del: iffCE impCE intro!: metrics_updateI)
next
  case (Some t)
  have q: "Q mo' e'" if "env_to e (Some t) 0 e'" for mo' e'
    using assms(2) [OF that] Some by simp
  show ?thesis
    using Some
    by (cases mo) (auto simp: update_metrics_def wps env_to_def del: iffCE impCE intro!: metrics_updateI java_logI q)
qed

subsection \<open>What the result should be\<close>

definition actions_spec :: "output_globals \<Rightarrow> result_globals \<Rightarrow> ddwaf_object option \<Rightarrow> jobject option" where
  "actions_spec G R ob =
     (if nonempty_map ob then Option.bind (value_of (to_jobject G (the ob))) id else Some (result_with_data_empty_map R))"

definition data_spec :: "ddwaf_object option \<Rightarrow> jobject option option" where
  "data_spec ob = (if nonempty_array ob then Option.bind (json_text 0 (the ob)) jstring_spec else Some None)"

definition attributes_spec :: "output_globals \<Rightarrow> (byte list \<Rightarrow> byte list) \<Rightarrow> ddwaf_object option \<Rightarrow> jobject option option" where
  "attributes_spec G gz ob =
     (if nonempty_map ob then
        (case payload (the ob) of
           DDWAF_OBJ_MAP es \<Rightarrow> map_option (\<lambda>(m, l). Some (JLinkedHashMap m)) (spec_loop (attr_step G gz) es [])
         | _ \<Rightarrow> None)
      else Some None)"

definition result_spec ::
    "output_globals \<Rightarrow> result_globals \<Rightarrow> (byte list \<Rightarrow> byte list) \<Rightarrow> finder \<Rightarrow> bool \<Rightarrow> ddwaf_object \<Rightarrow> jobject option" where
  "result_spec G R gz ofind ok res =
     (case (actions_spec G R (ofind res (cstr ''actions'')), data_spec (ofind res (cstr ''events'')), attributes_spec G gz (ofind res (cstr ''attributes''))) of
        (Some actions, Some dat, Some attributes) \<Rightarrow> Some (JObject ''Waf$ResultWithData''
          [Some (if ok then action_ok R else action_match R), dat, Some actions, attributes,
           Some (JBoolean (keep_of ofind res)), Some (JLong (duration_of ofind res)), Some (JBoolean (has_events ofind res))])
      | _ \<Rightarrow> None)"

definition results_well :: "jvm \<Rightarrow> output_globals \<Rightarrow> result_globals \<Rightarrow> 'z zlib \<Rightarrow> bool" where
  "results_well J G R Z \<longleftrightarrow> calm J \<and> zlib_works Z \<and> ready (linked_hm_init G) \<and> ready (result_with_data_init R)"

lemma result_actionsI:
  assumes "pending e = None"
    and "\<And>m b d e'. 0 \<le> d \<Longrightarrow> env_to e None (d + (if b then 1 else 0)) e' \<Longrightarrow> actions_spec G R ob = Some m \<Longrightarrow> Q (Some (m, b)) e'"
    and "\<And>d t e'. 0 \<le> d \<Longrightarrow> env_to e (Some t) d e' \<Longrightarrow> (calm J \<Longrightarrow> actions_spec G R ob = None) \<Longrightarrow> Q None e'"
  shows "wp (result_actions J G R ob) Q e"
proof (cases "nonempty_map ob")
  case False
  then show ?thesis
    using assms(1) assms(2) [of 0 False e] by (simp add: result_actions_def actions_spec_def wps env_to_refl)
next
  case True
  have "wp (convert_ddwaf_object_to_jobject J G (the ob)) (\<lambda>r. wp (case r of
        None \<Rightarrow> do {
          wrap_exc J ''waf_jni.c'' ''_create_result_checked'' 2173 (cstr ''Error creating actions map'');
          State_Monad.return None }
      | Some m \<Rightarrow> State_Monad.return (Some (m, True))) Q) e"
  proof (rule checkedI [OF convert_object_contract assms(1)], goal_cases)
    case (1 v e')
    then obtain m l where "to_jobject G (the ob) = Some (Some m, l)" "v = Some m"
      using to_jobject_some [of G "the ob"] by (fastforce simp: value_of_def split: option.splits)
    then show ?case
      using 1 True assms(2) [of "leak_of (to_jobject G (the ob))" True e'] to_jobject_leak [of G "the ob"]
      by (simp add: wps actions_spec_def value_of_def add.commute)
  next
    case (2 e' t d)
    then show ?case
      using True assms(3) [of d] by (auto simp: wps actions_spec_def env_to_def intro!: wrap_excI)
  qed
  then show ?thesis
    using True by (simp add: result_actions_def wp_bind)
qed

text \<open>Printing an object fails and leaves nothing behind, or gives segments that hold the text of the object.\<close>

lemma convert_json_cases:
  assumes "heap_ok h"
  obtains (fails) h' where "output_convert_json alloc (Some ob) h = Some (None, h')" "store h' = store h" "heap_ok h'"
      "(\<forall>k n. alloc k n) \<Longrightarrow> json_text 0 ob = None"
  | (prints) a h1 h2 t where "output_convert_json alloc (Some ob) h = Some (Some a, h1)" "json_text 0 ob = Some t"
      "json_length h1 (Some a) = Some (length t)" "\<And>n. \<exists>it. json_it_read h1 (Some a, 0) n = Some (it, take n t)"
      "\<And>al. java_json_to_jstring_checked al h1 (Some a) = Some (java_utf8_to_jstring_checked al t (length t))"
      "json_seg_free (Some a) h1 = Some h2" "store h2 = store h" "heap_ok h2"
proof -
  obtain seg h1 where conv: "output_convert_json alloc (Some ob) h = Some (seg, h1)"
    and seg: "case seg of
       None \<Rightarrow> store h1 = store h \<and> heap_ok h1 \<and> ((\<forall>k n. alloc k n) \<longrightarrow> (\<forall>x. Some ob = Some x \<longrightarrow> json_text 0 x = None))
     | Some a \<Rightarrow> \<exists>cur x. json_ok (store h) a (cur, h1) \<and> Some ob = Some x \<and> json_text 0 x \<noteq> None \<and>
         json_contents a (cur, h1) = json_text 0 x"
    using output_convert_json_ok [OF assms, of alloc "Some ob"] by blast
  show thesis
  proof (cases seg)
    case None
    then show thesis
      using fails [of h1] conv seg by auto
  next
    case (Some a)
    then obtain cur t where ok: "json_ok (store h) a (cur, h1)" and t: "json_text 0 ob = Some t"
        and c: "json_contents a (cur, h1) = Some t"
      using seg by auto
    obtain h2 where free: "json_seg_free (Some a) h1 = Some h2" "store h2 = store h" "heap_ok h2"
      using freed_heap_ok [OF ok] by auto
    have at: "at_text (store h1) (Some a) 0 t"
      by (rule json_contents_at_text [OF ok c])
    show thesis
      using prints [OF _ t json_chain_length [OF at] _ java_json_to_jstring_checked_eq [OF ok c] free]
        json_it_read_text [OF at] conv Some by blast
  qed
qed

lemma consume_jsonI:
  assumes "heap_ok (json_mem e)" and "\<And>e'. env_to e (pending e) 0 e' \<Longrightarrow> heap_ok (json_mem e') \<Longrightarrow> Q () e'"
  shows "wp (consume_json_and_free J ob) Q e"
proof (cases ob)
  case None
  then show ?thesis
    using assms(1) assms(2) [of e] by (simp add: consume_json_and_free_def wps env_to_refl)
next
  case (Some x)
  show ?thesis
    using assms(1)
  proof (cases rule: convert_json_cases [of "json_mem e" "seg_alloc J" x])
    case (fails h')
    then show ?thesis
      using Some assms by (simp add: consume_json_and_free_def wps env_to_def)
  next
    case (prints a h1 h2 t)
    obtain it where "json_it_read h1 (Some a, 0) (length t) = Some (it, t)"
      using prints(4) [of "length t"] by auto
    then show ?thesis
      using Some assms prints by (simp add: consume_json_and_free_def wps env_to_def)
  qed
qed

lemma json_to_jstringI:
  assumes "pending e = None" and "\<And>al. java_json_to_jstring_checked al h (Some a) = Some (java_utf8_to_jstring_checked al t (length t))"
    and "\<And>e'. jstring_fits t \<Longrightarrow> env_to e None 1 e' \<Longrightarrow> Q (Some (JString (utf16_of t))) e'"
    and "\<And>e' t'. env_to e (Some t') 0 e' \<Longrightarrow> \<not> (calm J \<and> jstring_fits t) \<Longrightarrow> Q None e'"
  shows "wp (json_to_jstring J h a) Q e"
proof -
  have "json_to_jstring J h a = new_jstring J t"
    using assms(2) unfolding json_to_jstring_def new_jstring_def by simp
  then show ?thesis
    using new_jstringI [OF assms(1,3,4)] by simp
qed

lemma result_dataI:
  assumes "pending e = None" and "heap_ok (json_mem e)"
    and "\<And>v e'. env_to e None (ref_of v) e' \<Longrightarrow> data_spec ob = Some v \<Longrightarrow> heap_ok (json_mem e') \<Longrightarrow> Q (Some v) e'"
    and "\<And>t e'. env_to e (Some t) 0 e' \<Longrightarrow> (calm J \<Longrightarrow> data_spec ob = None) \<Longrightarrow> Q None e'"
  shows "wp (result_data J ob) Q e"
proof (cases "nonempty_array ob")
  case False
  then show ?thesis
    using assms(1,2) assms(3) [of None e] by (simp add: result_data_def data_spec_def wps env_to_refl)
next
  case True
  then obtain x where x: "ob = Some x"
    by (auto simp: nonempty_array_def split: option.splits)
  have q: "Q None e'" if "pending e' \<noteq> None" "env_to e (pending e') 0 e'" "calm J \<longrightarrow> data_spec ob = None" for e'
    using that assms(4) by auto
  have spec: "data_spec ob = Option.bind (json_text 0 x) jstring_spec"
    using True by (simp add: data_spec_def x)
  show ?thesis
    using assms(2)
  proof (cases rule: convert_json_cases [of "json_mem e" "seg_alloc J" x])
    case (fails h')
    then show ?thesis
      using True x assms(1,2) spec calm_allocs(1)
      by (auto simp: result_data_def wps env_to_def del: iffCE impCE intro!: ThrowNewI q)
  next
    case (prints a h1 h2 t)
    then show ?thesis
      using True x assms(1,2) spec
      by (auto simp: result_data_def wps env_to_def jstring_spec_def del: iffCE impCE
          intro!: json_to_jstringI [OF _ prints(5)] wrap_excI assms(3) q)
  qed
qed

definition attributes_ok :: "ddwaf_object option \<Rightarrow> bool" where
  "attributes_ok ob \<longleftrightarrow> (\<forall>x es. ob = Some x \<and> payload x = DDWAF_OBJ_MAP es \<longrightarrow> list_all fingerprint_ok es)"

lemma result_attributesI:
  assumes doc: "zlib_doc Z gz zst bound" and small: "\<And>t. length t \<le> MAX_SIZE_OF_SCHEMA \<Longrightarrow> length (gz t) < 2 ^ 62"
    and e: "pending e = None" and h: "heap_ok (json_mem e)"
    and fp: "attributes_ok ob"
    and good: "\<And>v d e'. 0 \<le> d \<Longrightarrow> env_to e None d e' \<Longrightarrow>
      (calm J \<and> zlib_works Z \<Longrightarrow> attributes_spec G gz ob = Some v) \<Longrightarrow> Q (Some v) e'"
    and throw: "\<And>t d e'. 0 \<le> d \<Longrightarrow> env_to e (Some t) d e' \<Longrightarrow>
      (calm J \<and> zlib_works Z \<and> ready (linked_hm_init G) \<Longrightarrow> attributes_spec G gz ob = None) \<Longrightarrow> Q None e'"
  shows "wp (result_attributes J G Z le ob) Q e"
proof (cases "nonempty_map ob")
  case False
  then show ?thesis
    using e good [of 0 e None] by (simp add: result_attributes_def attributes_spec_def wps env_to_refl)
next
  case True
  then obtain x es where x: "ob = Some x" "payload x = DDWAF_OBJ_MAP es"
    by (auto simp: nonempty_map_def split: option.splits ddwaf_value.splits)
  have fps: "\<forall>entry \<in> set es. fingerprint_ok entry"
    using fp x by (auto simp: attributes_ok_def list_all_iff)
  have spec: "attributes_spec G gz ob = map_option (\<lambda>(m, l). Some (JLinkedHashMap m)) (spec_loop (attr_step G gz) es [])"
    using True x by (simp add: attributes_spec_def)
  have "wp (output_convert_attributes_checked J G Z le x) (\<lambda>r. wp (if r = None then do {
          wrap_exc J ''waf_jni.c'' ''_create_result_checked'' 2210 (cstr ''Failed encoding inferred attributes'');
          State_Monad.return None }
        else State_Monad.return (Some r)) Q) e"
  proof (rule wp_mono [OF attributes_wp [OF doc small e h x(2) fps]], goal_cases)
    case (2 r e')
    then obtain d where d: "0 \<le> d" "case r of
        None \<Rightarrow> (\<exists>t. env_to e (Some t) d e') \<and>
          (calm J \<and> zlib_works Z \<and> ready (linked_hm_init G) \<longrightarrow> spec_loop (attr_step G gz) es [] = None)
      | Some v \<Rightarrow> env_to e None (1 + d) e' \<and> (\<exists>m. v = JLinkedHashMap m \<and>
          (calm J \<and> zlib_works Z \<longrightarrow> spec_loop (attr_step G gz) es [] = Some (m, d)))"
      by blast
    show ?case
      using d spec good [of "1 + d" e' r] throw [OF d(1)]
      by (cases r) (auto simp: wps env_to_def del: iffCE impCE intro!: wrap_excI)
  qed
  then show ?thesis
    using True x by (simp add: result_attributes_def wp_bind)
qed

lemma create_resultI:
  assumes doc: "zlib_doc Z gz zst bound" and small: "\<And>t. length t \<le> MAX_SIZE_OF_SCHEMA \<Longrightarrow> length (gz t) < 2 ^ 62"
    and e: "pending e = None" and h: "heap_ok (json_mem e)" and fp: "attributes_ok (ofind res (cstr ''attributes''))"
    and good: "\<And>v e'. env_to e None (refs e' - refs e) e' \<Longrightarrow> refs e < refs e' \<Longrightarrow>
      (results_well J G R Z \<longrightarrow> result_spec G R gz ofind ok res = Some v) \<Longrightarrow> Q (Some v) e'"
    and throw: "\<And>e'. pending e' \<noteq> None \<Longrightarrow> env_to e (pending e') (refs e' - refs e) e' \<Longrightarrow> refs e \<le> refs e' \<Longrightarrow>
      (results_well J G R Z \<longrightarrow> result_spec G R gz ofind ok res = None) \<Longrightarrow> Q None e'"
  shows "wp (create_result_checked J G R Z le ofind ok res) Q e"
  using e h unfolding create_result_checked_def Let_def
  by (auto simp: wps env_to_def results_well_def result_spec_def ref_of_nonneg del: iffCE impCE
      intro!: result_actionsI result_dataI consume_jsonI result_attributesI [OF doc small _ _ fp] meth_callI add_nonneg_nonneg good throw)

subsection \<open>Properties\<close>


text \<open>A search by name, as in the library, and a result without events.\<close>

definition find_entry :: finder where
  "find_entry ob key = (case payload ob of DDWAF_OBJ_MAP es \<Rightarrow> find (\<lambda>x. parameterName x = key) es | _ \<Rightarrow> None)"

definition results0 :: result_globals where
  "results0 = \<lparr>create_exception = some_meth, timeout_exception_init = some_meth, result_with_data_init = some_meth,
     action_ok = JString [0x4F], action_match = JString [0x4D], result_with_data_empty_map = JLinkedHashMap []\<rparr>"

definition sample_result :: ddwaf_object where
  "sample_result = DdwafObject [] (DDWAF_OBJ_MAP [DdwafObject (cstr ''keep'') (DDWAF_OBJ_BOOL False),
     DdwafObject (cstr ''duration'') (DDWAF_OBJ_UNSIGNED 5), DdwafObject (cstr ''timeout'') (DDWAF_OBJ_BOOL False)])"

lemma find_sample:
  "find_entry sample_result (cstr ''actions'') = None" "find_entry sample_result (cstr ''events'') = None"
  "find_entry sample_result (cstr ''attributes'') = None" "find_entry sample_result (cstr ''event'') = None"
  "find_entry sample_result (cstr ''keep'') = Some (DdwafObject (cstr ''keep'') (DDWAF_OBJ_BOOL False))"
  "find_entry sample_result (cstr ''duration'') = Some (DdwafObject (cstr ''duration'') (DDWAF_OBJ_UNSIGNED 5))"
  "find_entry sample_result (cstr ''timeout'') = Some (DdwafObject (cstr ''timeout'') (DDWAF_OBJ_BOOL False))"
  by (simp_all add: find_entry_def sample_result_def cstr_def)

definition sample_java_result :: jobject where
  "sample_java_result = JObject ''Waf$ResultWithData''
     [Some (JString [0x4D]), None, Some (JLinkedHashMap []), None, Some (JBoolean False), Some (JLong 5), Some (JBoolean True)]"

lemma sample_result_spec: "result_spec globals0 results0 gz find_entry False sample_result = Some sample_java_result"
  by (simp add: result_spec_def actions_spec_def data_spec_def attributes_spec_def nonempty_map_def nonempty_array_def
      keep_of_def duration_of_def has_events_def find_sample results0_def sample_java_result_def)

lemma sample_well: "results_well calm_jvm globals0 results0 stored" "heap_ok (json_mem env0)"
  by (simp_all add: results_well_def zlib_works_def stored_def results0_def some_meth_def ready_def globals0_def meth0_def
      heap_ok_def heap0_def)


text \<open>
  C29. Updating the metrics never hides the error of the run: an exception that was pending before is
  pending afterwards, the same one, also when updating the metrics throws; otherwise the time of the run is
  added to the counter, or an exception is pending. References balance.
\<close>

theorem update_metrics_keeps:
  "case run_state (update_metrics J ofind mo res) e of (mo', e') \<Rightarrow>
     misuse e' = misuse e \<and> refs e' = refs e \<and>
     (if pending e \<noteq> None then pending e' = pending e
      else (pending e' = None \<longrightarrow> mo' = map_option (\<lambda>m. m\<lparr>total_ddwaf_run_time_ns := total_ddwaf_run_time_ns m + duration_of ofind res\<rparr>) mo) \<and>
        (calm J \<longrightarrow> pending e' = None))"
proof -
  have "wp (update_metrics J ofind mo res) (\<lambda>mo' e'. misuse e' = misuse e \<and> refs e' = refs e \<and>
     (if pending e \<noteq> None then pending e' = pending e
      else (pending e' = None \<longrightarrow> mo' = map_option (\<lambda>m. m\<lparr>total_ddwaf_run_time_ns := total_ddwaf_run_time_ns m + duration_of ofind res\<rparr>) mo) \<and>
        (calm J \<longrightarrow> pending e' = None))) e"
    by (rule update_metricsI) (auto simp: env_to_def add_times_def)
  then show ?thesis
    by (simp add: wp_def)
qed

theorem update_metrics_keeps_witness:
  "pending (snd (run_state (update_metrics calm_jvm find_entry (Some \<lparr>total_run_time_ns = 1, total_ddwaf_run_time_ns = 2\<rparr>)
     sample_result) (env0\<lparr>pending := Some TimeoutWafException\<rparr>))) = Some TimeoutWafException"
  using update_metrics_keeps [where J = calm_jvm and ofind = find_entry and res = sample_result
      and mo = "Some \<lparr>total_run_time_ns = 1, total_ddwaf_run_time_ns = 2\<rparr>"
      and e = "env0\<lparr>pending := Some TimeoutWafException\<rparr>"] by (simp split: prod.splits)

end
