(* ===== verification/Contexts.thy ===== *)
theory Contexts
  imports Results
begin

text \<open>
  Contexts of the engine: \<^verbatim>\<open>initWafContext\<close>, \<^verbatim>\<open>runWafContext\<close> and \<^verbatim>\<open>clearWafContext\<close> of
  \<^verbatim>\<open>src/main/c/waf_jni.c\<close>, and the life of a Java object \<^verbatim>\<open>WafContext\<close>, whose methods
  (\<^verbatim>\<open>WafContext.java\<close>) call them. Native pointers are numbers, the null pointer is \<open>0\<close>; \<open>live\<close> are the
  contexts that the engine has created and not destroyed. Using or destroying another one is undefined
  behaviour and raises \<open>misuse\<close>.
\<close>

subsection \<open>The engine and the state of the native library\<close>

datatype ret_code = DDWAF_OK | DDWAF_MATCH | DDWAF_ERR_INTERNAL | DDWAF_ERR_INVALID_ARGUMENT | DDWAF_UNKNOWN int

text \<open>The numbers of the error codes, as in \<^verbatim>\<open>WafErrorCode.java\<close>.\<close>

fun code_number :: "ret_code \<Rightarrow> int" where
  "code_number DDWAF_OK = 0"
| "code_number DDWAF_MATCH = 1"
| "code_number DDWAF_ERR_INVALID_ARGUMENT = -1"
| "code_number DDWAF_ERR_INTERNAL = -3"
| "code_number (DDWAF_UNKNOWN k) = k"

text \<open>
  \<open>jv\<close>, \<open>og\<close>, \<open>rg\<close>, \<open>zl\<close>: the virtual machine, the cached methods, and the compression library; \<open>big_end\<close> is
  false on little-endian machines. The functions of the engine that are called: \<open>ddwaf_object_find\<close>,
  \<open>ddwaf_context_init\<close> (\<open>0\<close> is a failure) and \<open>ddwaf_run\<close>. \<open>init_ok\<close> and \<open>pw_run_timeout\<close> are the static
  variables that the initialisation sets.
\<close>

record 'z waf =
  jv :: jvm
  og :: output_globals
  rg :: result_globals
  zl :: "'z zlib"
  big_end :: bool
  ddwaf_object_find :: finder
  ddwaf_context_init :: "nat \<Rightarrow> nat"
  ddwaf_run :: "nat \<Rightarrow> ddwaf_object option \<Rightarrow> ddwaf_object option \<Rightarrow> u64 \<Rightarrow> ret_code \<times> ddwaf_object"
  init_ok :: bool
  pw_run_timeout :: int

subsection \<open>Handles, pointers and buffers\<close>

definition check_init :: "'z waf \<Rightarrow> bool jni" where
  "check_init F =
     (if \<not> init_ok F then do {
        ThrowNew (jv F) (RuntimeException ''Library has not been properly initialized'');
        State_Monad.return False }
      else State_Monad.return True)"

text \<open>\<open>handle_obj\<close> is the field \<^verbatim>\<open>nativeHandle\<close> of the object, \<open>None\<close> for a null reference.\<close>

definition get_pwaf_handle_checked :: "jvm \<Rightarrow> nat option \<Rightarrow> nat jni" where
  "get_pwaf_handle_checked J handle_obj =
     (case handle_obj of
        None \<Rightarrow> do {
          ThrowNew J (IllegalArgumentException ''Passed null to WafHandle'');
          State_Monad.return 0 }
      | Some handle \<Rightarrow>
          if handle = 0 then do {
            ThrowNew J (IllegalArgumentException ''Passed invalid (NULL) to WafHandle'');
            State_Monad.return 0 }
          else State_Monad.return handle)"

text \<open>A pointer that is passed to the engine has to be one of those that exist.\<close>

definition must_exist :: "nat \<Rightarrow> nat list \<Rightarrow> unit jni" where
  "must_exist p ps = (if p \<in> set ps then State_Monad.return () else undefined_behaviour)"

lemma must_exist_wp [wps]: "wp (must_exist p ps) Q e = (if p \<in> set ps then Q () e else Q () (e\<lparr>misuse := True\<rparr>))"
  by (simp add: must_exist_def undefined_behaviour_def wps)

text \<open>\<open>ptr\<close> is the field of the \<^verbatim>\<open>WafContext\<close>.\<close>

definition get_waf_context_context_checked :: "jvm \<Rightarrow> nat \<Rightarrow> nat jni" where
  "get_waf_context_context_checked J ptr = do {
     ok \<leftarrow> read_field J;
     if \<not> ok then State_Monad.return 0
     else do {
       (if ptr = 0 then ThrowNew J (RuntimeException ''The WafContext has already been cleared'')
        else State_Monad.return ());
       State_Monad.return ptr }}"

text \<open>The field afterwards: the old value when \<^verbatim>\<open>SetLongField\<close> throws.\<close>

definition set_waf_context_context_checked :: "jvm \<Rightarrow> nat \<Rightarrow> nat \<Rightarrow> nat jni" where
  "set_waf_context_context_checked J ptr ctx = do {
     ok \<leftarrow> read_field J;
     State_Monad.return (if ok then ctx else ptr) }"

text \<open>A \<^verbatim>\<open>ByteBuffer\<close>: on the Java heap, or direct with a capacity and the object at its start.\<close>

datatype jbuffer = Heap_buffer | Direct_buffer nat ddwaf_object

definition SIZEOF_PWARGS :: nat where
  "SIZEOF_PWARGS = 40"

definition convert_buffer_checked :: "jvm \<Rightarrow> jbuffer option \<Rightarrow> ddwaf_object option jni" where
  "convert_buffer_checked J buffer =
     (case buffer of
        None \<Rightarrow> State_Monad.return None
      | Some Heap_buffer \<Rightarrow> do {
          ThrowNew J (IllegalArgumentException ''Not a DirectBuffer passed'');
          State_Monad.return None }
      | Some (Direct_buffer capacity ob) \<Rightarrow>
          if capacity < SIZEOF_PWARGS then do {
            ThrowNew J (IllegalArgumentException ''Capacity of DirectBuffer is insufficient'');
            State_Monad.return None }
          else State_Monad.return (Some ob))"

subsection \<open>Creating, running and clearing a context\<close>

text \<open>\<open>hs\<close> are the handles that exist in the engine.\<close>

definition initWafContext :: "'z waf \<Rightarrow> nat list \<Rightarrow> nat option \<Rightarrow> nat jni" where
  "initWafContext F hs handle_obj = do {
     nat_handle \<leftarrow> get_pwaf_handle_checked (jv F) handle_obj;
     if nat_handle = 0 then State_Monad.return 0
     else do {
       must_exist nat_handle hs;
       let context = ddwaf_context_init F nat_handle;
       (if context = 0 then ThrowNew (jv F) (RuntimeException ''ddwaf_context_init failed'')
        else State_Monad.return ());
       State_Monad.return context }}"

text \<open>A buffer that cannot be converted: the result says whether the function goes on, and with which object.\<close>

definition input_of :: "jvm \<Rightarrow> nat \<Rightarrow> string \<Rightarrow> jbuffer option \<Rightarrow> ddwaf_object option option jni" where
  "input_of J line what buffer = do {
     ob \<leftarrow> convert_buffer_checked J buffer;
     thr \<leftarrow> ExceptionOccurred;
     if thr \<noteq> None then do {
       let msg = cstr ''Exception converting '' @ [0x27] @ cstr what @ [0x27] @ cstr '' ByteBuffer into ddwaf_object'';
       java_log J DDWAF_LOG_INFO ''_run_waf_context_common'' ''waf_jni.c'' (line - 2) thr msg;
       wrap_exc J ''waf_jni.c'' ''_run_waf_context_common'' line msg;
       DeleteLocalRef thr;
       State_Monad.return None }
     else State_Monad.return (Some ob) }"

definition timed_out :: "finder \<Rightarrow> ddwaf_object \<Rightarrow> bool" where
  "timed_out ofind res =
     (case ofind res (cstr ''timeout'') of
        None \<Rightarrow> False
      | Some ob \<Rightarrow> (case payload ob of DDWAF_OBJ_BOOL b \<Rightarrow> b | _ \<Rightarrow> False))"

text \<open>What is made of the answer of the engine: the part up to the label \<^verbatim>\<open>freeRet\<close>.\<close>

definition run_answer :: "'z waf \<Rightarrow> ret_code \<Rightarrow> ddwaf_object \<Rightarrow> jobject option jni" where
  "run_answer F code res =
     (if timed_out (ddwaf_object_find F) res then do {
        throw_pwaf_timeout_exception (jv F) (rg F);
        State_Monad.return None }
      else (case code of
          DDWAF_OK \<Rightarrow> create_result_checked (jv F) (og F) (rg F) (zl F) (\<not> big_end F) (ddwaf_object_find F) True res
        | DDWAF_MATCH \<Rightarrow> create_result_checked (jv F) (og F) (rg F) (zl F) (\<not> big_end F) (ddwaf_object_find F) False res
        | DDWAF_ERR_INTERNAL \<Rightarrow> do {
            java_log (jv F) DDWAF_LOG_ERROR ''_run_waf_context_common'' ''waf_jni.c'' 553 None (cstr ''libddwaf returned DDWAF_ERR_INTERNAL. Data may have leaked'');
            throw_pwaf_exception (jv F) (rg F) (code_number DDWAF_ERR_INTERNAL);
            State_Monad.return None }
        | _ \<Rightarrow> do {
            throw_pwaf_exception (jv F) (rg F) (code_number code);
            State_Monad.return None }))"

text \<open>
  The engine is run with the budget that is left. \<open>start\<close> and \<open>conv_end\<close> are what the clock shows at the two places
  where it is read.
\<close>

definition run_with_budget ::
    "'z waf \<Rightarrow> timespec \<Rightarrow> timespec option \<Rightarrow> nat list \<Rightarrow> limits \<Rightarrow> nat \<Rightarrow> ddwaf_object option \<Rightarrow> ddwaf_object option \<Rightarrow>
       metrics option \<Rightarrow> (jobject option \<times> metrics option) jni" where
  "run_with_budget F start conv_end live lims context persistent_input ephemeral_input metrics_obj = do {
     t1 \<leftarrow> get_time_checked (jv F) conv_end;
     case t1 of
       None \<Rightarrow> State_Monad.return (None, metrics_obj)
     | Some conv_end \<Rightarrow> do {
         rem \<leftarrow> get_remaining_budget (jv F) start conv_end lims;
         case rem of
           None \<Rightarrow> State_Monad.return (None, metrics_obj)
         | Some rem_gen_budget_in_us \<Rightarrow>
             if rem_gen_budget_in_us = 0 then do {
               java_log (jv F) DDWAF_LOG_INFO ''_run_waf_context_common'' ''waf_jni.c'' 526 None
                 (cstr ''General budget of '' @ dec_int (general_budget_in_us lims) @
                  cstr '' us exhausted after native conversion'');
               throw_pwaf_timeout_exception (jv F) (rg F);
               State_Monad.return (None, metrics_obj) }
             else do {
               run_budget \<leftarrow> get_run_budget (jv F) rem_gen_budget_in_us lims;
               must_exist context live;
               let (code, ddwaf_result) = ddwaf_run F context persistent_input ephemeral_input run_budget;
               result \<leftarrow> run_answer F code ddwaf_result;
               metrics' \<leftarrow> update_metrics (jv F) (ddwaf_object_find F) metrics_obj ddwaf_result;
               State_Monad.return (result, metrics') }}}"

text \<open>
  \<^verbatim>\<open>_run_waf_context_common\<close>, without its second test for a null context, which cannot be reached. The result is the Java object and
  the metrics afterwards.
\<close>

definition run_waf_context_common ::
    "'z waf \<Rightarrow> timespec option \<Rightarrow> timespec option \<Rightarrow> nat list \<Rightarrow> nat \<Rightarrow> jbuffer option \<Rightarrow> jbuffer option \<Rightarrow>
       jlimits option \<Rightarrow> metrics option \<Rightarrow> (jobject option \<times> metrics option) jni" where
  "run_waf_context_common F start conv_end live ptr persistent_data ephemeral_data limits_obj metrics_obj = do {
     t0 \<leftarrow> get_time_checked (jv F) start;
     case t0 of None \<Rightarrow> State_Monad.return (None, metrics_obj) | Some start \<Rightarrow> do {
     ok \<leftarrow> check_init F;
     if \<not> ok then State_Monad.return (None, metrics_obj) else
     case limits_obj of
       None \<Rightarrow> do {
         ThrowNew (jv F) (IllegalArgumentException ''limits should not be null'');
         State_Monad.return (None, metrics_obj) }
     | Some lo \<Rightarrow> do {
         lims \<leftarrow> fetch_limits_checked (jv F) (pw_run_timeout F) lo;
         exc \<leftarrow> ExceptionCheck;
         if exc then State_Monad.return (None, metrics_obj) else do {
         context \<leftarrow> get_waf_context_context_checked (jv F) ptr;
         if context = 0 then State_Monad.return (None, metrics_obj) else do {
         persistent_input \<leftarrow> input_of (jv F) 493 ''persistent'' persistent_data;
         case persistent_input of None \<Rightarrow> State_Monad.return (None, metrics_obj) | Some persistent_ob \<Rightarrow> do {
         ephemeral_input \<leftarrow> input_of (jv F) 505 ''ephemeral'' ephemeral_data;
         case ephemeral_input of None \<Rightarrow> State_Monad.return (None, metrics_obj) | Some ephemeral_ob \<Rightarrow>
         if persistent_ob = None \<and> ephemeral_ob = None then do {
           java_log (jv F) DDWAF_LOG_WARN ''_run_waf_context_common'' ''waf_jni.c'' 513 None (cstr ''Both persistent and ephemeral data are null'');
           throw_pwaf_exception (jv F) (rg F) (code_number DDWAF_ERR_INVALID_ARGUMENT);
           State_Monad.return (None, metrics_obj) }
         else run_with_budget F start conv_end live lims context persistent_ob ephemeral_ob metrics_obj }}}}}}"

definition runWafContext ::
    "'z waf \<Rightarrow> timespec option \<Rightarrow> timespec option \<Rightarrow> nat list \<Rightarrow> nat \<Rightarrow> jbuffer option \<Rightarrow> jbuffer option \<Rightarrow>
       jlimits option \<Rightarrow> metrics option \<Rightarrow> (jobject option \<times> metrics option) jni" where
  "runWafContext F start conv_end live ptr persistent_buffer ephemeral_buffer limits_obj metrics_obj =
     run_waf_context_common F start conv_end live ptr persistent_buffer ephemeral_buffer limits_obj metrics_obj"

text \<open>\<^verbatim>\<open>clearWafContext\<close>: the field and the live contexts afterwards.\<close>

definition clearWafContext :: "'z waf \<Rightarrow> nat list \<Rightarrow> nat \<Rightarrow> (nat \<times> nat list) jni" where
  "clearWafContext F live ptr = do {
     context \<leftarrow> get_waf_context_context_checked (jv F) ptr;
     if context = 0 then State_Monad.return (ptr, live)
     else do {
       must_exist context live;
       ptr' \<leftarrow> set_waf_context_context_checked (jv F) ptr 0;
       State_Monad.return (ptr', removeAll context live) }}"

subsection \<open>What a run should do\<close>

text \<open>
  A call ends with some exception, with a certain exception, or with an answer. \<open>ended w v e r e'\<close> says that the call
  left the environment in order, and, when nothing fails (\<open>w\<close>), ended with \<open>v\<close>.
\<close>

datatype verdict = Rejected | Raised jthrowable | Answer jobject

fun meets :: "verdict \<Rightarrow> jobject option \<Rightarrow> jthrowable option \<Rightarrow> bool" where
  "meets Rejected r p \<longleftrightarrow> r = None \<and> p \<noteq> None"
| "meets (Raised t) r p \<longleftrightarrow> r = None \<and> p = Some t"
| "meets (Answer v) r p \<longleftrightarrow> r = Some v \<and> p = None"

definition ended :: "bool \<Rightarrow> verdict \<Rightarrow> jenv \<Rightarrow> jobject option \<Rightarrow> jenv \<Rightarrow> bool" where
  "ended w v e r e' \<longleftrightarrow> env_to e (pending e') (refs e' - refs e) e' \<and> refs e \<le> refs e' \<and>
     (r = None \<longrightarrow> pending e' \<noteq> None) \<and> (w \<longrightarrow> meets v r (pending e'))"

definition answer_spec :: "'z waf \<Rightarrow> (byte list \<Rightarrow> byte list) \<Rightarrow> ret_code \<times> ddwaf_object \<Rightarrow> verdict" where
  "answer_spec F gz = (\<lambda>(code, res).
     if timed_out (ddwaf_object_find F) res then Raised TimeoutWafException
     else if code \<in> {DDWAF_OK, DDWAF_MATCH} then
       (case result_spec (og F) (rg F) gz (ddwaf_object_find F) (code = DDWAF_OK) res of
          None \<Rightarrow> Rejected | Some v \<Rightarrow> Answer v)
     else Raised (AbstractWafException (code_number code)))"

definition input_spec :: "jbuffer option \<Rightarrow> ddwaf_object option option" where
  "input_spec b =
     (case b of
        None \<Rightarrow> Some None
      | Some Heap_buffer \<Rightarrow> None
      | Some (Direct_buffer capacity ob) \<Rightarrow> if capacity < SIZEOF_PWARGS then None else Some (Some ob))"

definition budget_spec ::
    "'z waf \<Rightarrow> (byte list \<Rightarrow> byte list) \<Rightarrow> timespec \<Rightarrow> timespec option \<Rightarrow> limits \<Rightarrow> nat \<Rightarrow> ddwaf_object option \<Rightarrow> ddwaf_object option \<Rightarrow>
       verdict" where
  "budget_spec F gz t0 conv_end lims context p q =
     (case conv_end of
        None \<Rightarrow> Rejected
      | Some t1 \<Rightarrow>
          if remaining t0 t1 lims = 0 then Raised TimeoutWafException
          else answer_spec F gz (ddwaf_run F context p q (of_int (min (run_budget_in_us lims) (remaining t0 t1 lims)))))"

definition run_spec ::
    "'z waf \<Rightarrow> (byte list \<Rightarrow> byte list) \<Rightarrow> timespec option \<Rightarrow> timespec option \<Rightarrow> nat \<Rightarrow> jbuffer option \<Rightarrow> jbuffer option \<Rightarrow>
       jlimits option \<Rightarrow> verdict" where
  "run_spec F gz start conv_end ptr persistent_data ephemeral_data limits_obj =
     (case (start, limits_obj, input_spec persistent_data, input_spec ephemeral_data) of
        (Some t0, Some lo, Some p, Some q) \<Rightarrow>
          if \<not> init_ok F \<or> ptr = 0 then Rejected
          else if p = None \<and> q = None then Raised (AbstractWafException (-1))
          else budget_spec F gz t0 conv_end (limits_of (pw_run_timeout F) lo) ptr p q
      | _ \<Rightarrow> Rejected)"

definition run_well :: "'z waf \<Rightarrow> bool" where
  "run_well F \<longleftrightarrow> results_well (jv F) (og F) (rg F) (zl F) \<and> ready (create_exception (rg F)) \<and> ready (timeout_exception_init (rg F))"

lemma well_simps: "run_well F \<Longrightarrow> calm (jv F)" "\<not> calm (jv F) \<Longrightarrow> \<not> run_well F"
  "run_well F \<Longrightarrow> ready (create_exception (rg F))"
  by (auto simp: run_well_def results_well_def)

subsection \<open>The code does it\<close>

lemma run_answerI:
  assumes doc: "zlib_doc (zl F) gz zst bound" and small: "\<And>t. length t \<le> MAX_SIZE_OF_SCHEMA \<Longrightarrow> length (gz t) < 2 ^ 62"
    and e: "pending e = None" and h: "heap_ok (json_mem e)" and fp: "attributes_ok (ddwaf_object_find F res (cstr ''attributes''))"
    and Q: "\<And>r e'. ended (run_well F) (answer_spec F gz (code, res)) e r e' \<Longrightarrow> Q r e'"
  shows "wp (run_answer F code res) Q e"
proof (rule wp_mono [where P = "ended (run_well F) (answer_spec F gz (code, res)) e"])
  note result = create_resultI [where ofind = "ddwaf_object_find F" and res = res, OF doc small e h fp]
  show "wp (run_answer F code res) (ended (run_well F) (answer_spec F gz (code, res)) e) e"
  proof (cases "timed_out (ddwaf_object_find F) res")
    case True
    then show ?thesis
      using e by (auto simp: run_answer_def throw_pwaf_timeout_exception_def answer_spec_def wps env_to_def ended_def run_well_def
          results_well_def del: iffCE impCE intro!: throw_createdI)
  next
    case False
    then show ?thesis
      using e
      by (cases code) (auto simp: run_answer_def throw_pwaf_exception_def answer_spec_def wps env_to_def ended_def run_well_def
          results_well_def del: iffCE impCE intro!: throw_createdI java_logI result split: option.split)
  qed
qed (rule Q)

lemma ended_trans:
  assumes "env_to e None d e1" and "0 \<le> d" and "ended w v e1 r e2"
  shows "ended w v e r e2"
  using assms by (auto simp: ended_def env_to_def)

lemma ended_failI:
  "pending e' \<noteq> None \<Longrightarrow> env_to e (pending e') (refs e' - refs e) e' \<Longrightarrow> refs e \<le> refs e' \<Longrightarrow> (w \<longrightarrow> meets v None (pending e')) \<Longrightarrow>
     ended w v e None e'"
  by (auto simp: ended_def)

text \<open>What the engine is relied on for: fingerprints are strings.\<close>

definition engine_ok :: "'z waf \<Rightarrow> bool" where
  "engine_ok F \<longleftrightarrow> (\<forall>c p q b. attributes_ok (ddwaf_object_find F (snd (ddwaf_run F c p q b)) (cstr ''attributes'')))"

definition clocks_ok :: "timespec option \<Rightarrow> timespec option \<Rightarrow> bool" where
  "clocks_ok a b \<longleftrightarrow> (\<forall>s t. a = Some s \<and> b = Some t \<longrightarrow> time_ok s \<and> time_ok t \<and> ns s \<le> ns t)"

definition budget_ok :: "jlimits \<Rightarrow> bool" where
  "budget_ok lo \<longleftrightarrow> - (2 ^ 62) \<le> generalBudgetInUs lo \<and> generalBudgetInUs lo < 2 ^ 63"

lemma run_with_budgetI:
  assumes doc: "zlib_doc (zl F) gz zst bound" and small: "\<And>t. length t \<le> MAX_SIZE_OF_SCHEMA \<Longrightarrow> length (gz t) < 2 ^ 62"
    and e: "pending e = None" and h: "heap_ok (json_mem e)" and eng: "engine_ok F" and c: "context \<in> set live"
    and clk: "clocks_ok (Some t0) conv_end" and b: "- (2 ^ 62) \<le> general_budget_in_us lims" "general_budget_in_us lims < 2 ^ 63"
    and v: "v = budget_spec F gz t0 conv_end lims context p q"
  shows "wp (run_with_budget F t0 conv_end live lims context p q mo) (\<lambda>(r, mo'). ended (run_well F) v e r) e"
proof (cases conv_end)
  case None
  then show ?thesis
    using e v by (auto simp: run_with_budget_def budget_spec_def wps ended_def env_to_def intro!: get_timeI)
next
  case (Some t1)
  then have t: "time_ok t0" "time_ok t1" "ns t0 \<le> ns t1"
    using clk by (auto simp: clocks_ok_def)
  let ?rem = "remaining t0 t1 lims"
  obtain code res where run: "ddwaf_run F context p q (of_int (min (run_budget_in_us lims) ?rem)) = (code, res)"
    by (cases "ddwaf_run F context p q (of_int (min (run_budget_in_us lims) ?rem))")
  have fp: "attributes_ok (ddwaf_object_find F res (cstr ''attributes''))"
    using eng run unfolding engine_ok_def by (metis snd_conv)
  show ?thesis
  proof (cases "?rem = 0")
    case True
    then show ?thesis
      using e v Some
      by (auto simp: run_with_budget_def budget_spec_def get_time_checked_def throw_pwaf_timeout_exception_def wps env_to_def ended_def run_well_def
          results_well_def del: iffCE impCE
          intro!: get_remaining_budgetI [OF _ t b] java_logI throw_createdI)
  next
    case False
    have v: "v = answer_spec F gz (code, res)"
      using v Some False run by (simp add: budget_spec_def)
    have last: "wp (run_answer F code res) (\<lambda>r. wp (do { m \<leftarrow> update_metrics (jv F) (ddwaf_object_find F) mo res;
        State_Monad.return (r, m) }) (\<lambda>(r, mo'). ended (run_well F) v e r)) e1" if e1: "env_to e None 0 e1" for e1
    proof (rule run_answerI [OF doc small _ _ fp])
      show "pending e1 = None" "heap_ok (json_mem e1)"
        using e1 h by (auto simp: env_to_def)
    next
      fix r e2 assume "ended (run_well F) (answer_spec F gz (code, res)) e1 r e2"
      then have r: "ended (run_well F) v e r e2"
        using ended_trans [OF e1 order_refl] v by blast
      show "wp (do { m \<leftarrow> update_metrics (jv F) (ddwaf_object_find F) mo res; State_Monad.return (r, m) })
          (\<lambda>(r, mo'). ended (run_well F) v e r) e2"
        unfolding wp_bind
      proof (rule update_metricsI, goal_cases)
        case (1 e3)
        then show ?case
          using r by (auto simp: wp_return ended_def env_to_def del: iffCE impCE)
      next
        case (2 mo' e3 t)
        then have "run_well F \<Longrightarrow> pending e2 = Some t"
          using well_simps(1) [of F] by auto
        then show ?case
          using r 2(1) by (auto simp: wp_return ended_def env_to_def del: iffCE impCE)
      qed
    qed
    show ?thesis
      using e c Some False run
      by (auto simp: run_with_budget_def get_time_checked_def wp_return wp_bind wp_if must_exist_wp option.case Let_def env_to_def
          del: iffCE impCE intro!: get_remaining_budgetI [OF _ t b] get_run_budgetI last)
  qed
qed

lemma input_ofI:
  assumes "pending e = None" and "\<And>e' x. env_to e None 0 e' \<Longrightarrow> input_spec b = Some x \<Longrightarrow> Q (Some x) e'"
    and "\<And>e' t. env_to e (Some t) 0 e' \<Longrightarrow> input_spec b = None \<Longrightarrow> Q None e'"
  shows "wp (input_of J line what b) Q e"
  using assms
  by (auto simp: input_of_def convert_buffer_checked_def input_spec_def wps Let_def env_to_def del: iffCE impCE
      intro!: ThrowNewI java_logI wrap_excI split: option.split jbuffer.split)

lemma get_contextI:
  assumes "pending e = None" and "\<And>e'. env_to e None 0 e' \<Longrightarrow> ptr \<noteq> 0 \<Longrightarrow> Q ptr e'"
    and "\<And>e' t. env_to e (Some t) 0 e' \<Longrightarrow> (calm J \<Longrightarrow> ptr = 0) \<Longrightarrow> Q 0 e'"
  shows "wp (get_waf_context_context_checked J ptr) Q e"
  using assms
  by (auto simp: get_waf_context_context_checked_def wps env_to_def intro!: read_fieldI ThrowNewI)

lemma check_initI:
  assumes "pending e = None" and "init_ok F \<Longrightarrow> Q True e" and "\<And>e' t. env_to e (Some t) 0 e' \<Longrightarrow> \<not> init_ok F \<Longrightarrow> Q False e'"
  shows "wp (check_init F) Q e"
  using assms by (auto simp: check_init_def wps intro!: ThrowNewI)

lemma run_wp:
  assumes doc: "zlib_doc (zl F) gz zst bound" and small: "\<And>t. length t \<le> MAX_SIZE_OF_SCHEMA \<Longrightarrow> length (gz t) < 2 ^ 62"
    and e: "pending e = None" and h: "heap_ok (json_mem e)" and eng: "engine_ok F" and c: "ptr \<noteq> 0 \<Longrightarrow> ptr \<in> set live"
    and clk: "clocks_ok start conv_end" and b: "\<And>lo. limits_obj = Some lo \<Longrightarrow> budget_ok lo"
  shows "wp (run_waf_context_common F start conv_end live ptr p q limits_obj mo)
    (\<lambda>(r, mo'). ended (run_well F) (run_spec F gz start conv_end ptr p q limits_obj) e r) e"
proof -
  obtain v where v: "v = run_spec F gz start conv_end ptr p q limits_obj"
    by simp
  have "wp (run_waf_context_common F start conv_end live ptr p q limits_obj mo) (\<lambda>(r, mo'). ended (run_well F) v e r) e"
  proof (cases "start = None \<or> limits_obj = None")
    case True
    then have "v = Rejected"
      by (auto simp: v run_spec_def split: option.split)
    with True show ?thesis
      using e
      by (auto simp: run_waf_context_common_def wps env_to_def simp del: not_None_eq
          intro!: get_timeI check_initI ThrowNewI ended_failI split: option.split)
  next
    case False
    then obtain t0 lo where so: "start = Some t0" "limits_obj = Some lo"
      by auto
    let ?lims = "limits_of (pw_run_timeout F) lo"
    have b': "- (2 ^ 62) \<le> general_budget_in_us ?lims" "general_budget_in_us ?lims < 2 ^ 63"
      using b [OF so(2)] by (auto simp: budget_ok_def limits_of_def)
    have last: "wp (run_with_budget F t0 conv_end live ?lims ptr p' q' mo) (\<lambda>(r, mo'). ended (run_well F) v e r) e1"
      if "env_to e None 0 e1" "input_spec p = Some p'" "input_spec q = Some q'" "p' \<noteq> None \<or> q' \<noteq> None" "ptr \<noteq> 0" "init_ok F"
      for p' q' e1
    proof (rule wp_mono [OF run_with_budgetI [OF doc small _ _ eng c [OF that(5)] clk [unfolded so(1)] b' refl, of e1]], goal_cases)
      case (4 r e2)
      then show ?case
        using ended_trans [OF that(1) order_refl] so that(2-) by (auto simp: v run_spec_def Let_def split: prod.splits)
    qed (use that(1) h in \<open>auto simp: env_to_def\<close>)
    have rej: "v = Rejected" if "\<not> init_ok F \<or> ptr = 0 \<or> input_spec p = None \<or> input_spec q = None"
      using that by (auto simp: v so run_spec_def split: option.split)
    have both: "v = Raised (AbstractWafException (-1))"
      if "init_ok F" "ptr \<noteq> 0" "input_spec p = Some None" "input_spec q = Some None"
      using that by (simp add: v so run_spec_def)
    show ?thesis
      using e rej both so
      by (auto simp: run_waf_context_common_def get_time_checked_def throw_pwaf_exception_def wps env_to_def well_simps
          simp del: not_None_eq del: iffCE impCE
          intro!: check_initI fetch_limitsI get_contextI input_ofI java_logI throw_createdI ended_failI last)
  qed
  then show ?thesis
    by (simp only: v)
qed

subsection \<open>The life of a context\<close>

lemma initWafContextI:
  assumes "pending e = None" and "\<And>h. handle_obj = Some h \<Longrightarrow> h \<in> insert 0 (set hs)"
    and "\<And>c e'. c \<noteq> 0 \<Longrightarrow> env_to e None 0 e' \<Longrightarrow> (\<exists>h. handle_obj = Some h \<and> h \<noteq> 0 \<and> c = ddwaf_context_init F h) \<Longrightarrow> Q c e'"
    and "\<And>t e'. env_to e (Some t) 0 e' \<Longrightarrow> Q 0 e'"
  shows "wp (initWafContext F hs handle_obj) Q e"
  using assms
  by (auto simp: initWafContext_def get_pwaf_handle_checked_def wps Let_def env_to_refl intro!: ThrowNewI split: option.split)

lemma clearWafContextI:
  assumes "pending e = None" and "ptr \<noteq> 0 \<Longrightarrow> ptr \<in> set live"
    and "\<And>e'. env_to e None 0 e' \<Longrightarrow> ptr \<noteq> 0 \<Longrightarrow> Q (0, removeAll ptr live) e'"
    and "\<And>t e'. env_to e (Some t) 0 e' \<Longrightarrow> \<not> calm (jv F) \<Longrightarrow> ptr \<noteq> 0 \<Longrightarrow> Q (ptr, removeAll ptr live) e'"
    and "\<And>t e'. env_to e (Some t) 0 e' \<Longrightarrow> (calm (jv F) \<Longrightarrow> ptr = 0) \<Longrightarrow> Q (ptr, live) e'"
  shows "wp (clearWafContext F live ptr) Q e"
  using assms
  by (auto simp: clearWafContext_def set_waf_context_context_checked_def wps env_to_def intro!: get_contextI read_fieldI)

text \<open>
  The Java objects, with the fields \<^verbatim>\<open>ptr\<close> and \<^verbatim>\<open>online\<close>, the contexts of the engine, and the environment between
  calls. The methods of \<^verbatim>\<open>WafContext.java\<close> hold the monitor of the object, so calls for one object do not overlap, and they
  call the native code only while the object is online. Java code handles the exceptions of a call before the next one.
\<close>

record wctx =
  ctx_ptr :: nat
  ctx_online :: bool

record world =
  objs :: "nat \<rightharpoonup> wctx"
  live_ctxs :: "nat list"
  wenv :: jenv

definition handled :: "jenv \<Rightarrow> jenv" where
  "handled e = e\<lparr>pending := None\<rparr>"

text \<open>
  One call, in which the engine and the virtual machine may be any \<open>F\<close> with \<open>ok F\<close>. A context that the engine creates is
  not one of those that exist. The constructor is called with null or with the pointer in a \<^verbatim>\<open>WafHandle\<close>, one of
  \<open>given\<close>; \<open>hs\<close> are the handles that exist in the engine.
\<close>

inductive wstep :: "('z waf \<Rightarrow> bool) \<Rightarrow> nat set \<Rightarrow> nat list \<Rightarrow> world \<Rightarrow> world \<Rightarrow> bool" for ok given hs where
  create: "ok F \<Longrightarrow> set_option handle \<subseteq> given \<Longrightarrow> objs w i = None \<Longrightarrow> ddwaf_context_init F (the handle) \<notin> set (live_ctxs w) \<Longrightarrow>
    run_state (initWafContext F hs handle) (wenv w) = (c, e') \<Longrightarrow> pending e' = None \<Longrightarrow>
    wstep ok given hs w (w\<lparr>objs := (objs w)(i \<mapsto> \<lparr>ctx_ptr = c, ctx_online = True\<rparr>), live_ctxs := c # live_ctxs w, wenv := e'\<rparr>)"
| create_throws: "ok F \<Longrightarrow> set_option handle \<subseteq> given \<Longrightarrow> run_state (initWafContext F hs handle) (wenv w) = (c, e') \<Longrightarrow> pending e' \<noteq> None \<Longrightarrow>
    wstep ok given hs w (w\<lparr>wenv := handled e'\<rparr>)"
| run: "ok F \<Longrightarrow> objs w i = Some x \<Longrightarrow> ctx_online x \<Longrightarrow> clocks_ok start conv_end \<Longrightarrow>
    (\<And>lo. limits_obj = Some lo \<Longrightarrow> budget_ok lo) \<Longrightarrow>
    run_state (runWafContext F start conv_end (live_ctxs w) (ctx_ptr x) p q limits_obj mo) (wenv w) = (r, e') \<Longrightarrow>
    wstep ok given hs w (w\<lparr>wenv := handled e'\<rparr>)"
| close: "ok F \<Longrightarrow> objs w i = Some x \<Longrightarrow> ctx_online x \<Longrightarrow>
    run_state (clearWafContext F (live_ctxs w) (ctx_ptr x)) (wenv w) = ((c, l), e') \<Longrightarrow>
    wstep ok given hs w (w\<lparr>objs := (objs w)(i \<mapsto> \<lparr>ctx_ptr = c, ctx_online = False\<rparr>), live_ctxs := l, wenv := handled e'\<rparr>)"

definition world0 :: world where
  "world0 = \<lparr>objs = Map.empty, live_ctxs = [], wenv = env0\<rparr>"

text \<open>Online objects own distinct live contexts, and nothing has gone wrong.\<close>

definition calls_ok :: "jenv \<Rightarrow> bool" where
  "calls_ok e \<longleftrightarrow> pending e = None \<and> \<not> misuse e \<and> heap_ok (json_mem e) \<and> store (json_mem e) = Map.empty"

definition world_inv :: "world \<Rightarrow> bool" where
  "world_inv w \<longleftrightarrow> calls_ok (wenv w) \<and> 0 \<notin> set (live_ctxs w) \<and>
     (\<forall>i x. objs w i = Some x \<and> ctx_online x \<longrightarrow> ctx_ptr x \<in> set (live_ctxs w)) \<and>
     (\<forall>i j x y. objs w i = Some x \<and> objs w j = Some y \<and> ctx_online x \<and> ctx_online y \<and> ctx_ptr x = ctx_ptr y \<longrightarrow> i = j)"

text \<open>What is assumed of the compression library and the engine.\<close>

definition sane :: "'z waf \<Rightarrow> bool" where
  "sane F \<longleftrightarrow> engine_ok F \<and> (\<exists>gz zst bound. zlib_doc (zl F) gz zst bound \<and>
     (\<forall>t. length t \<le> MAX_SIZE_OF_SCHEMA \<longrightarrow> length (gz t) < 2 ^ 62))"

definition env_fine :: "jenv \<Rightarrow> jenv \<Rightarrow> bool" where
  "env_fine e e' \<longleftrightarrow> misuse e' = misuse e \<and> store (json_mem e') = store (json_mem e) \<and> (heap_ok (json_mem e) \<longrightarrow> heap_ok (json_mem e'))"

lemma init_run:
  assumes "run_state (initWafContext F hs handle) e = (c, e')" and "pending e = None" and "set_option handle \<subseteq> insert 0 (set hs)"
  shows "env_fine e e' \<and> (pending e' = None \<longrightarrow> c \<noteq> 0 \<and> c = ddwaf_context_init F (the handle))"
proof -
  have "wp (initWafContext F hs handle) (\<lambda>c e'. env_fine e e' \<and> (pending e' = None \<longrightarrow> c \<noteq> 0 \<and> c = ddwaf_context_init F (the handle))) e"
    by (rule initWafContextI [OF assms(2)]) (use assms(3) in \<open>auto simp: env_to_def env_fine_def\<close>)
  then show ?thesis
    by (rule wp_run [OF _ assms(1)])
qed

lemma run_run:
  assumes "run_state (runWafContext F start conv_end live ptr p q limits_obj mo) e = (r, e')" and "sane F"
    and "pending e = None" and "heap_ok (json_mem e)" and "ptr \<in> set live" and "clocks_ok start conv_end"
    and "\<And>lo. limits_obj = Some lo \<Longrightarrow> budget_ok lo"
  shows "env_fine e e'"
proof -
  obtain gz zst bound where z: "zlib_doc (zl F) gz zst bound" "\<And>t. length t \<le> MAX_SIZE_OF_SCHEMA \<Longrightarrow> length (gz t) < 2 ^ 62"
    "engine_ok F"
    using assms(2) by (auto simp: sane_def)
  show ?thesis
    using wp_run [OF run_wp [OF z(1) z(2) assms(3,4) z(3) assms(5) assms(6) assms(7)] assms(1) [unfolded runWafContext_def]]
    by (auto simp: ended_def env_fine_def env_to_def split: prod.splits)
qed

lemma clear_run:
  assumes "run_state (clearWafContext F live ptr) e = ((c, l), e')" and "pending e = None" and "ptr \<in> set live" and "ptr \<noteq> 0"
  shows "env_fine e e' \<and> (l = live \<or> l = removeAll ptr live) \<and> (calm (jv F) \<longrightarrow> l = removeAll ptr live \<and> c = 0 \<and> pending e' = None)"
proof -
  have "wp (clearWafContext F live ptr) (\<lambda>(c, l) e'. env_fine e e' \<and> (l = live \<or> l = removeAll ptr live) \<and>
      (calm (jv F) \<longrightarrow> l = removeAll ptr live \<and> c = 0 \<and> pending e' = None)) e"
    by (rule clearWafContextI [OF assms(2)]) (use assms(3,4) in \<open>auto simp: env_to_def env_fine_def\<close>)
  from wp_run [OF this assms(1)] show ?thesis
    by simp
qed

lemma world_inv_env:
  "world_inv w \<Longrightarrow> env_fine (wenv w) e' \<Longrightarrow> world_inv (w\<lparr>wenv := handled e'\<rparr>)"
  unfolding world_inv_def calls_ok_def env_fine_def handled_def by auto

lemma wstep_inv:
  assumes "wstep ok given hs w w'" and "world_inv w" and "\<And>F. ok F \<Longrightarrow> sane F" and "given \<subseteq> insert 0 (set hs)"
  shows "world_inv w'"
  using assms(1)
proof cases
  case (create F handle i c e')
  have "env_fine (wenv w) e'" "c \<noteq> 0" "c \<notin> set (live_ctxs w)"
    using init_run [OF create(6)] create(3,5,7) assms(2,4) by (auto simp: world_inv_def calls_ok_def)
  then show ?thesis
    using assms(2) create(1,7) unfolding world_inv_def calls_ok_def env_fine_def by (auto split: if_splits)
next
  case (create_throws F handle c e')
  have "env_fine (wenv w) e'"
    using init_run [OF create_throws(4)] create_throws(3) assms(2,4) by (auto simp: world_inv_def calls_ok_def)
  then show ?thesis
    using world_inv_env [OF assms(2)] create_throws(1) by simp
next
  case (run F i x start conv_end limits_obj p q mo r e')
  have "env_fine (wenv w) e'"
    using run_run [OF run(7) assms(3) [OF run(2)]] assms(2) run(3-6) by (auto simp: world_inv_def calls_ok_def)
  then show ?thesis
    using world_inv_env [OF assms(2)] run(1) by simp
next
  case (close F i x c l e')
  have x: "ctx_ptr x \<in> set (live_ctxs w)" "ctx_ptr x \<noteq> 0"
    using assms(2) close(3,4) unfolding world_inv_def by metis+
  have "env_fine (wenv w) e'" "l = live_ctxs w \<or> l = removeAll (ctx_ptr x) (live_ctxs w)"
    using clear_run [OF close(5) _ x] assms(2) by (auto simp: world_inv_def calls_ok_def)
  then show ?thesis
    using assms(2) close(1,3,4) unfolding world_inv_def calls_ok_def env_fine_def handled_def by (auto split: if_splits)
qed

lemma world0_inv: "world_inv world0"
  by (simp add: world_inv_def calls_ok_def world0_def heap_ok_def heap0_def)

text \<open>When nothing fails, the live contexts are those of the objects that are online.\<close>

definition online_objs :: "world \<Rightarrow> nat set" where
  "online_objs w = {i. \<exists>x. objs w i = Some x \<and> ctx_online x}"

definition no_leak :: "world \<Rightarrow> bool" where
  "no_leak w \<longleftrightarrow> finite (online_objs w) \<and> set (live_ctxs w) \<subseteq> (\<lambda>i. ctx_ptr (the (objs w i))) ` online_objs w"

lemma clear_no_leak:
  assumes "world_inv w" and "no_leak w" and "objs w i = Some x" and "ctx_online x"
    and "w' = w\<lparr>objs := (objs w)(i \<mapsto> \<lparr>ctx_ptr = 0, ctx_online = False\<rparr>),
      live_ctxs := removeAll (ctx_ptr x) (live_ctxs w), wenv := e'\<rparr>"
  shows "no_leak w' \<and> online_objs w' = online_objs w - {i}"
proof -
  have on: "online_objs w' = online_objs w - {i}"
    using assms(5) by (auto simp: online_objs_def)
  have "set (live_ctxs w') \<subseteq> (\<lambda>i. ctx_ptr (the (objs w' i))) ` online_objs w'"
  proof
    fix c assume "c \<in> set (live_ctxs w')"
    then have c: "c \<in> set (live_ctxs w)" "c \<noteq> ctx_ptr x"
      using assms(5) by auto
    then obtain j where j: "j \<in> online_objs w" "c = ctx_ptr (the (objs w j))"
      using assms(2) by (auto simp: no_leak_def)
    then have "j \<noteq> i"
      using c(2) assms(3) by auto
    then show "c \<in> (\<lambda>i. ctx_ptr (the (objs w' i))) ` online_objs w'"
      using j on assms(5) by (auto intro!: image_eqI [of _ _ j])
  qed
  then show ?thesis
    using on assms(2) by (simp add: no_leak_def)
qed

lemma wstep_no_leak:
  assumes "wstep ok given hs w w'" and "world_inv w" and "no_leak w" and "\<And>F. ok F \<Longrightarrow> calm (jv F)"
  shows "no_leak w'"
  using assms(1)
proof cases
  case (create F handle i c e')
  then have on: "online_objs w' = insert i (online_objs w)" "i \<notin> online_objs w"
    by (auto simp: online_objs_def)
  have "(\<lambda>j. ctx_ptr (the (objs w' j))) ` online_objs w = (\<lambda>j. ctx_ptr (the (objs w j))) ` online_objs w"
    using on(2) create(1) by (intro image_cong) auto
  then show ?thesis
    using assms(3) on create(1) by (auto simp: no_leak_def)
next
  case (create_throws F handle c e')
  then show ?thesis
    using assms(3) by (simp add: no_leak_def online_objs_def)
next
  case (run F i x start conv_end limits_obj p q mo r e')
  then show ?thesis
    using assms(3) by (simp add: no_leak_def online_objs_def)
next
  case (close F i x c l e')
  have x: "ctx_ptr x \<in> set (live_ctxs w)" "ctx_ptr x \<noteq> 0"
    using assms(2) close(3,4) unfolding world_inv_def by metis+
  have "c = 0" "l = removeAll (ctx_ptr x) (live_ctxs w)"
    using clear_run [OF close(5) _ x] assms(2) assms(4) [OF close(2)] by (auto simp: world_inv_def calls_ok_def)
  then show ?thesis
    using clear_no_leak [OF assms(2,3) close(3,4)] close(1) by simp
qed

lemma world0_no_leak: "no_leak world0"
  by (simp add: no_leak_def online_objs_def world0_def)

lemma close_all:
  assumes "world_inv w" and "no_leak w" and "ok F" and "\<And>F. ok F \<Longrightarrow> sane F" and "\<And>F. ok F \<Longrightarrow> calm (jv F)"
    and "given \<subseteq> insert 0 (set hs)"
  shows "\<exists>w'. (wstep ok given hs)\<^sup>*\<^sup>* w w' \<and> live_ctxs w' = []"
  using assms(1,2)
proof (induction "card (online_objs w)" arbitrary: w)
  case 0
  then have "live_ctxs w = []"
    by (auto simp: no_leak_def)
  then show ?case
    by blast
next
  case (Suc n)
  have "online_objs w \<noteq> {}"
    using Suc(2) by auto
  then obtain i x where x: "objs w i = Some x" "ctx_online x" "i \<in> online_objs w"
    by (auto simp: online_objs_def)
  have p: "ctx_ptr x \<in> set (live_ctxs w)" "ctx_ptr x \<noteq> 0" "pending (wenv w) = None"
    using Suc(3) x unfolding world_inv_def calls_ok_def by metis+
  obtain c l e' where r: "run_state (clearWafContext F (live_ctxs w) (ctx_ptr x)) (wenv w) = ((c, l), e')"
    by (metis surj_pair)
  have cl: "c = 0" "l = removeAll (ctx_ptr x) (live_ctxs w)"
    using clear_run [OF r p(3,1,2)] assms(5) [OF assms(3)] by auto
  let ?w = "w\<lparr>objs := (objs w)(i \<mapsto> \<lparr>ctx_ptr = c, ctx_online = False\<rparr>), live_ctxs := l, wenv := handled e'\<rparr>"
  have step: "wstep ok given hs w ?w"
    by (rule wstep.close [where ok = ok and given = given and hs = hs, OF assms(3) x(1,2) r])
  have w: "no_leak ?w" "online_objs ?w = online_objs w - {i}"
    using clear_no_leak [OF Suc(3,4) x(1,2)] cl by simp_all
  then have "card (online_objs ?w) = n"
    using Suc(2,4) x(3) by (simp add: no_leak_def)
  then obtain w' where "(wstep ok given hs)\<^sup>*\<^sup>* ?w w'" "live_ctxs w' = []"
    using Suc(1) [OF _ wstep_inv [OF step Suc(3) assms(4,6)] w(1)] by blast
  then show ?case
    using step by (meson converse_rtranclp_into_rtranclp)
qed

subsection \<open>Properties\<close>


text \<open>An engine that always finds the same result, on a virtual machine on which nothing fails.\<close>

definition sample_waf :: "byte list waf" where
  "sample_waf = \<lparr>jv = calm_jvm, og = globals0, rg = results0, zl = stored, big_end = False, ddwaf_object_find = find_entry,
     ddwaf_context_init = (\<lambda>h. h), ddwaf_run = (\<lambda>c p q b. (DDWAF_MATCH, sample_result)), init_ok = True,
     pw_run_timeout = 1000\<rparr>"

definition sample_jlimits :: jlimits where
  "sample_jlimits = \<lparr>maxDepth = 10, maxElements = 10, maxStringSize = 10, generalBudgetInUs = 100, runBudgetInUs = 0\<rparr>"

lemma sample_engine: "engine_ok sample_waf"
  by (simp add: engine_ok_def sample_waf_def find_sample attributes_ok_def)

lemma sample_run_well: "run_well sample_waf"
  using sample_well(1) by (simp add: run_well_def sample_waf_def results0_def some_meth_def ready_def)

definition sample_time :: timespec where
  "sample_time = \<lparr>tv_sec = 1, tv_nsec = 0\<rparr>"

lemma sample_run_spec:
  "run_spec sample_waf gz (Some sample_time) (Some sample_time) 7 (Some (Direct_buffer 40 empty_map)) None (Some sample_jlimits) =
     Answer sample_java_result"
proof -
  have rem: "remaining sample_time sample_time (limits_of 1000 sample_jlimits) = 100"
    by (simp add: remaining_def limits_of_def sample_jlimits_def)
  show ?thesis
    by (simp add: run_spec_def budget_spec_def input_spec_def SIZEOF_PWARGS_def answer_spec_def sample_waf_def rem timed_out_def
        find_sample sample_result_spec)
qed


lemma sample_sane: "sane sample_waf"
  unfolding sane_def
proof (intro conjI exI)
  show "zlib_doc (zl sample_waf) id (\<lambda>z i w. i = w @ z) (\<lambda>n. n)"
    using stored_doc by (simp add: sample_waf_def)
qed (simp_all add: sample_engine MAX_SIZE_OF_SCHEMA_def)

end
