(* ===== verification/Caches.thy ===== *)
theory Caches
  imports Contexts
begin

text \<open>
  What the native library looks up once and keeps: the functions of \<^verbatim>\<open>src/main/c/waf_jni.c\<close> that fill
  and release the caches of classes, objects, fields and methods. The static variables of the C files
  are a store: \<open>grefs\<close> holds the global references by the name of the variable, \<open>meths\<close> the methods, and
  \<open>field_ids\<close> the identifiers of fields and methods, which need not be released. A static
  variable starts as null. The counter \<open>weak_refs\<close> counts global references, weak and strong. \<open>log_cb\<close> says whether the
  engine has the callback that logs, and \<open>cs_active\<close> is the flag \<^verbatim>\<open>_active\<close> of \<^verbatim>\<open>cs_wrapper.c\<close>. A sequence of \<^verbatim>\<open>if (!f()) goto error\<close> and a conjunction \<^verbatim>\<open>f() && g()\<close> are
  both a \<open>chain\<close>.
\<close>

subsection \<open>The static variables\<close>

record native =
  nenv :: jenv
  grefs :: "string \<Rightarrow> nat option"
  meths :: "string \<Rightarrow> j_method"
  field_ids :: "string \<Rightarrow> bool"
  native_init_ok :: bool
  native_min_level :: nat
  native_timeout :: int
  log_cb :: bool
  cs_active :: bool

type_synonym 'a nat_io = "(native, 'a) state"

definition meth_null :: j_method where
  "meth_null = \<lparr>jm_type = JMETHOD_UNINITIALIZED, class_glob = None, meth_id = ''''\<rparr>"

definition zeroed :: "jenv \<Rightarrow> native" where
  "zeroed e = \<lparr>nenv = e, grefs = (\<lambda>_. None), meths = (\<lambda>_. meth_null), field_ids = (\<lambda>_. False), native_init_ok = False,
     native_min_level = 0, native_timeout = 0, log_cb = False, cs_active = False\<rparr>"

text \<open>
  The functions of the other components see of these variables whether an exception can be wrapped,
  which needs the class and the constructor, and the level of the log.
\<close>

definition jvm_now :: "jvm \<Rightarrow> native \<Rightarrow> jvm" where
  "jvm_now J s = J\<lparr>rte_cached := (grefs s ''jcls_rte'' \<noteq> None \<and> field_ids s ''rte_constr_cause''),
     min_level := native_min_level s\<rparr>"

definition jni :: "jvm \<Rightarrow> (jvm \<Rightarrow> 'a jni) \<Rightarrow> 'a nat_io" where
  "jni J f = State (\<lambda>s. case run_state (f (jvm_now J s)) (nenv s) of (r, e) \<Rightarrow> (r, s\<lparr>nenv := e\<rparr>))"

definition get_ref :: "string \<Rightarrow> nat option nat_io" where
  "get_ref v = State (\<lambda>s. (grefs s v, s))"

definition set_ref :: "string \<Rightarrow> nat option \<Rightarrow> unit nat_io" where
  "set_ref v r = State (\<lambda>s. ((), s\<lparr>grefs := (grefs s)(v := r)\<rparr>))"

definition get_meth :: "string \<Rightarrow> j_method nat_io" where
  "get_meth v = State (\<lambda>s. (meths s v, s))"

definition set_meth :: "string \<Rightarrow> j_method \<Rightarrow> unit nat_io" where
  "set_meth v m = State (\<lambda>s. ((), s\<lparr>meths := (meths s)(v := m)\<rparr>))"

definition set_id :: "string \<Rightarrow> bool \<Rightarrow> unit nat_io" where
  "set_id v b = State (\<lambda>s. ((), s\<lparr>field_ids := (field_ids s)(v := b)\<rparr>))"

primrec chain :: "bool nat_io list \<Rightarrow> bool nat_io" where
  "chain [] = State_Monad.return True"
| "chain (f # fs) = do { ok \<leftarrow> f; if ok then chain fs else State_Monad.return False }"

subsection \<open>Looking up\<close>

definition FindClass :: "jvm \<Rightarrow> unit option nat_io" where
  "FindClass J = jni J (\<lambda>J. JNI_local J (Some ()))"

text \<open>\<^verbatim>\<open>GetFieldID\<close> and \<^verbatim>\<open>GetMethodID\<close>, with their result in a static variable.\<close>

definition fetch_id :: "jvm \<Rightarrow> string \<Rightarrow> bool nat_io" where
  "fetch_id J v = do { ok \<leftarrow> jni J JNI_call; set_id v ok; State_Monad.return ok }"

definition cache_single_class_weak :: "jvm \<Rightarrow> string \<Rightarrow> string \<Rightarrow> bool nat_io" where
  "cache_single_class_weak J class_name out = do {
     cls_local \<leftarrow> FindClass J;
     if cls_local = None then do {
       jni J (\<lambda>J. wrap_exc J ''waf_jni.c'' ''_cache_single_class_weak'' 894 (cstr ''Could not find class '' @ cstr class_name));
       State_Monad.return False }
     else do {
       g \<leftarrow> jni J NewWeakGlobalRef;
       set_ref out g;
       jni J (\<lambda>_. DeleteLocalRef cls_local);
       State_Monad.return (g \<noteq> None) }}"

definition cache_classes :: "jvm \<Rightarrow> bool nat_io" where
  "cache_classes J = chain [
     cache_single_class_weak J ''java/lang/RuntimeException'' ''jcls_rte'',
     cache_single_class_weak J ''java/lang/IllegalArgumentException'' ''jcls_iae'',
     cache_single_class_weak J ''java/lang/CharSequence'' ''charSequence_cls'',
     cache_single_class_weak J ''java/nio/Buffer'' ''buffer_cls'',
     cache_single_class_weak J ''java/nio/CharBuffer'' ''charBuffer_cls'',
     cache_single_class_weak J ''java/lang/String'' ''string_cls'',
     cache_single_class_weak J ''java/lang/Double'' ''double_cls'',
     cache_single_class_weak J ''java/lang/Float'' ''float_cls'',
     cache_single_class_weak J ''java/math/BigDecimal'' ''bigdecimal_cls'']"

text \<open>A static variable that holds a weak or a strong global reference is deleted and set to null.\<close>

definition dispose_ref :: "jvm \<Rightarrow> string \<Rightarrow> unit nat_io" where
  "dispose_ref J v = do {
     r \<leftarrow> get_ref v;
     if r \<noteq> None then do { jni J (\<lambda>_. DeleteWeakGlobalRef); set_ref v None } else State_Monad.return () }"

primrec each :: "unit nat_io list \<Rightarrow> unit nat_io" where
  "each [] = State_Monad.return ()"
| "each (f # fs) = do { f; each fs }"

definition dispose_of_weak_classes :: "jvm \<Rightarrow> unit nat_io" where
  "dispose_of_weak_classes J = each [
     dispose_ref J ''jcls_iae'',
     dispose_ref J ''charSequence_cls'',
     dispose_ref J ''buffer_cls'',
     dispose_ref J ''charBuffer_cls'',
     dispose_ref J ''string_cls'',
     dispose_ref J ''double_cls'',
     dispose_ref J ''float_cls'',
     dispose_ref J ''bigdecimal_cls'']"

definition dispose_of_native_order_obj :: "jvm \<Rightarrow> unit nat_io" where
  "dispose_of_native_order_obj J = dispose_ref J ''_native_order''"

definition dispose_of_action_enums :: "jvm \<Rightarrow> unit nat_io" where
  "dispose_of_action_enums J = each [dispose_ref J ''_action_ok'', dispose_ref J ''_action_match'']"

definition dispose_of_result_with_data_fields :: "jvm \<Rightarrow> unit nat_io" where
  "dispose_of_result_with_data_fields J =
     each [dispose_ref J ''_result_with_data_ok_null'', dispose_ref J ''_result_with_data_empty_map'']"

subsection \<open>Fields\<close>

text \<open>A static field of a class, in a static variable.\<close>

definition fetch_static :: "jvm \<Rightarrow> string \<Rightarrow> string \<Rightarrow> string \<Rightarrow> bool nat_io" where
  "fetch_static J v name sig = do {
     r \<leftarrow> jni J (\<lambda>J. java_static_field_checked J name sig);
     set_ref v r;
     State_Monad.return (r \<noteq> None) }"

definition fetch_action_enums :: "jvm \<Rightarrow> bool nat_io" where
  "fetch_action_enums J = do {
     action_jclass \<leftarrow> FindClass J;
     ret \<leftarrow> (if action_jclass = None then State_Monad.return False
       else chain [
         fetch_static J ''_action_ok'' ''OK'' ''Lcom/datadog/ddwaf/Waf$Result;'',
         fetch_static J ''_action_match'' ''MATCH'' ''Lcom/datadog/ddwaf/Waf$Result;'']);
     jni J (\<lambda>_. DeleteLocalRef action_jclass);
     (if \<not> ret then dispose_of_action_enums J else State_Monad.return ());
     State_Monad.return ret }"

definition fetch_result_with_data_fields :: "jvm \<Rightarrow> bool nat_io" where
  "fetch_result_with_data_fields J = do {
     result_with_data_jclass \<leftarrow> FindClass J;
     ret \<leftarrow> (if result_with_data_jclass = None then State_Monad.return False
       else chain [
         fetch_static J ''_result_with_data_ok_null'' ''OK_NULL'' ''Lcom/datadog/ddwaf/Waf$ResultWithData;'',
         fetch_static J ''_result_with_data_empty_map'' ''EMPTY_ACTIONS'' ''Ljava/util/Map;'']);
     jni J (\<lambda>_. DeleteLocalRef result_with_data_jclass);
     (if \<not> ret then dispose_of_result_with_data_fields J else State_Monad.return ());
     State_Monad.return ret }"

definition fetch_waf_context_fields :: "jvm \<Rightarrow> bool nat_io" where
  "fetch_waf_context_fields J = do {
     waf_context_jclass \<leftarrow> FindClass J;
     ret \<leftarrow> (if waf_context_jclass = None then State_Monad.return False else fetch_id J ''_waf_context_ptr'');
     jni J (\<lambda>_. DeleteLocalRef waf_context_jclass);
     State_Monad.return ret }"

definition fetch_builder_fields :: "jvm \<Rightarrow> bool nat_io" where
  "fetch_builder_fields J = do {
     builder_jclass \<leftarrow> FindClass J;
     ret \<leftarrow> (if builder_jclass = None then State_Monad.return False else fetch_id J ''_builder_ptr'');
     (if builder_jclass \<noteq> None then jni J (\<lambda>_. DeleteLocalRef builder_jclass) else State_Monad.return ());
     State_Monad.return ret }"

definition fetch_limit_fields :: "jvm \<Rightarrow> bool nat_io" where
  "fetch_limit_fields J = do {
     limits_jclass \<leftarrow> FindClass J;
     ret \<leftarrow> (if limits_jclass = None then State_Monad.return False
       else chain [
         fetch_id J ''_limit_max_depth'',
         fetch_id J ''_limit_max_elements'',
         fetch_id J ''_limit_max_string_size'',
         fetch_id J ''_limit_general_budget_in_us'',
         fetch_id J ''_limit_run_budget_in_us'']);
     jni J (\<lambda>_. DeleteLocalRef limits_jclass);
     State_Monad.return ret }"

definition fetch_config_fields :: "jvm \<Rightarrow> bool nat_io" where
  "fetch_config_fields J = do {
     config_jclass \<leftarrow> FindClass J;
     ret \<leftarrow> (if config_jclass = None then State_Monad.return False
       else chain [fetch_id J ''_config_key_regex'', fetch_id J ''_config_value_regex'']);
     jni J (\<lambda>_. DeleteLocalRef config_jclass);
     State_Monad.return ret }"

definition fetch_native_handle_field :: "jvm \<Rightarrow> bool nat_io" where
  "fetch_native_handle_field J = do {
     cls \<leftarrow> FindClass J;
     if cls = None then do {
       jni J (\<lambda>J. wrap_exc J ''waf_jni.c'' ''_fetch_native_handle_field'' 818
         (cstr ''Could not find class com.datadog.ddwaf.WafHandle''));
       State_Monad.return False }
     else do {
       ret \<leftarrow> fetch_id J ''_pwaf_handle_native_handle'';
       jni J (\<lambda>_. DeleteLocalRef cls);
       State_Monad.return ret }}"

text \<open>The local variable \<^verbatim>\<open>meth\<close> is not a static variable.\<close>

definition fetch_native_order_obj :: "jvm \<Rightarrow> bool nat_io" where
  "fetch_native_order_obj J = do {
     meth \<leftarrow> jni J (\<lambda>J. java_meth_init_checked J ''java/nio/ByteOrder'' ''nativeOrder'' ''()Ljava/nio/ByteOrder;'' JMETHOD_STATIC);
     case meth of
       None \<Rightarrow> State_Monad.return False
     | Some meth \<Rightarrow> do {
         nat_ord_obj \<leftarrow> jni J (\<lambda>J. java_meth_call J meth (Some ()));
         jni J (\<lambda>_. java_meth_destroy meth);
         exc \<leftarrow> jni J (\<lambda>_. ExceptionCheck);
         if exc then State_Monad.return False
         else do {
           g \<leftarrow> jni J NewWeakGlobalRef;
           set_ref ''_native_order'' g;
           jni J (\<lambda>_. DeleteLocalRef nat_ord_obj);
           State_Monad.return True }}}"

subsection \<open>Methods\<close>

definition meth_init :: "jvm \<Rightarrow> string \<Rightarrow> string \<Rightarrow> string \<Rightarrow> string \<Rightarrow> j_method_type \<Rightarrow> bool nat_io" where
  "meth_init J v class_name method_name sig type = do {
     r \<leftarrow> jni J (\<lambda>J. java_meth_init_checked J class_name method_name sig type);
     case r of None \<Rightarrow> State_Monad.return False | Some jm \<Rightarrow> do { set_meth v jm; State_Monad.return True } }"

text \<open>An assignment \<^verbatim>\<open>v.type = JMETHOD_VIRTUAL\<close> between two calls.\<close>

definition make_virtual :: "string \<Rightarrow> bool nat_io" where
  "make_virtual v = do { m \<leftarrow> get_meth v; set_meth v (m\<lparr>jm_type := JMETHOD_VIRTUAL\<rparr>); State_Monad.return True }"

definition cache_methods :: "jvm \<Rightarrow> bool nat_io" where
  "cache_methods J = chain [
     meth_init J ''_create_exception'' ''com/datadog/ddwaf/Waf'' ''createException''
       ''(I)Lcom/datadog/ddwaf/exception/AbstractWafException;'' JMETHOD_STATIC,
     meth_init J ''_timeout_exception_init'' ''com/datadog/ddwaf/exception/TimeoutWafException'' ''<init>'' ''()V''
       JMETHOD_CONSTRUCTOR,
     meth_init J ''to_string'' ''java/lang/Object'' ''toString'' ''()Ljava/lang/String;'' JMETHOD_VIRTUAL,
     meth_init J ''charSequence_length'' ''java/lang/CharSequence'' ''length'' ''()I'' JMETHOD_VIRTUAL,
     meth_init J ''charSequence_subSequence'' ''java/lang/CharSequence'' ''subSequence'' ''(II)Ljava/lang/CharSequence;''
       JMETHOD_VIRTUAL,
     meth_init J ''buffer_position'' ''java/nio/Buffer'' ''position'' ''()I'' JMETHOD_NON_VIRTUAL,
     meth_init J ''buffer_limit'' ''java/nio/Buffer'' ''limit'' ''()I'' JMETHOD_NON_VIRTUAL,
     meth_init J ''charBuffer_hasArray'' ''java/nio/CharBuffer'' ''hasArray'' ''()Z'' JMETHOD_NON_VIRTUAL,
     meth_init J ''charBuffer_array'' ''java/nio/CharBuffer'' ''array'' ''()[C'' JMETHOD_NON_VIRTUAL,
     meth_init J ''_charBuffer_order'' ''java/nio/CharBuffer'' ''order'' ''()Ljava/nio/ByteOrder;'' JMETHOD_VIRTUAL,
     meth_init J ''number_longValue'' ''java/lang/Number'' ''longValue'' ''()J'' JMETHOD_VIRTUAL_RETRIEVE_CLASS,
     meth_init J ''number_doubleValue'' ''java/lang/Number'' ''doubleValue'' ''()D'' JMETHOD_VIRTUAL,
     meth_init J ''_boolean_booleanValue'' ''java/lang/Boolean'' ''booleanValue'' ''()Z'' JMETHOD_NON_VIRTUAL,
     meth_init J ''result_with_data_init'' ''com/datadog/ddwaf/Waf$ResultWithData'' ''<init>''
       ''(Lcom/datadog/ddwaf/Waf$Result;Ljava/lang/String;Ljava/util/Map;Ljava/util/Map;ZJZ)V'' JMETHOD_CONSTRUCTOR,
     meth_init J ''_pwaf_handle_init'' ''com/datadog/ddwaf/WafHandle'' ''<init>'' ''(J)V'' JMETHOD_CONSTRUCTOR,
     meth_init J ''map_entryset'' ''java/util/Map'' ''entrySet'' ''()Ljava/util/Set;'' JMETHOD_NON_VIRTUAL,
     make_virtual ''map_entryset'',
     meth_init J ''map_size'' ''java/util/Map'' ''size'' ''()I'' JMETHOD_VIRTUAL,
     meth_init J ''entry_key'' ''java/util/Map$Entry'' ''getKey'' ''()Ljava/lang/Object;'' JMETHOD_VIRTUAL,
     meth_init J ''entry_value'' ''java/util/Map$Entry'' ''getValue'' ''()Ljava/lang/Object;'' JMETHOD_VIRTUAL,
     meth_init J ''iterable_iterator'' ''java/lang/Iterable'' ''iterator'' ''()Ljava/util/Iterator;'' JMETHOD_NON_VIRTUAL,
     make_virtual ''iterable_iterator'',
     meth_init J ''iterator_next'' ''java/util/Iterator'' ''next'' ''()Ljava/lang/Object;'' JMETHOD_VIRTUAL,
     meth_init J ''iterator_hasNext'' ''java/util/Iterator'' ''hasNext'' ''()Z'' JMETHOD_VIRTUAL,
     meth_init J ''class_is_array'' ''java/lang/Class'' ''isArray'' ''()Z'' JMETHOD_NON_VIRTUAL,
     meth_init J ''_class_get_name'' ''java/lang/Class'' ''getName'' ''()Ljava/lang/String;'' JMETHOD_NON_VIRTUAL]"

definition meth_destroy :: "jvm \<Rightarrow> string \<Rightarrow> unit nat_io" where
  "meth_destroy J v = do { m \<leftarrow> get_meth v; m' \<leftarrow> jni J (\<lambda>_. java_meth_destroy m); set_meth v m' }"

text \<open>The macro \<^verbatim>\<open>DESTROY_METH\<close>.\<close>

definition destroy_meth :: "jvm \<Rightarrow> string \<Rightarrow> unit nat_io" where
  "destroy_meth J v = do {
     m \<leftarrow> get_meth v;
     if jm_type m \<noteq> JMETHOD_UNINITIALIZED then meth_destroy J v else State_Monad.return () }"

definition dispose_of_cached_methods :: "jvm \<Rightarrow> unit nat_io" where
  "dispose_of_cached_methods J = each [
     destroy_meth J ''_create_exception'',
     destroy_meth J ''_timeout_exception_init'',
     destroy_meth J ''charSequence_length'',
     destroy_meth J ''charSequence_subSequence'',
     destroy_meth J ''charBuffer_hasArray'',
     destroy_meth J ''charBuffer_array'',
     destroy_meth J ''_charBuffer_order'',
     destroy_meth J ''buffer_position'',
     destroy_meth J ''buffer_limit'',
     destroy_meth J ''to_string'',
     destroy_meth J ''number_longValue'',
     destroy_meth J ''_boolean_booleanValue'',
     destroy_meth J ''result_with_data_init'',
     destroy_meth J ''_pwaf_handle_init'',
     destroy_meth J ''map_entryset'',
     destroy_meth J ''map_size'',
     destroy_meth J ''entry_key'',
     destroy_meth J ''entry_value'',
     destroy_meth J ''iterable_iterator'',
     destroy_meth J ''iterator_next'',
     destroy_meth J ''iterator_hasNext'',
     destroy_meth J ''class_is_array'',
     destroy_meth J ''_class_get_name'']"

subsection \<open>All references\<close>

definition dispose_of_cache_references :: "jvm \<Rightarrow> unit nat_io" where
  "dispose_of_cache_references J = do {
     dispose_of_action_enums J;
     dispose_of_result_with_data_fields J;
     dispose_of_weak_classes J;
     dispose_of_native_order_obj J;
     dispose_of_cached_methods J }"

definition cache_references :: "jvm \<Rightarrow> bool nat_io" where
  "cache_references J = do {
     ret \<leftarrow> chain [
       cache_classes J,
       fetch_id J ''rte_constr_cause'',
       fetch_action_enums J,
       fetch_result_with_data_fields J,
       fetch_waf_context_fields J,
       fetch_builder_fields J,
       fetch_limit_fields J,
       fetch_config_fields J,
       fetch_native_handle_field J,
       fetch_native_order_obj J,
       cache_methods J];
     (if \<not> ret then dispose_of_cache_references J else State_Monad.return ());
     State_Monad.return ret }"


subsection \<open>Reference counts of the operations\<close>

text \<open>Nothing fails on this virtual machine, whether or not an exception can be wrapped yet.\<close>

definition quiet :: "jvm \<Rightarrow> bool" where
  "quiet J \<longleftrightarrow> (\<forall>k. throws J k = None \<and> \<not> nulls J k)"

text \<open>No exception is pending before or after, and no JNI function was called when it should not have been.\<close>

definition smooth :: "jenv \<Rightarrow> jenv \<Rightarrow> bool" where
  "smooth e e' \<longleftrightarrow> pending e' = None \<and> misuse e' = misuse e"

lemma jvm_now_sel [simp]: "throws (jvm_now J s) = throws J" "nulls (jvm_now J s) = nulls J"
  by (simp_all add: jvm_now_def)

lemma quiet_now [simp]: "quiet (jvm_now J s) = quiet J"
  by (simp add: quiet_def)

lemma quietD: "throws J k = Some t \<Longrightarrow> \<not> quiet J" "nulls J k \<Longrightarrow> \<not> quiet J"
  by (auto simp: quiet_def)

text \<open>The counters of references, whatever is pending.\<close>

lemma new_jstring_counts:
  "wp (new_jstring J bs) (\<lambda>r e'. refs e' = refs e + ref_of r \<and> weak_refs e' = weak_refs e) e"
  by (auto simp: new_jstring_def java_utf8_to_jstring_checked_eq wp_def Let_def)

lemma new_jstring_countsI:
  assumes "\<And>r e'. refs e' = refs e + ref_of r \<Longrightarrow> weak_refs e' = weak_refs e \<Longrightarrow> Q r e'"
  shows "wp (new_jstring J bs) Q e"
  by (rule wp_mono [OF new_jstring_counts]) (use assms in blast)

lemma JNI_local_counts:
  "wp (JNI_local J v) (\<lambda>r e'. refs e' = refs e + ref_of r \<and> weak_refs e' = weak_refs e \<and> (r = None \<or> r = v) \<and>
     (quiet J \<and> pending e = None \<longrightarrow> r = v \<and> smooth e e')) e"
  by (auto simp: JNI_local_def wps Let_def ref_of_def quietD smooth_def split: option.split)

lemma JNI_local_countsI:
  assumes "\<And>r e'. refs e' = refs e + ref_of r \<Longrightarrow> weak_refs e' = weak_refs e \<Longrightarrow> r = None \<or> r = v \<Longrightarrow>
      quiet J \<and> pending e = None \<longrightarrow> r = v \<and> smooth e e' \<Longrightarrow> Q r e'"
  shows "wp (JNI_local J v) Q e"
  by (rule wp_mono [OF JNI_local_counts]) (use assms in blast)

lemma JNI_call_countsI:
  assumes "\<And>ok e'. refs e' = refs e \<Longrightarrow> weak_refs e' = weak_refs e \<Longrightarrow>
      quiet J \<and> pending e = None \<longrightarrow> ok \<and> smooth e e' \<Longrightarrow> Q ok e'"
  shows "wp (JNI_call J) Q e"
  by (auto simp: wps Let_def quietD smooth_def intro!: assms split: option.split)

lemma NewWeakGlobalRef_countsI:
  assumes "\<And>r e'. refs e' = refs e \<Longrightarrow> weak_refs e' = weak_refs e + ref_of r \<Longrightarrow>
      quiet J \<and> pending e = None \<longrightarrow> r \<noteq> None \<and> smooth e e' \<Longrightarrow> Q r e'"
  shows "wp (NewWeakGlobalRef J) Q e"
  unfolding NewWeakGlobalRef_def wp_bind
  by (rule JNI_call_countsI) (auto simp: wps quietD smooth_def intro!: assms)

lemma NewLocalRef_countsI:
  assumes "\<And>r e'. refs e' = refs e + ref_of r \<Longrightarrow> weak_refs e' = weak_refs e \<Longrightarrow>
      quiet J \<and> pending e = None \<and> g \<noteq> None \<longrightarrow> r \<noteq> None \<and> smooth e e' \<Longrightarrow> Q r e'"
  shows "wp (NewLocalRef J g) Q e"
  unfolding NewLocalRef_def wp_bind
  by (rule JNI_call_countsI) (auto simp: wps quietD smooth_def intro!: assms)

lemma wrap_exc_counts:
  "wp (wrap_exc J file fn line m) (\<lambda>_ e'. refs e' = refs e \<and> weak_refs e' = weak_refs e) e"
proof (cases "pending e = None")
  case True
  show ?thesis
    unfolding wrap_exc_def by (rule wp_mono [OF java_wrap_exc_none [OF True]]) simp
next
  case False
  then show ?thesis
    by (auto simp: env_to_def intro!: wrap_excI)
qed

lemma wrap_exc_countsI:
  assumes "\<And>e'. refs e' = refs e \<Longrightarrow> weak_refs e' = weak_refs e \<Longrightarrow> Q () e'"
  shows "wp (wrap_exc J file fn line m) Q e"
  by (rule wp_mono [OF wrap_exc_counts]) (use assms in auto)

lemma ThrowNew_countsI:
  assumes "\<And>e'. refs e' = refs e \<Longrightarrow> weak_refs e' = weak_refs e \<Longrightarrow> pending e' \<noteq> None \<Longrightarrow> Q () e'"
  shows "wp (ThrowNew J t) Q e"
  by (rule wp_mono [OF ThrowNew_wp]) (use assms in auto)

lemmas countsI = JNI_local_countsI JNI_call_countsI NewWeakGlobalRef_countsI NewLocalRef_countsI
  wrap_exc_countsI ThrowNew_countsI

lemma java_meth_init_counts:
  "wp (java_meth_init_checked J cls name sig type) (\<lambda>r e'. refs e' = refs e \<and>
     (case r of
        Some jm \<Rightarrow> (type \<noteq> JMETHOD_UNINITIALIZED \<longrightarrow> ready jm) \<and> weak_refs e' = weak_refs e + ref_of (class_glob jm) \<and>
          (type = JMETHOD_VIRTUAL \<longrightarrow> class_glob jm = None)
      | None \<Rightarrow> weak_refs e \<le> weak_refs e' \<and> weak_refs e' \<le> weak_refs e + 1) \<and>
     (quiet J \<and> pending e = None \<longrightarrow> r \<noteq> None \<and> smooth e e')) e"
  unfolding java_meth_init_checked_def
  by (auto simp: wps ready_def smooth_def Let_def simp del: wp_JNI_call
      intro!: countsI split: option.split del: iffCE impCE)

lemma java_static_field_counts:
  "wp (java_static_field_checked J name sig) (\<lambda>r e'. refs e' = refs e \<and>
     weak_refs e' = weak_refs e + ref_of r \<and> (quiet J \<and> pending e = None \<longrightarrow> r \<noteq> None \<and> smooth e e')) e"
  unfolding java_static_field_checked_def
  by (auto simp: wps smooth_def Let_def simp del: wp_JNI_call intro!: countsI del: iffCE impCE)

lemma java_meth_call_counts:
  "wp (java_meth_call J m ret) (\<lambda>r e'. refs e' = refs e + ref_of r \<and> weak_refs e' = weak_refs e \<and>
     (quiet J \<and> pending e = None \<and> ready m \<longrightarrow> r = ret \<and> smooth e e')) e"
  unfolding java_meth_call_def
  by (auto simp: wps smooth_def ready_def Let_def intro!: countsI del: iffCE impCE)


subsection \<open>The contract of the functions that look up\<close>

text \<open>A static variable: a global reference, a method, or an identifier.\<close>

datatype gvar = Ref string | Meth string | Id string

text \<open>The variables that own a global reference, and those that can be used.\<close>

definition held_of :: "(string \<Rightarrow> nat option) \<Rightarrow> (string \<Rightarrow> j_method) \<Rightarrow> gvar set" where
  "held_of g m = Ref ` {v. g v \<noteq> None} \<union> Meth ` {v. class_glob (m v) \<noteq> None}"

definition usable_of :: "(string \<Rightarrow> nat option) \<Rightarrow> (string \<Rightarrow> j_method) \<Rightarrow> (string \<Rightarrow> bool) \<Rightarrow> gvar set" where
  "usable_of g m i = Ref ` {v. g v \<noteq> None} \<union> Meth ` {v. ready (m v)} \<union> Id ` {v. i v}"

abbreviation held :: "native \<Rightarrow> gvar set" where
  "held s \<equiv> held_of (grefs s) (meths s)"

abbreviation usable :: "native \<Rightarrow> gvar set" where
  "usable s \<equiv> usable_of (grefs s) (meths s) (field_ids s)"

text \<open>Finitely many references are owned, by methods only by those that were initialised.\<close>

definition tidy :: "native \<Rightarrow> bool" where
  "tidy s \<longleftrightarrow> finite (held s) \<and> (\<forall>v. class_glob (meths s v) \<noteq> None \<longrightarrow> jm_type (meths s v) \<noteq> JMETHOD_UNINITIALIZED)"

text \<open>The global references that exist and that no variable owns.\<close>

definition unowned :: "native \<Rightarrow> int" where
  "unowned s = weak_refs (nenv s) - int (card (held s))"

definition same_flags :: "native \<Rightarrow> native \<Rightarrow> bool" where
  "same_flags s s' \<longleftrightarrow> native_init_ok s' = native_init_ok s \<and> native_timeout s' = native_timeout s \<and> cs_active s' = cs_active s"

text \<open>
  A function that fills the variables \<open>V\<close> of references, which were null: after it they own all the references that it made,
  except that a failure can leave one that nobody owns. When it succeeds, the variables \<open>M\<close> can be used.
  When nothing fails it succeeds, and returns with the local references that there were.
\<close>

definition fetched :: "jvm \<Rightarrow> gvar set \<Rightarrow> gvar set \<Rightarrow> native \<Rightarrow> bool \<Rightarrow> native \<Rightarrow> bool" where
  "fetched J V M s ok s' \<longleftrightarrow>
     tidy s' \<and> held s \<subseteq> held s' \<and> held s' \<subseteq> held s \<union> V \<and> refs (nenv s) \<le> refs (nenv s') \<and> same_flags s s' \<and>
     unowned s \<le> unowned s' \<and> unowned s' \<le> unowned s + (if ok then 0 else 1) \<and>
     (ok \<longrightarrow> usable s \<union> M \<subseteq> usable s') \<and>
     (quiet J \<and> pending (nenv s) = None \<longrightarrow> ok \<and> smooth (nenv s) (nenv s') \<and> refs (nenv s') = refs (nenv s))"

definition fetches :: "jvm \<Rightarrow> gvar set \<Rightarrow> gvar set \<Rightarrow> bool nat_io \<Rightarrow> bool" where
  "fetches J V M f \<longleftrightarrow> (\<forall>s. tidy s \<longrightarrow> held s \<inter> (V \<union> M) = {} \<longrightarrow> wp f (fetched J V M s) s)"

lemma wp_jni [wps]: "wp (jni J f) Q s = wp (f (jvm_now J s)) (\<lambda>r e. Q r (s\<lparr>nenv := e\<rparr>)) (nenv s)"
  by (simp add: jni_def wp_def split: prod.split)

lemmas native_prims [wps] = get_ref_def set_ref_def get_meth_def set_meth_def set_id_def

lemma held_simps [simp]:
  "held_of (g(v := r)) m = (if r = None then held_of g m - {Ref v} else insert (Ref v) (held_of g m))"
  "held_of g (m(v := jm)) = (if class_glob jm = None then held_of g m - {Meth v} else insert (Meth v) (held_of g m))"
  by (auto simp: held_of_def)

lemma held_iff [simp]: "Ref v \<in> held_of g m \<longleftrightarrow> g v \<noteq> None" "Meth v \<in> held_of g m \<longleftrightarrow> class_glob (m v) \<noteq> None"
  "Id v \<notin> held_of g m"
  by (auto simp: held_of_def)

lemma usable_iff [simp]: "Ref v \<in> usable_of g m i \<longleftrightarrow> g v \<noteq> None" "Meth v \<in> usable_of g m i \<longleftrightarrow> ready (m v)"
  "Id v \<in> usable_of g m i \<longleftrightarrow> i v"
  by (auto simp: usable_of_def)

lemma usable_upd:
  "usable_of (g(v := r)) m i = (if r = None then usable_of g m i - {Ref v} else insert (Ref v) (usable_of g m i))"
  by (auto simp: usable_of_def)

lemma same_flags_refl: "same_flags s s"
  by (simp add: same_flags_def)

lemma fetchesD: "fetches J V M f \<Longrightarrow> tidy s \<Longrightarrow> held s \<inter> (V \<union> M) = {} \<Longrightarrow> wp f (fetched J V M s) s"
  by (simp add: fetches_def)

lemma fetched_trans:
  assumes "fetched J V M s True s'" and "fetched J W N s' ok s''"
  shows "fetched J (V \<union> W) (M \<union> N) s ok s''"
proof -
  have "quiet J \<and> pending (nenv s) = None \<longrightarrow> ok \<and> smooth (nenv s) (nenv s'') \<and> refs (nenv s'') = refs (nenv s)"
    using assms by (simp add: fetched_def smooth_def)
  moreover have "held s \<subseteq> held s''" "held s'' \<subseteq> held s \<union> (V \<union> W)" "ok \<longrightarrow> usable s \<union> (M \<union> N) \<subseteq> usable s''"
    using assms unfolding fetched_def by blast+
  ultimately show ?thesis
    using assms by (simp add: fetched_def same_flags_def)
qed

lemma fetches_Nil: "fetches J {} {} (chain [])"
  by (auto simp: fetches_def fetched_def wps tidy_def same_flags_refl smooth_def)

lemma fetches_Cons:
  assumes "fetches J V M f" and "fetches J W N (chain fs)" and "V \<inter> (W \<union> N) = {}"
  shows "fetches J (V \<union> W) (M \<union> N) (chain (f # fs))"
  unfolding fetches_def
proof (intro allI impI)
  fix s assume s: "tidy s" "held s \<inter> (V \<union> W \<union> (M \<union> N)) = {}"
  then have "held s \<inter> (V \<union> M) = {}"
    by blast
  from fetchesD [OF assms(1) s(1) this]
  show "wp (chain (f # fs)) (fetched J (V \<union> W) (M \<union> N) s) s"
    unfolding chain.simps wp_bind
  proof (rule wp_mono)
    fix ok s' assume f: "fetched J V M s ok s'"
    show "wp (if ok then chain fs else State_Monad.return False) (fetched J (V \<union> W) (M \<union> N) s) s'"
    proof (cases ok)
      case True
      have "tidy s'" "held s' \<inter> (W \<union> N) = {}"
        using f s assms(3) by (auto simp: fetched_def)
      from fetchesD [OF assms(2) this] show ?thesis
        unfolding if_P [OF True] by (rule wp_mono) (rule fetched_trans [OF f [unfolded eqTrueI [OF True]]])
    next
      case False
      then have "fetched J (V \<union> W) (M \<union> N) s False s'"
        using f by (auto simp: fetched_def)
      then show ?thesis
        using False by (simp add: wps)
    qed
  qed
qed

text \<open>A class is found, its contents are fetched, and the local reference is deleted.\<close>

lemma fetches_in_class:
  assumes "fetches J V M f"
  shows "fetches J V M (do { c \<leftarrow> FindClass J; r \<leftarrow> (if c = None then State_Monad.return False else f);
    jni J (\<lambda>_. DeleteLocalRef c); State_Monad.return r })"
  unfolding fetches_def FindClass_def wp_bind wp_jni
proof (intro allI impI)
  fix s assume s: "tidy s" "held s \<inter> (V \<union> M) = {}"
  show "wp (JNI_local (jvm_now J s) (Some ())) (\<lambda>c e. wp (if c = None then State_Monad.return False else f)
     (\<lambda>r s'. wp (DeleteLocalRef c) (\<lambda>x e. wp (State_Monad.return r) (fetched J V M s) (s'\<lparr>nenv := e\<rparr>)) (nenv s'))
     (s\<lparr>nenv := e\<rparr>)) (nenv s)"
  proof (rule JNI_local_countsI)
    fix c e assume c: "refs e = refs (nenv s) + ref_of c" "weak_refs e = weak_refs (nenv s)" "c = None \<or> c = Some ()"
      "quiet (jvm_now J s) \<and> pending (nenv s) = None \<longrightarrow> c = Some () \<and> smooth (nenv s) e"
    show "wp (if c = None then State_Monad.return False else f)
     (\<lambda>r s'. wp (DeleteLocalRef c) (\<lambda>x e. wp (State_Monad.return r) (fetched J V M s) (s'\<lparr>nenv := e\<rparr>)) (nenv s')) (s\<lparr>nenv := e\<rparr>)"
    proof (cases c)
      case None
      then show ?thesis
        using c s by (auto simp: wps fetched_def tidy_def unowned_def same_flags_def)
    next
      case (Some u)
      have "wp f (fetched J V M (s\<lparr>nenv := e\<rparr>)) (s\<lparr>nenv := e\<rparr>)"
        by (rule fetchesD [OF assms]) (use s in \<open>simp_all add: tidy_def\<close>)
      then show ?thesis
        unfolding Some by simp (rule wp_mono, assumption, use c in \<open>auto simp: wps fetched_def tidy_def unowned_def same_flags_def smooth_def usable_of_def Some\<close>)
    qed
  qed
qed


lemma fetches_id: "fetches J {} {Id v} (fetch_id J v)"
  unfolding fetches_def fetch_id_def
  by (auto simp: wps fetched_def tidy_def unowned_def same_flags_def usable_of_def smooth_def simp del: wp_JNI_call
      intro!: JNI_call_countsI del: iffCE impCE)

lemma fetches_static: "fetches J {Ref v} {Ref v} (fetch_static J v name sig)"
  unfolding fetches_def fetch_static_def wp_bind wp_jni
proof (intro allI impI)
  fix s assume s: "tidy s" "held s \<inter> ({Ref v} \<union> {Ref v}) = {}"
  show "wp (java_static_field_checked (jvm_now J s) name sig) (\<lambda>(r :: nat option) e. wp (set_ref v r) (\<lambda>x. wp (State_Monad.return (r \<noteq> None))
    (fetched J {Ref v} {Ref v} s)) (s\<lparr>nenv := e\<rparr>)) (nenv s)"
  proof (rule wp_mono [OF java_static_field_counts], elim conjE)
    fix r :: "nat option" and e
    assume "refs e = refs (nenv s)" "weak_refs e = weak_refs (nenv s) + ref_of r"
      "quiet (jvm_now J s) \<and> pending (nenv s) = None \<longrightarrow> r \<noteq> None \<and> smooth (nenv s) e"
    then show "wp (set_ref v r) (\<lambda>x. wp (State_Monad.return (r \<noteq> None)) (fetched J {Ref v} {Ref v} s)) (s\<lparr>nenv := e\<rparr>)"
      using s by (cases r) (auto simp: wps fetched_def tidy_def unowned_def same_flags_def usable_of_def fun_upd_idem)
  qed
qed

lemma fetches_class_weak: "fetches J {Ref v} {Ref v} (cache_single_class_weak J name v)"
  unfolding fetches_def cache_single_class_weak_def FindClass_def
  by (auto simp: wps fetched_def tidy_def unowned_def same_flags_def usable_of_def smooth_def fun_upd_idem
        intro!: countsI del: iffCE impCE)

lemma ready_inited: "ready m \<Longrightarrow> jm_type m \<noteq> JMETHOD_UNINITIALIZED"
  by (simp add: ready_def)

lemma fetches_meth_init: "type \<noteq> JMETHOD_UNINITIALIZED \<Longrightarrow> fetches J {Meth v} {Meth v} (meth_init J v c n sig type)"
  unfolding fetches_def meth_init_def wp_bind wp_jni
proof (intro allI impI)
  fix s assume ty: "type \<noteq> JMETHOD_UNINITIALIZED" and s: "tidy s" "held s \<inter> ({Meth v} \<union> {Meth v}) = {}"
  show "wp (java_meth_init_checked (jvm_now J s) c n sig type) (\<lambda>r e. wp (case r of None \<Rightarrow> State_Monad.return False
    | Some jm \<Rightarrow> do { set_meth v jm; State_Monad.return True }) (fetched J {Meth v} {Meth v} s) (s\<lparr>nenv := e\<rparr>)) (nenv s)"
    using s ty
    by (auto simp: wps fetched_def tidy_def unowned_def same_flags_def usable_of_def intro!: wp_mono [OF java_meth_init_counts]
        dest: ready_inited split: option.splits del: iffCE impCE)
qed

lemma fetches_meth_virtual: "fetches J {} {Meth v} (meth_init J v c n sig JMETHOD_VIRTUAL)"
  unfolding fetches_def meth_init_def
  by (auto simp: wps fetched_def tidy_def unowned_def same_flags_def usable_of_def Diff_triv
      intro!: wp_mono [OF java_meth_init_counts] dest: ready_inited split: option.splits del: iffCE impCE)

lemma fetches_make_virtual: "fetches J {} {} (make_virtual v)"
  unfolding fetches_def make_virtual_def
  by (auto simp: wps fetched_def tidy_def unowned_def same_flags_def usable_of_def smooth_def ready_def insert_absorb)


text \<open>A function that releases the variables \<open>V\<close>: each reference is deleted exactly when its variable owned one.\<close>

definition released :: "gvar set \<Rightarrow> native \<Rightarrow> native \<Rightarrow> bool" where
  "released V s s' \<longleftrightarrow> tidy s' \<and> held s' = held s - V \<and> unowned s' = unowned s \<and> same_flags s s' \<and> field_ids s' = field_ids s \<and>
     refs (nenv s') = refs (nenv s) \<and> pending (nenv s') = pending (nenv s) \<and> misuse (nenv s') = misuse (nenv s)"

definition releases :: "gvar set \<Rightarrow> unit nat_io \<Rightarrow> bool" where
  "releases V f \<longleftrightarrow> (\<forall>s. tidy s \<longrightarrow> wp f (\<lambda>_. released V s) s)"

lemma releases_Nil: "releases {} (each [])"
  by (auto simp: releases_def released_def wps tidy_def same_flags_def)

lemma releases_bind:
  assumes "releases V f" and "releases W g"
  shows "releases (V \<union> W) (do { f; g })"
  unfolding releases_def wp_bind
proof (intro allI impI)
  fix s assume s: "tidy s"
  from assms(1) s have "wp f (\<lambda>_. released V s) s"
    by (simp add: releases_def)
  then show "wp f (\<lambda>r. wp g (\<lambda>_. released (V \<union> W) s)) s"
  proof (rule wp_mono)
    fix s' assume s': "released V s s'"
    then have "wp g (\<lambda>_. released W s') s'"
      using assms(2) s by (simp add: releases_def released_def)
    then show "wp g (\<lambda>_. released (V \<union> W) s) s'"
      by (rule wp_mono) (use s' in \<open>auto simp: released_def same_flags_def\<close>)
  qed
qed

lemma releases_Cons: "releases V f \<Longrightarrow> releases W (each fs) \<Longrightarrow> releases (V \<union> W) (each (f # fs))"
  by (simp add: releases_bind)

lemma card_del: "finite A \<Longrightarrow> x \<in> A \<Longrightarrow> int (card (A - {x})) = int (card A) - 1"
  using card_gt_0_iff [of A] by (auto simp: card_Diff_singleton of_nat_diff)

lemma releases_ref: "releases {Ref v} (dispose_ref J v)"
  unfolding releases_def dispose_ref_def
  by (auto simp: wps released_def tidy_def unowned_def same_flags_def card_del Diff_triv simp del: card_Diff_insert)

lemma releases_meth: "releases {Meth v} (meth_destroy J v)"
  unfolding releases_def meth_destroy_def java_meth_destroy_def
  by (auto simp: wps released_def tidy_def unowned_def same_flags_def card_del Diff_triv simp del: card_Diff_insert)

lemma releases_destroy_meth: "releases {Meth v} (destroy_meth J v)"
  unfolding releases_def destroy_meth_def
proof (intro allI impI)
  fix s assume s: "tidy s"
  have "wp (meth_destroy J v) (\<lambda>_. released {Meth v} s) s"
    using releases_meth s by (simp add: releases_def)
  then show "wp (get_meth v \<bind> (\<lambda>m. if jm_type m \<noteq> JMETHOD_UNINITIALIZED then meth_destroy J v else State_Monad.return ()))
      (\<lambda>_. released {Meth v} s) s"
    using s by (auto simp: wps tidy_def released_def same_flags_def Diff_triv)
qed


subsection \<open>The functions keep their contracts\<close>

lemma fetches_or_release:
  assumes "fetches J V M f" and "releases V d"
  shows "fetches J V M (do { r \<leftarrow> f; (if \<not> r then d else State_Monad.return ()); State_Monad.return r })"
  unfolding fetches_def wp_bind
proof (intro allI impI)
  fix s assume s: "tidy s" "held s \<inter> (V \<union> M) = {}"
  from fetchesD [OF assms(1) s]
  show "wp f (\<lambda>r. wp (if \<not> r then d else State_Monad.return ()) (\<lambda>_. wp (State_Monad.return r) (fetched J V M s))) s"
  proof (rule wp_mono)
    fix r s' assume r: "fetched J V M s r s'"
    show "wp (if \<not> r then d else State_Monad.return ()) (\<lambda>_. wp (State_Monad.return r) (fetched J V M s)) s'"
    proof (cases r)
      case True
      then show ?thesis
        using r by (simp add: wps)
    next
      case False
      have "wp d (\<lambda>_. released V s') s'"
        using assms(2) r by (simp add: releases_def fetched_def)
      then show ?thesis
        unfolding if_P [OF False]
        by (rule wp_mono) (use r False s(2) in \<open>auto simp: wps fetched_def released_def same_flags_def\<close>)
    qed
  qed
qed

lemma fetches_step:
  "fetches J {x} {x} f \<Longrightarrow> x \<notin> W \<Longrightarrow> x \<notin> N \<Longrightarrow> fetches J W N (chain fs) \<Longrightarrow> fetches J (insert x W) (insert x N) (chain (f # fs))"
  using fetches_Cons [of J "{x}" "{x}" f W N fs] by simp

lemma fetches_step_id:
  "fetches J {} {x} f \<Longrightarrow> fetches J W N (chain fs) \<Longrightarrow> fetches J W (insert x N) (chain (f # fs))"
  using fetches_Cons [of J "{}" "{x}" f W N fs] by simp

lemma fetches_step_skip: "fetches J {} {} f \<Longrightarrow> fetches J W N (chain fs) \<Longrightarrow> fetches J W N (chain (f # fs))"
  using fetches_Cons [of J "{}" "{}" f W N fs] by simp

lemmas fetch_refs = fetches_Nil fetches_step [OF fetches_static] fetches_step [OF fetches_class_weak]

lemmas fetch_meths = fetches_Nil fetches_step_id [OF fetches_meth_virtual] fetches_step [OF fetches_meth_init] fetches_step_skip [OF fetches_make_virtual]

lemmas fetch_ids = fetches_Nil fetches_step_id [OF fetches_id]

lemma releases_refs: "releases (Ref ` set vs) (each (map (dispose_ref J) vs))"
  by (induction vs) (use releases_Nil releases_bind [OF releases_ref] in auto)

lemma releases_destroy_meths: "releases (Meth ` set vs) (each (map (destroy_meth J) vs))"
  by (induction vs) (use releases_Nil releases_bind [OF releases_destroy_meth] in auto)

definition class_vars :: "string list" where
  "class_vars = [''jcls_rte'', ''jcls_iae'', ''charSequence_cls'', ''buffer_cls'', ''charBuffer_cls'', ''string_cls'', ''double_cls'',
     ''float_cls'', ''bigdecimal_cls'']"

definition method_vars :: "string list" where
  "method_vars = [''_create_exception'', ''_timeout_exception_init'', ''to_string'', ''charSequence_length'', ''charSequence_subSequence'',
     ''buffer_position'', ''buffer_limit'', ''charBuffer_hasArray'', ''charBuffer_array'', ''_charBuffer_order'', ''number_longValue'',
     ''number_doubleValue'', ''_boolean_booleanValue'', ''result_with_data_init'', ''_pwaf_handle_init'', ''map_entryset'', ''map_size'',
     ''entry_key'', ''entry_value'', ''iterable_iterator'', ''iterator_next'', ''iterator_hasNext'', ''class_is_array'',
     ''_class_get_name'']"

text \<open>Those of them that keep their class.\<close>

definition owning_vars :: "string list" where
  "owning_vars = [''_create_exception'', ''_timeout_exception_init'', ''buffer_position'', ''buffer_limit'', ''charBuffer_hasArray'',
     ''charBuffer_array'', ''number_longValue'', ''_boolean_booleanValue'', ''result_with_data_init'', ''_pwaf_handle_init'',
     ''map_entryset'', ''iterable_iterator'', ''class_is_array'', ''_class_get_name'']"

lemma fetches_classes: "fetches J (Ref ` set class_vars) (Ref ` set class_vars) (cache_classes J)"
  unfolding cache_classes_def class_vars_def list.set image_insert image_empty
  by (rule fetch_refs | (simp; fail))+

lemma fetches_methods: "fetches J (Meth ` set owning_vars) (Meth ` set method_vars) (cache_methods J)"
  unfolding cache_methods_def method_vars_def owning_vars_def list.set image_insert image_empty
  by (rule fetch_meths | (simp; fail))+

lemma releases_enums: "releases (Ref ` set [''_action_ok'', ''_action_match'']) (dispose_of_action_enums J)"
  using releases_refs [of "[''_action_ok'', ''_action_match'']" J] by (simp only: dispose_of_action_enums_def list.map)

lemma releases_results:
  "releases (Ref ` set [''_result_with_data_ok_null'', ''_result_with_data_empty_map'']) (dispose_of_result_with_data_fields J)"
  using releases_refs [of "[''_result_with_data_ok_null'', ''_result_with_data_empty_map'']" J]
  by (simp only: dispose_of_result_with_data_fields_def list.map)

lemma releases_classes: "releases (Ref ` set (tl class_vars)) (dispose_of_weak_classes J)"
  using releases_refs [of "tl class_vars" J]
  by (simp only: dispose_of_weak_classes_def class_vars_def list.map list.sel)

definition destroyed_vars :: "string list" where
  "destroyed_vars = [''_create_exception'', ''_timeout_exception_init'', ''charSequence_length'', ''charSequence_subSequence'',
     ''charBuffer_hasArray'', ''charBuffer_array'', ''_charBuffer_order'', ''buffer_position'', ''buffer_limit'', ''to_string'',
     ''number_longValue'', ''_boolean_booleanValue'', ''result_with_data_init'', ''_pwaf_handle_init'', ''map_entryset'', ''map_size'',
     ''entry_key'', ''entry_value'', ''iterable_iterator'', ''iterator_next'', ''iterator_hasNext'', ''class_is_array'',
     ''_class_get_name'']"

lemma releases_methods: "releases (Meth ` set destroyed_vars) (dispose_of_cached_methods J)"
  using releases_destroy_meths [of destroyed_vars J]
  by (simp only: dispose_of_cached_methods_def destroyed_vars_def list.map)

lemma owning_destroyed: "set owning_vars \<subseteq> set destroyed_vars"
  by code_simp

text \<open>The functions that fetch the contents of one class.\<close>

lemma fetches_enums:
  "fetches J (Ref ` set [''_action_ok'', ''_action_match'']) (Ref ` set [''_action_ok'', ''_action_match'']) (fetch_action_enums J)"
proof -
  have "fetches J (Ref ` set [''_action_ok'', ''_action_match'']) (Ref ` set [''_action_ok'', ''_action_match'']) (chain [
         fetch_static J ''_action_ok'' ''OK'' ''Lcom/datadog/ddwaf/Waf$Result;'',
         fetch_static J ''_action_match'' ''MATCH'' ''Lcom/datadog/ddwaf/Waf$Result;''])"
    unfolding list.set image_insert image_empty by (rule fetch_refs | (simp; fail))+
  from fetches_or_release [OF fetches_in_class [OF this] releases_enums]
  show ?thesis by (simp only: fetch_action_enums_def bind_assoc bind_left_identity)
qed

lemma fetches_results:
  "fetches J (Ref ` set [''_result_with_data_ok_null'', ''_result_with_data_empty_map''])
     (Ref ` set [''_result_with_data_ok_null'', ''_result_with_data_empty_map'']) (fetch_result_with_data_fields J)"
proof -
  have "fetches J (Ref ` set [''_result_with_data_ok_null'', ''_result_with_data_empty_map''])
     (Ref ` set [''_result_with_data_ok_null'', ''_result_with_data_empty_map'']) (chain [
         fetch_static J ''_result_with_data_ok_null'' ''OK_NULL'' ''Lcom/datadog/ddwaf/Waf$ResultWithData;'',
         fetch_static J ''_result_with_data_empty_map'' ''EMPTY_ACTIONS'' ''Ljava/util/Map;''])"
    unfolding list.set image_insert image_empty by (rule fetch_refs | (simp; fail))+
  from fetches_or_release [OF fetches_in_class [OF this] releases_results]
  show ?thesis by (simp only: fetch_result_with_data_fields_def bind_assoc bind_left_identity)
qed

lemma fetches_waf_context: "fetches J {} {Id ''_waf_context_ptr''} (fetch_waf_context_fields J)"
  unfolding fetch_waf_context_fields_def by (rule fetches_in_class [OF fetches_id])

lemma fetches_builder: "fetches J {} {Id ''_builder_ptr''} (fetch_builder_fields J)"
proof -
  have "(if c \<noteq> None then jni J (\<lambda>_. DeleteLocalRef c) else State_Monad.return ()) = jni J (\<lambda>_. DeleteLocalRef c)" for c :: "unit option"
    by (auto simp: jni_def DeleteLocalRef_def State_Monad.return_def)
  then show ?thesis
    unfolding fetch_builder_fields_def by (simp only: fetches_in_class [OF fetches_id])
qed

lemma fetches_limits: "fetches J {} (Id ` set [''_limit_max_depth'', ''_limit_max_elements'', ''_limit_max_string_size'',
    ''_limit_general_budget_in_us'', ''_limit_run_budget_in_us'']) (fetch_limit_fields J)"
  unfolding fetch_limit_fields_def list.set image_insert image_empty
  by (rule fetches_in_class) (rule fetch_ids)+

lemma fetches_config: "fetches J {} (Id ` set [''_config_key_regex'', ''_config_value_regex'']) (fetch_config_fields J)"
  unfolding fetch_config_fields_def list.set image_insert image_empty
  by (rule fetches_in_class) (rule fetch_ids)+

lemma fetches_native_handle: "fetches J {} {Id ''_pwaf_handle_native_handle''} (fetch_native_handle_field J)"
  unfolding fetches_def fetch_native_handle_field_def FindClass_def fetch_id_def
  by (auto simp: wps fetched_def tidy_def unowned_def same_flags_def usable_of_def smooth_def
      simp del: wp_JNI_call intro!: countsI del: iffCE impCE)

lemma java_meth_destroyI:
  assumes "\<And>m' e'. e' = e\<lparr>weak_refs := weak_refs e - ref_of (class_glob m)\<rparr> \<Longrightarrow> Q m' e'"
  shows "wp (java_meth_destroy m) Q e"
  by (rule wp_mono [OF java_meth_destroy_wp]) (use assms in \<open>auto simp: ref_of_def\<close>)

lemma fetches_native_order: "fetches J {Ref ''_native_order''} {} (fetch_native_order_obj J)"
  unfolding fetches_def fetch_native_order_obj_def
  by (auto simp: wps fetched_def tidy_def unowned_def same_flags_def usable_upd smooth_def ref_of_nonneg
      intro!: wp_mono [OF java_meth_init_counts] wp_mono [OF java_meth_call_counts] countsI java_meth_destroyI
      split: option.splits del: iffCE impCE)


subsection \<open>Starting and stopping\<close>

text \<open>
  The interface of the parts of the library that are started when it is loaded and stopped when it is unloaded. A start that
  succeeds owns what it has looked up, and a start that fails has given back all but the variables that the stop leaves
  alone and at most one reference. The stop deletes the references of the variables \<open>D\<close>, each once.
\<close>

locale startable =
  fixes J :: jvm and V M D :: "gvar set" and start :: "bool nat_io" and stop :: "unit nat_io"
  assumes finite_V: "finite V"
    and start_ok: "tidy s \<Longrightarrow> held s \<inter> (V \<union> M) = {} \<Longrightarrow> wp start (\<lambda>ok s'.
      (if ok then fetched J V M s True s'
       else same_flags s s' \<and> \<not> (quiet J \<and> pending (nenv s) = None) \<and> weak_refs (nenv s) \<le> weak_refs (nenv s') \<and>
         weak_refs (nenv s') \<le> weak_refs (nenv s) + int (card (V - D)) + 1)) s"
    and stop_ok: "tidy s \<Longrightarrow> wp stop (\<lambda>_ s'. weak_refs (nenv s') = weak_refs (nenv s) - int (card (held s \<inter> D)) \<and>
      held s - D \<subseteq> held s' \<and> held s' \<subseteq> held s \<and> tidy s' \<and> same_flags s s') s"
begin

text \<open>Nothing is lost between a start and the stop after it.\<close>

lemma start_stop:
  assumes "tidy s" and "held s \<inter> (V \<union> M \<union> D) = {}"
  shows "wp (do { ok \<leftarrow> start; (if ok then stop else State_Monad.return ()); State_Monad.return ok })
    (\<lambda>ok s'. weak_refs (nenv s) \<le> weak_refs (nenv s') \<and>
       weak_refs (nenv s') \<le> weak_refs (nenv s) + int (card (V - D)) + (if ok then 0 else 1)) s"
  unfolding wp_bind
proof (rule wp_mono [OF start_ok [OF assms(1)]])
  show "held s \<inter> (V \<union> M) = {}"
    using assms(2) by blast
next
  fix ok s'
  assume *: "(if ok then fetched J V M s True s'
    else same_flags s s' \<and> \<not> (quiet J \<and> pending (nenv s) = None) \<and> weak_refs (nenv s) \<le> weak_refs (nenv s') \<and>
      weak_refs (nenv s') \<le> weak_refs (nenv s) + int (card (V - D)) + 1)"
  show "wp (if ok then stop else State_Monad.return ()) (\<lambda>_. wp (State_Monad.return ok) (\<lambda>ok s'.
     weak_refs (nenv s) \<le> weak_refs (nenv s') \<and>
       weak_refs (nenv s') \<le> weak_refs (nenv s) + int (card (V - D)) + (if ok then 0 else 1))) s'"
  proof (cases ok)
    case True
    with * have f: "tidy s'" "held s \<subseteq> held s'" "held s' \<subseteq> held s \<union> V" "unowned s' = unowned s"
      by (auto simp: fetched_def tidy_def unowned_def)
    have fin: "finite (held s')" "finite (held s)"
      using f(1) assms(1) by (auto simp: tidy_def)
    have "held s' - D = held s \<union> (held s' \<inter> (V - D))" "held s \<inter> (held s' \<inter> (V - D)) = {}"
      using f(2,3) assms(2) by auto
    then have "card (held s' - D) = card (held s) + card (held s' \<inter> (V - D))"
      using fin by (simp add: card_Un_disjoint)
    moreover have "card (held s' \<inter> (V - D)) \<le> card (V - D)"
      using finite_V by (intro card_mono) auto
    moreover have "card (held s') = card (held s' \<inter> D) + card (held s' - D)"
      using fin(1) by (metis Int_Diff_Un Int_Diff_disjoint card_Un_disjoint finite_Diff finite_Int)
    moreover have "weak_refs (nenv s') - int (card (held s')) = weak_refs (nenv s) - int (card (held s))"
      using f(4) by (simp add: unowned_def)
    ultimately have "weak_refs (nenv s) \<le> weak_refs (nenv s') - int (card (held s' \<inter> D))"
      "weak_refs (nenv s') - int (card (held s' \<inter> D)) \<le> weak_refs (nenv s) + int (card (V - D))"
      by linarith+
    then show ?thesis
      unfolding if_P [OF True] by (intro wp_mono [OF stop_ok [OF f(1)]]) (auto simp: wps True)
  next
    case False
    then show ?thesis
      using * by (simp add: wps)
  qed
qed

end

text \<open>The caches of \<^verbatim>\<open>waf_jni.c\<close>.\<close>

definition object_vars :: "string list" where
  "object_vars = [''_action_ok'', ''_action_match'', ''_result_with_data_ok_null'', ''_result_with_data_empty_map'']"

definition id_vars :: "string list" where
  "id_vars = [''rte_constr_cause'', ''_waf_context_ptr'', ''_builder_ptr'', ''_limit_max_depth'', ''_limit_max_elements'',
     ''_limit_max_string_size'', ''_limit_general_budget_in_us'', ''_limit_run_budget_in_us'', ''_config_key_regex'',
     ''_config_value_regex'', ''_pwaf_handle_native_handle'']"

definition waf_owned :: "gvar set" where
  "waf_owned = Ref ` (set class_vars \<union> set object_vars \<union> {''_native_order''}) \<union> Meth ` set owning_vars"

definition waf_used :: "gvar set" where
  "waf_used = Ref ` (set class_vars \<union> set object_vars) \<union> Meth ` set method_vars \<union> Id ` set id_vars"

definition waf_disposed :: "gvar set" where
  "waf_disposed = Ref ` (set (tl class_vars) \<union> set object_vars \<union> {''_native_order''}) \<union> Meth ` set destroyed_vars"

lemma fetches_eq: "fetches J V M f \<Longrightarrow> V = V' \<Longrightarrow> M = M' \<Longrightarrow> fetches J V' M' f"
  by simp

lemma releases_eq: "releases V f \<Longrightarrow> V = V' \<Longrightarrow> releases V' f"
  by simp

lemma releases_waf: "releases waf_disposed (dispose_of_cache_references J)"
  unfolding dispose_of_cache_references_def dispose_of_native_order_obj_def
  by (rule releases_eq, (rule releases_bind releases_enums releases_results releases_classes releases_ref releases_methods)+)
    (auto simp: waf_disposed_def object_vars_def)

lemma fetches_waf: "fetches J waf_owned waf_used (chain [
       cache_classes J,
       fetch_id J ''rte_constr_cause'',
       fetch_action_enums J,
       fetch_result_with_data_fields J,
       fetch_waf_context_fields J,
       fetch_builder_fields J,
       fetch_limit_fields J,
       fetch_config_fields J,
       fetch_native_handle_field J,
       fetch_native_order_obj J,
       cache_methods J])"
proof (rule fetches_eq, (rule fetches_Cons fetches_Nil fetches_classes fetches_id fetches_enums fetches_results fetches_waf_context
      fetches_builder fetches_limits fetches_config fetches_native_handle fetches_native_order fetches_methods)+)
qed (auto simp: waf_owned_def waf_used_def object_vars_def id_vars_def class_vars_def)


lemma released_weak: "released D s s' \<Longrightarrow> tidy s \<Longrightarrow> weak_refs (nenv s') = weak_refs (nenv s) - int (card (held s \<inter> D))"
proof -
  assume r: "released D s s'" and s: "tidy s"
  have "card (held s) = card (held s \<inter> D) + card (held s - D)"
    using s by (metis Int_Diff_Un Int_Diff_disjoint card_Un_disjoint finite_Diff finite_Int tidy_def)
  with r show ?thesis
    by (auto simp: released_def unowned_def)
qed

lemma fetch_fails:
  assumes "fetched J V M s False s'" and "tidy s" "finite V" and "released D s' s''" and "held s \<inter> D = {}"
  shows "weak_refs (nenv s) \<le> weak_refs (nenv s'')" "weak_refs (nenv s'') \<le> weak_refs (nenv s) + int (card (V - D)) + 1"
proof -
  have h: "held s \<subseteq> held s''" "held s'' \<subseteq> held s \<union> (V - D)" "unowned s \<le> unowned s''" "unowned s'' \<le> unowned s + 1"
    using assms(1,4,5) by (auto simp: fetched_def released_def)
  have fin: "finite (held s)" "finite (V - D)"
    using assms(2,3) by (auto simp: tidy_def)
  have "card (held s) \<le> card (held s'')"
    using h(1,2) fin by (intro card_mono) (auto intro: finite_subset [OF h(2)])
  moreover have "card (held s'') \<le> card (held s) + card (V - D)"
    using h(2) fin by (metis (no_types, lifting) card_Un_le card_mono finite_UnI le_trans)
  ultimately show "weak_refs (nenv s) \<le> weak_refs (nenv s'')" "weak_refs (nenv s'') \<le> weak_refs (nenv s) + int (card (V - D)) + 1"
    using h(3,4) by (auto simp: unowned_def)
qed

lemma startableI:
  assumes "fetches J V M f" and "releases D d" and "finite V" and "D \<subseteq> V \<union> M"
  shows "startable J V M D (do { r \<leftarrow> f; (if \<not> r then d else State_Monad.return ()); State_Monad.return r }) d"
proof
  fix s :: native assume s: "tidy s" "held s \<inter> (V \<union> M) = {}"
  show "wp (do { r \<leftarrow> f; (if \<not> r then d else State_Monad.return ()); State_Monad.return r }) (\<lambda>ok s'.
      if ok then fetched J V M s True s'
      else same_flags s s' \<and> \<not> (quiet J \<and> pending (nenv s) = None) \<and> weak_refs (nenv s) \<le> weak_refs (nenv s') \<and>
        weak_refs (nenv s') \<le> weak_refs (nenv s) + int (card (V - D)) + 1) s"
    unfolding wp_bind
  proof (rule wp_mono [OF fetchesD [OF assms(1) s]])
    fix r s' assume r: "fetched J V M s r s'"
    show "wp (if \<not> r then d else State_Monad.return ()) (\<lambda>_. wp (State_Monad.return r) (\<lambda>ok s'.
      if ok then fetched J V M s True s'
      else same_flags s s' \<and> \<not> (quiet J \<and> pending (nenv s) = None) \<and> weak_refs (nenv s) \<le> weak_refs (nenv s') \<and>
        weak_refs (nenv s') \<le> weak_refs (nenv s) + int (card (V - D)) + 1)) s'"
    proof (cases r)
      case True
      then show ?thesis
        using r by (simp add: wps)
    next
      case False
      have d: "wp d (\<lambda>_. released D s') s'"
        using assms(2) r by (simp add: releases_def fetched_def)
      have "held s \<inter> D = {}"
        using s(2) assms(4) by blast
      then show ?thesis
        unfolding if_P [OF False]
        using fetch_fails [OF r [unfolded Eq_FalseI [OF False]] s(1) assms(3)] r False
        by (intro wp_mono [OF d]) (auto simp: wps released_def same_flags_def fetched_def)
    qed
  qed
next
  fix s :: native assume s: "tidy s"
  then have "wp d (\<lambda>_. released D s) s"
    using assms(2) by (simp add: releases_def)
  then show "wp d (\<lambda>_ s'. weak_refs (nenv s') = weak_refs (nenv s) - int (card (held s \<inter> D)) \<and>
      held s - D \<subseteq> held s' \<and> held s' \<subseteq> held s \<and> tidy s' \<and> same_flags s s') s"
    by (rule wp_mono) (use s released_weak in \<open>auto simp: released_def\<close>)
qed (rule assms(3))

lemma destroyed_methods: "set destroyed_vars \<subseteq> set method_vars"
  by code_simp

lemma waf_disposed_owned: "waf_disposed \<subseteq> waf_owned \<union> waf_used" "waf_owned - waf_disposed = {Ref ''jcls_rte''}"
  using destroyed_methods owning_destroyed
  by (auto simp: waf_disposed_def waf_owned_def waf_used_def class_vars_def object_vars_def)

interpretation waf: startable J waf_owned waf_used waf_disposed "cache_references J" "dispose_of_cache_references J" for J
  unfolding cache_references_def
  by (rule startableI [OF fetches_waf releases_waf]) (simp add: waf_owned_def, rule waf_disposed_owned(1))

end
