(* ===== verification/Parts.thy ===== *)
theory Parts
  imports Caches
begin

text \<open>
  The other parts of the library that are started when it is loaded: the logger (\<^verbatim>\<open>java_log_init\<close> and
  \<^verbatim>\<open>java_log_shutdown\<close> of \<^verbatim>\<open>src/main/c/logging.c\<close>), the conversion of results (\<^verbatim>\<open>output_init_checked\<close> and
  \<^verbatim>\<open>output_shutdown\<close> of \<^verbatim>\<open>output.c\<close>), the metrics (\<^verbatim>\<open>metrics_init\<close> of \<^verbatim>\<open>metrics.c\<close>) and the wrapper of
  character sequences (\<^verbatim>\<open>cs_wrapper.c\<close>). The static variable \<^verbatim>\<open>double_cls\<close> of \<^verbatim>\<open>output.c\<close> is not the one of
  \<^verbatim>\<open>waf_jni.c\<close>, and is called \<open>output.double_cls\<close> here.
\<close>

subsection \<open>The logger\<close>

record slf4j_strings =
  sl_level :: string
  sl_level_descr :: string
  sl_logger_factory :: string
  sl_get_logger_descr :: string
  sl_info_to_dbg_descr :: string
  sl_log_descr :: string
  sl_is_loggable_descr :: string

definition slf4j_strings_org :: slf4j_strings where
  "slf4j_strings_org = \<lparr>
     sl_level = ''org/slf4j/event/Level'',
     sl_level_descr = ''Lorg/slf4j/event/Level;'',
     sl_logger_factory = ''org/slf4j/LoggerFactory'',
     sl_get_logger_descr = ''(Ljava/lang/String;)Lorg/slf4j/Logger;'',
     sl_info_to_dbg_descr = ''(Lorg/slf4j/Logger;)V'',
     sl_log_descr = ''(Lorg/slf4j/event/Level;Ljava/lang/Throwable;Ljava/lang/String;[Ljava/lang/Object;)V'',
     sl_is_loggable_descr = ''(Lorg/slf4j/event/Level;)Z''\<rparr>"

definition slf4j_strings_ddog :: slf4j_strings where
  "slf4j_strings_ddog = \<lparr>
     sl_level = ''datadog/slf4j/event/Level'',
     sl_level_descr = ''Ldatadog/slf4j/event/Level;'',
     sl_logger_factory = ''datadog/slf4j/LoggerFactory'',
     sl_get_logger_descr = ''(Ljava/lang/String;)Ldatadog/slf4j/Logger;'',
     sl_info_to_dbg_descr = ''(Ldatadog/slf4j/Logger;)V'',
     sl_log_descr = ''(Ldatadog/slf4j/event/Level;Ljava/lang/Throwable;Ljava/lang/String;[Ljava/lang/Object;)V'',
     sl_is_loggable_descr = ''(Ldatadog/slf4j/event/Level;)Z''\<rparr>"

text \<open>A strong global reference in a static variable; the macro \<^verbatim>\<open>FETCH_FIELD\<close>; and a local reference to a new string.\<close>

definition make_global :: "jvm \<Rightarrow> string \<Rightarrow> bool nat_io" where
  "make_global J v = do { g \<leftarrow> jni J NewWeakGlobalRef; set_ref v g; State_Monad.return (g \<noteq> None) }"

definition fetch_levels :: "jvm \<Rightarrow> slf4j_strings \<Rightarrow> bool nat_io" where
  "fetch_levels J sl = chain [
     fetch_static J ''_trace'' ''TRACE'' (sl_level_descr sl),
     fetch_static J ''_debug'' ''DEBUG'' (sl_level_descr sl),
     fetch_static J ''_info'' ''INFO'' (sl_level_descr sl),
     fetch_static J ''_warn'' ''WARN'' (sl_level_descr sl),
     fetch_static J ''_error'' ''ERROR'' (sl_level_descr sl)]"

definition NewStringUTF :: "jvm \<Rightarrow> unit option nat_io" where
  "NewStringUTF J = jni J (\<lambda>J. JNI_local J (Some ()))"

text \<open>
  The class of the levels, by its usual name or by the one that the agent of Datadog gives it; and the
  strings that belong to it.
\<close>

definition find_level_cls :: "jvm \<Rightarrow> (unit option \<times> slf4j_strings) nat_io" where
  "find_level_cls J = do {
     level_cls \<leftarrow> FindClass J;
     if level_cls \<noteq> None then State_Monad.return (level_cls, slf4j_strings_org)
     else do {
       jni J (\<lambda>_. ExceptionClear);
       level_cls \<leftarrow> FindClass J;
       (if level_cls = None then jni J (\<lambda>J. wrap_exc J ''logging.c'' ''java_log_init'' 105
          (cstr ''Could find slf4j Level neither at '' @ cstr (sl_level slf4j_strings_org) @ cstr '', nor at '' @
           cstr (sl_level slf4j_strings_ddog)))
        else State_Monad.return ());
       State_Monad.return (level_cls, slf4j_strings_ddog) }}"

text \<open>
  The part of \<^verbatim>\<open>java_log_init\<close> up to the label \<^verbatim>\<open>error\<close>, from the creation of the logger on: whether it came to the end, the local
  references that it made, and its two local methods. \<open>log_init_globals\<close> begins where the logger exists.
  \<open>loggable\<close> is what the logger answers.
\<close>

definition log_init_globals ::
    "jvm \<Rightarrow> slf4j_strings \<Rightarrow> (log_level \<Rightarrow> bool) \<Rightarrow> unit option list \<Rightarrow> j_method list \<Rightarrow> (bool \<times> unit option list \<times> j_method list) nat_io" where
  "log_init_globals J sl loggable locals ms = do {
     ok \<leftarrow> make_global J ''_logger'';
     if \<not> ok then State_Monad.return (False, locals, ms) else do {
     str_pattern_local \<leftarrow> NewStringUTF J;
     if str_pattern_local = None then State_Monad.return (False, locals, ms) else do {
     ok \<leftarrow> chain [
       make_global J ''_log_pattern'',
       meth_init J ''_log_meth'' ''com/datadog/ddwaf/logging/InfoToDebugLogger'' ''log'' (sl_log_descr sl) JMETHOD_NON_VIRTUAL,
       meth_init J ''_is_loggable'' ''com/datadog/ddwaf/logging/InfoToDebugLogger'' ''isLoggable'' (sl_is_loggable_descr sl)
         JMETHOD_NON_VIRTUAL];
     if \<not> ok then State_Monad.return (False, str_pattern_local # locals, ms) else do {
     min_lvl \<leftarrow> jni J (\<lambda>J. get_min_log_level J loggable);
     case min_lvl of
       None \<Rightarrow> do {
         jni J (\<lambda>J. wrap_exc J ''logging.c'' ''java_log_init'' 194 (cstr ''Could not determine minimum log level''));
         State_Monad.return (False, str_pattern_local # locals, ms) }
     | Some l \<Rightarrow> do {
         State (\<lambda>s. ((), s\<lparr>native_min_level := level_rank l, log_cb := True\<rparr>));
         State_Monad.return (True, str_pattern_local # locals, ms) }}}}}"

definition log_init_logger :: "jvm \<Rightarrow> slf4j_strings \<Rightarrow> (log_level \<Rightarrow> bool) \<Rightarrow> (bool \<times> unit option list \<times> j_method list) nat_io" where
  "log_init_logger J sl loggable = do {
     fact_get \<leftarrow> jni J (\<lambda>J. java_meth_init_checked J (sl_logger_factory sl) ''getLogger'' (sl_get_logger_descr sl) JMETHOD_STATIC);
     case fact_get of None \<Rightarrow> State_Monad.return (False, [], []) | Some fact_get \<Rightarrow> do {
     wrapper_log_init \<leftarrow> jni J (\<lambda>J. java_meth_init_checked J ''com/datadog/ddwaf/logging/InfoToDebugLogger'' ''<init>''
       (sl_info_to_dbg_descr sl) JMETHOD_CONSTRUCTOR);
     case wrapper_log_init of None \<Rightarrow> State_Monad.return (False, [], [fact_get]) | Some wrapper_log_init \<Rightarrow> do {
     logger_name \<leftarrow> NewStringUTF J;
     if logger_name = None then State_Monad.return (False, [], [fact_get, wrapper_log_init]) else do {
     logger_local \<leftarrow> jni J (\<lambda>J. java_meth_call J fact_get (Some ()));
     exc \<leftarrow> jni J (\<lambda>_. ExceptionCheck);
     if exc then State_Monad.return (False, [logger_name, logger_local], [fact_get, wrapper_log_init]) else do {
     wrapper_local \<leftarrow> jni J (\<lambda>J. java_meth_call J wrapper_log_init (Some ()));
     exc \<leftarrow> jni J (\<lambda>_. ExceptionCheck);
     if exc then State_Monad.return (False, [logger_name, logger_local, wrapper_local], [fact_get, wrapper_log_init])
     else log_init_globals J sl loggable [logger_name, logger_local, wrapper_local] [fact_get, wrapper_log_init] }}}}}"

text \<open>The whole function up to the label.\<close>

definition log_init_body :: "jvm \<Rightarrow> (log_level \<Rightarrow> bool) \<Rightarrow> (bool \<times> unit option list \<times> j_method list) nat_io" where
  "log_init_body J loggable = do {
     (level_cls, sl) \<leftarrow> find_level_cls J;
     if level_cls = None then State_Monad.return (False, [], [])
     else do {
       object_cls_local \<leftarrow> FindClass J;
       if object_cls_local = None then State_Monad.return (False, [level_cls], [])
       else do {
         ok \<leftarrow> chain [make_global J ''_object_jcls'', fetch_levels J sl];
         if \<not> ok then State_Monad.return (False, [level_cls, object_cls_local], [])
         else do {
           (retval, locals, ms) \<leftarrow> log_init_logger J sl loggable;
           State_Monad.return (retval, level_cls # object_cls_local # locals, ms) }}}}"

definition java_log_shutdown_ref :: "jvm \<Rightarrow> string \<Rightarrow> unit nat_io" where
  "java_log_shutdown_ref J v = do {
     r \<leftarrow> get_ref v;
     if r \<noteq> None then jni J (\<lambda>_. DeleteWeakGlobalRef) else State_Monad.return () }"

text \<open>The variables keep the references that are deleted here, except the classes of the two methods.\<close>

definition java_log_shutdown :: "jvm \<Rightarrow> unit nat_io" where
  "java_log_shutdown J = each [
     java_log_shutdown_ref J ''_object_jcls'',
     java_log_shutdown_ref J ''_trace'',
     java_log_shutdown_ref J ''_debug'',
     java_log_shutdown_ref J ''_info'',
     java_log_shutdown_ref J ''_warn'',
     java_log_shutdown_ref J ''_error'',
     java_log_shutdown_ref J ''_logger'',
     java_log_shutdown_ref J ''_log_pattern'',
     meth_destroy J ''_log_meth'',
     meth_destroy J ''_is_loggable'']"

primrec destroy_local_meths :: "jvm \<Rightarrow> j_method list \<Rightarrow> unit nat_io" where
  "destroy_local_meths J [] = State_Monad.return ()"
| "destroy_local_meths J (m # ms) = do { jni J (\<lambda>_. java_meth_destroy m); destroy_local_meths J ms }"

definition java_log_init :: "jvm \<Rightarrow> (log_level \<Rightarrow> bool) \<Rightarrow> bool nat_io" where
  "java_log_init J loggable = do {
     (retval, locals, ms) \<leftarrow> log_init_body J loggable;
     jni J (\<lambda>_. delete_refs locals);
     destroy_local_meths J ms;
     (if \<not> retval then java_log_shutdown J else State_Monad.return ());
     State_Monad.return retval }"

subsection \<open>The conversion of results\<close>

definition cache_single_class_strong :: "jvm \<Rightarrow> string \<Rightarrow> bool nat_io" where
  "cache_single_class_strong J out = do {
     cls \<leftarrow> FindClass J;
     exc \<leftarrow> jni J (\<lambda>_. ExceptionCheck);
     if exc then State_Monad.return False
     else do {
       g \<leftarrow> jni J NewWeakGlobalRef;
       set_ref out g;
       jni J (\<lambda>_. DeleteLocalRef cls);
       exc \<leftarrow> jni J (\<lambda>_. ExceptionCheck);
       State_Monad.return (\<not> exc) }}"

definition output_shutdown :: "jvm \<Rightarrow> unit nat_io" where
  "output_shutdown J = each [
     meth_destroy J ''_rsi_init'',
     meth_destroy J ''_sect_info_err_init'',
     meth_destroy J ''_sect_info_normal_init'',
     meth_destroy J ''_array_list_init'',
     meth_destroy J ''_array_list_add'',
     meth_destroy J ''_linked_hm_init'',
     meth_destroy J ''_map_put'',
     meth_destroy J ''long_valueOf'',
     meth_destroy J ''double_valueOf'',
     meth_destroy J ''boolean_valueOf'',
     dispose_ref J ''long_cls'',
     dispose_ref J ''output.double_cls'',
     dispose_ref J ''boolean_cls'']"

text \<open>The C function returns nothing; here it says whether it returned before the label \<^verbatim>\<open>err\<close>.\<close>

definition output_init_checked :: "jvm \<Rightarrow> bool nat_io" where
  "output_init_checked J = do {
     ok \<leftarrow> chain [
       meth_init J ''_rsi_init'' ''com/datadog/ddwaf/WafDiagnostics'' ''<init>''
         ''(Ljava/lang/String;Ljava/lang/String;Lcom/datadog/ddwaf/WafDiagnostics$SectionInfo;Lcom/datadog/ddwaf/WafDiagnostics$SectionInfo;Lcom/datadog/ddwaf/WafDiagnostics$SectionInfo;Lcom/datadog/ddwaf/WafDiagnostics$SectionInfo;Lcom/datadog/ddwaf/WafDiagnostics$SectionInfo;Lcom/datadog/ddwaf/WafDiagnostics$SectionInfo;Lcom/datadog/ddwaf/WafDiagnostics$SectionInfo;Lcom/datadog/ddwaf/WafDiagnostics$SectionInfo;Lcom/datadog/ddwaf/WafDiagnostics$SectionInfo;)V''
         JMETHOD_CONSTRUCTOR,
       meth_init J ''_sect_info_err_init'' ''com/datadog/ddwaf/WafDiagnostics$SectionInfo'' ''<init>'' ''(Ljava/lang/String;)V''
         JMETHOD_CONSTRUCTOR,
       meth_init J ''_sect_info_normal_init'' ''com/datadog/ddwaf/WafDiagnostics$SectionInfo'' ''<init>''
         ''(Ljava/util/List;Ljava/util/List;Ljava/util/List;Ljava/util/Map;Ljava/util/Map;)V'' JMETHOD_CONSTRUCTOR,
       meth_init J ''_array_list_init'' ''java/util/ArrayList'' ''<init>'' ''(I)V'' JMETHOD_CONSTRUCTOR,
       meth_init J ''_array_list_add'' ''java/util/ArrayList'' ''add'' ''(Ljava/lang/Object;)Z'' JMETHOD_NON_VIRTUAL,
       meth_init J ''_linked_hm_init'' ''java/util/LinkedHashMap'' ''<init>'' ''()V'' JMETHOD_CONSTRUCTOR,
       meth_init J ''_map_put'' ''java/util/Map'' ''put'' ''(Ljava/lang/Object;Ljava/lang/Object;)Ljava/lang/Object;'' JMETHOD_VIRTUAL,
       cache_single_class_strong J ''long_cls'',
       cache_single_class_strong J ''output.double_cls'',
       cache_single_class_strong J ''boolean_cls'',
       meth_init J ''long_valueOf'' ''java/lang/Long'' ''valueOf'' ''(J)Ljava/lang/Long;'' JMETHOD_STATIC,
       meth_init J ''double_valueOf'' ''java/lang/Double'' ''valueOf'' ''(D)Ljava/lang/Double;'' JMETHOD_STATIC,
       meth_init J ''boolean_valueOf'' ''java/lang/Boolean'' ''valueOf'' ''(Z)Ljava/lang/Boolean;'' JMETHOD_STATIC];
     (if \<not> ok then output_shutdown J else State_Monad.return ());
     State_Monad.return ok }"

subsection \<open>Metrics\<close>

text \<open>The class stays in a static variable as a local reference.\<close>

definition metrics_init :: "jvm \<Rightarrow> bool nat_io" where
  "metrics_init J = do {
     pwaf_metrics_cls \<leftarrow> FindClass J;
     if pwaf_metrics_cls = None then State_Monad.return False
     else do {
       ret \<leftarrow> chain [
         fetch_id J ''_total_ddwaf_run_time_ns_field'',
         fetch_id J ''_total_run_time_ns_field'',
         do { atomic_long_cls \<leftarrow> FindClass J; State_Monad.return (atomic_long_cls \<noteq> None) },
         fetch_id J ''_add_and_get''];
       jni J (\<lambda>_. DeleteLocalRef pwaf_metrics_cls);
       State_Monad.return ret }}"


subsection \<open>The functions keep their contracts\<close>

text \<open>The state without \<open>d\<close> global and \<open>l\<close> local references, which local variables hold.\<close>

definition shifted :: "int \<Rightarrow> int \<Rightarrow> native \<Rightarrow> native" where
  "shifted d l s = s\<lparr>nenv := (nenv s)\<lparr>refs := refs (nenv s) - l, weak_refs := weak_refs (nenv s) - d\<rparr>\<rparr>"

lemma shifted_sel [simp]:
  "grefs (shifted d l s) = grefs s" "meths (shifted d l s) = meths s" "field_ids (shifted d l s) = field_ids s"
  "pending (nenv (shifted d l s)) = pending (nenv s)" "misuse (nenv (shifted d l s)) = misuse (nenv s)"
  "refs (nenv (shifted d l s)) = refs (nenv s) - l" "weak_refs (nenv (shifted d l s)) = weak_refs (nenv s) - d"
  "unowned (shifted d l s) = unowned s - d" "tidy (shifted d l s) = tidy s" "same_flags s' (shifted d l s) = same_flags s' s"
  "same_flags (shifted d l s) s' = same_flags s s'" "native_init_ok (shifted d l s) = native_init_ok s"
  "native_timeout (shifted d l s) = native_timeout s" "cs_active (shifted d l s) = cs_active s"
  by (simp_all add: shifted_def unowned_def tidy_def same_flags_def)

lemma shifted_0 [simp]: "shifted 0 0 s = s"
  by (simp add: shifted_def)

lemma fetched_refl: "tidy s \<Longrightarrow> fetched J {} {} s True s"
  by (simp add: fetched_def same_flags_def smooth_def)

lemma fetched_shift: "fetched J V M s ok s' \<Longrightarrow> fetched J V M (shifted d l s) ok (shifted d l s')"
  by (auto simp: fetched_def smooth_def)

lemma fetched_pending: "fetched J V M s True s' \<Longrightarrow> pending (nenv s') \<noteq> None \<Longrightarrow> fetched J V M s False s'"
  by (auto simp: fetched_def smooth_def)

lemma fetched_False: "fetched J V M s False s' \<Longrightarrow> V \<subseteq> V' \<Longrightarrow> fetched J V' M' s False s'"
  by (auto simp: fetched_def)

lemma fetched_nenv:
  assumes "fetched J V M s True (shifted d l s0)" and "refs (nenv s0) + l' \<le> refs e" and "weak_refs (nenv s0) + d' \<le> weak_refs e"
    and "weak_refs e \<le> weak_refs (nenv s0) + d' + (if ok then 0 else 1)"
    and "quiet J \<and> pending (nenv s0) = None \<longrightarrow> ok \<and> smooth (nenv s0) e \<and> refs e = refs (nenv s0) + l'"
  shows "fetched J V M s ok (shifted (d + d') (l + l') (s0\<lparr>nenv := e\<rparr>))"
  using assms by (auto simp: fetched_def smooth_def unowned_def tidy_def same_flags_def del: iffCE impCE)

text \<open>One step after another.\<close>

lemma meth_localI:
  assumes "fetched J V M s True (shifted d l s0)" and "ty \<noteq> JMETHOD_UNINITIALIZED"
    and "\<And>s1. fetched J V M s False (shifted d l s1) \<Longrightarrow> Q None s1"
    and "\<And>jm s1. ready jm \<Longrightarrow> fetched J V M s True (shifted (d + ref_of (class_glob jm)) l s1) \<Longrightarrow> Q (Some jm) s1"
  shows "wp (jni J (\<lambda>J. java_meth_init_checked J c n sg ty)) Q s0"
  unfolding wp_jni
proof (rule wp_mono [OF java_meth_init_counts], elim conjE)
  fix r e
  assume r: "refs e = refs (nenv s0)" "case r of Some jm \<Rightarrow> (ty \<noteq> JMETHOD_UNINITIALIZED \<longrightarrow> ready jm) \<and>
      weak_refs e = weak_refs (nenv s0) + ref_of (class_glob jm) \<and> (ty = JMETHOD_VIRTUAL \<longrightarrow> class_glob jm = None)
    | None \<Rightarrow> weak_refs (nenv s0) \<le> weak_refs e \<and> weak_refs e \<le> weak_refs (nenv s0) + 1"
    "quiet (jvm_now J s0) \<and> pending (nenv s0) = None \<longrightarrow> r \<noteq> None \<and> smooth (nenv s0) e"
  show "Q r (s0\<lparr>nenv := e\<rparr>)"
  proof (cases r)
    case None
    then show ?thesis
      using r fetched_nenv [OF assms(1), where l' = 0 and d' = 0 and e = e and ok = False] by (auto intro!: assms(3))
  next
    case (Some jm)
    then show ?thesis
      using r fetched_nenv [OF assms(1), where l' = 0 and d' = "ref_of (class_glob jm)" and e = e and ok = True] assms(2)
      by (auto intro!: assms(4))
  qed
qed

lemma new_localI:
  assumes "fetched J V M s True (shifted d l s0)"
    and "\<And>s1. fetched J V M s False (shifted d l s1) \<Longrightarrow> Q None s1"
    and "\<And>s1. fetched J V M s True (shifted d (l + 1) s1) \<Longrightarrow> Q (Some ()) s1"
  shows "wp (jni J (\<lambda>J. JNI_local J (Some ()))) Q s0"
  unfolding wp_jni
proof (rule JNI_local_countsI)
  fix r e
  assume r: "refs e = refs (nenv s0) + ref_of r" "weak_refs e = weak_refs (nenv s0)"
    "quiet (jvm_now J s0) \<and> pending (nenv s0) = None \<longrightarrow> r = Some () \<and> smooth (nenv s0) e"
  show "Q r (s0\<lparr>nenv := e\<rparr>)"
  proof (cases r)
    case None
    then show ?thesis
      using r fetched_nenv [OF assms(1), where l' = 0 and d' = 0 and e = e and ok = False] by (auto intro!: assms(2))
  next
    case (Some u)
    then show ?thesis
      using r fetched_nenv [OF assms(1), where l' = 1 and d' = 0 and e = e and ok = True] by (auto intro!: assms(3))
  qed
qed

lemma meth_call_localI:
  assumes "fetched J V M s True (shifted d l s0)" and "ready m"
    and "\<And>r s1. fetched J V M s True (shifted d (l + ref_of r) s1) \<Longrightarrow> Q r s1"
  shows "wp (jni J (\<lambda>J. java_meth_call J m (Some ()))) Q s0"
  unfolding wp_jni
proof (rule wp_mono [OF java_meth_call_counts], elim conjE)
  fix r e
  assume "refs e = refs (nenv s0) + ref_of r" "weak_refs e = weak_refs (nenv s0)"
    "quiet (jvm_now J s0) \<and> pending (nenv s0) = None \<and> ready m \<longrightarrow> r = Some () \<and> smooth (nenv s0) e"
  then show "Q r (s0\<lparr>nenv := e\<rparr>)"
    using fetched_nenv [OF assms(1), where l' = "ref_of r" and d' = 0 and e = e and ok = True] assms(2)
    by (auto intro!: assms(3))
qed

lemma fetch_localI:
  assumes "fetched J V M s True (shifted d l s0)" and "fetches J W N f" and "held s \<inter> (W \<union> N) = {}" and "V \<inter> (W \<union> N) = {}"
    and "\<And>ok s1. fetched J (V \<union> W) (M \<union> N) s ok (shifted d l s1) \<Longrightarrow> Q ok s1"
  shows "wp f Q s0"
proof (rule wp_mono [OF fetchesD [OF assms(2)]])
  show "tidy s0" "held s0 \<inter> (W \<union> N) = {}"
    using assms(1,3,4) by (auto simp: fetched_def)
  show "Q ok s1" if "fetched J W N s0 ok s1" for ok s1
    using fetched_trans [OF assms(1) fetched_shift [OF that]] by (rule assms(5))
qed


lemma get_min_log_level_counts:
  "wp (get_min_log_level_from J loggable ls) (\<lambda>r e'. refs e' = refs e \<and> weak_refs e' = weak_refs e \<and>
     (quiet J \<and> pending e = None \<longrightarrow> r \<noteq> None \<and> smooth e e')) e"
proof (induction ls arbitrary: e)
  case Nil
  then show ?case by (simp add: wps smooth_def)
next
  case (Cons l ls)
  show ?case
    unfolding get_min_log_level_from.simps wp_bind
  proof (rule JNI_call_countsI)
    fix ok e1 assume e1: "refs e1 = refs e" "weak_refs e1 = weak_refs e" "quiet J \<and> pending e = None \<longrightarrow> ok \<and> smooth e e1"
    show "wp (if ok \<and> loggable l then State_Monad.return (Some l) else do { exc \<leftarrow> ExceptionCheck;
        if exc then State_Monad.return None else get_min_log_level_from J loggable ls })
      (\<lambda>r e'. refs e' = refs e \<and> weak_refs e' = weak_refs e \<and> (quiet J \<and> pending e = None \<longrightarrow> r \<noteq> None \<and> smooth e e')) e1"
      using e1 by (auto simp: wps smooth_def intro!: wp_mono [OF Cons.IH] del: iffCE impCE)
  qed
qed

lemma min_log_levelI:
  assumes "fetched J V M s True (shifted d l s0)"
    and "\<And>s1. fetched J V M s False (shifted d l s1) \<Longrightarrow> Q None s1"
    and "\<And>lvl s1. fetched J V M s True (shifted d l s1) \<Longrightarrow> Q (Some lvl) s1"
  shows "wp (jni J (\<lambda>J. get_min_log_level J loggable)) Q s0"
  unfolding wp_jni get_min_log_level_def
proof (rule wp_mono [OF get_min_log_level_counts], elim conjE)
  fix r :: "log_level option" and e :: jenv
  assume r: "refs e = refs (nenv s0)" "weak_refs e = weak_refs (nenv s0)"
    "quiet (jvm_now J s0) \<and> pending (nenv s0) = None \<longrightarrow> r \<noteq> None \<and> smooth (nenv s0) e"
  show "Q r (s0\<lparr>nenv := e\<rparr>)"
  proof (cases r)
    case None
    then show ?thesis
      using r fetched_nenv [OF assms(1), where l' = 0 and d' = 0 and e = e and ok = False] by (auto intro!: assms(2))
  next
    case (Some u)
    then show ?thesis
      using r fetched_nenv [OF assms(1), where l' = 0 and d' = 0 and e = e and ok = True] by (auto intro!: assms(3))
  qed
qed

lemma fetches_make_global: "fetches J {Ref v} {Ref v} (make_global J v)"
  unfolding fetches_def make_global_def
  by (auto simp: wps fetched_def tidy_def unowned_def same_flags_def usable_upd smooth_def intro!: countsI
      split: if_splits del: iffCE impCE)

lemma fetched_setI: "fetched J V M s ok (shifted d l s') \<Longrightarrow>
   fetched J V M s ok (shifted d l (s'\<lparr>native_min_level := n, log_cb := b\<rparr>))"
  by (simp add: fetched_def shifted_def unowned_def tidy_def same_flags_def smooth_def)

lemma wrap_failI:
  assumes "fetched J V M s False (shifted d l s0)" and "\<And>s1. fetched J V M s False (shifted d l s1) \<Longrightarrow> Q () s1"
  shows "wp (jni J (\<lambda>J. wrap_exc J file fn line m)) Q s0"
  unfolding wp_jni
proof (rule wrap_exc_countsI)
  fix e :: jenv assume "refs e = refs (nenv s0)" "weak_refs e = weak_refs (nenv s0)"
  then have "fetched J V M s False (shifted d l (s0\<lparr>nenv := e\<rparr>))"
    using assms(1) by (auto simp: fetched_def unowned_def tidy_def same_flags_def)
  then show "Q () (s0\<lparr>nenv := e\<rparr>)"
    by (rule assms(2))
qed

lemma check_excI:
  assumes "fetched J V M s True (shifted d l s0)" and "fetched J V M s False (shifted d l s0) \<Longrightarrow> Q True s0" and "Q False s0"
  shows "wp (jni J (\<lambda>_. ExceptionCheck)) Q s0"
  using assms fetched_pending [OF assms(1)] by (cases "pending (nenv s0)") (simp_all add: wps)

definition log_vars :: "gvar set" where
  "log_vars = {Ref ''_object_jcls'', Ref ''_trace'', Ref ''_debug'', Ref ''_info'', Ref ''_warn'', Ref ''_error'', Ref ''_logger'',
     Ref ''_log_pattern'', Meth ''_log_meth'', Meth ''_is_loggable''}"

definition logger_vars :: "gvar set" where
  "logger_vars = {Ref ''_logger'', Ref ''_log_pattern'', Meth ''_log_meth'', Meth ''_is_loggable''}"

text \<open>What is left when the cleaning up behind the label \<^verbatim>\<open>error\<close> has deleted the local references.\<close>

definition log_left :: "jvm \<Rightarrow> gvar set \<Rightarrow> native \<Rightarrow> int \<Rightarrow> int \<Rightarrow> bool \<times> unit option list \<times> j_method list \<Rightarrow> native \<Rightarrow> bool" where
  "log_left J V s d l = (\<lambda>(ok, locals, ms) s'.
     fetched J V V s ok (shifted (d + (\<Sum>m\<leftarrow>ms. ref_of (class_glob m))) (l + sum_list (map ref_of locals)) s'))"

lemma log_leftI:
  "fetched J W W s False (shifted d' l' s') \<Longrightarrow> W \<subseteq> V \<Longrightarrow> d' = d + (\<Sum>m\<leftarrow>ms. ref_of (class_glob m)) \<Longrightarrow>
     l' = l + sum_list (map ref_of locals) \<Longrightarrow> log_left J V s d l (False, locals, ms) s'"
  "fetched J V V s True (shifted d' l' s') \<Longrightarrow> d' = d + (\<Sum>m\<leftarrow>ms. ref_of (class_glob m)) \<Longrightarrow>
     l' = l + sum_list (map ref_of locals) \<Longrightarrow> log_left J V s d l (True, locals, ms) s'"
  by (auto simp: log_left_def intro: fetched_False)

lemma log_init_globals_wp:
  assumes "fetched J V V s True (shifted d' l' s0)" and "held s \<inter> logger_vars = {}" and "V \<inter> logger_vars = {}"
    and "d' = d + (\<Sum>m\<leftarrow>ms. ref_of (class_glob m))" and "l' = l + sum_list (map ref_of locals)"
  shows "wp (log_init_globals J sl loggable locals ms) (log_left J (V \<union> logger_vars) s d l) s0"
proof -
  have chain: "fetches J {Ref ''_log_pattern'', Meth ''_log_meth'', Meth ''_is_loggable''}
      {Ref ''_log_pattern'', Meth ''_log_meth'', Meth ''_is_loggable''} (chain [
       make_global J ''_log_pattern'',
       meth_init J ''_log_meth'' ''com/datadog/ddwaf/logging/InfoToDebugLogger'' ''log'' (sl_log_descr sl) JMETHOD_NON_VIRTUAL,
       meth_init J ''_is_loggable'' ''com/datadog/ddwaf/logging/InfoToDebugLogger'' ''isLoggable'' (sl_is_loggable_descr sl)
         JMETHOD_NON_VIRTUAL])"
    by (rule fetch_meths fetches_step [OF fetches_make_global] | (simp; fail))+
  have fresh: "held s \<inter> {Ref ''_logger''} = {}" "V \<inter> {Ref ''_logger''} = {}"
      "held s \<inter> {Ref ''_log_pattern'', Meth ''_log_meth'', Meth ''_is_loggable''} = {}"
      "(V \<union> {Ref ''_logger''}) \<inter> {Ref ''_log_pattern'', Meth ''_log_meth'', Meth ''_is_loggable''} = {}"
    using assms(2,3) by (auto simp: logger_vars_def)
  show ?thesis
    unfolding log_init_globals_def wp_bind NewStringUTF_def
  proof (rule fetch_localI [OF assms(1) fetches_make_global], goal_cases)
    case (3 ok s1)
    show ?case
    proof (cases ok)
      case True
      note f1 = 3 [unfolded eqTrueI [OF True]]
      show ?thesis
        unfolding eqTrueI [OF True] not_True_eq_False if_False wp_bind
      proof (rule new_localI [OF f1], goal_cases)
        case (2 s2)
        then show ?case
          unfolding if_not_P [OF option.distinct(2)] wp_bind
        proof (rule fetch_localI [OF _ chain], goal_cases)
          case (3 ok s3)
          show ?case
          proof (cases ok)
            case True
            note f3 = 3 [unfolded eqTrueI [OF True]]
            show ?thesis
              unfolding eqTrueI [OF True] not_True_eq_False if_False wp_bind
              by (rule min_log_levelI [OF f3])
                (auto simp: wps logger_vars_def assms(4,5) insert_commute ac_simps simp del: wp_jni
                  intro!: wrap_failI log_leftI fetched_setI)
          qed (use 3 in \<open>auto simp: wps assms(4,5) logger_vars_def intro!: log_leftI(1)\<close>)
        qed (use fresh in simp_all)
      qed (auto simp: wps assms(4,5) logger_vars_def intro!: log_leftI(1))
    qed (use 3 in \<open>auto simp: wps assms(4,5) logger_vars_def intro!: log_leftI(1)\<close>)
  qed (use fresh in simp_all)
qed

lemma log_init_logger_wp:
  assumes f: "fetched J V V s True (shifted d l s0)" and "held s \<inter> logger_vars = {}" and "V \<inter> logger_vars = {}"
  shows "wp (log_init_logger J sl loggable) (log_left J (V \<union> logger_vars) s d l) s0"
  unfolding log_init_logger_def wp_bind NewStringUTF_def
  apply (rule meth_localI [OF f])
    apply simp
   apply (simp add: wps log_leftI(1))
  apply (simp only: option.case wp_bind)
  apply (rule meth_localI, assumption)
    apply simp
   apply (simp add: wps log_leftI(1))
  apply (simp only: option.case wp_bind)
  apply (rule new_localI, assumption)
   apply (simp add: wps log_leftI(1))
  apply (simp only: option.distinct if_False wp_bind)
  apply (rule meth_call_localI, assumption, assumption)
  apply (simp only: wp_bind)
  apply (rule check_excI, assumption)
   apply (simp add: wps log_leftI(1))
  apply (simp only: if_False wp_bind)
  apply (rule meth_call_localI, assumption, assumption)
  apply (simp only: wp_bind)
  apply (rule check_excI, assumption)
   apply (simp add: wps log_leftI(1))
  apply (simp only: if_False)
  apply (rule log_init_globals_wp, assumption)
     apply (simp_all add: assms)
  done

lemma find_level_cls_wp:
  assumes "tidy s"
  shows "wp (find_level_cls J) (\<lambda>(c, sl) s'. fetched J {} {} s (c \<noteq> None) (shifted 0 (ref_of c) s')) s"
  using assms unfolding find_level_cls_def FindClass_def
  by (auto simp: wps fetched_def unowned_def tidy_def same_flags_def smooth_def intro!: countsI del: iffCE impCE)

lemma fetches_levels: "fetches J {Ref ''_object_jcls'', Ref ''_trace'', Ref ''_debug'', Ref ''_info'', Ref ''_warn'', Ref ''_error''}
    {Ref ''_object_jcls'', Ref ''_trace'', Ref ''_debug'', Ref ''_info'', Ref ''_warn'', Ref ''_error''}
    (chain [make_global J ''_object_jcls'', fetch_levels J sl])"
proof -
  have "fetches J {Ref ''_trace'', Ref ''_debug'', Ref ''_info'', Ref ''_warn'', Ref ''_error''}
      {Ref ''_trace'', Ref ''_debug'', Ref ''_info'', Ref ''_warn'', Ref ''_error''} (fetch_levels J sl)"
    unfolding fetch_levels_def by (rule fetch_refs | (simp; fail))+
  from fetches_step [OF fetches_make_global _ _ fetches_Cons [OF this fetches_Nil], of "''_object_jcls''"]
  show ?thesis by simp
qed

lemma log_left_Cons: "log_left J V s d l (r, x # y # locals, ms) s' = log_left J V s d (l + ref_of x + ref_of y) (r, locals, ms) s'"
  by (simp add: log_left_def ac_simps)

lemma log_init_body_wp:
  assumes s: "tidy s" "held s \<inter> log_vars = {}"
  shows "wp (log_init_body J loggable) (log_left J log_vars s 0 0) s"
proof -
  let ?L = "{Ref ''_object_jcls'', Ref ''_trace'', Ref ''_debug'', Ref ''_info'', Ref ''_warn'', Ref ''_error''}"
  have L: "?L \<union> logger_vars = log_vars" "held s \<inter> (?L \<union> ?L) = {}" "held s \<inter> logger_vars = {}" "?L \<inter> logger_vars = {}"
    using s(2) by (auto simp: log_vars_def logger_vars_def)
  show ?thesis
    unfolding log_init_body_def wp_bind
  proof (rule wp_mono [OF find_level_cls_wp [OF s(1)]], clarify)
    fix c :: "unit option" and sl s1 assume c: "fetched J {} {} s (c \<noteq> None) (shifted 0 (ref_of c) s1)"
    show "wp (if c = None then State_Monad.return (False, [], []) else do {
       object_cls_local \<leftarrow> FindClass J;
       if object_cls_local = None then State_Monad.return (False, [c], [])
       else do {
         ok \<leftarrow> chain [make_global J ''_object_jcls'', fetch_levels J sl];
         if \<not> ok then State_Monad.return (False, [c, object_cls_local], [])
         else do {
           (retval, locals, ms) \<leftarrow> log_init_logger J sl loggable;
           State_Monad.return (retval, c # object_cls_local # locals, ms) }}}) (log_left J log_vars s 0 0) s1"
    proof (cases c)
      case None
      then show ?thesis
        using c fetched_False [of J "{}" "{}" s s1 log_vars log_vars] by (simp add: wps log_left_def)
    next
      case (Some u)
      then have c: "fetched J {} {} s True (shifted 0 1 s1)"
        using c by simp
      show ?thesis
        unfolding Some if_not_P [OF option.distinct(2)] wp_bind FindClass_def
      proof (rule new_localI [OF c], goal_cases)
        case (2 s2)
        then show ?case
          unfolding if_not_P [OF option.distinct(2)] wp_bind
        proof (rule fetch_localI [OF _ fetches_levels], goal_cases)
          case (3 ok s3)
          then have f: "fetched J ?L ?L s ok (shifted 0 2 s3)"
            by simp
          show ?case
          proof (cases ok)
            case True
            have "wp (log_init_logger J sl loggable) (log_left J log_vars s 0 2) s3"
              using log_init_logger_wp [OF f [unfolded eqTrueI [OF True]] L(3,4)] by (simp only: L(1))
            then show ?thesis
              unfolding eqTrueI [OF True] not_True_eq_False if_False wp_bind
              by (rule wp_mono) (auto simp: wps log_left_Cons split: prod.split)
          next
            case False
            have "fetched J log_vars log_vars s False (shifted 0 2 s3)"
              by (rule fetched_False [OF f [unfolded Eq_FalseI [OF False]]]) (simp add: log_vars_def)
            then show ?thesis
              using False by (simp add: wps log_left_def)
          qed
        qed (use L(2) in simp_all)
      next
        case (1 s2)
        from fetched_False [OF 1 empty_subsetI] show ?case
          by (simp add: wps log_left_def)
      qed
    qed
  qed
qed


text \<open>The references are deleted, but the variables are not set to null.\<close>

lemma shutdown_refs_wp:
  assumes "distinct vs"
  shows "wp (each (map (java_log_shutdown_ref J) vs)) (\<lambda>_ s'. s' = s\<lparr>nenv := (nenv s)\<lparr>
     weak_refs := weak_refs (nenv s) - int (card (held s \<inter> Ref ` set vs))\<rparr>\<rparr>) s"
  using assms
proof (induction vs arbitrary: s)
  case Nil
  then show ?case by (simp add: wps)
next
  case (Cons v vs)
  have fin: "finite (held s \<inter> Ref ` set vs)"
    by simp
  have v: "Ref v \<notin> held s \<inter> Ref ` set vs"
    using Cons.prems by auto
  have "held s \<inter> Ref ` set (v # vs) = (if grefs s v = None then held s \<inter> Ref ` set vs else insert (Ref v) (held s \<inter> Ref ` set vs))"
    by auto
  then have c: "int (card (held s \<inter> Ref ` set (v # vs))) = ref_of (grefs s v) + int (card (held s \<inter> Ref ` set vs))"
    using card_insert_disjoint [OF fin v] by (simp add: ref_of_def)
  show ?case
  proof (cases "grefs s v")
    case None
    then show ?thesis
      using Cons.IH [of s] Cons.prems c by (simp add: java_log_shutdown_ref_def wps)
  next
    case (Some r)
    then show ?thesis
      using Cons.IH [of "s\<lparr>nenv := (nenv s)\<lparr>weak_refs := weak_refs (nenv s) - 1\<rparr>\<rparr>"] Cons.prems c
      by (simp add: java_log_shutdown_ref_def wps algebra_simps)
  qed
qed

lemma each_append: "each (fs @ gs) = do { each fs; each gs }"
  by (induction fs) simp_all

definition log_ref_vars :: "string list" where
  "log_ref_vars = [''_object_jcls'', ''_trace'', ''_debug'', ''_info'', ''_warn'', ''_error'', ''_logger'', ''_log_pattern'']"

lemma log_vars_eq: "log_vars = Ref ` set log_ref_vars \<union> {Meth ''_log_meth'', Meth ''_is_loggable''}"
  by (auto simp: log_vars_def log_ref_vars_def)

lemma releases_log_meths:
  "releases {Meth ''_log_meth'', Meth ''_is_loggable''} (each [meth_destroy J ''_log_meth'', meth_destroy J ''_is_loggable''])"
  using releases_Cons [OF releases_meth [of "''_log_meth''" J] releases_Cons [OF releases_meth [of "''_is_loggable''" J] releases_Nil]]
  by (simp only: Un_empty_right Un_insert_left Un_empty_left)

lemma card_split: "finite H \<Longrightarrow> A \<inter> B = {} \<Longrightarrow> card (H \<inter> (A \<union> B)) = card (H \<inter> A) + card (H \<inter> B)"
  by (simp add: Int_Un_distrib card_Un_disjoint Int_assoc Int_left_commute disjoint_iff)

lemma java_log_shutdown_wp:
  assumes "tidy s"
  shows "wp (java_log_shutdown J) (\<lambda>_ s'. weak_refs (nenv s') = weak_refs (nenv s) - int (card (held s \<inter> log_vars)) \<and>
      held s - log_vars \<subseteq> held s' \<and> held s' \<subseteq> held s \<and> tidy s' \<and> same_flags s s') s"
proof -
  let ?M = "{Meth ''_log_meth'', Meth ''_is_loggable''}"
  let ?s = "s\<lparr>nenv := (nenv s)\<lparr>weak_refs := weak_refs (nenv s) - int (card (held s \<inter> Ref ` set log_ref_vars))\<rparr>\<rparr>"
  have eq: "java_log_shutdown J = do { each (map (java_log_shutdown_ref J) log_ref_vars);
      each [meth_destroy J ''_log_meth'', meth_destroy J ''_is_loggable''] }"
    unfolding each_append [symmetric] by (simp only: java_log_shutdown_def log_ref_vars_def list.map append.simps)
  have "distinct log_ref_vars"
    by code_simp
  have "tidy ?s"
    using assms by (simp add: tidy_def)
  have c: "card (held s \<inter> log_vars) = card (held s \<inter> Ref ` set log_ref_vars) + card (held s \<inter> ?M)"
    unfolding log_vars_eq by (rule card_split) (use assms in \<open>auto simp: tidy_def\<close>)
  have "wp (each [meth_destroy J ''_log_meth'', meth_destroy J ''_is_loggable'']) (\<lambda>_. released ?M ?s) ?s"
    using releases_log_meths \<open>tidy ?s\<close> unfolding releases_def by blast
  then have "wp (each [meth_destroy J ''_log_meth'', meth_destroy J ''_is_loggable'']) (\<lambda>_ s'.
      weak_refs (nenv s') = weak_refs (nenv s) - int (card (held s \<inter> log_vars)) \<and>
      held s - log_vars \<subseteq> held s' \<and> held s' \<subseteq> held s \<and> tidy s' \<and> same_flags s s') ?s"
  proof (rule wp_mono)
    fix s' assume r: "released ?M ?s s'"
    have "weak_refs (nenv s') = weak_refs (nenv ?s) - int (card (held ?s \<inter> ?M))"
      by (rule released_weak [OF r \<open>tidy ?s\<close>])
    moreover have "held s' = held s - ?M" "tidy s'" "same_flags s s'"
      using r by (simp_all add: released_def same_flags_def)
    ultimately show "weak_refs (nenv s') = weak_refs (nenv s) - int (card (held s \<inter> log_vars)) \<and>
      held s - log_vars \<subseteq> held s' \<and> held s' \<subseteq> held s \<and> tidy s' \<and> same_flags s s'"
      using c by (auto simp: log_vars_eq)
  qed
  then show ?thesis
    unfolding eq wp_bind by (intro wp_mono [OF shutdown_refs_wp [OF \<open>distinct log_ref_vars\<close>]]) simp
qed

lemma destroy_local_meths_wp: "wp (destroy_local_meths J ms) (\<lambda>_ s'.
   s' = s\<lparr>nenv := (nenv s)\<lparr>weak_refs := weak_refs (nenv s) - (\<Sum>m\<leftarrow>ms. ref_of (class_glob m))\<rparr>\<rparr>) s"
proof (induction ms arbitrary: s)
  case Nil
  then show ?case by (simp add: wps)
next
  case (Cons m ms)
  show ?case
    unfolding destroy_local_meths.simps wp_bind wp_jni
    by (rule java_meth_destroyI, rule wp_mono [OF Cons.IH]) (simp add: algebra_simps)
qed

text \<open>After the label.\<close>

lemma log_init_endI:
  assumes "Q () (shifted (\<Sum>m\<leftarrow>ms. ref_of (class_glob m)) (sum_list (map ref_of locals)) s)"
  shows "wp (jni J (\<lambda>_. delete_refs locals)) (\<lambda>_. wp (destroy_local_meths J ms) Q) s"
  unfolding wp_jni
  by (rule wp_mono [OF delete_refs_wp], rule wp_mono [OF destroy_local_meths_wp]) (use assms in \<open>simp add: shifted_def\<close>)

lemma java_log_init_wp:
  assumes s: "tidy s" "held s \<inter> log_vars = {}"
  shows "wp (java_log_init J loggable) (\<lambda>ok s'.
      if ok then fetched J log_vars log_vars s True s'
      else same_flags s s' \<and> \<not> (quiet J \<and> pending (nenv s) = None) \<and> weak_refs (nenv s) \<le> weak_refs (nenv s') \<and>
        weak_refs (nenv s') \<le> weak_refs (nenv s) + 1) s"
  unfolding java_log_init_def wp_bind
proof (rule wp_mono [OF log_init_body_wp [OF s]], clarify)
  fix ok locals ms s1 assume "log_left J log_vars s 0 0 (ok, locals, ms) s1"
  then obtain s2 where s2: "s2 = shifted (\<Sum>m\<leftarrow>ms. ref_of (class_glob m)) (sum_list (map ref_of locals)) s1"
    and f: "fetched J log_vars log_vars s ok s2"
    by (simp add: log_left_def)
  have fin: "finite (held s)" "finite log_vars"
    using s(1) by (simp_all add: tidy_def log_vars_def)
  show "wp (do { jni J (\<lambda>_. delete_refs locals); destroy_local_meths J ms;
      (if \<not> ok then java_log_shutdown J else State_Monad.return ()); State_Monad.return ok }) (\<lambda>ok s'.
      if ok then fetched J log_vars log_vars s True s'
      else same_flags s s' \<and> \<not> (quiet J \<and> pending (nenv s) = None) \<and> weak_refs (nenv s) \<le> weak_refs (nenv s') \<and>
        weak_refs (nenv s') \<le> weak_refs (nenv s) + 1) s1"
    unfolding wp_bind
  proof (rule log_init_endI, fold s2, cases ok)
    case True
    then show "wp (if \<not> ok then java_log_shutdown J else State_Monad.return ()) (\<lambda>_. wp (State_Monad.return ok) (\<lambda>ok s'.
      if ok then fetched J log_vars log_vars s True s'
      else same_flags s s' \<and> \<not> (quiet J \<and> pending (nenv s) = None) \<and> weak_refs (nenv s) \<le> weak_refs (nenv s') \<and>
        weak_refs (nenv s') \<le> weak_refs (nenv s) + 1)) s2"
      using f by (simp add: wps)
  next
    case False
    have "held s2 = held s \<union> (held s2 \<inter> log_vars)" "held s \<inter> (held s2 \<inter> log_vars) = {}"
      using f s(2) by (auto simp: fetched_def)
    then have "card (held s2) = card (held s) + card (held s2 \<inter> log_vars)"
      using fin card_Un_disjoint [of "held s" "held s2 \<inter> log_vars"] by (metis finite_Int)
    then show "wp (if \<not> ok then java_log_shutdown J else State_Monad.return ()) (\<lambda>_. wp (State_Monad.return ok) (\<lambda>ok s'.
      if ok then fetched J log_vars log_vars s True s'
      else same_flags s s' \<and> \<not> (quiet J \<and> pending (nenv s) = None) \<and> weak_refs (nenv s) \<le> weak_refs (nenv s') \<and>
        weak_refs (nenv s') \<le> weak_refs (nenv s) + 1)) s2"
      using f False
      by (auto simp: wps fetched_def unowned_def same_flags_def intro!: wp_mono [OF java_log_shutdown_wp])
  qed
qed

interpretation logger: startable J log_vars log_vars log_vars "java_log_init J loggable" "java_log_shutdown J" for J loggable
proof unfold_locales
  show "finite log_vars"
    by (simp add: log_vars_def)
next
  fix s assume s: "tidy s" "held s \<inter> (log_vars \<union> log_vars) = {}"
  show "wp (java_log_init J loggable) (\<lambda>ok s'.
      if ok then fetched J log_vars log_vars s True s'
      else same_flags s s' \<and> \<not> (quiet J \<and> pending (nenv s) = None) \<and> weak_refs (nenv s) \<le> weak_refs (nenv s') \<and>
        weak_refs (nenv s') \<le> weak_refs (nenv s) + int (card (log_vars - log_vars)) + 1) s"
    unfolding Diff_cancel card.empty int_ops(1) add_0_right by (rule java_log_init_wp) (use s in simp_all)
qed (rule java_log_shutdown_wp)

text \<open>The conversion of results.\<close>

lemma fetches_class_strong: "fetches J {Ref v} {} (cache_single_class_strong J v)"
  unfolding fetches_def cache_single_class_strong_def FindClass_def
  by (auto simp: wps fetched_def tidy_def unowned_def same_flags_def usable_upd smooth_def ref_of_nonneg
        intro!: countsI split: if_splits del: iffCE impCE)

definition output_meths :: "string list" where
  "output_meths = [''_rsi_init'', ''_sect_info_err_init'', ''_sect_info_normal_init'', ''_array_list_init'', ''_array_list_add'',
     ''_linked_hm_init'', ''_map_put'', ''long_valueOf'', ''double_valueOf'', ''boolean_valueOf'']"

definition output_classes :: "string list" where
  "output_classes = [''long_cls'', ''output.double_cls'', ''boolean_cls'']"

definition output_vars :: "gvar set" where
  "output_vars = Meth ` set output_meths \<union> Ref ` set output_classes"

definition output_owned :: "gvar set" where
  "output_owned = {Meth ''_rsi_init'', Meth ''_sect_info_err_init'', Meth ''_sect_info_normal_init'', Meth ''_array_list_init'',
     Meth ''_array_list_add'', Meth ''_linked_hm_init'', Ref ''long_cls'', Ref ''output.double_cls'', Ref ''boolean_cls'',
     Meth ''long_valueOf'', Meth ''double_valueOf'', Meth ''boolean_valueOf''}"

lemma releases_meths: "releases (Meth ` set vs) (each (map (meth_destroy J) vs))"
  by (induction vs) (use releases_Nil releases_bind [OF releases_meth] in auto)

lemma releases_output: "releases output_vars (output_shutdown J)"
proof -
  have "output_shutdown J = do { each (map (meth_destroy J) output_meths); each (map (dispose_ref J) output_classes) }"
    unfolding each_append [symmetric]
    by (simp only: output_shutdown_def output_meths_def output_classes_def list.map append.simps)
  then show ?thesis
    unfolding output_vars_def using releases_bind [OF releases_meths releases_refs] by metis
qed

lemma fetches_step_opt:
  "fetches J {x} {} f \<Longrightarrow> x \<notin> W \<Longrightarrow> x \<notin> N \<Longrightarrow> fetches J W N (chain fs) \<Longrightarrow> fetches J (insert x W) N (chain (f # fs))"
  using fetches_Cons [of J "{x}" "{}" f W N fs] by simp

interpretation outp: startable J output_owned "Meth ` set output_meths" output_vars "output_init_checked J" "output_shutdown J" for J
  unfolding output_init_checked_def
proof (rule startableI [OF _ releases_output])
  show "fetches J output_owned (Meth ` set output_meths) (chain [
       meth_init J ''_rsi_init'' ''com/datadog/ddwaf/WafDiagnostics'' ''<init>''
         ''(Ljava/lang/String;Ljava/lang/String;Lcom/datadog/ddwaf/WafDiagnostics$SectionInfo;Lcom/datadog/ddwaf/WafDiagnostics$SectionInfo;Lcom/datadog/ddwaf/WafDiagnostics$SectionInfo;Lcom/datadog/ddwaf/WafDiagnostics$SectionInfo;Lcom/datadog/ddwaf/WafDiagnostics$SectionInfo;Lcom/datadog/ddwaf/WafDiagnostics$SectionInfo;Lcom/datadog/ddwaf/WafDiagnostics$SectionInfo;Lcom/datadog/ddwaf/WafDiagnostics$SectionInfo;Lcom/datadog/ddwaf/WafDiagnostics$SectionInfo;)V''
         JMETHOD_CONSTRUCTOR,
       meth_init J ''_sect_info_err_init'' ''com/datadog/ddwaf/WafDiagnostics$SectionInfo'' ''<init>'' ''(Ljava/lang/String;)V''
         JMETHOD_CONSTRUCTOR,
       meth_init J ''_sect_info_normal_init'' ''com/datadog/ddwaf/WafDiagnostics$SectionInfo'' ''<init>''
         ''(Ljava/util/List;Ljava/util/List;Ljava/util/List;Ljava/util/Map;Ljava/util/Map;)V'' JMETHOD_CONSTRUCTOR,
       meth_init J ''_array_list_init'' ''java/util/ArrayList'' ''<init>'' ''(I)V'' JMETHOD_CONSTRUCTOR,
       meth_init J ''_array_list_add'' ''java/util/ArrayList'' ''add'' ''(Ljava/lang/Object;)Z'' JMETHOD_NON_VIRTUAL,
       meth_init J ''_linked_hm_init'' ''java/util/LinkedHashMap'' ''<init>'' ''()V'' JMETHOD_CONSTRUCTOR,
       meth_init J ''_map_put'' ''java/util/Map'' ''put'' ''(Ljava/lang/Object;Ljava/lang/Object;)Ljava/lang/Object;'' JMETHOD_VIRTUAL,
       cache_single_class_strong J ''long_cls'',
       cache_single_class_strong J ''output.double_cls'',
       cache_single_class_strong J ''boolean_cls'',
       meth_init J ''long_valueOf'' ''java/lang/Long'' ''valueOf'' ''(J)Ljava/lang/Long;'' JMETHOD_STATIC,
       meth_init J ''double_valueOf'' ''java/lang/Double'' ''valueOf'' ''(D)Ljava/lang/Double;'' JMETHOD_STATIC,
       meth_init J ''boolean_valueOf'' ''java/lang/Boolean'' ''valueOf'' ''(Z)Ljava/lang/Boolean;'' JMETHOD_STATIC])"
    unfolding output_owned_def output_meths_def list.set image_insert image_empty
    by (rule fetch_meths fetches_step_opt [OF fetches_class_strong] | (simp; fail))+
  show "finite output_owned"
    by (simp add: output_owned_def)
  show "output_vars \<subseteq> output_owned \<union> Meth ` set output_meths"
    by (auto simp: output_owned_def output_vars_def output_classes_def)
qed

text \<open>The metrics look up identifiers, and one local reference stays in a static variable.\<close>

lemma fetches_atomic_long:
  "wp (do { c \<leftarrow> FindClass J; State_Monad.return (c \<noteq> None) }) (\<lambda>ok s'. fetched J {} {} s ok (shifted 0 (if ok then 1 else 0) s')) s"
  if "tidy s"
  using that unfolding FindClass_def
  by (auto simp: wps fetched_def unowned_def tidy_def same_flags_def smooth_def intro!: countsI del: iffCE impCE)

lemma metrics_init_wp:
  assumes "tidy s"
  shows "wp (metrics_init J) (\<lambda>ok s'. fetched J {} (if ok then {Id ''_total_ddwaf_run_time_ns_field'',
     Id ''_total_run_time_ns_field'', Id ''_add_and_get''} else {}) s ok (shifted 0 (refs (nenv s') - refs (nenv s)) s') \<and>
     (ok \<longrightarrow> refs (nenv s') = refs (nenv s) + 1) \<and> refs (nenv s) \<le> refs (nenv s')) s"
  using assms unfolding metrics_init_def FindClass_def fetch_id_def chain.simps
  by (auto simp: wps fetched_def unowned_def tidy_def same_flags_def smooth_def usable_of_def
      simp del: wp_JNI_call intro!: countsI del: iffCE impCE)

end
