(* ===== verification/Cs_Wrapper.thy ===== *)
theory Cs_Wrapper
  imports Parts
begin

text \<open>
  \<^verbatim>\<open>src/main/c/cs_wrapper.c\<close>: looking up the private fields of \<^verbatim>\<open>java.nio.StringCharBuffer\<close>, and the native method that
  makes such a buffer wrap another character sequence.
\<close>

subsection \<open>The wrapper of character sequences\<close>

definition get_id :: "string \<Rightarrow> bool nat_io" where
  "get_id v = State (\<lambda>s. (field_ids s v, s))"

definition find_class_exc :: "jvm \<Rightarrow> (unit option \<times> bool) nat_io" where
  "find_class_exc J = do { c \<leftarrow> FindClass J; exc \<leftarrow> jni J (\<lambda>_. ExceptionCheck); State_Monad.return (c, exc) }"

text \<open>The macro \<^verbatim>\<open>GET_FIELD\<close>.\<close>

definition get_field :: "jvm \<Rightarrow> string \<Rightarrow> bool nat_io" where
  "get_field J v = do {
     ok \<leftarrow> jni J JNI_call;
     set_id v ok;
     exc \<leftarrow> jni J (\<lambda>_. ExceptionCheck);
     State_Monad.return (\<not> exc) }"

text \<open>Up to the label \<^verbatim>\<open>error\<close>: the four classes.\<close>

definition cs_wrapper_lookup :: "jvm \<Rightarrow> (unit option \<times> unit option \<times> unit option \<times> unit option) nat_io" where
  "cs_wrapper_lookup J = do {
     (scb_cls, exc) \<leftarrow> find_class_exc J;
     if exc then State_Monad.return (scb_cls, None, None, None) else do {
     (cb_cls, exc) \<leftarrow> find_class_exc J;
     if exc then State_Monad.return (scb_cls, cb_cls, None, None) else do {
     (b_cls, exc) \<leftarrow> find_class_exc J;
     if exc then State_Monad.return (scb_cls, cb_cls, b_cls, None) else do {
     (cs_cls, exc) \<leftarrow> find_class_exc J;
     if exc then State_Monad.return (scb_cls, cb_cls, b_cls, cs_cls) else do {
     ok \<leftarrow> chain [get_field J ''_scb_str'', get_field J ''_cb_offset'', get_field J ''_b_mark'', get_field J ''_b_position'',
       get_field J ''_b_limit'', get_field J ''_b_capacity''];
     if \<not> ok then State_Monad.return (scb_cls, cb_cls, b_cls, cs_cls) else do {
     found \<leftarrow> jni J JNI_call;
     set_id ''_cs_length'' found;
     thr \<leftarrow> jni J (\<lambda>_. ExceptionOccurred);
     (if thr = None then State (\<lambda>s. ((), s\<lparr>cs_active := True\<rparr>)) else State_Monad.return ());
     State_Monad.return (scb_cls, cb_cls, b_cls, cs_cls) }}}}}}"

definition cs_wrapper_init :: "jvm \<Rightarrow> unit nat_io" where
  "cs_wrapper_init J = do {
     (scb_cls, cb_cls, b_cls, cs_cls) \<leftarrow> cs_wrapper_lookup J;
     active \<leftarrow> State (\<lambda>s. (cs_active s, s));
     (if \<not> active then do {
        thr \<leftarrow> jni J (\<lambda>_. ExceptionOccurred);
        jni J (\<lambda>J. java_log J DDWAF_LOG_WARN ''cs_wrapper_init'' ''cs_wrapper.c'' 70 thr (cstr ''Error initializing CharSequenceWrapper native method''));
        jni J (\<lambda>_. ExceptionClear) }
      else State_Monad.return ());
     jni J (\<lambda>_. DeleteLocalRef scb_cls);
     jni J (\<lambda>_. DeleteLocalRef cb_cls);
     jni J (\<lambda>_. DeleteLocalRef b_cls);
     found \<leftarrow> get_id ''_cs_length'';
     (if found then jni J (\<lambda>_. DeleteLocalRef cs_cls) else State_Monad.return ()) }"

text \<open>A \<^verbatim>\<open>java.nio.StringCharBuffer\<close>, with the fields that it inherits.\<close>

record 'cs scb =
  scb_str :: 'cs
  cb_offset_field :: int
  b_mark :: int
  b_position :: int
  b_limit :: int
  b_capacity :: int

text \<open>A field is set, and the exception is asked for as a reference. \<open>False\<close> stands for an early return.\<close>

definition set_field :: "jvm \<Rightarrow> ('cs scb \<Rightarrow> 'cs scb) \<Rightarrow> 'cs scb \<Rightarrow> ('cs scb \<times> bool) jni" where
  "set_field J upd scb = do {
     ok \<leftarrow> JNI_call J;
     thr \<leftarrow> ExceptionOccurred;
     State_Monad.return (if ok then upd scb else scb, thr = None) }"

primrec set_fields :: "jvm \<Rightarrow> ('cs scb \<Rightarrow> 'cs scb) list \<Rightarrow> 'cs scb \<Rightarrow> ('cs scb \<times> bool) jni" where
  "set_fields J [] scb = State_Monad.return (scb, True)"
| "set_fields J (u # us) scb = do {
     (scb, go) \<leftarrow> set_field J u scb;
     if go then set_fields J us scb else State_Monad.return (scb, False) }"

text \<open>\<open>len\<close> is what \<^verbatim>\<open>cs.length()\<close> returns. The result is the buffer afterwards.\<close>

definition CharSequenceWrapper_resetState :: "jvm \<Rightarrow> bool \<Rightarrow> 'cs scb \<Rightarrow> 'cs \<Rightarrow> int \<Rightarrow> 'cs scb jni" where
  "CharSequenceWrapper_resetState J active scb cs len =
     (if \<not> active then do {
        ThrowNew J (RuntimeException ''Initialization failed earlier'');
        State_Monad.return scb }
      else do {
        (scb, go) \<leftarrow> set_fields J [scb_str_update (\<lambda>_. cs), cb_offset_field_update (\<lambda>_. 0), b_mark_update (\<lambda>_. -1),
          b_position_update (\<lambda>_. 0)] scb;
        if \<not> go then State_Monad.return scb
        else do {
          JNI_call J;
          thr \<leftarrow> ExceptionOccurred;
          if thr \<noteq> None then State_Monad.return scb
          else do {
            (scb, go) \<leftarrow> set_fields J [b_limit_update (\<lambda>_. len), b_capacity_update (\<lambda>_. len)] scb;
            State_Monad.return scb }}})"

subsection \<open>The wrapper keeps what there is\<close>

definition cs_ids :: "string set" where
  "cs_ids = {''_scb_str'', ''_cb_offset'', ''_b_mark'', ''_b_position'', ''_b_limit'', ''_b_capacity'', ''_cs_length''}"

text \<open>Only identifiers of the wrapper and the environment change, and the global references stay.\<close>

definition cs_keeps :: "native \<Rightarrow> native \<Rightarrow> bool" where
  "cs_keeps s s' \<longleftrightarrow> grefs s' = grefs s \<and> meths s' = meths s \<and> weak_refs (nenv s') = weak_refs (nenv s) \<and>
     native_init_ok s' = native_init_ok s \<and> native_timeout s' = native_timeout s \<and>
     native_min_level s' = native_min_level s \<and> log_cb s' = log_cb s \<and> (\<forall>v. v \<notin> cs_ids \<longrightarrow> field_ids s' v = field_ids s v)"

lemma cs_keeps_refl: "cs_keeps s s"
  by (simp add: cs_keeps_def)

lemma cs_keeps_env: "weak_refs e = weak_refs (nenv s') \<Longrightarrow> cs_keeps s s' \<Longrightarrow> cs_keeps s (s'\<lparr>nenv := e\<rparr>)"
  by (simp add: cs_keeps_def)

lemma cs_keeps_id: "v \<in> cs_ids \<Longrightarrow> cs_keeps s s' \<Longrightarrow> cs_keeps s (s'\<lparr>field_ids := (field_ids s')(v := b)\<rparr>)"
  by (auto simp: cs_keeps_def)

lemma find_class_excI:
  assumes "cs_keeps s s0" and "\<And>c s1. cs_keeps s s1 \<Longrightarrow> field_ids s1 = field_ids s0 \<Longrightarrow> cs_active s1 = cs_active s0 \<Longrightarrow> refs (nenv s1) = refs (nenv s0) + ref_of c \<Longrightarrow>
      (quiet J \<and> pending (nenv s0) = None \<longrightarrow> c \<noteq> None \<and> smooth (nenv s0) (nenv s1)) \<Longrightarrow> Q (c, pending (nenv s1) \<noteq> None) s1"
  shows "wp (find_class_exc J) Q s0"
  unfolding find_class_exc_def FindClass_def wp_bind wp_jni
proof (rule JNI_local_countsI)
  fix c e
  assume e: "refs e = refs (nenv s0) + ref_of c" "weak_refs e = weak_refs (nenv s0)"
    "quiet (jvm_now J s0) \<and> pending (nenv s0) = None \<longrightarrow> c = Some () \<and> smooth (nenv s0) e"
  from assms(2) [OF cs_keeps_env [OF e(2) assms(1)]] e
  show "wp ExceptionCheck (\<lambda>exc e'. wp (State_Monad.return (c, exc)) Q (s0\<lparr>nenv := e, nenv := e'\<rparr>)) (nenv (s0\<lparr>nenv := e\<rparr>))"
    by (simp add: wps)
qed

lemma get_fieldI:
  assumes "cs_keeps s s0" and "v \<in> cs_ids"
    and "\<And>s1. cs_keeps s s1 \<Longrightarrow> cs_active s1 = cs_active s0 \<Longrightarrow> refs (nenv s1) = refs (nenv s0) \<Longrightarrow>
      (quiet J \<and> pending (nenv s0) = None \<longrightarrow> smooth (nenv s0) (nenv s1)) \<Longrightarrow> Q (pending (nenv s1) = None) s1"
  shows "wp (get_field J v) Q s0"
  unfolding get_field_def wp_bind wp_jni
proof (rule JNI_call_countsI)
  fix ok e
  assume e: "refs e = refs (nenv s0)" "weak_refs e = weak_refs (nenv s0)"
    "quiet (jvm_now J s0) \<and> pending (nenv s0) = None \<longrightarrow> ok \<and> smooth (nenv s0) e"
  have "cs_keeps s (s0\<lparr>nenv := e\<rparr>)"
    by (rule cs_keeps_env [OF e(2) assms(1)])
  then have "cs_keeps s (s0\<lparr>nenv := e, field_ids := (field_ids s0)(v := ok)\<rparr>)"
    using cs_keeps_id [OF assms(2), of s "s0\<lparr>nenv := e\<rparr>" ok] by simp
  from assms(3) [OF this] e
  show "wp (set_id v ok) (\<lambda>x s. wp ExceptionCheck (\<lambda>exc e. wp (State_Monad.return (\<not> exc)) Q (s\<lparr>nenv := e\<rparr>)) (nenv s))
      (s0\<lparr>nenv := e\<rparr>)"
    by (simp add: wps)
qed


text \<open>The six fields: a failure leaves an exception.\<close>

lemma get_fields_wp:
  assumes "cs_keeps s s0" and "set vs \<subseteq> cs_ids"
  shows "wp (chain (map (get_field J) vs)) (\<lambda>ok s'. cs_keeps s s' \<and> cs_active s' = cs_active s0 \<and>
      refs (nenv s') = refs (nenv s0) \<and> (\<not> ok \<longrightarrow> pending (nenv s') \<noteq> None) \<and>
      (quiet J \<and> pending (nenv s0) = None \<longrightarrow> ok \<and> smooth (nenv s0) (nenv s'))) s0"
  using assms
proof (induction vs arbitrary: s0)
  case Nil
  then show ?case by (simp add: wps smooth_def)
next
  case (Cons v vs)
  have v: "v \<in> cs_ids"
    using Cons.prems(2) by auto
  show ?case
    unfolding list.map chain.simps wp_bind
  proof (rule get_fieldI [OF Cons.prems(1) v])
    fix s1
    assume s1: "cs_keeps s s1" "cs_active s1 = cs_active s0" "refs (nenv s1) = refs (nenv s0)"
      "quiet J \<and> pending (nenv s0) = None \<longrightarrow> smooth (nenv s0) (nenv s1)"
    have "wp (chain (map (get_field J) vs)) (\<lambda>ok s'. cs_keeps s s' \<and> cs_active s' = cs_active s1 \<and>
      refs (nenv s') = refs (nenv s1) \<and> (\<not> ok \<longrightarrow> pending (nenv s') \<noteq> None) \<and>
      (quiet J \<and> pending (nenv s1) = None \<longrightarrow> ok \<and> smooth (nenv s1) (nenv s'))) s1"
      using Cons.IH [OF s1(1)] Cons.prems(2) by simp
    then have "wp (chain (map (get_field J) vs)) (\<lambda>ok s'. cs_keeps s s' \<and> cs_active s' = cs_active s0 \<and>
      refs (nenv s') = refs (nenv s0) \<and> (\<not> ok \<longrightarrow> pending (nenv s') \<noteq> None) \<and>
      (quiet J \<and> pending (nenv s0) = None \<longrightarrow> ok \<and> smooth (nenv s0) (nenv s'))) s1"
      by (rule wp_mono) (use s1 in \<open>simp add: smooth_def\<close>)
    then show "wp (if pending (nenv s1) = None then chain (map (get_field J) vs) else State_Monad.return False)
     (\<lambda>ok s'. cs_keeps s s' \<and> cs_active s' = cs_active s0 \<and>
      refs (nenv s') = refs (nenv s0) \<and> (\<not> ok \<longrightarrow> pending (nenv s') \<noteq> None) \<and>
      (quiet J \<and> pending (nenv s0) = None \<longrightarrow> ok \<and> smooth (nenv s0) (nenv s'))) s1"
      using s1 by (auto simp: wps smooth_def)
  qed
qed


lemma wp_jni_State: "wp (jni J (\<lambda>_. State f)) Q s = (case f (nenv s) of (r, e) \<Rightarrow> Q r (s\<lparr>nenv := e\<rparr>))"
  by (simp add: wps)

lemma cs_wrapper_lookup_wp:
  assumes "\<not> cs_active s"
  shows "wp (cs_wrapper_lookup J) (\<lambda>(a, b, c, d) s'. cs_keeps s s' \<and> (cs_active s' \<longrightarrow> pending (nenv s') = None) \<and>
     (quiet J \<and> pending (nenv s) = None \<longrightarrow> cs_active s' \<and> field_ids s' ''_cs_length'' \<and> smooth (nenv s) (nenv s') \<and>
       refs (nenv s') = refs (nenv s) + ref_of a + ref_of b + ref_of c + ref_of d)) s"
proof -
  define fs where "fs = [''_scb_str'', ''_cb_offset'', ''_b_mark'', ''_b_position'', ''_b_limit'', ''_b_capacity'']"
  have fs: "set fs \<subseteq> cs_ids"
    by (simp add: fs_def cs_ids_def)
  have chain: "chain [get_field J ''_scb_str'', get_field J ''_cb_offset'', get_field J ''_b_mark'', get_field J ''_b_position'',
       get_field J ''_b_limit'', get_field J ''_b_capacity''] = chain (map (get_field J) fs)"
    unfolding fs_def by (simp only: list.map)
  have cs_keeps_upd: "cs_keeps s (s0\<lparr>field_ids := (field_ids s1)(''_cs_length'' := b), cs_active := True\<rparr>)"
      "cs_keeps s (s0\<lparr>field_ids := (field_ids s1)(''_cs_length'' := b), nenv := e\<rparr>)"
      "cs_keeps s (s0\<lparr>field_ids := (field_ids s1)(''_cs_length'' := b)\<rparr>)"
    if "cs_keeps s s0" "field_ids s0 = field_ids s1" "weak_refs e = weak_refs (nenv s0)" for s0 s1 b e
    using that by (simp_all add: cs_keeps_def cs_ids_def)
  have fsI: "wp (chain (map (get_field J) fs)) Q s0" if "cs_keeps s s0" "\<And>ok s1. cs_keeps s s1 \<Longrightarrow>
      cs_active s1 = cs_active s0 \<Longrightarrow> refs (nenv s1) = refs (nenv s0) \<Longrightarrow>
      (\<not> ok \<longrightarrow> pending (nenv s1) \<noteq> None) \<Longrightarrow> (quiet J \<and> pending (nenv s0) = None \<longrightarrow> ok \<and> smooth (nenv s0) (nenv s1)) \<Longrightarrow> Q ok s1"
    for Q s0
    by (rule wp_mono [OF get_fields_wp [OF that(1) fs]]) (use that(2) in blast)
  have lastI: "wp (jni J JNI_call) Q s0" if "cs_keeps s s0" "\<And>ok s1. cs_keeps s s1 \<Longrightarrow> field_ids s1 = field_ids s0 \<Longrightarrow> cs_active s1 = cs_active s0 \<Longrightarrow>
      refs (nenv s1) = refs (nenv s0) \<Longrightarrow> (quiet J \<and> pending (nenv s0) = None \<longrightarrow> ok \<and> smooth (nenv s0) (nenv s1)) \<Longrightarrow> Q ok s1" for Q s0
    unfolding wp_jni by (rule JNI_call_countsI) (use that cs_keeps_env in simp)
  show ?thesis
    unfolding cs_wrapper_lookup_def chain
    using assms
    by (auto simp: wps wp_jni_State smooth_def cs_keeps_refl cs_keeps_env cs_keeps_upd simp del: wp_JNI_call wp_jni
        intro!: find_class_excI [of s] fsI lastI del: iffCE impCE)
qed


lemma cs_wrapper_init_wp:
  assumes "\<not> cs_active s"
  shows "wp (cs_wrapper_init J) (\<lambda>_ s'. cs_keeps s s' \<and> pending (nenv s') = None \<and>
     (quiet J \<and> pending (nenv s) = None \<longrightarrow> smooth (nenv s) (nenv s') \<and> refs (nenv s') = refs (nenv s) \<and> cs_active s')) s"
  unfolding cs_wrapper_init_def wp_bind
proof (rule wp_mono [OF cs_wrapper_lookup_wp [OF assms]], clarify)
  fix a b c d :: "unit option" and s1
  assume s1: "cs_keeps s s1" "cs_active s1 \<longrightarrow> pending (nenv s1) = None"
    "quiet J \<and> pending (nenv s) = None \<longrightarrow> cs_active s1 \<and> field_ids s1 ''_cs_length'' \<and> smooth (nenv s) (nenv s1) \<and>
       refs (nenv s1) = refs (nenv s) + ref_of a + ref_of b + ref_of c + ref_of d"
  show "wp (do {
     active \<leftarrow> State (\<lambda>s. (cs_active s, s));
     (if \<not> active then do {
        thr \<leftarrow> jni J (\<lambda>_. ExceptionOccurred);
        jni J (\<lambda>J. java_log J DDWAF_LOG_WARN ''cs_wrapper_init'' ''cs_wrapper.c'' 70 thr (cstr ''Error initializing CharSequenceWrapper native method''));
        jni J (\<lambda>_. ExceptionClear) }
      else State_Monad.return ());
     jni J (\<lambda>_. DeleteLocalRef a);
     jni J (\<lambda>_. DeleteLocalRef b);
     jni J (\<lambda>_. DeleteLocalRef c);
     found \<leftarrow> get_id ''_cs_length'';
     (if found then jni J (\<lambda>_. DeleteLocalRef d) else State_Monad.return ()) }) (\<lambda>_ s'. cs_keeps s s' \<and> pending (nenv s') = None \<and>
     (quiet J \<and> pending (nenv s) = None \<longrightarrow> smooth (nenv s) (nenv s') \<and> refs (nenv s') = refs (nenv s) \<and> cs_active s')) s1"
    using s1
    by (cases a; cases b; cases c; cases d; cases "cs_active s1"; cases "field_ids s1 ''_cs_length''")
      (auto simp: wps get_id_def cs_keeps_def smooth_def env_to_def intro!: java_logI del: iffCE impCE)
qed

text \<open>Setting fields: all of them, or up to the one that throws, and then a local reference is left.\<close>

lemma set_prefix: "\<exists>n. x = fold (\<lambda>u. u) (take n us) (u scb) \<Longrightarrow> \<exists>n. x = fold (\<lambda>u. u) (take n (u # us)) scb"
  by (metis fold_simps(2) take_Suc_Cons)

lemma set_fields_wp:
  assumes "pending e = None"
  shows "wp (set_fields J us scb) (\<lambda>(scb', go) e'. misuse e' = misuse e \<and> weak_refs e' = weak_refs e \<and> (go \<longleftrightarrow> pending e' = None) \<and>
     refs e' = refs e + (if go then 0 else 1) \<and> (go \<longrightarrow> scb' = fold (\<lambda>u. u) us scb) \<and> (quiet J \<longrightarrow> go) \<and>
     (\<exists>n. scb' = fold (\<lambda>u. u) (take n us) scb)) e"
  using assms
proof (induction us arbitrary: scb e)
  case Nil
  then show ?case by (simp add: wps)
next
  case (Cons u us)
  show ?case
  proof (cases "throws J (jtick e)")
    case None
    let ?e = "e\<lparr>jtick := jtick e + 1, misuse := misuse e\<rparr>"
    have "wp (set_fields J us (u scb)) (\<lambda>(scb', go) e'. misuse e' = misuse e \<and> weak_refs e' = weak_refs e \<and> (go \<longleftrightarrow> pending e' = None) \<and>
     refs e' = refs e + (if go then 0 else 1) \<and> (go \<longrightarrow> scb' = fold (\<lambda>u. u) (u # us) scb) \<and> (quiet J \<longrightarrow> go) \<and>
     (\<exists>n. scb' = fold (\<lambda>u. u) (take n (u # us)) scb)) ?e"
    proof (rule wp_mono [OF Cons.IH], goal_cases)
      case (2 r e')
      then show ?case
        using set_prefix [of _ us u scb] by (cases r) (simp del: take_Suc_Cons)
    qed (use Cons.prems in simp)
    then show ?thesis
      using None Cons.prems by (simp add: set_field_def wps Let_def)
  next
    case (Some t)
    then show ?thesis
      using Cons.prems by (auto simp: set_field_def wps Let_def quietD intro: exI [of _ 0])
  qed
qed


subsection \<open>Properties\<close>

text \<open>
  C38. A buffer that is reset is a fresh view of the character sequence, whatever it was before: it begins at the
  start, has no mark, and its limit and capacity are the length of the sequence. When a call throws, the exception is pending
  and one local reference is left over; when the lookup of the fields had failed, the buffer is as before and an exception
  is pending. On a virtual machine on which nothing fails an active wrapper succeeds.
\<close>

theorem resetState_wraps:
  assumes "pending e = None" and "run_state (CharSequenceWrapper_resetState J active scb cs len) e = (scb', e')"
  shows "misuse e' = misuse e \<and> weak_refs e' = weak_refs e \<and>
    (if pending e' = None then active \<and> refs e' = refs e \<and>
       scb' = \<lparr>scb_str = cs, cb_offset_field = 0, b_mark = -1, b_position = 0, b_limit = len, b_capacity = len\<rparr>
     else refs e' = refs e + (if active then 1 else 0) \<and> (\<not> active \<longrightarrow> scb' = scb) \<and> (quiet J \<longrightarrow> \<not> active))"
proof -
  have fieldsI: "wp (set_fields J us b) Q e0" if "pending e0 = None" and "\<And>b' go e1. misuse e1 = misuse e0 \<Longrightarrow> weak_refs e1 = weak_refs e0 \<Longrightarrow>
      (go \<longrightarrow> pending e1 = None \<and> refs e1 = refs e0 \<and> b' = fold (\<lambda>u. u) us b) \<Longrightarrow>
      (\<not> go \<longrightarrow> pending e1 \<noteq> None \<and> refs e1 = refs e0 + 1 \<and> \<not> quiet J) \<Longrightarrow> Q (b', go) e1"
    for us and b :: "'a scb" and Q e0
    by (rule wp_mono [OF set_fields_wp [OF that(1)]]) (auto intro!: that(2))
  have "wp (CharSequenceWrapper_resetState J active scb cs len) (\<lambda>scb' e'. misuse e' = misuse e \<and> weak_refs e' = weak_refs e \<and>
    (if pending e' = None then active \<and> refs e' = refs e \<and>
       scb' = \<lparr>scb_str = cs, cb_offset_field = 0, b_mark = -1, b_position = 0, b_limit = len, b_capacity = len\<rparr>
     else refs e' = refs e + (if active then 1 else 0) \<and> (\<not> active \<longrightarrow> scb' = scb) \<and> (quiet J \<longrightarrow> \<not> active))) e"
    using assms(1) unfolding CharSequenceWrapper_resetState_def
    by (auto simp: wps Let_def env_to_def quietD simp del: set_fields.simps intro!: fieldsI ThrowNewI split: option.split del: iffCE impCE)
  then show ?thesis
    by (rule wp_run [OF _ assms(2)])
qed

theorem resetState_wraps_witness:
  "fst (run_state (CharSequenceWrapper_resetState calm_jvm True
      \<lparr>scb_str = ''old'', cb_offset_field = 3, b_mark = 1, b_position = 2, b_limit = 3, b_capacity = 3\<rparr> ''fresh'' 5) env0) =
    \<lparr>scb_str = ''fresh'', cb_offset_field = 0, b_mark = -1, b_position = 0, b_limit = 5, b_capacity = 5\<rparr>"
proof -
  have "quiet calm_jvm"
    by (simp add: quiet_def calm_jvm_def)
  then show ?thesis
    using resetState_wraps [of env0 calm_jvm True
      "\<lparr>scb_str = ''old'', cb_offset_field = 3, b_mark = 1, b_position = 2, b_limit = 3, b_capacity = 3\<rparr>" "''fresh''" 5,
      OF _ surjective_pairing]
    by (simp split: if_splits)
qed

end
