(* ===== verification/Lifecycle.thy ===== *)
theory Lifecycle
  imports Cs_Wrapper
begin

text \<open>
  The functions of \<^verbatim>\<open>src/main/c/waf_jni.c\<close> that run when the library is loaded and unloaded:
  \<^verbatim>\<open>JNI_OnLoad\<close>, \<^verbatim>\<open>_deinitialize\<close> with its compare-and-swap, and the two entry points that call it.
\<close>

subsection \<open>Loading the library\<close>

text \<open>\<^verbatim>\<open>ThrowNew\<close> with the cached class, which must not be null.\<close>

definition throw_rte :: "jvm \<Rightarrow> string \<Rightarrow> unit nat_io" where
  "throw_rte J msg = do {
     c \<leftarrow> get_ref ''jcls_rte'';
     if c = None then jni J (\<lambda>_. State (\<lambda>e. ((), e\<lparr>misuse := True\<rparr>)))
     else jni J (\<lambda>J. ThrowNew J (RuntimeException msg)) }"

definition throw_unless_pending :: "jvm \<Rightarrow> string \<Rightarrow> unit nat_io" where
  "throw_unless_pending J msg = do {
     exc \<leftarrow> jni J (\<lambda>_. ExceptionCheck);
     if \<not> exc then throw_rte J msg else State_Monad.return () }"

text \<open>
  The function from its end: each part is followed by the rest if it has succeeded. \<open>glibc\<close> says whether \<^verbatim>\<open>dlsym\<close> finds the function of
  the C library; \<open>loggable\<close>, \<open>run_timeout\<close> and \<open>property\<close> are as for the functions that are called. The result is always
  \<^verbatim>\<open>JNI_VERSION_1_6\<close>.
\<close>

definition onload_finish :: "jvm \<Rightarrow> int \<Rightarrow> jchar list option \<Rightarrow> unit nat_io" where
  "onload_finish J run_timeout property = do {
     cs_wrapper_init J;
     t \<leftarrow> jni J (\<lambda>J. get_pw_run_timeout_checked J run_timeout property);
     State (\<lambda>s. ((), s\<lparr>native_timeout := t\<rparr>));
     exc \<leftarrow> jni J (\<lambda>_. ExceptionCheck);
     if exc then State_Monad.return ()
     else State (\<lambda>s. ((), s\<lparr>native_init_ok := True\<rparr>)) }"

definition onload_output :: "jvm \<Rightarrow> int \<Rightarrow> jchar list option \<Rightarrow> unit nat_io" where
  "onload_output J run_timeout property = do {
     output_init_checked J;
     exc \<leftarrow> jni J (\<lambda>_. ExceptionCheck);
     if exc then jni J (\<lambda>J. wrap_exc J ''waf_jni.c'' ''JNI_OnLoad'' 250 (cstr ''Failed initializing references for diagnostics.c''))
     else onload_finish J run_timeout property }"

definition onload_metrics :: "jvm \<Rightarrow> int \<Rightarrow> jchar list option \<Rightarrow> unit nat_io" where
  "onload_metrics J run_timeout property = do {
     metrics_ok \<leftarrow> metrics_init J;
     if \<not> metrics_ok then throw_unless_pending J ''Library initialization failed(metrics_init)''
     else onload_output J run_timeout property }"

definition onload_log :: "jvm \<Rightarrow> (log_level \<Rightarrow> bool) \<Rightarrow> int \<Rightarrow> jchar list option \<Rightarrow> unit nat_io" where
  "onload_log J loggable run_timeout property = do {
     log_ok \<leftarrow> java_log_init J loggable;
     if \<not> log_ok then throw_unless_pending J ''Library initialization failed(java_log_init)''
     else onload_metrics J run_timeout property }"

definition JNI_OnLoad :: "jvm \<Rightarrow> bool \<Rightarrow> (log_level \<Rightarrow> bool) \<Rightarrow> int \<Rightarrow> jchar list option \<Rightarrow> unit nat_io" where
  "JNI_OnLoad J glibc loggable run_timeout property = do {
     cache_ref_ok \<leftarrow> cache_references J;
     if \<not> cache_ref_ok then throw_unless_pending J ''Library initialization failed (_cache_references)''
     else if \<not> glibc then throw_rte J ''JNI library was compiled against glibc, but at runtime the function gnu_get_libc_version was not found. Not a glibc process?''
     else onload_log J loggable run_timeout property }"

subsection \<open>Unloading\<close>

text \<open>The compare-and-swap, what its winner does, and the whole function.\<close>

definition compare_and_swap_init :: "bool nat_io" where
  "compare_and_swap_init = State (\<lambda>s. (native_init_ok s, s\<lparr>native_init_ok := False\<rparr>))"

definition dispose_all :: "jvm \<Rightarrow> unit nat_io" where
  "dispose_all J = do {
     jni J (\<lambda>J. java_log J DDWAF_LOG_DEBUG ''_deinitialize'' ''waf_jni.c'' 627 None (cstr ''Deinitializing JNI library''));
     dispose_of_cache_references J;
     output_shutdown J;
     State (\<lambda>s. ((), s\<lparr>log_cb := False\<rparr>));
     java_log_shutdown J }"

definition deinitialize :: "jvm \<Rightarrow> unit nat_io" where
  "deinitialize J = do {
     inited \<leftarrow> compare_and_swap_init;
     if \<not> inited then State_Monad.return () else dispose_all J }"

definition JNI_OnUnload :: "jvm \<Rightarrow> unit nat_io" where
  "JNI_OnUnload J = deinitialize J"

definition Waf_deinitialize :: "jvm \<Rightarrow> unit nat_io" where
  "Waf_deinitialize J = deinitialize J"


subsection \<open>Two threads that unload\<close>

text \<open>
  \<^verbatim>\<open>Waf.deinitialize\<close> and \<^verbatim>\<open>JNI_OnUnload\<close> can run on different threads at the same time. A thread is before its compare-and-swap, has
  won it, or has returned; the steps of different threads interleave. The disposal is one step,
  since no other thread takes part in it.
\<close>

datatype dphase = Before_cas | Winner | Returned

inductive dstep :: "native \<times> (nat \<Rightarrow> dphase) \<Rightarrow> native \<times> (nat \<Rightarrow> dphase) \<Rightarrow> bool" where
  cas: "ph i = Before_cas \<Longrightarrow> run_state compare_and_swap_init s = (inited, s') \<Longrightarrow>
     dstep (s, ph) (s', ph(i := if inited then Winner else Returned))"
| dispose: "ph i = Winner \<Longrightarrow> run_state (dispose_all J) s = ((), s') \<Longrightarrow> dstep (s, ph) (s', ph(i := Returned))"

inductive_cases dstepE: "dstep (s, ph) w"

subsection \<open>What the components see\<close>

text \<open>The records of the other theories, from the static variables. \<open>F\<close> gives what is not a method, such as the engine.\<close>

definition waf_globals_of :: "native \<Rightarrow> waf_globals" where
  "waf_globals_of s = \<lparr>map_entryset = meths s ''map_entryset'', iterable_iterator = meths s ''iterable_iterator'',
     iterator_next = meths s ''iterator_next'', entry_key = meths s ''entry_key'', entry_value = meths s ''entry_value'',
     to_string = meths s ''to_string'', charSequence_subSequence = meths s ''charSequence_subSequence'',
     charBuffer_order = meths s ''_charBuffer_order'', class_get_name = meths s ''_class_get_name''\<rparr>"

definition output_globals_of :: "native \<Rightarrow> output_globals" where
  "output_globals_of s = \<lparr>rsi_init = meths s ''_rsi_init'', sect_info_err_init = meths s ''_sect_info_err_init'',
     sect_info_normal_init = meths s ''_sect_info_normal_init'', array_list_init = meths s ''_array_list_init'',
     array_list_add = meths s ''_array_list_add'', linked_hm_init = meths s ''_linked_hm_init'', map_put = meths s ''_map_put'',
     long_valueOf = meths s ''long_valueOf'', double_valueOf = meths s ''double_valueOf'', boolean_valueOf = meths s ''boolean_valueOf''\<rparr>"

definition waf_of :: "jvm \<Rightarrow> native \<Rightarrow> 'z waf \<Rightarrow> 'z waf" where
  "waf_of J s F = F\<lparr>jv := jvm_now J s, og := output_globals_of s, rg := (rg F)\<lparr>create_exception := meths s ''_create_exception'',
       timeout_exception_init := meths s ''_timeout_exception_init'', result_with_data_init := meths s ''result_with_data_init''\<rparr>,
     init_ok := native_init_ok s, pw_run_timeout := native_timeout s\<rparr>"

subsection \<open>Failures of the conversion part are visible\<close>

definition visible :: "bool nat_io \<Rightarrow> bool" where
  "visible f \<longleftrightarrow> (\<forall>s. wp f (\<lambda>ok s'. \<not> ok \<longrightarrow> pending (nenv s') \<noteq> None) s)"

lemma visible_chain: "(\<forall>f \<in> set fs. visible f) \<Longrightarrow> visible (chain fs)"
proof (induction fs)
  case Nil
  then show ?case by (simp add: visible_def wps)
next
  case (Cons f fs)
  then have f: "visible f" "visible (chain fs)"
    by simp_all
  show ?case
    unfolding visible_def chain.simps wp_bind
  proof
    fix s
    show "wp f (\<lambda>r. wp (if r then chain fs else State_Monad.return False) (\<lambda>ok s'. \<not> ok \<longrightarrow> pending (nenv s') \<noteq> None)) s"
      by (rule wp_mono [OF f(1) [unfolded visible_def, rule_format]]) (use f(2) in \<open>auto simp: visible_def wps\<close>)
  qed
qed

lemma java_meth_init_visible: "wp (java_meth_init_checked J c n sg ty) (\<lambda>r e'. r = None \<longrightarrow> pending e' \<noteq> None) e"
  by (auto simp: java_meth_init_checked_def JNI_local_def NewWeakGlobalRef_def wps Let_def env_to_def
      intro!: wrap_excI ThrowNew_countsI split: option.split)

lemma visible_meth_init: "visible (meth_init J v c n sg ty)"
  unfolding visible_def meth_init_def
  by (auto simp: wps intro!: wp_mono [OF java_meth_init_visible] split: option.split)

lemma visible_class_strong: "visible (cache_single_class_strong J v)"
  unfolding visible_def cache_single_class_strong_def FindClass_def
  by (auto simp: wps intro!: countsI)

definition keeps_pending :: "unit nat_io \<Rightarrow> bool" where
  "keeps_pending f \<longleftrightarrow> (\<forall>s. wp f (\<lambda>_ s'. pending (nenv s') = pending (nenv s)) s)"

lemma keeps_pending_each: "(\<forall>f \<in> set fs. keeps_pending f) \<Longrightarrow> keeps_pending (each fs)"
proof (induction fs)
  case Nil
  then show ?case by (simp add: keeps_pending_def wps)
next
  case (Cons f fs)
  then have f: "keeps_pending f" "keeps_pending (each fs)"
    by simp_all
  show ?case
    unfolding keeps_pending_def each.simps wp_bind
  proof
    fix s
    show "wp f (\<lambda>r. wp (each fs) (\<lambda>_ s'. pending (nenv s') = pending (nenv s))) s"
    proof (rule wp_mono [OF f(1) [unfolded keeps_pending_def, rule_format]])
      fix s1 :: native assume "pending (nenv s1) = pending (nenv s)"
      then show "wp (each fs) (\<lambda>_ s'. pending (nenv s') = pending (nenv s)) s1"
        using f(2) [unfolded keeps_pending_def, rule_format, of s1] by simp
    qed
  qed
qed

lemma keeps_pending_ops: "keeps_pending (meth_destroy J v)" "keeps_pending (dispose_ref J v)"
  by (auto simp: keeps_pending_def meth_destroy_def dispose_ref_def java_meth_destroy_def wps)

lemma visible_end:
  assumes "visible f" and "keeps_pending d"
  shows "visible (do { r \<leftarrow> f; (if \<not> r then d else State_Monad.return ()); State_Monad.return r })"
  unfolding visible_def wp_bind
proof
  fix s
  show "wp f (\<lambda>r. wp (if \<not> r then d else State_Monad.return ()) (\<lambda>_. wp (State_Monad.return r)
      (\<lambda>ok s'. \<not> ok \<longrightarrow> pending (nenv s') \<noteq> None))) s"
  proof (rule wp_mono [OF assms(1) [unfolded visible_def, rule_format]])
    fix r and s1 :: native assume "\<not> r \<longrightarrow> pending (nenv s1) \<noteq> None"
    then show "wp (if \<not> r then d else State_Monad.return ()) (\<lambda>_. wp (State_Monad.return r)
      (\<lambda>ok s'. \<not> ok \<longrightarrow> pending (nenv s') \<noteq> None)) s1"
      using wp_mono [OF assms(2) [unfolded keeps_pending_def, rule_format, of s1]] by (simp add: wps)
  qed
qed

lemma output_init_visible: "visible (output_init_checked J)"
  unfolding output_init_checked_def
proof (rule visible_end)
  show "keeps_pending (output_shutdown J)"
    unfolding output_shutdown_def by (rule keeps_pending_each) (simp add: keeps_pending_ops)
qed (rule visible_chain, simp add: visible_meth_init visible_class_strong)

subsection \<open>Loading\<close>

definition metrics_ids :: "gvar set" where
  "metrics_ids = {Id ''_total_ddwaf_run_time_ns_field'', Id ''_total_run_time_ns_field'', Id ''_add_and_get''}"

definition all_owned :: "gvar set" where
  "all_owned = waf_owned \<union> log_vars \<union> output_owned"

definition all_used :: "gvar set" where
  "all_used = waf_used \<union> log_vars \<union> Meth ` set output_meths \<union> metrics_ids"

lemma disjoint_parts: "waf_owned \<inter> log_vars = {}" "(waf_owned \<union> log_vars) \<inter> (output_owned \<union> Meth ` set output_meths) = {}"
  "waf_disposed \<inter> log_vars = {}" "waf_disposed \<inter> output_vars = {}" "output_vars \<inter> log_vars = {}"
  by (auto simp: waf_owned_def waf_disposed_def log_vars_def class_vars_def object_vars_def owning_vars_def destroyed_vars_def
      output_owned_def output_meths_def output_vars_def output_classes_def)


lemma get_pw_run_timeout_counts:
  "pending e = None \<Longrightarrow> \<forall>str. property = Some str \<longrightarrow> length str < 2 ^ 31 \<Longrightarrow>
   wp (get_pw_run_timeout_checked J run_timeout property) (\<lambda>_ e'. pending e' = None \<longrightarrow> weak_refs e' = weak_refs e) e"
  by (auto simp: get_pw_run_timeout_checked_def wps env_to_def
      intro!: java_meth_initI new_jstringI meth_callI timeout_endI java_logI java_to_utf8I split: option.split prod.split
      del: iffCE)

lemma throwI:
  assumes "\<And>e. Q () (s\<lparr>nenv := e\<rparr>)"
  shows "wp (throw_rte J msg) Q s" "wp (throw_unless_pending J msg) Q s"
  using assms assms [of "nenv s"]
  by (auto simp: throw_unless_pending_def throw_rte_def wps intro!: ThrowNew_countsI)

text \<open>What a successful load establishes, and when a load succeeds.\<close>

definition loaded :: "jvm \<Rightarrow> bool \<Rightarrow> int \<Rightarrow> jchar list option \<Rightarrow> native \<Rightarrow> native \<Rightarrow> bool" where
  "loaded J glibc run_timeout property s s' \<longleftrightarrow>
     (native_init_ok s' \<longrightarrow> tidy s' \<and> held s' \<subseteq> all_owned \<and> unowned s' = unowned s \<and> all_used \<subseteq> usable s' \<and> pending (nenv s') = None) \<and>
     (calm J \<and> glibc \<and> pending (nenv s) = None \<longrightarrow> native_init_ok s' \<and> smooth (nenv s) (nenv s') \<and>
       native_timeout s' = (case property of None \<Rightarrow> run_timeout | Some str \<Rightarrow> fst (strtoll (utf8_of str))))"

lemma calm_quiet: "calm J \<Longrightarrow> quiet J"
  by (simp add: calm_def quiet_def)

lemma calm_now: "calm J \<Longrightarrow> waf_used \<subseteq> usable s \<Longrightarrow> calm (jvm_now J s)"
proof -
  assume "calm J" and w: "waf_used \<subseteq> usable s"
  have "Ref ''jcls_rte'' \<in> waf_used" "Id ''rte_constr_cause'' \<in> waf_used"
    by (simp_all add: waf_used_def class_vars_def id_vars_def)
  with w have "Ref ''jcls_rte'' \<in> usable s" "Id ''rte_constr_cause'' \<in> usable s"
    by blast+
  then show ?thesis
    using \<open>calm J\<close> by (simp add: calm_def jvm_now_def)
qed

text \<open>The last part of the function, from the wrapper on.\<close>

lemma onload_finish_wp:
  assumes f: "fetched J all_owned all_used s True (shifted 0 1 s4)"
    and s: "held s = {}" "\<not> cs_active s" "pending (nenv s4) = None" "\<not> native_init_ok s"
    and p: "\<forall>str. property = Some str \<longrightarrow> length str < 2 ^ 31"
  shows "wp (onload_finish J run_timeout property) (\<lambda>_. loaded J glibc run_timeout property s) s4"
proof -
  have s4: "tidy s4" "held s4 \<subseteq> all_owned" "unowned s4 = unowned s" "all_used \<subseteq> usable s4" "\<not> cs_active s4" "\<not> native_init_ok s4"
    using f s by (auto simp: fetched_def same_flags_def)
  show ?thesis
    unfolding onload_finish_def wp_bind
  proof (rule wp_mono [OF cs_wrapper_init_wp [OF s4(5)]], elim conjE)
    fix s5
    assume k: "cs_keeps s4 s5" and p5: "pending (nenv s5) = None"
      and q: "quiet J \<and> pending (nenv s4) = None \<longrightarrow> smooth (nenv s4) (nenv s5) \<and> refs (nenv s5) = refs (nenv s4) \<and> cs_active s5"
    have "x \<in> usable s5" if "x \<in> all_used" for x
    proof (cases x)
      case (Id v)
      have "v \<notin> cs_ids"
        using that Id by (auto simp: all_used_def waf_used_def log_vars_def id_vars_def metrics_ids_def cs_ids_def)
      then show ?thesis
        using that s4(4) k Id by (auto simp: cs_keeps_def)
    qed (use that s4(4) k in \<open>auto simp: cs_keeps_def\<close>)
    then have s5: "tidy s5" "held s5 \<subseteq> all_owned" "unowned s5 = unowned s" "all_used \<subseteq> usable s5"
      using s4 k by (auto simp: cs_keeps_def tidy_def unowned_def)
    have i: "\<not> native_init_ok s5"
      using s4(6) k by (simp add: cs_keeps_def)
    have n: "calm J \<Longrightarrow> calm (jvm_now J s5)"
      using calm_now [of J s5] s5(4) by (auto simp: all_used_def)
    have sm: "calm J \<and> pending (nenv s) = None \<longrightarrow> smooth (nenv s) (nenv s5)"
      using f q s(3) calm_quiet [of J] by (auto simp: fetched_def smooth_def)
    show "wp (jni J (\<lambda>J. get_pw_run_timeout_checked J run_timeout property)) (\<lambda>t. wp (State (\<lambda>s. ((), s\<lparr>native_timeout := t\<rparr>)))
       (\<lambda>_. wp (jni J (\<lambda>_. ExceptionCheck)) (\<lambda>exc. wp (if exc then State_Monad.return () else State (\<lambda>s. ((), s\<lparr>native_init_ok := True\<rparr>)))
         (\<lambda>_. loaded J glibc run_timeout property s)))) s5"
    proof (cases "calm J \<and> glibc \<and> pending (nenv s) = None")
      case True
      then show ?thesis
        unfolding wp_jni
        by (intro wp_mono [OF get_pw_run_timeout_wp [OF p5 n p]])
          (use s5 sm in \<open>auto simp: wps loaded_def tidy_def unowned_def smooth_def\<close>)
    next
      case False
      then show ?thesis
        unfolding wp_jni
        by (intro wp_mono [OF get_pw_run_timeout_counts [OF p5 p]])
          (use s5 i in \<open>auto simp: wps loaded_def tidy_def unowned_def\<close>)
    qed
  qed
qed


lemma wp_or_fail:
  assumes "wp f (\<lambda>ok s'. if ok then P s' else F s') s" and "\<And>s'. F s' \<Longrightarrow> wp g Q s'" and "\<And>s'. P s' \<Longrightarrow> wp k Q s'"
  shows "wp (do { ok \<leftarrow> f; if \<not> ok then g else k }) Q s"
  unfolding wp_bind by (rule wp_mono [OF assms(1)]) (use assms(2,3) in \<open>auto split: if_splits\<close>)

lemma onload_metrics_init_wp:
  assumes f: "fetched J (waf_owned \<union> log_vars) (waf_used \<union> log_vars) s True s2"
  shows "wp (metrics_init J) (\<lambda>ok s3. if ok then fetched J (waf_owned \<union> log_vars) (waf_used \<union> log_vars \<union> metrics_ids) s True (shifted 0 1 s3)
    else same_flags s s3 \<and> \<not> (quiet J \<and> pending (nenv s) = None)) s2"
proof -
  have "tidy s2"
    using f by (simp add: fetched_def)
  show ?thesis
  proof (rule wp_mono [OF metrics_init_wp [OF \<open>tidy s2\<close>]], elim conjE)
    fix ok s3
    assume m: "fetched J {} (if ok then {Id ''_total_ddwaf_run_time_ns_field'', Id ''_total_run_time_ns_field'', Id ''_add_and_get''} else {})
        s2 ok (shifted 0 (refs (nenv s3) - refs (nenv s2)) s3)" and r: "ok \<longrightarrow> refs (nenv s3) = refs (nenv s2) + 1"
    show "if ok then fetched J (waf_owned \<union> log_vars) (waf_used \<union> log_vars \<union> metrics_ids) s True (shifted 0 1 s3)
      else same_flags s s3 \<and> \<not> (quiet J \<and> pending (nenv s) = None)"
    proof (cases ok)
      case True
      then show ?thesis
        using fetched_trans [OF f m] r by (simp add: metrics_ids_def)
    next
      case False
      then show ?thesis
        using fetched_trans [OF f m] by (simp add: fetched_def)
    qed
  qed
qed

lemma onload_output_init_wp:
  assumes f: "fetched J (waf_owned \<union> log_vars) (waf_used \<union> log_vars \<union> metrics_ids) s True (shifted 0 1 s3)" and s: "held s = {}"
  shows "wp (output_init_checked J) (\<lambda>_ s4. if pending (nenv s4) = None then fetched J all_owned all_used s True (shifted 0 1 s4)
    else same_flags s s4 \<and> \<not> (quiet J \<and> pending (nenv s) = None)) s3"
proof -
  have t3: "tidy s3" "held s3 \<inter> (output_owned \<union> Meth ` set output_meths) = {}"
    using f s disjoint_parts(2) by (auto simp: fetched_def)
  have "wp (output_init_checked J) (\<lambda>ok s4. (\<not> ok \<longrightarrow> pending (nenv s4) \<noteq> None) \<and>
      (if ok then fetched J output_owned (Meth ` set output_meths) s3 True s4
       else same_flags s3 s4 \<and> \<not> (quiet J \<and> pending (nenv s3) = None))) s3"
    using wp_conj [OF output_init_visible [unfolded visible_def, rule_format] outp.start_ok [OF t3, where J = J]]
    by (rule wp_mono) auto
  then show ?thesis
  proof (rule wp_mono)
    fix ok s4
    assume o: "(\<not> ok \<longrightarrow> pending (nenv s4) \<noteq> None) \<and> (if ok then fetched J output_owned (Meth ` set output_meths) s3 True s4
       else same_flags s3 s4 \<and> \<not> (quiet J \<and> pending (nenv s3) = None))"
    show "if pending (nenv s4) = None then fetched J all_owned all_used s True (shifted 0 1 s4)
      else same_flags s s4 \<and> \<not> (quiet J \<and> pending (nenv s) = None)"
    proof (cases ok)
      case True
      then have "fetched J ((waf_owned \<union> log_vars) \<union> output_owned) ((waf_used \<union> log_vars \<union> metrics_ids) \<union> Meth ` set output_meths) s True (shifted 0 1 s4)"
        using o fetched_trans [OF f fetched_shift, of output_owned "Meth ` set output_meths" True s4] by simp
      then have "fetched J all_owned all_used s True (shifted 0 1 s4)"
        by (simp add: all_owned_def all_used_def Un_ac)
      then show ?thesis
        by (auto simp: fetched_def smooth_def)
    next
      case False
      then show ?thesis
        using o f by (auto simp: fetched_def smooth_def same_flags_def del: iffCE)
    qed
  qed
qed


lemma loaded_fail:
  "same_flags s s' \<Longrightarrow> \<not> native_init_ok s \<Longrightarrow> \<not> (quiet J \<and> pending (nenv s) = None) \<or> \<not> glibc \<Longrightarrow>
     loaded J glibc run_timeout property s (s'\<lparr>nenv := e\<rparr>)"
  using calm_quiet [of J] by (auto simp: loaded_def same_flags_def)

lemma onload_output_wp:
  assumes f: "fetched J (waf_owned \<union> log_vars) (waf_used \<union> log_vars \<union> metrics_ids) s True (shifted 0 1 s3)"
    and s: "held s = {}" "\<not> cs_active s" "\<not> native_init_ok s" and p: "\<forall>str. property = Some str \<longrightarrow> length str < 2 ^ 31"
  shows "wp (onload_output J run_timeout property) (\<lambda>_. loaded J glibc run_timeout property s) s3"
  unfolding onload_output_def wp_bind
proof (rule wp_mono [OF onload_output_init_wp [OF f s(1)]])
  fix s4
  assume "if pending (nenv s4) = None then fetched J all_owned all_used s True (shifted 0 1 s4)
    else same_flags s s4 \<and> \<not> (quiet J \<and> pending (nenv s) = None)"
  then show "wp (jni J (\<lambda>_. ExceptionCheck)) (\<lambda>exc. wp (if exc then jni J (\<lambda>J. wrap_exc J ''waf_jni.c'' ''JNI_OnLoad'' 250
      (cstr ''Failed initializing references for diagnostics.c'')) else onload_finish J run_timeout property)
      (\<lambda>_. loaded J glibc run_timeout property s)) s4"
    using onload_finish_wp [of J s s4, OF _ s(1,2) _ s(3) p] loaded_fail [OF _ s(3)]
    by (auto simp: wps intro!: wrap_exc_countsI split: if_splits)
qed

lemma JNI_OnLoad_wp:
  assumes s: "held s = {}" "\<not> cs_active s" "\<not> native_init_ok s" and p: "\<forall>str. property = Some str \<longrightarrow> length str < 2 ^ 31"
  shows "wp (JNI_OnLoad J glibc loggable run_timeout property) (\<lambda>_. loaded J glibc run_timeout property s) s"
proof -
  have ts: "tidy s" "held s \<inter> (waf_owned \<union> waf_used) = {}"
    using s(1) by (auto simp: tidy_def held_of_def)
  note fail = loaded_fail [OF _ s(3)]
  have metrics: "wp (onload_metrics J run_timeout property) (\<lambda>_. loaded J glibc run_timeout property s) s2"
    if f2: "fetched J (waf_owned \<union> log_vars) (waf_used \<union> log_vars) s True s2" for s2
    unfolding onload_metrics_def
    by (rule wp_or_fail [OF onload_metrics_init_wp [OF f2]]) (auto intro!: throwI fail onload_output_wp [OF _ s p])
  have log: "wp (onload_log J loggable run_timeout property) (\<lambda>_. loaded J glibc run_timeout property s) s1"
    if f1: "fetched J waf_owned waf_used s True s1" for s1
  proof -
    have t1: "tidy s1" "held s1 \<inter> (log_vars \<union> log_vars) = {}" and flags1: "same_flags s s1"
      using f1 s(1) disjoint_parts(1) by (auto simp: fetched_def)
    have q1: "quiet J \<and> pending (nenv s) = None \<longrightarrow> pending (nenv s1) = None"
      using f1 by (simp add: fetched_def smooth_def)
    show ?thesis
      unfolding onload_log_def
    proof (rule wp_or_fail [OF logger.start_ok [OF t1, where J = J]])
      fix s2 assume "same_flags s1 s2 \<and> \<not> (quiet J \<and> pending (nenv s1) = None) \<and> weak_refs (nenv s1) \<le> weak_refs (nenv s2) \<and>
        weak_refs (nenv s2) \<le> weak_refs (nenv s1) + int (card (log_vars - log_vars)) + 1"
      then show "wp (throw_unless_pending J ''Library initialization failed(java_log_init)'')
          (\<lambda>_. loaded J glibc run_timeout property s) s2"
        using flags1 q1 by (intro throwI fail) (auto simp: same_flags_def del: iffCE)
    qed (rule metrics [OF fetched_trans [OF f1]])
  qed
  show ?thesis
    unfolding JNI_OnLoad_def
  proof (rule wp_or_fail [OF waf.start_ok [OF ts, where J = J]])
    fix s1 assume f1: "fetched J waf_owned waf_used s True s1"
    then have "same_flags s s1"
      by (simp add: fetched_def)
    then show "wp (if \<not> glibc then throw_rte J ''JNI library was compiled against glibc, but at runtime the function gnu_get_libc_version was not found. Not a glibc process?''
      else onload_log J loggable run_timeout property) (\<lambda>_. loaded J glibc run_timeout property s) s1"
      using log [OF f1] throwI(1) [of "\<lambda>_. loaded J glibc run_timeout property s" s1] fail [of s1 J glibc] by auto
  qed (auto intro!: throwI fail)
qed


subsection \<open>Unloading\<close>

definition all_disposed :: "gvar set" where
  "all_disposed = waf_disposed \<union> output_vars \<union> log_vars"

lemma card_Int_Un3:
  "finite H \<Longrightarrow> A \<inter> B = {} \<Longrightarrow> A \<inter> C = {} \<Longrightarrow> B \<inter> C = {} \<Longrightarrow> card (H \<inter> (A \<union> B \<union> C)) = card (H \<inter> A) + card (H \<inter> B) + card (H \<inter> C)"
  using card_split [of H "A \<union> B" C] card_split [of H A B] by (simp add: Int_Un_distrib2)

lemma untouched: "A - D \<subseteq> B \<Longrightarrow> B \<subseteq> A \<Longrightarrow> D \<inter> C = {} \<Longrightarrow> B \<inter> C = A \<inter> C"
  by blast

lemma dispose_all_wp:
  assumes t: "tidy s"
  shows "wp (dispose_all J) (\<lambda>_ s'. weak_refs (nenv s') = weak_refs (nenv s) - int (card (held s \<inter> all_disposed)) \<and> same_flags s s') s"
  unfolding dispose_all_def wp_bind wp_jni
proof (rule java_logI)
  fix e assume e: "env_to (nenv s) (pending (nenv s)) 0 e"
  have t0: "tidy (s\<lparr>nenv := e\<rparr>)"
    using t by (simp add: tidy_def)
  show "wp (dispose_of_cache_references J) (\<lambda>_. wp (output_shutdown J) (\<lambda>_. wp (State (\<lambda>s. ((), s\<lparr>log_cb := False\<rparr>)))
      (\<lambda>_. wp (java_log_shutdown J) (\<lambda>_ s'. weak_refs (nenv s') = weak_refs (nenv s) - int (card (held s \<inter> all_disposed)) \<and>
        same_flags s s')))) (s\<lparr>nenv := e\<rparr>)"
  proof (rule wp_mono [OF waf.stop_ok [OF t0]], rule wp_mono [OF outp.stop_ok])
    fix s1
    assume s1: "weak_refs (nenv s1) = weak_refs (nenv (s\<lparr>nenv := e\<rparr>)) - int (card (held (s\<lparr>nenv := e\<rparr>) \<inter> waf_disposed)) \<and>
      held (s\<lparr>nenv := e\<rparr>) - waf_disposed \<subseteq> held s1 \<and> held s1 \<subseteq> held (s\<lparr>nenv := e\<rparr>) \<and> tidy s1 \<and> same_flags (s\<lparr>nenv := e\<rparr>) s1"
    then show "tidy s1"
      by simp
    fix s2
    assume s2: "weak_refs (nenv s2) = weak_refs (nenv s1) - int (card (held s1 \<inter> output_vars)) \<and>
      held s1 - output_vars \<subseteq> held s2 \<and> held s2 \<subseteq> held s1 \<and> tidy s2 \<and> same_flags s1 s2"
    have "held s1 \<inter> output_vars = held s \<inter> output_vars" "held s1 \<inter> log_vars = held s \<inter> log_vars" "held s2 \<inter> log_vars = held s1 \<inter> log_vars"
      using s1 s2 untouched [of "held s" waf_disposed "held s1"] untouched [of "held s1" output_vars "held s2" log_vars] disjoint_parts(3-5)
      by simp_all
    then have "weak_refs (nenv s2) - int (card (held s2 \<inter> log_vars)) = weak_refs (nenv s) - int (card (held s \<inter> all_disposed))"
      using s1 s2 e card_Int_Un3 [of "held s" waf_disposed output_vars log_vars] disjoint_parts t
      by (simp add: all_disposed_def env_to_def tidy_def)
    moreover have "tidy (s2\<lparr>log_cb := False\<rparr>)" "same_flags s s2"
      using s1 s2 by (simp_all add: tidy_def same_flags_def)
    ultimately show "wp (State (\<lambda>s. ((), s\<lparr>log_cb := False\<rparr>)))
      (\<lambda>_. wp (java_log_shutdown J) (\<lambda>_ s'. weak_refs (nenv s') = weak_refs (nenv s) - int (card (held s \<inter> all_disposed)) \<and>
        same_flags s s')) s2"
      unfolding wp_State prod.case by (intro wp_mono [OF logger.stop_ok]) (auto simp: same_flags_def)
  qed
qed

text \<open>All that a load owns is disposed of, except the class of the exception.\<close>

lemma all_owned_disposed: "all_owned - all_disposed = {Ref ''jcls_rte''}"
  using waf_disposed_owned(2)
  by (auto simp: all_owned_def all_disposed_def output_owned_def output_vars_def output_meths_def output_classes_def log_vars_def)

lemma loaded_disposed:
  assumes "loaded J glibc run_timeout property s s'" and "native_init_ok s'" and "held s = {}"
  shows "tidy s'" "weak_refs (nenv s') - int (card (held s' \<inter> all_disposed)) = weak_refs (nenv s) + 1"
proof -
  have l: "tidy s'" "held s' \<subseteq> all_owned" "unowned s' = unowned s" "all_used \<subseteq> usable s'"
    using assms by (simp_all add: loaded_def)
  have "Ref ''jcls_rte'' \<in> all_used"
    by (simp add: all_used_def waf_used_def class_vars_def)
  with l(4) have "Ref ''jcls_rte'' \<in> held s'"
    by auto
  with l(2) all_owned_disposed have "held s' - all_disposed = {Ref ''jcls_rte''}"
    by auto
  moreover have "card (held s') = card (held s' \<inter> all_disposed) + card (held s' - all_disposed)"
    using l(1) by (metis Int_Diff_Un Int_Diff_disjoint card_Un_disjoint finite_Diff finite_Int tidy_def)
  ultimately show "weak_refs (nenv s') - int (card (held s' \<inter> all_disposed)) = weak_refs (nenv s) + 1"
    using l(3) assms(3) by (simp add: unowned_def)
  show "tidy s'"
    by (rule l(1))
qed


text \<open>The states of a run in which threads unload the library.\<close>

definition unload_inv :: "native \<Rightarrow> native \<times> (nat \<Rightarrow> dphase) \<Rightarrow> bool" where
  "unload_inv s w \<longleftrightarrow> (case w of (s', ph) \<Rightarrow>
     (s' = s \<and> (\<forall>i. ph i = Before_cas)) \<or>
     (s' = s\<lparr>native_init_ok := False\<rparr> \<and> (\<exists>i. ph i = Winner \<and> (\<forall>j. ph j = Winner \<longrightarrow> j = i))) \<or>
     (weak_refs (nenv s') = weak_refs (nenv s) - int (card (held s \<inter> all_disposed)) \<and> \<not> native_init_ok s' \<and>
       (\<forall>i. ph i \<noteq> Winner) \<and> (\<exists>i. ph i = Returned)))"

lemma unload_invE:
  assumes "unload_inv s (s', ph)"
  obtains (fresh) "s' = s" "\<And>i. ph i = Before_cas"
  | (won) i where "s' = s\<lparr>native_init_ok := False\<rparr>" "ph i = Winner" "\<And>j. ph j = Winner \<Longrightarrow> j = i"
  | (over) i where "weak_refs (nenv s') = weak_refs (nenv s) - int (card (held s \<inter> all_disposed))" "\<not> native_init_ok s'"
      "\<And>i. ph i \<noteq> Winner" "ph i = Returned"
  using assms unfolding unload_inv_def prod.case by blast

lemma unload_inv_won:
  "s' = s\<lparr>native_init_ok := False\<rparr> \<Longrightarrow> ph i = Winner \<Longrightarrow> (\<And>j. ph j = Winner \<Longrightarrow> j = i) \<Longrightarrow> unload_inv s (s', ph)"
  unfolding unload_inv_def prod.case by blast

lemma unload_inv_over:
  "weak_refs (nenv s') = weak_refs (nenv s) - int (card (held s \<inter> all_disposed)) \<Longrightarrow> \<not> native_init_ok s' \<Longrightarrow>
     (\<And>i. ph i \<noteq> Winner) \<Longrightarrow> ph i = Returned \<Longrightarrow> unload_inv s (s', ph)"
  unfolding unload_inv_def prod.case by blast

lemma unload_inv_cas:
  assumes "native_init_ok s" and "unload_inv s (s1, ph)" and "ph i = Before_cas"
  shows "unload_inv s (s1\<lparr>native_init_ok := False\<rparr>, ph(i := if native_init_ok s1 then Winner else Returned))"
  using assms(2)
proof (cases rule: unload_invE)
  case fresh
  then show ?thesis
    using assms(1) by (intro unload_inv_won [of _ _ _ i]) (auto split: if_splits)
next
  case (won k)
  have k: "k \<noteq> i"
    using won(2) assms(3) by auto
  show ?thesis
  proof (rule unload_inv_won [of _ _ _ k])
    show "j = k" if "(ph(i := if native_init_ok s1 then Winner else Returned)) j = Winner" for j
      using that won(1) won(3) [of j] by (simp split: if_splits)
  qed (use won(1,2) k in simp_all)
next
  case (over k)
  show ?thesis
  proof (rule unload_inv_over [of _ _ _ i])
    show "(ph(i := if native_init_ok s1 then Winner else Returned)) j \<noteq> Winner" for j
      using over(2) over(3) [of j] by simp
  qed (use over(1,2) in simp_all)
qed

lemma unload_inv_dispose:
  assumes "tidy s" and "unload_inv s (s1, ph)" and "ph i = Winner" and "run_state (dispose_all J) s1 = ((), s2)"
  shows "unload_inv s (s2, ph(i := Returned))"
  using assms(2)
proof (cases rule: unload_invE)
  case (won k)
  have "tidy s1"
    using assms(1) won(1) by (simp add: tidy_def)
  from wp_run [OF dispose_all_wp [OF this] assms(4)] show ?thesis
    using won(1) won(3) [of i] won(3) assms(3) by (intro unload_inv_over [of _ _ _ i]) (auto simp: same_flags_def dest: won(3))
qed (use assms(3) in auto)

lemma unload_inv_step:
  assumes "tidy s" and "native_init_ok s" and "unload_inv s w" and "dstep w w'"
  shows "unload_inv s w'"
  using assms(4,3)
proof cases
  case (cas ph i s1 inited s2)
  then show ?thesis
    using unload_inv_cas [OF assms(2), of s1 ph i] assms(3) by (simp add: compare_and_swap_init_def)
next
  case (dispose ph i J s1 s2)
  then show ?thesis
    using unload_inv_dispose [OF assms(1)] assms(3) by simp
qed

lemma unload_inv_reachable:
  assumes "tidy s" and "native_init_ok s" and "dstep\<^sup>*\<^sup>* (s, \<lambda>_. Before_cas) w"
  shows "unload_inv s w"
  using assms(3)
proof (induction rule: rtranclp_induct)
  case base
  then show ?case by (simp add: unload_inv_def)
next
  case (step w w')
  then show ?case
    using unload_inv_step [OF assms(1,2)] by blast
qed

lemma deinitialize_run:
  assumes "tidy s" and "native_init_ok s" and "run_state (deinitialize J) s = ((), s')"
  shows "weak_refs (nenv s') = weak_refs (nenv s) - int (card (held s \<inter> all_disposed)) \<and> \<not> native_init_ok s'"
proof -
  have t: "tidy (s\<lparr>native_init_ok := False\<rparr>)"
    using assms(1) by (simp add: tidy_def)
  have "wp (deinitialize J) (\<lambda>_ s'. weak_refs (nenv s') = weak_refs (nenv s) - int (card (held s \<inter> all_disposed)) \<and> \<not> native_init_ok s') s"
    unfolding deinitialize_def compare_and_swap_init_def wp_bind wp_State prod.case
    using assms(2) by (simp, intro wp_mono [OF dispose_all_wp [OF t]]) (simp add: same_flags_def)
  then show ?thesis
    by (rule wp_run [OF _ assms(3)])
qed

lemma held_zeroed [simp]: "held (zeroed e) = {}" and zeroed_sel [simp]: "\<not> cs_active (zeroed e)" "\<not> native_init_ok (zeroed e)" "nenv (zeroed e) = e"
  by (auto simp: zeroed_def held_of_def meth_null_def)

lemma tidy_zeroed: "tidy (zeroed e)"
  by (simp add: tidy_def zeroed_def held_of_def meth_null_def)

lemma loaded_zeroed:
  assumes "\<forall>str. property = Some str \<longrightarrow> length str < 2 ^ 31"
    and "run_state (JNI_OnLoad J glibc loggable run_timeout property) (zeroed e) = ((), s)"
  shows "loaded J glibc run_timeout property (zeroed e) s"
  by (rule wp_run [OF JNI_OnLoad_wp [OF held_zeroed zeroed_sel(1,2) assms(1)] assms(2)])

subsection \<open>Properties\<close>



lemma load_calm:
  "native_init_ok (snd (run_state (JNI_OnLoad calm_jvm True (\<lambda>_. False) 5000 None) (zeroed env0)))"
  using loaded_zeroed [of None calm_jvm True "\<lambda>_. False" 5000 env0 "snd (run_state (JNI_OnLoad calm_jvm True (\<lambda>_. False) 5000 None) (zeroed env0))"]
  by (simp add: loaded_def prod_eq_iff)





text \<open>
  C36. On a virtual machine on which nothing fails the library loads, with no exception pending and every
  JNI function called as it should be; the default timeout is the one of the property; and then all methods that running the
  engine, converting values and building handles rely on are initialised, so that what the other components promise for initialised
  methods holds of the loaded library.
\<close>

theorem load_enables_run:
  assumes "calm J" and "pending e = None" and "zlib_works (zl F)" and "\<forall>str. property = Some str \<longrightarrow> length str < 2 ^ 31"
    and "run_state (JNI_OnLoad J True loggable run_timeout property) (zeroed e) = ((), s)"
  shows "pending (nenv s) = None \<and> misuse (nenv s) = misuse e \<and> init_ok (waf_of J s F) \<and>
    pw_run_timeout (waf_of J s F) = (case property of None \<Rightarrow> run_timeout | Some str \<Rightarrow> fst (strtoll (utf8_of str))) \<and>
    run_well (waf_of J s F) \<and> all_well (jvm_now J s) (waf_globals_of s) sure_lib \<and>
    ready (meths s ''_pwaf_handle_init'')"
proof -
  have "loaded J True run_timeout property (zeroed e) s"
    by (rule loaded_zeroed [OF assms(4,5)])
  then have l: "native_init_ok s" "all_used \<subseteq> usable s" "pending (nenv s) = None" "misuse (nenv s) = misuse e"
    "native_timeout s = (case property of None \<Rightarrow> run_timeout | Some str \<Rightarrow> fst (strtoll (utf8_of str)))"
    using assms(1,2) by (auto simp: loaded_def smooth_def)
  have r: "ready (meths s v)" if "v \<in> set method_vars \<union> set output_meths" for v
  proof -
    have "Meth v \<in> all_used"
      using that by (auto simp: all_used_def waf_used_def)
    with l(2) show ?thesis
      by auto
  qed
  have "calm (jvm_now J s)"
    using assms(1) l(2) by (intro calm_now) (auto simp: all_used_def)
  then show ?thesis
    using l assms(3) all_sure [unfolded all_well_def]
    by (simp add: waf_of_def run_well_def results_well_def all_well_def waf_globals_of_def output_globals_of_def r
        method_vars_def output_meths_def)
qed

theorem load_enables_run_witness:
  "run_well (waf_of calm_jvm (snd (run_state (JNI_OnLoad calm_jvm True (\<lambda>_. False) 5000 None) (zeroed env0))) sample_waf)"
  using load_enables_run [of calm_jvm env0 sample_waf None "\<lambda>_. False" 5000] sample_run_well
  by (simp add: prod_eq_iff run_well_def results_well_def)



end
