(* ===== verification/Builder.thy ===== *)
theory Builder
  imports Contexts
begin

text \<open>
  Builders and handles of the engine: the native methods of \<^verbatim>\<open>WafBuilder\<close> and \<^verbatim>\<open>WafHandle\<close> in
  \<^verbatim>\<open>src/main/c/waf_jni.c\<close>, and the life of the Java objects that own them. The engine is a library that
  is not part of the repository: its functions are the record \<open>builder_lib\<close>, over a state \<open>'b\<close> of its own. \<open>engine\<close> adds what the native
  code must not get wrong: the builders and handles that exist, and the number of C strings that the native code has
  allocated and not freed. Using or destroying a builder or a handle that does not exist raises \<open>misuse\<close>.
\<close>

subsection \<open>The engine\<close>

record ddwaf_config =
  max_container_depth :: u32
  max_container_size :: u32
  max_string_length :: u32
  key_regex :: "byte list option"
  value_regex :: "byte list option"

text \<open>
  \<open>bl_add\<close> returns whether the configuration was accepted, and the diagnostics. \<open>bl_build\<close> returns \<open>0\<close> when there is
  no valid rule. A list of strings is \<open>None\<close> when the engine returns a null pointer for it.
\<close>

record 'b builder_lib =
  bl_init :: "ddwaf_config \<Rightarrow> 'b \<Rightarrow> nat \<times> 'b"
  bl_add :: "nat \<Rightarrow> byte list \<Rightarrow> ddwaf_object \<Rightarrow> 'b \<Rightarrow> bool \<times> ddwaf_object \<times> 'b"
  bl_remove :: "nat \<Rightarrow> byte list \<Rightarrow> 'b \<Rightarrow> bool \<times> 'b"
  bl_build :: "nat \<Rightarrow> 'b \<Rightarrow> nat \<times> 'b"
  bl_known_addresses :: "nat \<Rightarrow> 'b \<Rightarrow> byte list option list option"
  bl_known_actions :: "nat \<Rightarrow> 'b \<Rightarrow> byte list option list option"
  bl_version :: "byte list"

record 'b engine =
  builders :: "nat list"
  handles :: "nat list"
  cstrings :: int
  ruleset :: 'b

subsection \<open>Strings\<close>

text \<open>
  \<^verbatim>\<open>GetStringUTFChars\<close> returns the characters in the modified UTF-8 of the JNI specification: every
  character on its own, a surrogate too, and the character \<open>0\<close> in two bytes.
\<close>

definition modified_utf8_char :: "jchar \<Rightarrow> byte list" where
  "modified_utf8_char c =
     (if c \<noteq> 0 \<and> c < 0x80 then [ucast c]
      else if c < 0x800 then [0xC0 OR ucast (drop_bit 6 c), 0x80 OR (ucast c AND 0x3F)]
      else [0xE0 OR ucast (drop_bit 12 c), 0x80 OR (ucast (drop_bit 6 c) AND 0x3F), 0x80 OR (ucast c AND 0x3F)])"

definition modified_utf8 :: "jchar list \<Rightarrow> byte list" where
  "modified_utf8 str = concat (map modified_utf8_char str)"

definition GetStringLength :: "jvm \<Rightarrow> jchar list \<Rightarrow> nat jni" where
  "GetStringLength J str = do { JNI_call J; State_Monad.return (length str) }"

definition GetStringUTFChars :: "jvm \<Rightarrow> jchar list \<Rightarrow> byte list option jni" where
  "GetStringUTFChars J str = do {
     ok \<leftarrow> GetStringChars J;
     State_Monad.return (if ok then Some (modified_utf8 str) else None) }"

text \<open>A string of \<open>n\<close> bytes in a buffer that ends with a zero byte.\<close>

definition string_of_length :: "nat \<Rightarrow> byte list \<Rightarrow> byte list option jni" where
  "string_of_length n cs = (if n \<le> length cs + 1 then State_Monad.return (Some (take n (cs @ [0]))) else undefined_access)"

subsection \<open>Configurations of a builder\<close>

text \<open>\<open>ptr\<close> is the field of the \<^verbatim>\<open>WafBuilder\<close>.\<close>

definition get_builder_checked :: "jvm \<Rightarrow> nat \<Rightarrow> nat jni" where
  "get_builder_checked J ptr = do {
     ok \<leftarrow> read_field J;
     if \<not> ok then State_Monad.return 0
     else do {
       (if ptr = 0 then ThrowNew J (RuntimeException ''The Builder has already been cleared'')
        else State_Monad.return ());
       State_Monad.return ptr }}"

text \<open>A null builder or path is \<open>None\<close>. The characters of the path are released on every way out.\<close>

definition removeConfigNative ::
    "jvm \<Rightarrow> 'b builder_lib \<Rightarrow> nat option \<Rightarrow> jchar list option \<Rightarrow> 'b engine \<Rightarrow> (bool \<times> 'b engine) jni" where
  "removeConfigNative J B builder path_obj E =
     (case builder of
        None \<Rightarrow> do { ThrowNew J (RuntimeException ''builder is null''); State_Monad.return (False, E) }
      | Some ptr \<Rightarrow> (case path_obj of
        None \<Rightarrow> do { ThrowNew J (IllegalArgumentException ''path is null''); State_Monad.return (False, E) }
      | Some str \<Rightarrow> do {
          ddwaf_builder \<leftarrow> get_builder_checked J ptr;
          exc \<leftarrow> ExceptionCheck;
          if exc then State_Monad.return (False, E) else do {
          path_length \<leftarrow> GetStringLength J str;
          exc \<leftarrow> ExceptionCheck;
          if exc then State_Monad.return (False, E) else do {
          path_string \<leftarrow> GetStringUTFChars J str;
          (case path_string of
             None \<Rightarrow> State_Monad.return (False, E)
           | Some cs \<Rightarrow> do {
               key \<leftarrow> string_of_length path_length cs;
               must_exist ddwaf_builder (builders E);
               (case key of
                  None \<Rightarrow> State_Monad.return (False, E)
                | Some key \<Rightarrow>
                    let (result, rs) = bl_remove B ddwaf_builder key (ruleset E)
                    in State_Monad.return (result, E\<lparr>ruleset := rs\<rparr>)) }) }}}))"

definition config_limits :: limits where
  "config_limits = \<lparr>general_budget_in_us = 0, run_budget_in_us = 0, max_depth = 20, max_elements = 1000000,
     max_string_size = 1000000\<rparr>"

text \<open>
  What follows the call of the engine: the diagnostics are converted and stored in the array that the caller passed. The
  result is the element of the array, \<open>None\<close> when it is not set.
\<close>

definition report_diagnostics ::
    "jvm \<Rightarrow> output_globals \<Rightarrow> ddwaf_lib \<Rightarrow> ddwaf_object \<Rightarrow> jobject option jni" where
  "report_diagnostics J G D ddwaf_diagnostics =
     (if payload ddwaf_diagnostics = DDWAF_OBJ_INVALID then State_Monad.return None
      else do {
        result_diagnostics \<leftarrow> output_convert_diagnostics_checked J G D (Some ddwaf_diagnostics);
        exc \<leftarrow> ExceptionCheck;
        if exc then do {
          wrap_exc J ''waf_jni.c'' ''Java_com_datadog_ddwaf_WafBuilder_addOrUpdateConfigNative'' 1017
            (cstr ''Error converting diagnostics structure'');
          DeleteLocalRef result_diagnostics;
          State_Monad.return None }
        else do {
          JNI_call J;
          exc \<leftarrow> ExceptionCheck;
          (if exc then wrap_exc J ''waf_jni.c'' ''Java_com_datadog_ddwaf_WafBuilder_addOrUpdateConfigNative'' 1022
             (cstr ''Error setting reference for WafDiagnostics'')
           else State_Monad.return ());
          DeleteLocalRef result_diagnostics;
          State_Monad.return (if exc then None else result_diagnostics) }})"

definition addOrUpdateConfigNative ::
    "jvm \<Rightarrow> waf_globals \<Rightarrow> object_lib \<Rightarrow> output_globals \<Rightarrow> ddwaf_lib \<Rightarrow> 'b builder_lib \<Rightarrow> nat option \<Rightarrow> jchar list option \<Rightarrow>
       jvalue \<Rightarrow> 'b engine \<Rightarrow> (bool \<times> jobject option \<times> 'b engine) jni" where
  "addOrUpdateConfigNative J W L G D B builder path_obj configuration E =
     (case builder of
        None \<Rightarrow> do { ThrowNew J (RuntimeException ''builder is null''); State_Monad.return (False, None, E) }
      | Some ptr \<Rightarrow> (case path_obj of
        None \<Rightarrow> do { ThrowNew J (IllegalArgumentException ''path is null''); State_Monad.return (False, None, E) }
      | Some str \<Rightarrow> do {
          (ddwaf_configuration, limits) \<leftarrow> convert_checked J W L config_limits configuration 0;
          exc \<leftarrow> ExceptionCheck;
          if exc then State_Monad.return (False, None, E) else do {
          path_length \<leftarrow> GetStringLength J str;
          exc \<leftarrow> ExceptionCheck;
          if exc then State_Monad.return (False, None, E) else do {
          path_string \<leftarrow> GetStringUTFChars J str;
          (case path_string of
             None \<Rightarrow> State_Monad.return (False, None, E)
           | Some cs \<Rightarrow> do {
               ddwaf_builder \<leftarrow> get_builder_checked J ptr;
               exc \<leftarrow> ExceptionCheck;
               if exc then State_Monad.return (False, None, E) else do {
               key \<leftarrow> string_of_length path_length cs;
               must_exist ddwaf_builder (builders E);
               (case key of
                  None \<Rightarrow> State_Monad.return (False, None, E)
                | Some key \<Rightarrow>
                    let (result, ddwaf_diagnostics, rs) = bl_add B ddwaf_builder key ddwaf_configuration (ruleset E)
                    in do {
                      slot \<leftarrow> report_diagnostics J G D ddwaf_diagnostics;
                      State_Monad.return (result, slot, E\<lparr>ruleset := rs\<rparr>) }) }}) }}}))"

subsection \<open>Creating and destroying builders and handles\<close>

text \<open>
  \<^verbatim>\<open>WafConfig\<close>: the two regular expressions. An empty one is passed as a null pointer; the engine reads
  a C string, up to its first zero byte. The second result is the number of strings that stay allocated.
\<close>

type_synonym jconfig = "jchar list option \<times> jchar list option"

definition regex_of :: "jvm \<Rightarrow> jchar list \<Rightarrow> int \<Rightarrow> (byte list option option \<times> int) jni" where
  "regex_of J str n = do {
     bs \<leftarrow> java_to_utf8_checked J str;
     (case bs of
        None \<Rightarrow> State_Monad.return (None, n)
      | Some bs \<Rightarrow>
          let cs = takeWhile (\<lambda>b. b \<noteq> 0) bs
          in if cs = [] then State_Monad.return (Some None, n) else State_Monad.return (Some (Some cs), n + 1)) }"

definition free_string :: "byte list option \<Rightarrow> int \<Rightarrow> int" where
  "free_string str n = (if str = None then n else n - 1)"

definition convert_ddwaf_config_checked :: "jvm \<Rightarrow> jconfig option \<Rightarrow> int \<Rightarrow> (ddwaf_config option \<times> int) jni" where
  "convert_ddwaf_config_checked J jconfig n =
     (case jconfig of
        None \<Rightarrow> do {
          ThrowNew J (IllegalArgumentException ''Waf config cannot be null'');
          State_Monad.return (None, n) }
      | Some (key, val) \<Rightarrow> do {
          key_regex_jstr \<leftarrow> JNI_local J key;
          exc \<leftarrow> ExceptionCheck;
          if exc then State_Monad.return (None, n) else do {
          (kr, n) \<leftarrow> (case key_regex_jstr of None \<Rightarrow> State_Monad.return (Some None, n) | Some str \<Rightarrow> regex_of J str n);
          (case kr of
             None \<Rightarrow> State_Monad.return (None, n)
           | Some kr \<Rightarrow> do {
               value_regex_jstr \<leftarrow> JNI_local J val;
               exc \<leftarrow> ExceptionCheck;
               if exc then State_Monad.return (None, n) else do {
               (vr, n) \<leftarrow> (case value_regex_jstr of None \<Rightarrow> State_Monad.return (Some None, n) | Some str \<Rightarrow> regex_of J str n);
               (case vr of
                  None \<Rightarrow> State_Monad.return (None, free_string kr n)
                | Some vr \<Rightarrow> State_Monad.return (Some \<lparr>max_container_depth = 32, max_container_size = - 1,
                    max_string_length = - 1, key_regex = kr, value_regex = vr\<rparr>, n)) }}) }})"

definition dispose_of_ddwaf_config :: "ddwaf_config \<Rightarrow> int \<Rightarrow> int" where
  "dispose_of_ddwaf_config cfg n = free_string (value_regex cfg) (free_string (key_regex cfg) n)"

definition initBuilder :: "jvm \<Rightarrow> 'b builder_lib \<Rightarrow> jconfig option \<Rightarrow> 'b engine \<Rightarrow> (nat \<times> 'b engine) jni" where
  "initBuilder J B config E = do {
     (cfg, n) \<leftarrow> convert_ddwaf_config_checked J config (cstrings E);
     exc \<leftarrow> ExceptionCheck;
     if exc then do {
       java_log J DDWAF_LOG_DEBUG ''Java_com_datadog_ddwaf_WafBuilder_initBuilder'' ''waf_jni.c'' 1046 None (cstr ''config was not found in ddwaf'');
       State_Monad.return (0, E\<lparr>cstrings := n\<rparr>) }
     else (case cfg of
         None \<Rightarrow> do { undefined_behaviour; State_Monad.return (0, E\<lparr>cstrings := n\<rparr>) }
       | Some cfg \<Rightarrow>
           let (builder, rs) = bl_init B cfg (ruleset E)
           in State_Monad.return (builder, E\<lparr>ruleset := rs, builders := builder # builders E,
                cstrings := dispose_of_ddwaf_config cfg n\<rparr>)) }"

definition ddwaf_destroy :: "nat \<Rightarrow> 'b engine \<Rightarrow> 'b engine jni" where
  "ddwaf_destroy h E = do { must_exist h (handles E); State_Monad.return (E\<lparr>handles := removeAll h (handles E)\<rparr>) }"

text \<open>The Java object that is returned is given by the handle in it.\<close>

definition buildInstance ::
    "jvm \<Rightarrow> j_method \<Rightarrow> 'b builder_lib \<Rightarrow> nat \<Rightarrow> 'b engine \<Rightarrow> (nat option \<times> 'b engine) jni" where
  "buildInstance J pwaf_handle_init B ptr E = do {
     builder \<leftarrow> get_builder_checked J ptr;
     exc \<leftarrow> ExceptionCheck;
     if exc then State_Monad.return (None, E) else do {
     must_exist builder (builders E);
     let (handle, rs) = bl_build B builder (ruleset E);
     if handle = 0 then do {
       java_log J DDWAF_LOG_WARN ''Java_com_datadog_ddwaf_WafBuilder_buildInstance'' ''waf_jni.c'' 1063 None (cstr ''call to ddwaf_builder_build_instance failed'');
       State_Monad.return (None, E\<lparr>ruleset := rs\<rparr>) }
     else do {
       let E = E\<lparr>ruleset := rs, handles := handle # handles E\<rparr>;
       java_log J DDWAF_LOG_DEBUG ''Java_com_datadog_ddwaf_WafBuilder_buildInstance'' ''waf_jni.c'' 1066 None (cstr ''Successfully created ddwaf_handle'');
       java_handle \<leftarrow> java_meth_call J pwaf_handle_init (Some handle);
       exc \<leftarrow> ExceptionCheck;
       if exc \<or> java_handle = None then do {
         java_log J DDWAF_LOG_DEBUG ''Java_com_datadog_ddwaf_WafBuilder_buildInstance'' ''waf_jni.c'' 1072 None (cstr ''Problem in converting ddwaf_handle to java handle'');
         E \<leftarrow> ddwaf_destroy handle E;
         State_Monad.return (java_handle, E) }
       else State_Monad.return (java_handle, E) }}}"

definition destroyWafHandle :: "nat \<Rightarrow> 'b engine \<Rightarrow> 'b engine jni" where
  "destroyWafHandle waf_handle E = ddwaf_destroy waf_handle E"

definition destroyBuilder :: "nat \<Rightarrow> 'b engine \<Rightarrow> 'b engine jni" where
  "destroyBuilder builder_ptr E = do {
     must_exist builder_ptr (builders E);
     State_Monad.return (E\<lparr>builders := removeAll builder_ptr (builders E)\<rparr>) }"

subsection \<open>What a handle knows\<close>

text \<open>The loop of \<^verbatim>\<open>getKnownAddresses\<close> and \<^verbatim>\<open>getKnownActions\<close>: \<open>arr\<close> are the elements that are set.\<close>

fun known_loop :: "jvm \<Rightarrow> string \<Rightarrow> byte list option list \<Rightarrow> jobject list \<Rightarrow> jobject list option jni" where
  "known_loop J what [] arr = State_Monad.return (Some arr)"
| "known_loop J what (None # xs) arr = do {
     ThrowNew J (RuntimeException (''Unexpected NULL ptr in returned list of '' @ what));
     State_Monad.return None }"
| "known_loop J what (Some str # xs) arr = do {
     jstr \<leftarrow> new_jstring J str;
     (case jstr of
        None \<Rightarrow> State_Monad.return None
      | Some s \<Rightarrow> do {
          JNI_call J;
          exc \<leftarrow> ExceptionCheck;
          if exc then State_Monad.return None
          else do {
            DeleteLocalRef jstr;
            known_loop J what xs (arr @ [s]) }}) }"

definition known_array :: "jvm \<Rightarrow> string \<Rightarrow> nat \<Rightarrow> string \<Rightarrow> byte list option list option \<Rightarrow> jobject list option jni" where
  "known_array J function line what strs =
     (case strs of
        Some xs \<Rightarrow>
          if xs = [] \<or> INT_MAX < length xs then do {
            java_log J DDWAF_LOG_DEBUG function ''waf_jni.c'' line None (cstr (''Found no '' @ what @ '' in ruleset''));
            JNI_local J (Some []) }
          else do {
            java_log J DDWAF_LOG_DEBUG function ''waf_jni.c'' (line + 6) None (cstr ''Found '' @ dec_nat (length xs) @ cstr ('' '' @ what @ '' in ruleset''));
            ret_jarr \<leftarrow> JNI_local J (Some ([] :: jobject list));
            exc \<leftarrow> ExceptionCheck;
            if exc then State_Monad.return None else known_loop J what xs [] }
      | None \<Rightarrow> do {
          java_log J DDWAF_LOG_DEBUG function ''waf_jni.c'' line None (cstr (''Found no '' @ what @ '' in ruleset''));
          JNI_local J (Some []) })"

definition getKnownAddresses :: "'z waf \<Rightarrow> 'b builder_lib \<Rightarrow> nat option \<Rightarrow> 'b engine \<Rightarrow> jobject list option jni" where
  "getKnownAddresses F B handle_obj E = do {
     ok \<leftarrow> check_init F;
     if \<not> ok then State_Monad.return None else do {
     nat_handle \<leftarrow> get_pwaf_handle_checked (jv F) handle_obj;
     if nat_handle = 0 then State_Monad.return None else do {
     must_exist nat_handle (handles E);
     known_array (jv F) ''Java_com_datadog_ddwaf_WafHandle_getKnownAddresses'' 314 ''addresses'' (bl_known_addresses B nat_handle (ruleset E)) }}}"

definition getKnownActions :: "'z waf \<Rightarrow> 'b builder_lib \<Rightarrow> nat option \<Rightarrow> 'b engine \<Rightarrow> jobject list option jni" where
  "getKnownActions F B handle_obj E = do {
     ok \<leftarrow> check_init F;
     if \<not> ok then State_Monad.return None else do {
     nat_handle \<leftarrow> get_pwaf_handle_checked (jv F) handle_obj;
     if nat_handle = 0 then State_Monad.return None else do {
     must_exist nat_handle (handles E);
     known_array (jv F) ''Java_com_datadog_ddwaf_WafHandle_getKnownActions'' 371 ''actions'' (bl_known_actions B nat_handle (ruleset E)) }}}"

definition getVersion :: "jvm \<Rightarrow> 'b builder_lib \<Rightarrow> jobject option jni" where
  "getVersion J B = new_jstring J (bl_version B)"

subsection \<open>The name of a configuration\<close>

text \<open>
  The engine is given as many bytes of the modified UTF-8 form as the path has characters.
\<close>

definition path_key :: "jchar list \<Rightarrow> byte list" where
  "path_key str = take (length str) (modified_utf8 str)"

definition ascii :: "jchar list \<Rightarrow> bool" where
  "ascii str \<longleftrightarrow> (\<forall>c \<in> set str. c \<noteq> 0 \<and> c < 0x80)"

lemma modified_utf8_length: "length str \<le> length (modified_utf8 str)"
proof (induction str)
  case (Cons c str)
  then show ?case
    by (simp add: modified_utf8_def modified_utf8_char_def)
qed simp

lemma modified_utf8_ascii: "ascii str \<Longrightarrow> modified_utf8 str = map ucast str"
  by (induction str) (auto simp: modified_utf8_def modified_utf8_char_def ascii_def)

lemma path_key_ascii: "ascii str \<Longrightarrow> path_key str = map ucast str"
  by (simp add: path_key_def modified_utf8_ascii)

lemma path_key_injective: "ascii p \<Longrightarrow> ascii q \<Longrightarrow> path_key p = path_key q \<Longrightarrow> p = q"
proof -
  assume a: "ascii p" "ascii q" "path_key p = path_key q"
  have u: "unat (ucast c :: byte) = unat c" if "c < 0x80" for c :: jchar
    using that by (simp add: unat_ucast_mod word_less_nat_alt)
  have "inj_on (ucast :: jchar \<Rightarrow> byte) {c. c < 0x80}"
  proof (rule inj_onI)
    fix c d :: jchar
    assume "c \<in> {c. c < 0x80}" "d \<in> {c. c < 0x80}" "(ucast c :: byte) = ucast d"
    then show "c = d"
      using u [of c] u [of d] by (simp add: word_unat_eq_iff)
  qed
  moreover have "set p \<union> set q \<subseteq> {c. c < 0x80}"
    using a(1,2) by (auto simp: ascii_def)
  ultimately have "inj_on (ucast :: jchar \<Rightarrow> byte) (set p \<union> set q)"
    by (rule inj_on_subset)
  moreover have "map (ucast :: jchar \<Rightarrow> byte) p = map ucast q"
    using a by (simp only: path_key_ascii)
  ultimately show "p = q"
    by (simp add: inj_on_map_eq_map)
qed

text \<open>
  For other paths the bytes are cut off, and different paths can name the same configuration.
\<close>

lemma path_key_collision: "path_key [0xE9, 0x61] = path_key [0xE9, 0x62]"
  by (simp add: path_key_def modified_utf8_def modified_utf8_char_def)

subsection \<open>Contracts of the parts\<close>

lemma string_of_length_wp [wps]:
  "wp (string_of_length (length str) (modified_utf8 str)) Q e = Q (Some (path_key str)) e"
  using modified_utf8_length [of str] by (simp add: string_of_length_def path_key_def wps)

text \<open>
  \<open>env_kept e e'\<close>: nothing was done that must not be done, and the JSON buffers are as before.
\<close>

definition env_kept :: "jenv \<Rightarrow> jenv \<Rightarrow> bool" where
  "env_kept e e' \<longleftrightarrow> env_to e (pending e') (refs e' - refs e) e'"

lemma env_keptI: "env_to e p d e' \<Longrightarrow> env_kept e e'"
  by (auto simp: env_kept_def env_to_def)

lemma env_kept_trans: "env_kept e e' \<Longrightarrow> env_kept e' e'' \<Longrightarrow> env_kept e e''"
  by (auto simp: env_kept_def env_to_def)

lemma env_to_kept: "env_kept e e' \<Longrightarrow> env_to e' p d e'' \<Longrightarrow> env_kept e e'' \<and> pending e'' = p"
  by (auto simp: env_kept_def env_to_def)

lemma get_builderI:
  assumes "pending e1 = None" and "env_kept e e1"
    and "\<And>e'. ptr \<noteq> 0 \<Longrightarrow> env_kept e e' \<Longrightarrow> pending e' = None \<Longrightarrow> Q ptr e'"
    and "\<And>r e'. env_kept e e' \<Longrightarrow> pending e' \<noteq> None \<Longrightarrow> \<not> calm J \<or> ptr = 0 \<Longrightarrow> Q r e'"
  shows "wp (get_builder_checked J ptr) Q e1"
  unfolding get_builder_checked_def wp_bind
proof (rule read_fieldI [OF assms(1)], goal_cases)
  case (1 e')
  from env_to_kept [OF assms(2) this] show ?case
    using assms(3,4) by (auto simp: wps intro!: ThrowNewI dest: env_to_kept)
next
  case (2 e' t)
  from env_to_kept [OF assms(2) this(1)] show ?case
    using assms(4) 2(2) by (simp add: wps)
qed

lemma GetStringLengthI:
  assumes "pending e1 = None" and "env_kept e e1"
    and "\<And>e'. env_kept e e' \<Longrightarrow> pending e' = None \<Longrightarrow> Q (length str) e'"
    and "\<And>e'. env_kept e e' \<Longrightarrow> pending e' \<noteq> None \<Longrightarrow> \<not> calm J \<Longrightarrow> Q (length str) e'"
  shows "wp (GetStringLength J str) Q e1"
  using assms by (auto simp: GetStringLength_def wps Let_def env_kept_def env_to_def calmD split: option.split)

lemma GetStringUTFCharsI:
  assumes "pending e1 = None" and "env_kept e e1"
    and "\<And>e'. env_kept e e' \<Longrightarrow> pending e' = None \<Longrightarrow> Q (Some (modified_utf8 str)) e'"
    and "\<And>e'. env_kept e e' \<Longrightarrow> \<not> calm J \<Longrightarrow> Q None e'"
  shows "wp (GetStringUTFChars J str) Q e1"
  using assms
  by (auto simp: GetStringUTFChars_def GetStringChars_def wps Let_def env_kept_def env_to_def calmD split: option.split)

text \<open>The engine describes what it found in a map, or not at all.\<close>

definition diagnostics_ok :: "ddwaf_object \<Rightarrow> bool" where
  "diagnostics_ok ob \<longleftrightarrow> payload ob = DDWAF_OBJ_INVALID \<or> (\<exists>es. payload ob = DDWAF_OBJ_MAP es)"

definition diagnostics_spec :: "output_globals \<Rightarrow> ddwaf_lib \<Rightarrow> ddwaf_object \<Rightarrow> jobject option option" where
  "diagnostics_spec G D ob =
     (if payload ob = DDWAF_OBJ_INVALID then Some None else value_of (diagnostics_result G D (Some ob)))"

lemma report_diagnosticsI:
  assumes "pending e = None" and "diagnostics_ok ob"
    and "\<And>v d e'. diagnostics_spec G D ob = Some v \<Longrightarrow> env_to e None d e' \<Longrightarrow> Q v e'"
    and "\<And>e' t d. env_to e (Some t) d e' \<Longrightarrow> (calm J \<Longrightarrow> diagnostics_spec G D ob = None) \<Longrightarrow> Q None e'"
  shows "wp (report_diagnostics J G D ob) Q e"
proof (cases "payload ob = DDWAF_OBJ_INVALID")
  case True
  then show ?thesis
    using assms(3) env_to_refl [OF assms(1)] by (simp add: report_diagnostics_def diagnostics_spec_def wps)
next
  case False
  then obtain es where es: "payload ob = DDWAF_OBJ_MAP es"
    using assms(2) by (auto simp: diagnostics_ok_def)
  show ?thesis
    unfolding report_diagnostics_def if_not_P [OF False] wp_bind
  proof (rule checkedI [OF diagnostics_contract [OF refl es] assms(1)], goal_cases)
    case (1 v e1)
    then show ?case
      using assms(3,4) False
      by (auto simp: wps Let_def diagnostics_spec_def env_to_def calmD intro!: wrap_excI split: option.split)
  next
    case (2 e1 t d)
    then show ?case
      using assms(4) False
      by (auto simp: wps diagnostics_spec_def env_to_def intro!: wrap_excI)
  qed
qed

subsection \<open>Contracts of the native methods\<close>

definition config_object :: "jvalue \<Rightarrow> ddwaf_object" where
  "config_object v = fst (to_ddwaf 20 1000000 v 0 1000000)"

definition added ::
    "'b builder_lib \<Rightarrow> output_globals \<Rightarrow> ddwaf_lib \<Rightarrow> bool \<Rightarrow> nat \<Rightarrow> jchar list \<Rightarrow> jvalue \<Rightarrow> 'b engine \<Rightarrow>
       bool \<times> jobject option \<times> 'b engine \<Rightarrow> jthrowable option \<Rightarrow> bool" where
  "added B G D w ptr str v E = (\<lambda>(result, slot, E') exc.
     (\<exists>diag rs. bl_add B ptr (path_key str) (config_object v) (ruleset E) = (result, diag, rs) \<and> E' = E\<lparr>ruleset := rs\<rparr> \<and>
        (exc = None \<and> diagnostics_spec G D diag = Some slot \<or>
         exc \<noteq> None \<and> slot = None \<and> (w \<longrightarrow> diagnostics_spec G D diag = None))))"

lemma convert_configI:
  assumes "object_lib_doc L" and "good_value v" and "pending e = None"
    and "\<And>lims e'. env_kept e e' \<Longrightarrow> pending e' = None \<Longrightarrow> Q (config_object v, lims) e'"
    and "\<And>r e'. env_kept e e' \<Longrightarrow> pending e' \<noteq> None \<Longrightarrow> \<not> all_well J W L \<Longrightarrow> Q r e'"
  shows "wp (convert_checked J W L config_limits v 0) Q e"
proof (rule conv_callI [OF convert_checked_wp [OF assms(1-3)]], goal_cases)
  case (3 d e')
  then show ?case
    using assms(4) [OF env_keptI [OF 3(2)]]
    by (auto simp: config_limits_def config_object_def env_to_def split: prod.split)
next
  case (4 r d t e')
  then show ?case
    using assms(5) [OF env_keptI [OF 4(2)]] by (auto simp: env_to_def)
qed (simp_all add: config_limits_def)

lemma engine_addI:
  assumes "pending e1 = None" and "env_kept e e1" and "ptr \<in> set (builders E)"
    and "diagnostics_ok (fst (snd (bl_add B ptr (path_key str) (config_object v) (ruleset E))))"
    and "w \<Longrightarrow> calm J"
    and "\<And>r e'. env_kept e e' \<Longrightarrow> added B G D w ptr str v E r (pending e') \<Longrightarrow> Q r e'"
  shows "wp (case bl_add B ptr (path_key str) (config_object v) (ruleset E) of (result, ddwaf_diagnostics, rs) \<Rightarrow>
      report_diagnostics J G D ddwaf_diagnostics \<bind> (\<lambda>slot. State_Monad.return (result, slot, E\<lparr>ruleset := rs\<rparr>))) Q e1"
proof -
  obtain result diag rs where b: "bl_add B ptr (path_key str) (config_object v) (ruleset E) = (result, diag, rs)"
    by (metis prod_cases3)
  have ok: "diagnostics_ok diag"
    using assms(4) by (simp add: b)
  show ?thesis
    unfolding b prod.case wp_bind wp_return
  proof (rule report_diagnosticsI [OF assms(1) ok], goal_cases)
    case (1 v d e')
    from env_to_kept [OF assms(2) 1(2)] 1(1) show ?case
      by (intro assms(6)) (simp_all add: added_def b)
  next
    case (2 e' t d)
    from env_to_kept [OF assms(2) 2(1)] 2(2) assms(5) show ?case
      by (intro assms(6)) (auto simp: added_def b)
  qed
qed

lemma addOrUpdate_wp:
  assumes "object_lib_doc L" and "good_value v" and "pending e = None" and "ptr = 0 \<or> ptr \<in> set (builders E)"
    and "diagnostics_ok (fst (snd (bl_add B ptr (path_key str) (config_object v) (ruleset E))))"
  shows "wp (addOrUpdateConfigNative J W L G D B (Some ptr) (Some str) v E)
    (\<lambda>r e'. env_kept e e' \<and>
       (r = (False, None, E) \<and> (ptr = 0 \<and> calm J \<longrightarrow> pending e' \<noteq> None) \<and> \<not> (all_well J W L \<and> ptr \<noteq> 0) \<or>
        ptr \<noteq> 0 \<and> added B G D (all_well J W L) ptr str v E r (pending e'))) e"
  unfolding addOrUpdateConfigNative_def option.case wp_bind
proof (rule convert_configI [OF assms(1-3)], goal_cases)
  case (1 lims e1)
  then show ?case
    using assms(4,5)
    by (auto simp: wps not_well simp del: split_paired_All split_paired_Ex
      intro!: GetStringLengthI [of _ e] GetStringUTFCharsI [of _ e] get_builderI [of _ e]
        engine_addI [where w = "all_well J W L" and e = e] simp: all_well_def [of J])
next
  case (2 r e1)
  then show ?case
    by (cases r) (auto simp: wps)
qed

definition removed :: "'b builder_lib \<Rightarrow> nat \<Rightarrow> jchar list \<Rightarrow> 'b engine \<Rightarrow> bool \<times> 'b engine" where
  "removed B ptr str E = (let (result, rs) = bl_remove B ptr (path_key str) (ruleset E) in (result, E\<lparr>ruleset := rs\<rparr>))"

lemma removeConfig_wp:
  assumes "pending e = None" and "ptr = 0 \<or> ptr \<in> set (builders E)"
  shows "wp (removeConfigNative J B (Some ptr) (Some str) E)
    (\<lambda>r e'. env_kept e e' \<and> (r = (False, E) \<and> \<not> (calm J \<and> ptr \<noteq> 0) \<or>
       ptr \<noteq> 0 \<and> pending e' = None \<and> r = removed B ptr str E)) e"
  using assms env_keptI [OF env_to_refl [OF assms(1)]]
  by (auto simp: removeConfigNative_def wps removed_def Let_def split: prod.split
    intro!: GetStringLengthI [of _ e] GetStringUTFCharsI [of _ e] get_builderI [of _ e])

lemma null_arguments:
  assumes "pending e = None"
  shows "wp (removeConfigNative J B None path_obj E) (\<lambda>r e'. r = (False, E) \<and> env_kept e e' \<and> pending e' \<noteq> None) e"
    and "wp (removeConfigNative J B (Some ptr) None E) (\<lambda>r e'. r = (False, E) \<and> env_kept e e' \<and> pending e' \<noteq> None) e"
    and "wp (addOrUpdateConfigNative J W L G D B None path_obj v E)
      (\<lambda>r e'. r = (False, None, E) \<and> env_kept e e' \<and> pending e' \<noteq> None) e"
    and "wp (addOrUpdateConfigNative J W L G D B (Some ptr) None v E)
      (\<lambda>r e'. r = (False, None, E) \<and> env_kept e e' \<and> pending e' \<noteq> None) e"
  using assms
  by (auto simp: removeConfigNative_def addOrUpdateConfigNative_def wps env_to_pending intro!: ThrowNewI intro: env_keptI)

subsubsection \<open>Creating builders\<close>

definition regex_spec :: "jchar list option \<Rightarrow> byte list option" where
  "regex_spec str = (case str of None \<Rightarrow> None | Some str \<Rightarrow>
     let cs = takeWhile (\<lambda>b. b \<noteq> 0) (utf8_of str) in if cs = [] then None else Some cs)"

definition config_spec :: "jconfig \<Rightarrow> ddwaf_config" where
  "config_spec jc = \<lparr>max_container_depth = 32, max_container_size = - 1, max_string_length = - 1,
     key_regex = regex_spec (fst jc), value_regex = regex_spec (snd jc)\<rparr>"

fun jconfig_ok :: "jconfig option \<Rightarrow> bool" where
  "jconfig_ok None = True"
| "jconfig_ok (Some (key, val)) \<longleftrightarrow> (\<forall>str. key = Some str \<or> val = Some str \<longrightarrow> length str < 2 ^ 31)"

lemma regexI:
  assumes "pending e1 = None" and "env_kept e e1" and "\<And>str. field = Some str \<Longrightarrow> length str < 2 ^ 31"
    and "\<And>e'. env_kept e e' \<Longrightarrow> pending e' = None \<Longrightarrow> Q (Some (regex_spec field), n + ref_of (regex_spec field)) e'"
    and "\<And>e'. env_kept e e' \<Longrightarrow> pending e' \<noteq> None \<Longrightarrow> \<not> calm J \<Longrightarrow> Q (None, n) e'"
  shows "wp (case field of None \<Rightarrow> State_Monad.return (Some None, n) | Some str \<Rightarrow> regex_of J str n) Q e1"
proof (cases field)
  case None
  then show ?thesis
    using assms(1,2,4) by (simp add: wps regex_spec_def)
next
  case (Some str)
  show ?thesis
    unfolding Some option.case regex_of_def wp_bind
  proof (rule java_to_utf8I [OF assms(1) assms(3) [OF Some]], goal_cases)
    case (1 e')
    from env_to_kept [OF assms(2) 1] show ?case
      using assms(4) by (auto simp: wps regex_spec_def Some Let_def split: if_splits)
  next
    case (2 e' t)
    from env_to_kept [OF assms(2) 2(1)] 2(2) show ?case
      using assms(5) by (simp add: wps)
  qed
qed

lemma fieldI:
  assumes "pending e1 = None" and "env_kept e e1"
    and "\<And>e'. env_kept e e' \<Longrightarrow> pending e' = None \<Longrightarrow> Q v e'"
    and "\<And>e'. env_kept e e' \<Longrightarrow> pending e' \<noteq> None \<Longrightarrow> \<not> calm J \<Longrightarrow> Q None e'"
  shows "wp (JNI_local J v) Q e1"
  by (rule JNI_localI [OF assms(1)]) (use assms(3,4) env_to_kept [OF assms(2)] in blast)+

lemma convert_config_wp:
  assumes "pending e = None" and "jconfig_ok jc"
  shows "wp (convert_ddwaf_config_checked J jc n) (\<lambda>(cfg, m) e'. env_kept e e' \<and>
    (if pending e' = None then \<exists>c. jc = Some c \<and> cfg = Some (config_spec c) \<and> dispose_of_ddwaf_config (config_spec c) m = n
     else cfg = None \<and> n \<le> m \<and> m \<le> n + 1 \<and> \<not> (calm J \<and> jc \<noteq> None))) e"
proof (cases jc)
  case None
  then show ?thesis
    using assms(1) by (auto simp: convert_ddwaf_config_checked_def wps env_to_pending intro!: ThrowNewI intro: env_keptI)
next
  case (Some c)
  have len: "\<And>str. fst c = Some str \<Longrightarrow> length str < 2 ^ 31" "\<And>str. snd c = Some str \<Longrightarrow> length str < 2 ^ 31"
    using assms(2) Some by (cases c; auto)+
  show ?thesis
    using assms(1) env_keptI [OF env_to_refl [OF assms(1)]] len
    by (cases c)
      (auto simp: convert_ddwaf_config_checked_def Some wps config_spec_def dispose_of_ddwaf_config_def free_string_def
        ref_of_def intro!: fieldI [of _ e] regexI [of _ e])
qed

definition created :: "'b builder_lib \<Rightarrow> jconfig \<Rightarrow> 'b engine \<Rightarrow> nat \<times> 'b engine" where
  "created B c E = (let (b, rs) = bl_init B (config_spec c) (ruleset E)
     in (b, E\<lparr>ruleset := rs, builders := b # builders E\<rparr>))"

lemma initBuilder_wp:
  assumes "pending e = None" and "jconfig_ok jc"
  shows "wp (initBuilder J B jc E) (\<lambda>r e'. env_kept e e' \<and>
    (if pending e' = None then \<exists>c. jc = Some c \<and> r = created B c E
     else (\<exists>m. r = (0, E\<lparr>cstrings := m\<rparr>) \<and> cstrings E \<le> m \<and> m \<le> cstrings E + 1) \<and> \<not> (calm J \<and> jc \<noteq> None))) e"
  unfolding initBuilder_def wp_bind
proof (rule wp_mono [OF convert_config_wp [OF assms]], goal_cases)
  case (1 r e1)
  obtain cfg m where r: "r = (cfg, m)" by force
  show ?case
  proof (cases "pending e1 = None")
    case True
    with 1 obtain c where c: "jc = Some c" "cfg = Some (config_spec c)" "dispose_of_ddwaf_config (config_spec c) m = cstrings E"
      and k: "env_kept e e1"
      by (auto simp: r)
    show ?thesis
      using True c k by (auto simp: r wps created_def Let_def split: prod.split)
  next
    case False
    with 1 have k: "env_kept e e1" "cstrings E \<le> m" "m \<le> cstrings E + 1" "\<not> (calm J \<and> jc \<noteq> None)"
      by (auto simp: r)
    show ?thesis
      unfolding r prod.case wp_bind env_prims(1) wp_State eqTrueI [OF False] if_True
    proof (rule java_logI, goal_cases)
      case (1 e')
      then show ?case
        using env_to_kept [OF k(1) 1] False k(2-) by (auto simp: wps)
    qed
  qed
qed

lemma logI:
  assumes "env_kept e e1" and "\<And>e'. env_kept e e' \<Longrightarrow> pending e' = pending e1 \<Longrightarrow> Q () e'"
  shows "wp (java_log J level function file line throwable message) Q e1"
  by (rule java_logI) (use env_to_kept [OF assms(1)] assms(2) in blast)

lemma constructorI:
  assumes "pending e1 = None" and "env_kept e e1"
    and "\<And>e'. env_kept e e' \<Longrightarrow> pending e' = None \<Longrightarrow> Q v e'"
    and "\<And>e'. env_kept e e' \<Longrightarrow> pending e' \<noteq> None \<Longrightarrow> \<not> (calm J \<and> ready m) \<Longrightarrow> Q None e'"
  shows "wp (java_meth_call J m v) Q e1"
  by (rule meth_callI [OF assms(1)]) (use assms(3,4) env_to_kept [OF assms(2)] in blast)+

text \<open>A handle that cannot be given to Java is destroyed.\<close>

lemma buildInstance_wp:
  assumes "pending e = None" and "ptr = 0 \<or> ptr \<in> set (builders E)" and "bl_build B ptr (ruleset E) = (h, rs)"
    and "h \<notin> set (handles E)"
  shows "wp (buildInstance J m B ptr E) (\<lambda>(r, E') e'. env_kept e e' \<and>
    (r = Some h \<and> h \<noteq> 0 \<and> pending e' = None \<and> E' = E\<lparr>ruleset := rs, handles := h # handles E\<rparr> \<or>
     r = None \<and> (E' = E \<or> E' = E\<lparr>ruleset := rs\<rparr>) \<and> \<not> (calm J \<and> ready m \<and> ptr \<noteq> 0 \<and> h \<noteq> 0))) e"
proof -
  have [simp]: "removeAll h (handles E) = handles E"
    using assms(4) by (simp add: removeAll_id)
  show ?thesis
    using assms env_keptI [OF env_to_refl [OF assms(1)]]
    by (auto simp: buildInstance_def ddwaf_destroy_def wps Let_def
      intro!: get_builderI [of _ e] logI [of e] constructorI [of _ e])
qed

lemma destroy_wp:
  "h \<in> set (handles E) \<Longrightarrow> wp (destroyWafHandle h E) (\<lambda>E' e'. e' = e \<and> E' = E\<lparr>handles := removeAll h (handles E)\<rparr>) e"
  "p \<in> set (builders E) \<Longrightarrow> wp (destroyBuilder p E) (\<lambda>E' e'. e' = e \<and> E' = E\<lparr>builders := removeAll p (builders E)\<rparr>) e"
  by (simp_all add: destroyWafHandle_def destroyBuilder_def ddwaf_destroy_def wps)

subsubsection \<open>The lists of strings\<close>

fun known_spec :: "byte list option list \<Rightarrow> jobject list option" where
  "known_spec [] = Some []"
| "known_spec (None # xs) = None"
| "known_spec (Some str # xs) = (if jstring_fits str then map_option ((#) (JString (utf16_of str))) (known_spec xs) else None)"

lemma known_loop_wp:
  assumes "pending e1 = None" and "env_kept e e1"
  shows "wp (known_loop J what xs arr) (\<lambda>r e'. env_kept e e' \<and>
    (if pending e' = None then \<exists>ys. known_spec xs = Some ys \<and> r = Some (arr @ ys)
     else r = None \<and> (calm J \<longrightarrow> known_spec xs = None))) e1"
  using assms
proof (induction J what xs arr arbitrary: e1 rule: known_loop.induct)
  case (1 J what arr)
  then show ?case by (simp add: wps)
next
  case (2 J what xs arr)
  then show ?case
    by (auto simp: wps intro!: ThrowNewI dest: env_to_kept)
next
  case (3 J what str xs arr)
  show ?case
    unfolding known_loop.simps wp_bind
  proof (rule new_jstringI [OF 3(2)], goal_cases)
    case (1 e2)
    note e2 = env_to_kept [OF 3(3) 1(2)]
    let ?e3 = "e2\<lparr>jtick := jtick e2 + 1\<rparr>" and ?e4 = "e2\<lparr>jtick := jtick e2 + 1, refs := refs e2 - 1\<rparr>"
    have e3: "env_kept e (?e3\<lparr>pending := Some t\<rparr>)" "env_kept e ?e4" for t
      using e2 by (simp_all add: env_kept_def env_to_def)
    have IH: "wp (known_loop J what xs (arr @ [JString (utf16_of str)])) (\<lambda>r e'. env_kept e e' \<and>
      (if pending e' = None then \<exists>ys. known_spec xs = Some ys \<and> r = Some ((arr @ [JString (utf16_of str)]) @ ys)
       else r = None \<and> (calm J \<longrightarrow> known_spec xs = None))) ?e4"
      by (rule 3(1) [of "Some (JString (utf16_of str))" _ False]) (use e2 e3(2) in simp_all)
    have IH': "wp (known_loop J what xs (arr @ [JString (utf16_of str)])) (\<lambda>r e'. env_kept e e' \<and>
      (if pending e' = None then \<exists>ys. known_spec (Some str # xs) = Some ys \<and> r = Some (arr @ ys)
       else r = None \<and> (calm J \<longrightarrow> known_spec (Some str # xs) = None))) ?e4"
      by (rule wp_mono [OF IH]) (use 1(1) in \<open>auto split: if_splits\<close>)
    show ?case
    proof (cases "throws J (jtick e2)")
      case None
      then show ?thesis
        using e2 IH' by (simp add: wps Let_def)
    next
      case (Some t)
      then show ?thesis
        using e2 e3(1) by (simp add: wps Let_def calmD)
    qed
  next
    case (2 e2 t)
    from env_to_kept [OF 3(3) 2(1)] 2(2) show ?case
      by (auto simp: wps)
  qed
qed

definition known_result :: "byte list option list option \<Rightarrow> jobject list option" where
  "known_result strs = (case strs of None \<Rightarrow> Some [] | Some xs \<Rightarrow> if INT_MAX < length xs then Some [] else known_spec xs)"

lemma known_array_wp:
  assumes "pending e1 = None" and "env_kept e e1"
  shows "wp (known_array J function line what strs) (\<lambda>r e'. env_kept e e' \<and>
    (if pending e' = None then r \<noteq> None \<and> r = known_result strs else r = None \<and> (calm J \<longrightarrow> known_result strs = None))) e1"
  using assms
  by (auto simp: known_array_def known_result_def wps simp del: known_loop.simps split: option.split
    intro!: logI [of e] fieldI [of _ e] wp_mono [OF known_loop_wp [of _ e]])

lemma known_wp:
  assumes "pending e = None" and "h \<in> set (handles E)" and "h \<noteq> 0"
  shows "wp (getKnownAddresses F B (Some h) E) (\<lambda>r e'. env_kept e e' \<and>
      (if pending e' = None then r \<noteq> None \<and> r = known_result (bl_known_addresses B h (ruleset E))
       else r = None \<and> (calm (jv F) \<and> init_ok F \<longrightarrow> known_result (bl_known_addresses B h (ruleset E)) = None))) e"
    and "wp (getKnownActions F B (Some h) E) (\<lambda>r e'. env_kept e e' \<and>
      (if pending e' = None then r \<noteq> None \<and> r = known_result (bl_known_actions B h (ruleset E))
       else r = None \<and> (calm (jv F) \<and> init_ok F \<longrightarrow> known_result (bl_known_actions B h (ruleset E)) = None))) e"
  using assms env_keptI [OF env_to_refl [OF assms(1)]]
  by (auto simp: getKnownAddresses_def getKnownActions_def check_init_def get_pwaf_handle_checked_def wps env_to_pending
    intro!: ThrowNewI wp_mono [OF known_array_wp [of _ e]] intro: env_keptI split: if_splits)

subsection \<open>The life of builders and handles\<close>

text \<open>
  The Java objects \<^verbatim>\<open>WafBuilder\<close> and \<^verbatim>\<open>WafHandle\<close>, each with its native pointer and the flag \<^verbatim>\<open>online\<close>. Their methods
  hold the monitor of the builder or the lock of the handle, so calls for one object do not overlap; they call the
  native code only while the object is online, and \<^verbatim>\<open>close\<close> takes it offline. Java code handles the exceptions of a call
  before the next one. The engine and the virtual machine may change in each call; the engine returns pointers to what does
  not exist yet, and describes configurations with a map.
\<close>

record 'b bworld =
  bobjs :: "nat \<rightharpoonup> nat \<times> bool"
  hobjs :: "nat \<rightharpoonup> nat \<times> bool"
  beng :: "'b engine"
  benv :: jenv

inductive bstep :: "'b bworld \<Rightarrow> 'b bworld \<Rightarrow> bool" where
  new_builder: "bobjs w i = None \<Longrightarrow> jconfig_ok jc \<Longrightarrow>
    (\<And>c. fst (bl_init B c (ruleset (beng w))) \<notin> insert 0 (set (builders (beng w)))) \<Longrightarrow>
    run_state (initBuilder J B jc (beng w)) (benv w) = ((p, E'), e') \<Longrightarrow> pending e' = None \<Longrightarrow>
    bstep w (w\<lparr>bobjs := (bobjs w)(i \<mapsto> (p, True)), beng := E', benv := e'\<rparr>)"
| new_builder_throws: "jconfig_ok jc \<Longrightarrow>
    run_state (initBuilder J B jc (beng w)) (benv w) = ((p, E'), e') \<Longrightarrow> pending e' \<noteq> None \<Longrightarrow>
    bstep w (w\<lparr>beng := E', benv := handled e'\<rparr>)"
| add: "bobjs w i = Some (p, True) \<Longrightarrow> object_lib_doc L \<Longrightarrow> good_value v \<Longrightarrow>
    (\<And>k ob s. diagnostics_ok (fst (snd (bl_add B p k ob s)))) \<Longrightarrow>
    run_state (addOrUpdateConfigNative J W L G D B (Some p) (Some str) v (beng w)) (benv w) = ((res, slot, E'), e') \<Longrightarrow>
    bstep w (w\<lparr>beng := E', benv := handled e'\<rparr>)"
| remove: "bobjs w i = Some (p, True) \<Longrightarrow>
    run_state (removeConfigNative J B (Some p) (Some str) (beng w)) (benv w) = ((res, E'), e') \<Longrightarrow>
    bstep w (w\<lparr>beng := E', benv := handled e'\<rparr>)"
| build: "bobjs w i = Some (p, True) \<Longrightarrow> hobjs w j = None \<Longrightarrow>
    fst (bl_build B p (ruleset (beng w))) \<notin> set (handles (beng w)) \<Longrightarrow>
    run_state (buildInstance J m B p (beng w)) (benv w) = ((Some h, E'), e') \<Longrightarrow>
    bstep w (w\<lparr>hobjs := (hobjs w)(j \<mapsto> (h, True)), beng := E', benv := handled e'\<rparr>)"
| build_fails: "bobjs w i = Some (p, True) \<Longrightarrow>
    fst (bl_build B p (ruleset (beng w))) \<notin> set (handles (beng w)) \<Longrightarrow>
    run_state (buildInstance J m B p (beng w)) (benv w) = ((None, E'), e') \<Longrightarrow>
    bstep w (w\<lparr>beng := E', benv := handled e'\<rparr>)"
| close_builder: "bobjs w i = Some (p, True) \<Longrightarrow>
    run_state (destroyBuilder p (beng w)) (benv w) = (E', e') \<Longrightarrow>
    bstep w (w\<lparr>bobjs := (bobjs w)(i \<mapsto> (p, False)), beng := E', benv := e'\<rparr>)"
| known_addresses: "hobjs w j = Some (h, True) \<Longrightarrow>
    run_state (getKnownAddresses (F :: unit waf) B (Some h) (beng w)) (benv w) = (r, e') \<Longrightarrow>
    bstep w (w\<lparr>benv := handled e'\<rparr>)"
| known_actions: "hobjs w j = Some (h, True) \<Longrightarrow>
    run_state (getKnownActions (F :: unit waf) B (Some h) (beng w)) (benv w) = (r, e') \<Longrightarrow>
    bstep w (w\<lparr>benv := handled e'\<rparr>)"
| close_handle: "hobjs w j = Some (h, True) \<Longrightarrow>
    run_state (destroyWafHandle h (beng w)) (benv w) = (E', e') \<Longrightarrow>
    bstep w (w\<lparr>hobjs := (hobjs w)(j \<mapsto> (h, False)), beng := E', benv := e'\<rparr>)"

definition bworld0 :: "'b \<Rightarrow> 'b bworld" where
  "bworld0 rs = \<lparr>bobjs = Map.empty, hobjs = Map.empty,
     beng = \<lparr>builders = [], handles = [], cstrings = 0, ruleset = rs\<rparr>, benv = env0\<rparr>"

text \<open>What exists in the engine is what the objects that are online own, each of them something of its own.\<close>

definition owns :: "(nat \<rightharpoonup> nat \<times> bool) \<Rightarrow> nat list \<Rightarrow> bool" where
  "owns obs ps \<longleftrightarrow> set ps = {p. \<exists>i. obs i = Some (p, True)} \<and> 0 \<notin> set ps \<and>
     (\<forall>i j p. obs i = Some (p, True) \<and> obs j = Some (p, True) \<longrightarrow> i = j)"

lemma owns_empty: "owns Map.empty []"
  by (simp add: owns_def)

lemma owns_mem: "owns obs ps \<Longrightarrow> obs i = Some (p, True) \<Longrightarrow> p \<in> set ps \<and> p \<noteq> 0"
  by (auto simp: owns_def)

lemma owns_new:
  assumes "owns obs ps" and "obs i = None" and "p \<notin> insert 0 (set ps)"
  shows "owns (obs(i \<mapsto> (p, True))) (p # ps)"
proof -
  have "{q. \<exists>k. (obs(i \<mapsto> (p, True))) k = Some (q, True)} = insert p {q. \<exists>k. obs k = Some (q, True)}"
    using assms(2) by (auto split: if_splits) (metis option.distinct(1))
  then show ?thesis
    using assms unfolding owns_def by (auto split: if_splits)
qed

lemma owns_close:
  assumes "owns obs ps" and "obs i = Some (p, True)"
  shows "owns (obs(i \<mapsto> (p, False))) (removeAll p ps)"
proof -
  have "{q. \<exists>k. (obs(i \<mapsto> (p, False))) k = Some (q, True)} = {q. \<exists>k. obs k = Some (q, True)} - {p}"
    using assms unfolding owns_def by (auto split: if_splits) (metis option.inject prod.inject)
  then show ?thesis
    using assms unfolding owns_def by (auto split: if_splits)
qed

definition binv :: "'b bworld \<Rightarrow> bool" where
  "binv w \<longleftrightarrow> calls_ok (benv w) \<and> 0 \<le> cstrings (beng w) \<and>
     owns (bobjs w) (builders (beng w)) \<and> owns (hobjs w) (handles (beng w))"

text \<open>A call that changes neither the builders nor the handles.\<close>

lemma binv_quiet:
  assumes "binv w" and "env_kept (benv w) e'" and "builders E' = builders (beng w)" and "handles E' = handles (beng w)"
    and "cstrings (beng w) \<le> cstrings E'"
  shows "binv (w\<lparr>beng := E', benv := handled e'\<rparr>)"
  using assms by (auto simp: binv_def calls_ok_def env_kept_def env_to_def handled_def)

lemma binvD: "binv w \<Longrightarrow> pending (benv w) = None"
  "binv w \<Longrightarrow> bobjs w i = Some (p, True) \<Longrightarrow> p \<in> set (builders (beng w)) \<and> p \<noteq> 0"
  "binv w \<Longrightarrow> hobjs w i = Some (p, True) \<Longrightarrow> p \<in> set (handles (beng w)) \<and> p \<noteq> 0"
  using owns_mem by (auto simp: binv_def calls_ok_def)

lemma bstep_inv: "bstep w w' \<Longrightarrow> binv w \<Longrightarrow> binv w'"
proof (induction rule: bstep.induct)
  case (new_builder w i jc B J p E' e')
  obtain c where c: "(p, E') = created B c (beng w)" "env_kept (benv w) e'"
    using wp_run [OF initBuilder_wp [OF binvD(1) [OF new_builder(6)] new_builder(2)] new_builder(4)] new_builder(5) by auto
  have "p \<notin> insert 0 (set (builders (beng w)))"
    using c(1) new_builder(3) [of "config_spec c"] by (auto simp: created_def Let_def split: prod.splits)
  from owns_new [where obs = "bobjs w" and i = i, OF _ new_builder(1) this] show ?case
    using new_builder(5,6) c by (auto simp: binv_def calls_ok_def created_def Let_def env_kept_def env_to_def split: prod.splits)
next
  case (new_builder_throws jc J B w p E' e')
  show ?case
    using wp_run [OF initBuilder_wp [OF binvD(1) [OF new_builder_throws(4)] new_builder_throws(1)] new_builder_throws(2)]
      new_builder_throws(3,4)
    by (intro binv_quiet) auto
next
  case (add w i p L v B J W G D str res slot E' e')
  have p: "p = 0 \<or> p \<in> set (builders (beng w))"
    using binvD(2) [OF add(6,1)] by simp
  show ?case
    using wp_run [OF addOrUpdate_wp [OF add(2,3) binvD(1) [OF add(6)] p add(4)] add(5)] add(6)
    by (intro binv_quiet) (auto simp: added_def)
next
  case (remove w i p J B str res E' e')
  have p: "p = 0 \<or> p \<in> set (builders (beng w))"
    using binvD(2) [OF remove(3,1)] by simp
  show ?case
    using wp_run [OF removeConfig_wp [OF binvD(1) [OF remove(3)] p] remove(2)] remove(3)
    by (intro binv_quiet) (auto simp: removed_def Let_def split: prod.splits)
next
  case (build w i p j B J m h E' e')
  have p: "p = 0 \<or> p \<in> set (builders (beng w))"
    using binvD(2) [OF build(5,1)] by simp
  obtain h' rs where b: "bl_build B p (ruleset (beng w)) = (h', rs)"
    by force
  note r = wp_run [OF buildInstance_wp [OF binvD(1) [OF build(5)] p b] build(4)]
  then have h: "h = h'" "h \<notin> insert 0 (set (handles (beng w)))"
    using build(3) b by auto
  from owns_new [where obs = "hobjs w" and i = j, OF _ build(2) h(2)] show ?case
    using r build(3,5) b h by (auto simp: binv_def calls_ok_def handled_def env_kept_def env_to_def)
next
  case (build_fails w i p B J m E' e')
  have p: "p = 0 \<or> p \<in> set (builders (beng w))"
    using binvD(2) [OF build_fails(4,1)] by simp
  obtain h' rs where b: "bl_build B p (ruleset (beng w)) = (h', rs)"
    by force
  show ?case
    using wp_run [OF buildInstance_wp [OF binvD(1) [OF build_fails(4)] p b] build_fails(3)] build_fails(2,4) b
    by (intro binv_quiet) auto
next
  case (close_builder w i p E' e')
  show ?case
    using wp_run [OF destroy_wp(2) close_builder(2)] binvD(2) [OF close_builder(3,1)] close_builder(3)
      owns_close [where obs = "bobjs w" and i = i, OF _ close_builder(1)] by (auto simp: binv_def calls_ok_def)
next
  case (known_addresses w j h F B r e')
  show ?case
    using wp_run [OF known_wp(1) known_addresses(2)] binvD(1) [OF known_addresses(3)] binvD(3) [OF known_addresses(3,1)]
      binv_quiet [OF known_addresses(3), of e' "beng w"] by simp
next
  case (known_actions w j h F B r e')
  show ?case
    using wp_run [OF known_wp(2) known_actions(2)] binvD(1) [OF known_actions(3)] binvD(3) [OF known_actions(3,1)]
      binv_quiet [OF known_actions(3), of e' "beng w"] by simp
next
  case (close_handle w j h E' e')
  show ?case
    using wp_run [OF destroy_wp(1) close_handle(2)] binvD(3) [OF close_handle(3,1)] close_handle(3)
      owns_close [where obs = "hobjs w" and i = j, OF _ close_handle(1)] by (auto simp: binv_def calls_ok_def)
qed

lemma binv0: "binv (bworld0 rs)"
  by (simp add: binv_def calls_ok_def bworld0_def owns_empty env0_def heap_ok_def heap0_def)

subsection \<open>Properties\<close>

text \<open>An engine that keeps the configurations by their names, and rejects none.\<close>

definition sample_builder_lib :: "(byte list \<times> ddwaf_object) list builder_lib" where
  "sample_builder_lib = \<lparr>bl_init = (\<lambda>c s. (1, s)), bl_add = (\<lambda>b k ob s. (True, DdwafObject [] (DDWAF_OBJ_MAP []), (k, ob) # s)),
     bl_remove = (\<lambda>b k s. (True, filter (\<lambda>x. fst x \<noteq> k) s)), bl_build = (\<lambda>b s. (2, s)),
     bl_known_addresses = (\<lambda>h s. None), bl_known_actions = (\<lambda>h s. None), bl_version = [49]\<rparr>"

definition sample_engine0 :: "(byte list \<times> ddwaf_object) list engine" where
  "sample_engine0 = \<lparr>builders = [], handles = [], cstrings = 0, ruleset = []\<rparr>"

definition sample_engine1 :: "(byte list \<times> ddwaf_object) list engine" where
  "sample_engine1 = sample_engine0\<lparr>builders := [1]\<rparr>"

lemma sample_new_builder:
  "\<exists>w. bstep\<^sup>*\<^sup>* (bworld0 []) (w :: (byte list \<times> ddwaf_object) list bworld) \<and> bobjs w = [0 \<mapsto> (1, True)] \<and> hobjs w = Map.empty"
proof -
  let ?start = "bworld0 [] :: (byte list \<times> ddwaf_object) list bworld"
  obtain p E' e' where r: "run_state (initBuilder calm_jvm sample_builder_lib (Some (None, None)) (beng ?start)) (benv ?start) = ((p, E'), e')"
    by (metis surj_pair)
  have "pending (benv ?start) = None"
    by (simp add: bworld0_def env0_def)
  from wp_run [OF initBuilder_wp [OF this] r] have "pending e' = None" "p = 1"
    by (auto simp: created_def sample_builder_lib_def split: if_splits)
  with bstep.new_builder [OF _ _ _ r, of 0]
  have "bstep ?start (?start\<lparr>bobjs := (bobjs ?start)(0 \<mapsto> (1, True)), beng := E', benv := e'\<rparr>)" (is "bstep _ ?w")
    by (simp add: bworld0_def sample_builder_lib_def)
  then show ?thesis
    by (intro exI [of _ ?w]) (simp add: bworld0_def r_into_rtranclp)
qed

text \<open>
  C31. Adding a configuration: either the engine is not called, nothing changes and the call returns
  \<^verbatim>\<open>false\<close>, which does not happen when the builder exists and nothing fails; or the engine of this builder, and only it, is given the
  configuration, converted within a depth of 20 and a million elements and characters of a string, under the name of the
  path, which is the path itself when it consists of ASCII characters. Then the result is that of
  the engine, and its diagnostics are stored for the caller, unless an exception says that they could not be converted.
\<close>

theorem addOrUpdateConfig_correct:
  assumes "object_lib_doc L" and "good_value v" and "pending e = None" and "ptr = 0 \<or> ptr \<in> set (builders E)"
    and "diagnostics_ok (fst (snd (bl_add B ptr (path_key str) (config_object v) (ruleset E))))"
    and "run_state (addOrUpdateConfigNative J W L G D B (Some ptr) (Some str) v E) e = ((result, slot, E'), e')"
  shows "misuse e' = misuse e \<and> weak_refs e' = weak_refs e \<and> (ascii str \<longrightarrow> path_key str = map ucast str) \<and>
     (result = False \<and> slot = None \<and> E' = E \<and> \<not> (all_well J W L \<and> ptr \<noteq> 0) \<or>
      (\<exists>diag rs. bl_add B ptr (path_key str) (config_object v) (ruleset E) = (result, diag, rs) \<and> E' = E\<lparr>ruleset := rs\<rparr> \<and>
        (pending e' = None \<and> diagnostics_spec G D diag = Some slot \<or>
         pending e' \<noteq> None \<and> slot = None \<and> (all_well J W L \<longrightarrow> diagnostics_spec G D diag = None))))"
  using wp_run [OF addOrUpdate_wp [OF assms(1-5)] assms(6)] path_key_ascii
  by (auto simp: added_def env_kept_def env_to_def del: iffCE impCE)

theorem addOrUpdateConfig_correct_witness:
  "ruleset (snd (snd (fst (run_state (addOrUpdateConfigNative calm_jvm sure_globals sure_lib globals0 lib0 sample_builder_lib
      (Some 1) (Some [0x61]) (JV_boolean True) sample_engine1) env0)))) = [([0x61], DdwafObject [] (DDWAF_OBJ_BOOL True))]"
proof -
  obtain result slot E' e' where r: "run_state (addOrUpdateConfigNative calm_jvm sure_globals sure_lib globals0 lib0
      sample_builder_lib (Some 1) (Some [0x61]) (JV_boolean True) sample_engine1) env0 = ((result, slot, E'), e')"
    by (metis surj_pair)
  have "config_object (JV_boolean True) = DdwafObject [] (DDWAF_OBJ_BOOL True)"
    by (simp add: config_object_def to_ddwaf.simps)
  moreover have "path_key [0x61] = [0x61]"
    by (simp add: path_key_ascii ascii_def)
  ultimately have "ruleset E' = [([0x61], DdwafObject [] (DDWAF_OBJ_BOOL True))]"
    using addOrUpdateConfig_correct [OF _ _ _ _ _ r]
    by (simp add: sample_engine1_def sample_engine0_def sample_builder_lib_def diagnostics_ok_def good_value.simps env0_def)
  then show ?thesis
    by (simp only: r fst_conv snd_conv)
qed

end
