(* ===== verification/System.thy ===== *)
theory System
  imports Builder
begin

text \<open>
  The composition of \<open>Builder\<close> and \<open>Contexts\<close>: builders, handles and contexts are used together, over one environment. A context
  is created from the pointer in a \<^verbatim>\<open>WafHandle\<close>. The constructor of \<^verbatim>\<open>WafContext.java\<close> does not ask whether the handle is
  still online, nor does \<^verbatim>\<open>initWafContext\<close>; it is up to the caller to be \<open>careful\<close>.
\<close>

subsection \<open>One step of the system\<close>

text \<open>The pointers with which a context can be created: \<^verbatim>\<open>close\<close> does not reset the one in the object.\<close>

definition given_handles :: "bool \<Rightarrow> 'b bworld \<Rightarrow> nat set" where
  "given_handles careful b = {h. \<exists>j on. hobjs b j = Some (h, on) \<and> (careful \<longrightarrow> on)}"

text \<open>
  A context of the engine keeps what it needs of its handle, so that the handle may be destroyed before it; a context is only
  lost when it is destroyed itself.
\<close>

inductive sstep :: "bool \<Rightarrow> ('z waf \<Rightarrow> bool) \<Rightarrow> 'b bworld \<times> world \<Rightarrow> 'b bworld \<times> world \<Rightarrow> bool" for careful ok where
  library_call: "bstep b b' \<Longrightarrow> sstep careful ok (b, w) (b', w\<lparr>wenv := benv b'\<rparr>)"
| context_call: "wstep ok (given_handles careful b) (handles (beng b)) w w' \<Longrightarrow>
    sstep careful ok (b, w) (b\<lparr>benv := wenv w'\<rparr>, w')"

definition system0 :: "'b \<Rightarrow> 'b bworld \<times> world" where
  "system0 rs = (bworld0 rs, world0)"

subsection \<open>The invariant\<close>

definition sinv :: "'b bworld \<times> world \<Rightarrow> bool" where
  "sinv = (\<lambda>(b, w). binv b \<and> world_inv w \<and> wenv w = benv b)"

lemma sinv0: "sinv (system0 rs)"
  using binv0 [of rs] world0_inv by (simp add: sinv_def system0_def bworld0_def world0_def)

lemma given_exist: "binv b \<Longrightarrow> given_handles True b \<subseteq> insert 0 (set (handles (beng b)))"
  by (auto simp: given_handles_def dest: binvD(3))

lemma binv_env: "binv b \<Longrightarrow> calls_ok e \<Longrightarrow> binv (b\<lparr>benv := e\<rparr>)"
  by (simp add: binv_def)

lemma world_inv_calls: "world_inv w \<Longrightarrow> calls_ok e \<Longrightarrow> world_inv (w\<lparr>wenv := e\<rparr>)"
  unfolding world_inv_def by auto

lemma world_inv_calls_ok: "world_inv w \<Longrightarrow> calls_ok (wenv w)"
  by (simp only: world_inv_def)

lemma sstep_inv:
  assumes "sstep True ok s s'" and "sinv s" and "\<And>F. ok F \<Longrightarrow> sane F"
  shows "sinv s'"
  using assms(1)
proof cases
  case (library_call b b' w)
  then have "binv b'"
    using assms(2) bstep_inv by (auto simp: sinv_def)
  then show ?thesis
    using library_call assms(2) world_inv_calls [of w "benv b'"] by (simp add: sinv_def binv_def)
next
  case (context_call b w w')
  have "binv b" "world_inv w"
    using assms(2) context_call(1) by (simp_all add: sinv_def)
  with wstep_inv [OF context_call(3) _ assms(3) given_exist] have "world_inv w'"
    by blast
  then show ?thesis
    using context_call(2) binv_env [OF \<open>binv b\<close> world_inv_calls_ok] by (simp add: sinv_def)
qed

lemma reachable_sinv:
  assumes "(sstep True ok)\<^sup>*\<^sup>* (system0 rs) s" and "\<And>F. ok F \<Longrightarrow> sane F"
  shows "sinv s"
  using assms(1)
proof induction
  case base
  show ?case
    by (rule sinv0)
next
  case (step s s')
  show ?case
    by (rule sstep_inv [OF step(2,3) assms(2)])
qed

subsection \<open>Closing everything\<close>

lemma sstep_no_leak:
  assumes "sstep True ok s s'" and "sinv s" and "no_leak (snd s)" and "\<And>F. ok F \<Longrightarrow> calm (jv F)"
  shows "no_leak (snd s')"
  using assms(1)
proof cases
  case (library_call b b' w)
  have "no_leak w"
    using assms(3) library_call(1) by simp
  then show ?thesis
    unfolding library_call(2) by (simp add: no_leak_def online_objs_def)
next
  case (context_call b w w')
  have "world_inv w" "no_leak w"
    using assms(2,3) context_call(1) by (simp_all add: sinv_def)
  from wstep_no_leak [where ok = ok, OF context_call(3) this assms(4)] show ?thesis
    by (simp add: context_call(2))
qed

lemma reachable_system_no_leak:
  assumes "(sstep True ok)\<^sup>*\<^sup>* (system0 rs) s" and "\<And>F. ok F \<Longrightarrow> sane F" and "\<And>F. ok F \<Longrightarrow> calm (jv F)"
  shows "no_leak (snd s)"
  using assms(1)
proof induction
  case base
  then show ?case
    using world0_no_leak by (simp add: system0_def)
next
  case (step s s')
  then show ?case
    using sstep_no_leak [OF step(2) reachable_sinv [OF step(1) assms(2)] _ assms(3)] by blast
qed

text \<open>The steps of the two parts are steps of the system.\<close>

lemma lift_library:
  assumes "bstep\<^sup>*\<^sup>* b b'" and "wenv w = benv b"
  shows "(sstep careful ok)\<^sup>*\<^sup>* (b, w) (b', w\<lparr>wenv := benv b'\<rparr>)"
  using assms(1)
proof induction
  case base
  have "w\<lparr>wenv := benv b\<rparr> = w"
    using assms(2) [symmetric] by simp
  then show ?case
    by simp
next
  case (step b1 b2)
  have "sstep careful ok (b1, w\<lparr>wenv := benv b1\<rparr>) (b2, w\<lparr>wenv := benv b2\<rparr>)"
    using sstep.library_call [OF step(2), of careful ok "w\<lparr>wenv := benv b1\<rparr>"] by simp
  with step(3) show ?case
    by (rule rtranclp.rtrancl_into_rtrancl)
qed

lemma lift_contexts:
  assumes "(wstep ok (given_handles careful b) (handles (beng b)))\<^sup>*\<^sup>* w w'" and "wenv w = benv b"
  shows "(sstep careful ok)\<^sup>*\<^sup>* (b, w) (b\<lparr>benv := wenv w'\<rparr>, w')"
  using assms(1)
proof induction
  case base
  then show ?case
    using assms(2) by simp
next
  case (step w1 w2)
  have "given_handles careful (b\<lparr>benv := wenv w1\<rparr>) = given_handles careful b"
    by (simp add: given_handles_def)
  then have "sstep careful ok (b\<lparr>benv := wenv w1\<rparr>, w1) (b\<lparr>benv := wenv w2\<rparr>, w2)"
    using sstep.context_call [of ok careful "b\<lparr>benv := wenv w1\<rparr>" w1 w2] step(2) by simp
  with step(3) show ?case
    by (rule rtranclp.rtrancl_into_rtrancl)
qed

lemma owner: "owns obs ps \<Longrightarrow> p \<in> set ps \<Longrightarrow> \<exists>i. obs i = Some (p, True)"
  by (auto simp: owns_def)

lemma card_removeAll: "p \<in> set ps \<Longrightarrow> card (set (removeAll p ps)) < card (set ps)"
  by (metis List.finite_set card_Diff1_less set_removeAll)

lemma close_handles:
  "binv b \<Longrightarrow> \<exists>b'. bstep\<^sup>*\<^sup>* b b' \<and> binv b' \<and> handles (beng b') = []"
proof (induction "card (set (handles (beng b)))" arbitrary: b rule: less_induct)
  case less
  show ?case
  proof (cases "handles (beng b)")
    case (Cons h hs)
    then have h: "h \<in> set (handles (beng b))"
      by simp
    then obtain j where j: "hobjs b j = Some (h, True)"
      using owner [OF _ h, of "hobjs b"] less(2) by (auto simp: binv_def)
    have r: "run_state (destroyWafHandle h (beng b)) (benv b) = ((beng b)\<lparr>handles := removeAll h (handles (beng b))\<rparr>, benv b)"
      using h by (simp add: destroyWafHandle_def ddwaf_destroy_def must_exist_def)
    from bstep.close_handle [OF j r] obtain b1 where b1: "bstep b b1" "handles (beng b1) = removeAll h (handles (beng b))"
      by auto
    from less(1) [of b1] b1 card_removeAll [OF h] bstep_inv [OF b1(1) less(2)] show ?thesis
      by (auto intro: converse_rtranclp_into_rtranclp)
  qed (use less(2) in auto)
qed

lemma close_builders:
  "binv b \<Longrightarrow> handles (beng b) = [] \<Longrightarrow> \<exists>b'. bstep\<^sup>*\<^sup>* b b' \<and> handles (beng b') = [] \<and> builders (beng b') = []"
proof (induction "card (set (builders (beng b)))" arbitrary: b rule: less_induct)
  case less
  show ?case
  proof (cases "builders (beng b)")
    case (Cons p ps)
    then have p: "p \<in> set (builders (beng b))"
      by simp
    then obtain i where i: "bobjs b i = Some (p, True)"
      using owner [OF _ p, of "bobjs b"] less(2) by (auto simp: binv_def)
    have r: "run_state (destroyBuilder p (beng b)) (benv b) = ((beng b)\<lparr>builders := removeAll p (builders (beng b))\<rparr>, benv b)"
      using p by (simp add: destroyBuilder_def must_exist_def)
    from bstep.close_builder [OF i r] obtain b1 where b1: "bstep b b1" "builders (beng b1) = removeAll p (builders (beng b))"
      "handles (beng b1) = handles (beng b)"
      by auto
    from less(1) [of b1] b1 card_removeAll [OF p] bstep_inv [OF b1(1) less(2)] less(3) show ?thesis
      by (auto intro: converse_rtranclp_into_rtranclp)
  qed (use less(3) in auto)
qed

subsection \<open>A handle in use\<close>

lemma sample_handle:
  "\<exists>b. bstep\<^sup>*\<^sup>* (bworld0 []) (b :: (byte list \<times> ddwaf_object) list bworld) \<and> hobjs b = [0 \<mapsto> (2, True)]"
proof -
  obtain b1 where b1: "bstep\<^sup>*\<^sup>* (bworld0 []) (b1 :: (byte list \<times> ddwaf_object) list bworld)" "bobjs b1 = [0 \<mapsto> (1, True)]"
      "hobjs b1 = Map.empty"
    using sample_new_builder by blast
  have inv: "binv b1"
    using b1(1) by induction (auto intro: binv0 bstep_inv)
  then have "owns (hobjs b1) (handles (beng b1))"
    by (simp add: binv_def)
  then have p: "1 \<in> set (builders (beng b1))" "handles (beng b1) = []" "pending (benv b1) = None"
    using binvD(2) [OF inv] b1(2) binvD(1) [OF inv] by (simp_all add: owns_def b1(3))
  let ?m = some_meth
  obtain r E' e' where r: "run_state (buildInstance calm_jvm ?m sample_builder_lib 1 (beng b1)) (benv b1) = ((r, E'), e')"
    by (metis surj_pair)
  have bl: "bl_build sample_builder_lib 1 (ruleset (beng b1)) = (2, ruleset (beng b1))"
    by (simp add: sample_builder_lib_def)
  have "calm calm_jvm" "ready ?m"
    by (simp_all add: some_meth_def ready_def)
  then have "r = Some 2"
    using wp_run [OF buildInstance_wp [OF p(3) _ bl] r] p(1,2) by simp
  with r have r: "run_state (buildInstance calm_jvm ?m sample_builder_lib 1 (beng b1)) (benv b1) = ((Some 2, E'), e')"
    by simp
  have "bstep b1 (b1\<lparr>hobjs := (hobjs b1)(0 \<mapsto> (2, True)), beng := E', benv := handled e'\<rparr>)" (is "bstep _ ?b")
    by (rule bstep.build [OF _ _ _ r, of 0]) (simp_all add: b1(2,3) p(2))
  with b1(1) have "bstep\<^sup>*\<^sup>* (bworld0 []) ?b"
    by (rule rtranclp.rtrancl_into_rtrancl)
  then show ?thesis
    by (intro exI [of _ ?b]) (simp add: b1(3))
qed

abbreviation sample_only :: "byte list waf \<Rightarrow> bool" where
  "sample_only \<equiv> \<lambda>F. F = sample_waf"

lemma sample_system:
  "\<exists>b w. (sstep True sample_only)\<^sup>*\<^sup>* (system0 []) (b :: (byte list \<times> ddwaf_object) list bworld, w) \<and>
     hobjs b = [0 \<mapsto> (2, True)] \<and> objs w = [0 \<mapsto> \<lparr>ctx_ptr = 2, ctx_online = True\<rparr>]"
proof -
  obtain b where b: "bstep\<^sup>*\<^sup>* (bworld0 []) (b :: (byte list \<times> ddwaf_object) list bworld)" "hobjs b = [0 \<mapsto> (2, True)]"
    using sample_handle by blast
  have inv: "binv b"
    using b(1) by induction (auto intro: binv0 bstep_inv)
  have h: "2 \<in> set (handles (beng b))" "pending (benv b) = None" "2 \<in> given_handles True b"
    using binvD(1,3) [OF inv] b(2) by (auto simp: given_handles_def)
  let ?w = "world0\<lparr>wenv := benv b\<rparr>"
  have "run_state (initWafContext sample_waf (handles (beng b)) (Some 2)) (wenv ?w) = (2, benv b)"
    using h by (simp add: initWafContext_def get_pwaf_handle_checked_def must_exist_def sample_waf_def Let_def)
  from wstep.create [OF _ _ _ _ this, of sample_only "given_handles True b" 0]
  have "wstep sample_only (given_handles True b) (handles (beng b)) ?w
    (?w\<lparr>objs := [0 \<mapsto> \<lparr>ctx_ptr = 2, ctx_online = True\<rparr>], live_ctxs := [2], wenv := benv b\<rparr>)" (is "wstep _ _ _ _ ?w'")
    using h by (simp add: world0_def sample_waf_def)
  from sstep.context_call [OF this]
  have "sstep True sample_only (b, ?w) (b\<lparr>benv := wenv ?w'\<rparr>, ?w')" .
  moreover have "(sstep True sample_only)\<^sup>*\<^sup>* (system0 []) (b, ?w)"
    using lift_library [OF b(1), of world0] by (simp add: system0_def world0_def bworld0_def)
  ultimately have "(sstep True sample_only)\<^sup>*\<^sup>* (system0 []) (b\<lparr>benv := wenv ?w'\<rparr>, ?w')"
    by (rule rtranclp.rtrancl_into_rtrancl [rotated])
  with b(2) show ?thesis
    by (intro exI [of _ "b\<lparr>benv := wenv ?w'\<rparr>"] exI [of _ ?w']) simp
qed

text \<open>
  A context that is created with a \<^verbatim>\<open>WafHandle\<close> that has been closed uses a handle that the engine has destroyed.
\<close>

lemma initWafContext_closed_handle:
  assumes "h \<noteq> 0" and "h \<notin> set hs"
  shows "misuse (snd (run_state (initWafContext F hs (Some h)) e))"
  using assms
  by (simp add: initWafContext_def get_pwaf_handle_checked_def must_exist_def undefined_behaviour_def ThrowNew_def JNI_call_def Let_def
      split: option.split)

theorem closed_handle_used:
  "\<exists>b w. (sstep False sample_only)\<^sup>*\<^sup>* (system0 []) (b :: (byte list \<times> ddwaf_object) list bworld, w) \<and> misuse (wenv w)"
proof -
  obtain b where b: "bstep\<^sup>*\<^sup>* (bworld0 []) (b :: (byte list \<times> ddwaf_object) list bworld)" "hobjs b = [0 \<mapsto> (2, True)]"
    using sample_handle by blast
  have inv: "binv b"
    using b(1) by induction (auto intro: binv0 bstep_inv)
  have h: "2 \<in> set (handles (beng b))"
    using binvD(3) [OF inv] b(2) by auto
  have "run_state (destroyWafHandle 2 (beng b)) (benv b) = ((beng b)\<lparr>handles := removeAll 2 (handles (beng b))\<rparr>, benv b)"
    using h by (simp add: destroyWafHandle_def ddwaf_destroy_def must_exist_def)
  from bstep.close_handle [OF _ this, of 0] b(2) obtain b1 where b1: "bstep b b1" "hobjs b1 = [0 \<mapsto> (2, False)]"
    "2 \<notin> set (handles (beng b1))" "benv b1 = benv b"
    by auto
  let ?w = "world0\<lparr>wenv := benv b1\<rparr>"
  have "bstep\<^sup>*\<^sup>* (bworld0 []) b1"
    using b(1) b1(1) by (rule rtranclp.rtrancl_into_rtrancl)
  then have r: "(sstep False sample_only)\<^sup>*\<^sup>* (system0 []) (b1, ?w)"
    using lift_library [of "bworld0 []" b1 world0 False sample_only] by (simp add: system0_def world0_def bworld0_def)
  have given: "2 \<in> given_handles False b1"
    using b1(2) by (auto simp: given_handles_def)
  have init: "ddwaf_context_init sample_waf 2 = 2"
    by (simp add: sample_waf_def)
  let ?e = "(benv b1)\<lparr>misuse := True\<rparr>"
  have "run_state (initWafContext sample_waf (handles (beng b1)) (Some 2)) (wenv ?w) = (2, ?e)"
    using b1(3) by (simp add: initWafContext_def get_pwaf_handle_checked_def must_exist_def undefined_behaviour_def sample_waf_def Let_def)
  from wstep.create [OF _ _ _ _ this, of sample_only "given_handles False b1" 0]
  have "wstep sample_only (given_handles False b1) (handles (beng b1)) ?w
    (?w\<lparr>objs := [0 \<mapsto> \<lparr>ctx_ptr = 2, ctx_online = True\<rparr>], live_ctxs := [2], wenv := ?e\<rparr>)" (is "wstep _ _ _ _ ?w'")
    using b1(4) given init binvD(1) [OF inv] by (simp add: world0_def)
  from r sstep.context_call [OF this] have "(sstep False sample_only)\<^sup>*\<^sup>* (system0 []) (b1\<lparr>benv := wenv ?w'\<rparr>, ?w')"
    by (rule rtranclp.rtrancl_into_rtrancl)
  then show ?thesis
    by (intro exI [of _ "b1\<lparr>benv := wenv ?w'\<rparr>"] exI [of _ ?w']) simp
qed

subsection \<open>Properties\<close>





end
