(* ===== verification/Debug_Helpers.thy ===== *)
theory Debug_Helpers
  imports Jni "HOL-Library.Sublist"
begin

text \<open>
  The printer of \<^verbatim>\<open>src/main/c/debug_helpers.c\<close>: a growing string (\<^verbatim>\<open>hstring\<close>), the recursive
  listing of an engine object with its cutoff, and \<^verbatim>\<open>pwArgsBufferToString\<close>. The listing is compared
  with the preorder sequence of the nodes of the object, one line each. A byte of a buffer that was
  allocated and not yet written is \<open>None\<close>.
\<close>

subsection \<open>Printing a double with \<^verbatim>\<open>%.18e\<close>\<close>

text \<open>
  The value is \<open>m * 2 ^ e\<close> and is the fraction of the two numbers below; \<open>exp10\<close> is its decimal exponent, and
  the digits are rounded to the nearest, ties to even, as the C library does in its default
  rounding mode.
\<close>

definition dbl_exponent :: "64 word \<Rightarrow> nat" where
  "dbl_exponent w = unat w div 2 ^ 52 mod 2 ^ 11"

definition dbl_negative :: "64 word \<Rightarrow> bool" where
  "dbl_negative w = (2 ^ 63 \<le> unat w)"

definition dbl_fraction :: "64 word \<Rightarrow> nat \<times> nat" where
  "dbl_fraction w = (
     let ex = dbl_exponent w; frac = unat w mod 2 ^ 52;
       m = (if ex = 0 then frac else 2 ^ 52 + frac); e = max 1 ex
     in (m * 2 ^ (e - 1075), 2 ^ (1075 - e)))"

definition exp10 :: "nat \<Rightarrow> nat \<Rightarrow> int" where
  "exp10 num den =
     (if num = 0 then 0
      else if den \<le> num then int (length (dec_nat (num div den))) - 1
      else - int (length (dec_nat ((den - 1) div num))))"

definition round_half_even :: "nat \<Rightarrow> nat \<Rightarrow> nat" where
  "round_half_even num den = (
     let q = num div den; r = num mod den
     in if den < 2 * r \<or> den = 2 * r \<and> odd q then q + 1 else q)"

definition sci_digits :: "nat \<Rightarrow> nat \<Rightarrow> nat \<times> int" where
  "sci_digits num den = (
     let d = exp10 num den; k = round_half_even (num * 10 ^ nat (18 - d)) (den * 10 ^ nat (d - 18))
     in if k = 10 ^ 19 then (10 ^ 18, d + 1) else (k, d))"

definition dec_padded :: "nat \<Rightarrow> nat \<Rightarrow> byte list" where
  "dec_padded n k = replicate (n - length (dec_nat k)) 48 @ dec_nat k"

definition snprintf_18e :: "64 word \<Rightarrow> byte list" where
  "snprintf_18e w = (if dbl_negative w then cstr ''-'' else []) @
     (if dbl_exponent w = 2047 then (if unat w mod 2 ^ 52 = 0 then cstr ''inf'' else cstr ''nan'')
      else (case dbl_fraction w of (num, den) \<Rightarrow>
        (case sci_digits num den of (k, d) \<Rightarrow>
          (case dec_padded 19 k of
             [] \<Rightarrow> []
           | c # cs \<Rightarrow> c # cstr ''.'' @ cs @ cstr (if d < 0 then ''e-'' else ''e+'') @ dec_padded 2 (nat \<bar>d\<bar>)))))"

subsection \<open>The growing string\<close>

text \<open>\<open>hs_tick\<close> counts the allocations.\<close>

record hstring =
  hs_buffer :: "byte option list"
  hs_capacity :: "64 word"
  hs_offset :: "64 word"
  hs_tick :: nat

definition INITIAL_CAPACITY :: "64 word" where "INITIAL_CAPACITY = 16"

definition realloc_bytes :: "nat \<Rightarrow> byte option list \<Rightarrow> byte option list" where
  "realloc_bytes n bs = take n bs @ replicate (n - length bs) None"

definition hstring_ensure_extra_capacity :: "allocator \<Rightarrow> 64 word \<Rightarrow> hstring \<Rightarrow> bool \<times> hstring" where
  "hstring_ensure_extra_capacity alloc data_size s = (
     let left = hs_capacity s - hs_offset s in
     if left < data_size then
       let new_capacity = max (hs_capacity s * 2) (hs_capacity s + data_size) in
       if new_capacity < hs_capacity s then (False, s)
       else if \<not> alloc (hs_tick s) (unat new_capacity) then (False, s\<lparr>hs_tick := hs_tick s + 1\<rparr>)
       else (True, s\<lparr>hs_tick := hs_tick s + 1,
                     hs_buffer := realloc_bytes (unat new_capacity) (hs_buffer s),
                     hs_capacity := new_capacity\<rparr>)
     else (True, s))"

text \<open>\<^verbatim>\<open>memcpy\<close> to the position \<open>i\<close> of a buffer: \<open>None\<close> when it leaves the buffer.\<close>

definition memcpy_to :: "nat \<Rightarrow> byte list \<Rightarrow> byte option list \<Rightarrow> byte option list option" where
  "memcpy_to i data buf =
     (if i + length data \<le> length buf then Some (take i buf @ map Some data @ drop (i + length data) buf)
      else None)"

definition hstring_append :: "allocator \<Rightarrow> byte list \<Rightarrow> hstring \<Rightarrow> hstring option" where
  "hstring_append alloc data s = (
     let data_size = of_nat (length data) in
     if data_size = 0 then Some s
     else (case hstring_ensure_extra_capacity alloc data_size s of
         (False, s) \<Rightarrow> Some s
       | (True, s) \<Rightarrow> do {
           buf \<leftarrow> memcpy_to (unat (hs_offset s)) data (hs_buffer s);
           Some (s\<lparr>hs_buffer := buf, hs_offset := hs_offset s + data_size\<rparr>) }))"

fun fill_loop :: "byte \<Rightarrow> nat \<Rightarrow> nat \<Rightarrow> byte option list \<Rightarrow> byte option list option" where
  "fill_loop c i 0 buf = Some buf"
| "fill_loop c i (Suc n) buf =
     (if i < length buf then fill_loop c (i + 1) n (buf[i := Some c]) else None)"

definition hstring_repeat :: "allocator \<Rightarrow> byte \<Rightarrow> 64 word \<Rightarrow> hstring \<Rightarrow> hstring option" where
  "hstring_repeat alloc c repeat_times s =
     (if repeat_times = 0 then Some s
      else (case hstring_ensure_extra_capacity alloc repeat_times s of
          (False, s) \<Rightarrow> Some s
        | (True, s) \<Rightarrow> do {
            buf \<leftarrow> fill_loop c (unat (hs_offset s)) (unat repeat_times) (hs_buffer s);
            Some (s\<lparr>hs_buffer := buf, hs_offset := hs_offset s + repeat_times\<rparr>) }))"

subsection \<open>The listing\<close>

text \<open>
  The objects as the printer reads them. It tells a null \<^verbatim>\<open>parameterName\<close> from an empty one, and
  it has a case for types that it does not know.
\<close>

datatype pwargs = Pwargs (pw_name: "byte list option") (pw_value: pw_value)
and pw_value =
    PW_INVALID
  | PW_NULL
  | PW_SIGNED "64 word"
  | PW_UNSIGNED "64 word"
  | PW_FLOAT "64 word"
  | PW_BOOL bool
  | PW_STRING "byte list"
  | PW_ARRAY "pwargs list"
  | PW_MAP "pwargs list"
  | PW_UNKNOWN

text \<open>\<^verbatim>\<open>snprintf\<close> to a buffer of \<open>n\<close> bytes, whose result is used only when it was not cut off.\<close>

definition append_number :: "allocator \<Rightarrow> nat \<Rightarrow> byte list \<Rightarrow> hstring \<Rightarrow> hstring option" where
  "append_number alloc n printed s =
     (let len = length printed in if len < n then hstring_append alloc (take (n - 1) printed) s else Some s)"

fun write_each :: "('x \<Rightarrow> 's \<Rightarrow> 's option) \<Rightarrow> 'x list \<Rightarrow> 's \<Rightarrow> 's option" where
  "write_each body [] s = Some s"
| "write_each body (x # xs) s = do { s \<leftarrow> body x s; write_each body xs s }"

lemma write_each_cong [fundef_cong]:
  "xs = ys \<Longrightarrow> s = t \<Longrightarrow> (\<And>x u. x \<in> set ys \<Longrightarrow> f x u = g x u) \<Longrightarrow> write_each f xs s = write_each g ys t"
proof (induction xs arbitrary: ys s t)
  case (Cons x xs)
  have "f x t = g x t"
    using Cons.prems(1) by (intro Cons.prems(3)) auto
  moreover have "write_each f xs = write_each g xs"
    using Cons.prems(1) by (intro ext Cons.IH Cons.prems(3)) auto
  ultimately show ?case
    using Cons.prems(1,2) by auto
qed auto

lemma size_pwargs_entry [simp]: "el \<in> set es \<Longrightarrow> size el < Suc (Suc (size_list size es + n))"
  using size_list_estimation' [of el es "size el" size] by simp

function hstring_write_pwargs :: "allocator \<Rightarrow> nat \<Rightarrow> pwargs \<Rightarrow> hstring \<Rightarrow> hstring option" where
  "hstring_write_pwargs alloc depth pwargs s =
     (if 25 < depth then Some s
      else do {
        s \<leftarrow> hstring_repeat alloc 0x20 (of_nat depth * 2) s;
        s \<leftarrow> (case pw_name pwargs of
            None \<Rightarrow> Some s
          | Some nm \<Rightarrow> do { s \<leftarrow> hstring_append alloc nm s; hstring_append alloc (cstr '': '') s });
        (case pw_value pwargs of
          PW_INVALID \<Rightarrow> hstring_append alloc (cstr ''<INVALID>'' @ [10]) s
        | PW_NULL \<Rightarrow> hstring_append alloc (cstr ''<NULL>'' @ [10]) s
        | PW_SIGNED val \<Rightarrow> do {
            s \<leftarrow> hstring_append alloc (cstr ''<SIGNED> '') s;
            s \<leftarrow> append_number alloc 21 (dec_int (sint val)) s;
            hstring_append alloc [10] s }
        | PW_UNSIGNED val \<Rightarrow> do {
            s \<leftarrow> hstring_append alloc (cstr ''<UNSIGNED> '') s;
            s \<leftarrow> append_number alloc 21 (dec_nat (unat val)) s;
            hstring_append alloc [10] s }
        | PW_FLOAT f64 \<Rightarrow> do {
            s \<leftarrow> hstring_append alloc (cstr ''<FLOAT> '') s;
            s \<leftarrow> append_number alloc 26 (snprintf_18e f64) s;
            hstring_append alloc [10] s }
        | PW_BOOL b \<Rightarrow> do {
            s \<leftarrow> hstring_append alloc (cstr ''<BOOL> '') s;
            (if b then hstring_append alloc (cstr ''true'' @ [10]) s
             else hstring_append alloc (cstr ''false'' @ [10]) s) }
        | PW_STRING str \<Rightarrow> do {
            s \<leftarrow> hstring_append alloc (cstr ''<STRING> '') s;
            s \<leftarrow> hstring_append alloc str s;
            hstring_append alloc [10] s }
        | PW_ARRAY es \<Rightarrow> do {
            s \<leftarrow> hstring_append alloc (cstr ''<ARRAY>'' @ [10]) s;
            write_each (\<lambda>el. hstring_write_pwargs alloc (depth + 1) el) es s }
        | PW_MAP es \<Rightarrow> do {
            s \<leftarrow> hstring_append alloc (cstr ''<MAP>'' @ [10]) s;
            write_each (\<lambda>el. hstring_write_pwargs alloc (depth + 1) el) es s }
        | PW_UNKNOWN \<Rightarrow> hstring_append alloc (cstr ''<UNKNOWN>'' @ [10]) s) })"
  by pat_completeness auto
termination
proof (relation "measure (\<lambda>(alloc, depth, pwargs, s). size pwargs)", goal_cases)
  case (2 alloc depth pwargs s s1 s2 es s3 el)
  then show ?case
    by (cases pwargs) auto
next
  case (3 alloc depth pwargs s s1 s2 es s3 el)
  then show ?case
    by (cases pwargs) auto
qed simp

declare hstring_write_pwargs.simps [simp del]

text \<open>
  \<^verbatim>\<open>pwArgsBufferToString\<close>. The argument is the object at the address of a direct buffer, \<open>None\<close> for a
  buffer that is not direct. Reading a byte that was never written would be an undefined access.
\<close>

definition pwArgsBufferToString :: "jvm \<Rightarrow> pwargs option \<Rightarrow> jobject option jni" where
  "pwArgsBufferToString J byte_buffer =
     (case byte_buffer of
        None \<Rightarrow> do { ThrowNew J (RuntimeException ''Not a DirectBuffer passed''); State_Monad.return None }
      | Some root \<Rightarrow> do {
          ok \<leftarrow> malloc J (unat INITIAL_CAPACITY);
          if \<not> ok then State_Monad.return None
          else do {
            tick \<leftarrow> State (\<lambda>e. (mtick e, e));
            (case hstring_write_pwargs (malloc_ok J) 0 root \<lparr>hs_buffer = replicate (unat INITIAL_CAPACITY) None,
                hs_capacity = INITIAL_CAPACITY, hs_offset = 0, hs_tick = tick\<rparr> of
               None \<Rightarrow> undefined_access
             | Some str \<Rightarrow> do {
                 State (\<lambda>e. ((), e\<lparr>mtick := hs_tick str\<rparr>));
                 (case those (take (unat (hs_offset str)) (hs_buffer str)) of
                    None \<Rightarrow> undefined_access
                  | Some bs \<Rightarrow> new_jstring J bs) }) }})"

subsection \<open>A listing as the sequence of its nodes\<close>

text \<open>
  What the listing should be: the nodes in preorder down to the depth 25, one line each. A line
  is made of the pieces that are appended one by one.
\<close>

fun pw_entries :: "pw_value \<Rightarrow> pwargs list" where
  "pw_entries (PW_ARRAY es) = es"
| "pw_entries (PW_MAP es) = es"
| "pw_entries _ = []"

lemma size_pw_entries [simp]: "el \<in> set (pw_entries (pw_value ob)) \<Longrightarrow> size el < size ob"
  by (cases ob rule: pwargs.exhaust; cases "pw_value ob") auto

function pw_nodes :: "nat \<Rightarrow> pwargs \<Rightarrow> (nat \<times> pwargs) list" where
  "pw_nodes depth ob =
     (if 25 < depth then []
      else (depth, ob) # concat (map (pw_nodes (depth + 1)) (pw_entries (pw_value ob))))"
  by pat_completeness auto
termination
  by (relation "measure (\<lambda>(depth, ob). size ob)") simp_all

declare pw_nodes.simps [simp del]

text \<open>The text of a double that the buffer is too short for is left out.\<close>

fun value_pieces :: "pw_value \<Rightarrow> byte list list" where
  "value_pieces PW_INVALID = [cstr ''<INVALID>'' @ [10]]"
| "value_pieces PW_NULL = [cstr ''<NULL>'' @ [10]]"
| "value_pieces (PW_SIGNED w) = [cstr ''<SIGNED> '', dec_int (sint w), [10]]"
| "value_pieces (PW_UNSIGNED w) = [cstr ''<UNSIGNED> '', dec_nat (unat w), [10]]"
| "value_pieces (PW_FLOAT w) =
     [cstr ''<FLOAT> '', if length (snprintf_18e w) < 26 then snprintf_18e w else [], [10]]"
| "value_pieces (PW_BOOL b) = [cstr ''<BOOL> '', cstr (if b then ''true'' else ''false'') @ [10]]"
| "value_pieces (PW_STRING str) = [cstr ''<STRING> '', str, [10]]"
| "value_pieces (PW_ARRAY es) = [cstr ''<ARRAY>'' @ [10]]"
| "value_pieces (PW_MAP es) = [cstr ''<MAP>'' @ [10]]"
| "value_pieces PW_UNKNOWN = [cstr ''<UNKNOWN>'' @ [10]]"

definition line_pieces :: "nat \<times> pwargs \<Rightarrow> byte list list" where
  "line_pieces node = replicate (2 * fst node) 0x20 #
     (case pw_name (snd node) of None \<Rightarrow> [] | Some nm \<Rightarrow> [nm, cstr '': '']) @ value_pieces (pw_value (snd node))"

definition pieces :: "nat \<Rightarrow> pwargs \<Rightarrow> byte list list" where
  "pieces depth ob = concat (map line_pieces (pw_nodes depth ob))"

definition listing :: "pwargs \<Rightarrow> byte list" where
  "listing ob = concat (map (\<lambda>node. concat (line_pieces node)) (pw_nodes 0 ob))"

lemma concat_map_concat: "concat (concat (map f xs)) = concat (map (\<lambda>x. concat (f x)) xs)"
  by (induction xs) simp_all

lemma concat_pieces: "concat (pieces 0 ob) = listing ob"
  unfolding pieces_def listing_def by (rule concat_map_concat)

subsection \<open>The interface of the string\<close>

text \<open>
  A sink for text: a piece is appended whole or, when memory is short, not at all. The law
  \<open>put_fits\<close> holds of a sink that cannot run out of memory below \<open>2 ^ 62\<close> bytes.
\<close>

locale text_sink =
  fixes inv :: "'s \<Rightarrow> bool" and shown :: "'s \<Rightarrow> byte list" and put :: "byte list \<Rightarrow> 's \<Rightarrow> 's option"
    and reliable :: bool
  assumes put_or_skip: "inv s \<Longrightarrow> length bs < 2 ^ 63 \<Longrightarrow>
      \<exists>s'. put bs s = Some s' \<and> inv s' \<and> (shown s' = shown s @ bs \<or> shown s' = shown s)"
    and put_fits: "inv s \<Longrightarrow> reliable \<Longrightarrow> length (shown s) + length bs \<le> 2 ^ 62 \<Longrightarrow> put bs s = Some s' \<Longrightarrow>
      shown s' = shown s @ bs"
begin

lemma write_pieces:
  assumes "inv s" and "\<And>p. p \<in> set ps \<Longrightarrow> length p < 2 ^ 63"
  shows "\<exists>s' ks. write_each put ps s = Some s' \<and> inv s' \<and> subseq ks ps \<and> shown s' = shown s @ concat ks"
  using assms
proof (induction ps arbitrary: s)
  case (Cons p ps)
  from put_or_skip [OF Cons.prems(1)] Cons.prems(2) obtain s1 where
    s1: "put p s = Some s1" "inv s1" "shown s1 = shown s @ p \<or> shown s1 = shown s" by auto
  from Cons.IH [OF s1(2)] Cons.prems(2) obtain s' ks where
    s': "write_each put ps s1 = Some s'" "inv s'" "subseq ks ps" "shown s' = shown s1 @ concat ks" by auto
  from s1(3) show ?case
  proof
    assume "shown s1 = shown s @ p"
    with s1 s' show ?case by (intro exI [of _ s'] exI [of _ "p # ks"]) simp
  next
    assume "shown s1 = shown s"
    with s1 s' show ?case by (intro exI [of _ s'] exI [of _ ks]) (simp add: list_emb_Cons)
  qed
qed auto

lemma write_pieces_all:
  assumes "inv s" and "reliable" and "length (shown s) + length (concat ps) \<le> 2 ^ 62"
    and "write_each put ps s = Some s'"
  shows "shown s' = shown s @ concat ps"
  using assms
proof (induction ps arbitrary: s)
  case (Cons p ps)
  have "length p < 2 ^ 63"
    using Cons.prems(3) by simp
  from put_or_skip [OF Cons.prems(1) this] obtain s1 where s1: "put p s = Some s1" "inv s1" by auto
  moreover from this have t: "shown s1 = shown s @ p"
    using Cons.prems(3) by (intro put_fits [OF Cons.prems(1,2)]) simp_all
  ultimately have "shown s' = shown s1 @ concat ps"
    using Cons.prems by (intro Cons.IH) simp_all
  with t show ?case by simp
qed simp

end

subsection \<open>The string is such a sink\<close>

definition hstring_inv :: "hstring \<Rightarrow> bool" where
  "hstring_inv s \<longleftrightarrow> length (hs_buffer s) = unat (hs_capacity s) \<and> hs_offset s \<le> hs_capacity s \<and>
     (\<forall>b \<in> set (take (unat (hs_offset s)) (hs_buffer s)). b \<noteq> None)"

definition hstring_text :: "hstring \<Rightarrow> byte list" where
  "hstring_text s = map the (take (unat (hs_offset s)) (hs_buffer s))"

lemma fill_loop_memcpy: "i \<le> length buf \<or> n \<noteq> 0 \<Longrightarrow> fill_loop c i n buf = memcpy_to i (replicate n c) buf"
proof (induction n arbitrary: i buf)
  case (Suc n)
  show ?case
  proof (cases "i < length buf")
    case True
    then show ?thesis
      using Suc.IH [of "i + 1" "buf[i := Some c]"]
      by (auto simp: memcpy_to_def add.commute take_Suc_conv_app_nth upd_conv_take_nth_drop)
  qed (use Suc.prems in \<open>auto simp: memcpy_to_def\<close>)
qed (simp add: memcpy_to_def)


lemma take_realloc: "i \<le> length bs \<Longrightarrow> length bs \<le> n \<Longrightarrow> take i (realloc_bytes n bs) = take i bs"
  by (simp add: realloc_bytes_def)

lemma length_realloc [simp]: "length (realloc_bytes n bs) = n"
  by (simp add: realloc_bytes_def)

text \<open>
  The new capacity is enough when the data is shorter than \<open>2 ^ 63\<close> bytes: a sum that wraps around is
  noticed by the comparison with the old capacity.
\<close>


lemma new_capacity_enough:
  fixes c n off :: "64 word"
  assumes "off \<le> c" and "n < 2 ^ 63" and "\<not> max (c * 2) (c + n) < c"
  shows "unat off + unat n \<le> unat (max (c * 2) (c + n)) \<and> unat c \<le> unat (max (c * 2) (c + n))"
proof -
  have lt: "unat c < 2 ^ 64" "unat n < 2 ^ 63" "unat off \<le> unat c"
    using unsigned_less [of c] assms(1,2) by (simp_all add: word_le_nat_alt word_less_nat_alt)
  have sum: "unat (c + n) = (if unat c + unat n < 2 ^ 64 then unat c + unat n else unat c + unat n - 2 ^ 64)"
    "unat (c * 2) = (if unat c < 2 ^ 63 then unat c * 2 else unat c * 2 - 2 ^ 64)"
    using lt by (auto simp: unat_word_ariths mod_if)
  from assms(3) lt show ?thesis
    by (auto simp: max_def word_le_nat_alt word_less_nat_alt sum split: if_splits)
qed

lemma no_wrap:
  fixes c n off :: "64 word"
  assumes "off \<le> c" and "c - off < n" and "unat off + unat n \<le> 2 ^ 62"
  shows "\<not> max (c * 2) (c + n) < c"
proof -
  have "unat c < 2 ^ 62"
    using assms by (simp add: word_less_nat_alt unat_sub word_le_nat_alt)
  then have "unat c \<le> unat (c * 2)"
    by (simp add: unat_word_ariths)
  then show ?thesis
    by (simp add: max_def word_le_nat_alt word_less_nat_alt)
qed

lemma ensure_spec:
  assumes "hstring_inv s" and "n < 2 ^ 63" and "hstring_ensure_extra_capacity alloc n s = (b, s')"
  shows "hstring_inv s' \<and> hs_offset s' = hs_offset s \<and> hstring_text s' = hstring_text s \<and>
    (b \<longrightarrow> unat (hs_offset s) + unat n \<le> unat (hs_capacity s'))"
    and "(\<And>k m. alloc k m) \<Longrightarrow> unat (hs_offset s) + unat n \<le> 2 ^ 62 \<Longrightarrow> b"
proof -
  note inv = assms(1) [unfolded hstring_inv_def]
  define new where "new = max (hs_capacity s * 2) (hs_capacity s + n)"
  have off: "unat (hs_offset s) \<le> length (hs_buffer s)"
    using inv by (simp add: word_le_nat_alt)
  consider (keep) "\<not> hs_capacity s - hs_offset s < n" "b" "s' = s"
    | (fails) "hs_capacity s - hs_offset s < n" "\<not> b" "s' = s \<or> s' = s\<lparr>hs_tick := hs_tick s + 1\<rparr>"
        "new < hs_capacity s \<or> \<not> alloc (hs_tick s) (unat new)"
    | (grow) "hs_capacity s - hs_offset s < n" "b" "\<not> new < hs_capacity s"
        "s' = s\<lparr>hs_tick := hs_tick s + 1, hs_buffer := realloc_bytes (unat new) (hs_buffer s), hs_capacity := new\<rparr>"
    using assms(3) by (auto simp: hstring_ensure_extra_capacity_def new_def Let_def split: if_splits)
  then show "hstring_inv s' \<and> hs_offset s' = hs_offset s \<and> hstring_text s' = hstring_text s \<and>
    (b \<longrightarrow> unat (hs_offset s) + unat n \<le> unat (hs_capacity s'))"
  proof cases
    case keep
    then show ?thesis
      using assms(1) inv by (auto simp: word_less_nat_alt unat_sub word_le_nat_alt)
  next
    case fails
    then show ?thesis
      using assms(1) by (auto simp: hstring_inv_def hstring_text_def)
  next
    case grow
    from new_capacity_enough [of "hs_offset s", OF _ assms(2) grow(3) [unfolded new_def]] inv
    have "unat (hs_offset s) + unat n \<le> unat new" "unat (hs_capacity s) \<le> unat new"
      by (simp_all add: new_def)
    then show ?thesis
      using inv off grow by (simp add: hstring_inv_def hstring_text_def take_realloc word_le_nat_alt)
  qed
  show "b" if "\<And>k m. alloc k m" "unat (hs_offset s) + unat n \<le> 2 ^ 62"
    using that no_wrap [of "hs_offset s" "hs_capacity s" n] inv assms(3)
    by (auto simp: hstring_ensure_extra_capacity_def Let_def split: if_splits)
qed

lemma memcpy_text:
  assumes "hstring_inv s" and "unat (hs_offset s) + length data \<le> unat (hs_capacity s)"
  shows "\<exists>buf. memcpy_to (unat (hs_offset s)) data (hs_buffer s) = Some buf \<and>
    hstring_inv (s\<lparr>hs_buffer := buf, hs_offset := hs_offset s + of_nat (length data)\<rparr>) \<and>
    hstring_text (s\<lparr>hs_buffer := buf, hs_offset := hs_offset s + of_nat (length data)\<rparr>) = hstring_text s @ data"
proof -
  have "unat (hs_capacity s) < 2 ^ 64"
    using unsigned_less [of "hs_capacity s"] by simp
  with assms(2) have "unat (hs_offset s + of_nat (length data)) = unat (hs_offset s) + length data"
    by (simp add: unat_word_ariths unat_of_nat take_bit_nat_def)
  moreover have "map the (take i bs @ map Some data) = map the (take i bs) @ data" for i bs
    by simp
  ultimately show ?thesis
    using assms by (auto simp: memcpy_to_def hstring_inv_def hstring_text_def word_le_nat_alt)
qed

lemma append_spec:
  assumes "hstring_inv s" and "length data < 2 ^ 63"
  shows "\<exists>s'. hstring_append alloc data s = Some s' \<and> hstring_inv s' \<and>
    (hstring_text s' = hstring_text s @ data \<or> hstring_text s' = hstring_text s \<and> \<not> ((\<forall>k m. alloc k m) \<and>
       length (hstring_text s) + length data \<le> 2 ^ 62))"
proof -
  let ?n = "of_nat (length data) :: 64 word"
  have n: "unat ?n = length data" "?n < 2 ^ 63"
    using assms(2) by (simp_all add: unat_of_nat take_bit_nat_def word_less_nat_alt)
  obtain b s1 where e: "hstring_ensure_extra_capacity alloc ?n s = (b, s1)"
    by force
  note spec = ensure_spec [OF assms(1) n(2) e]
  have len: "length (hstring_text s) = unat (hs_offset s)"
    using assms(1) by (simp add: hstring_text_def hstring_inv_def word_le_nat_alt)
  have zero: "?n = 0 \<longleftrightarrow> data = []"
    using n(1) by (auto simp: unat_eq_0)
  show ?thesis
  proof (cases "data = [] \<or> \<not> b")
    case True
    with e zero spec assms(1) n len show ?thesis
      by (auto simp: hstring_append_def)
  next
    case False
    with e zero spec memcpy_text [of s1 data] n show ?thesis
      by (auto simp: hstring_append_def)
  qed
qed

interpretation hs: text_sink hstring_inv hstring_text "hstring_append alloc" "\<forall>k m. alloc k m" for alloc
proof
  fix s :: hstring and bs :: "byte list"
  assume "hstring_inv s" "length bs < 2 ^ 63"
  from append_spec [OF this, of alloc]
  show "\<exists>s'. hstring_append alloc bs s = Some s' \<and> hstring_inv s' \<and>
      (hstring_text s' = hstring_text s @ bs \<or> hstring_text s' = hstring_text s)" by blast
next
  fix s s' :: hstring and bs :: "byte list"
  assume "hstring_inv s" "\<forall>k m. alloc k m" and le: "length (hstring_text s) + length bs \<le> 2 ^ 62"
    and "hstring_append alloc bs s = Some s'"
  moreover from le have "length bs < 2 ^ 63" by simp
  ultimately show "hstring_text s' = hstring_text s @ bs"
    using append_spec [of s bs alloc] by auto
qed

subsection \<open>The printer appends the pieces of the listing\<close>

lemma write_each_append: "write_each f (xs @ ys) s = do { s \<leftarrow> write_each f xs s; write_each f ys s }"
  by (induction xs arbitrary: s) (auto split: Option.bind_splits)

lemma write_each_fun:
  "write_each f [] = Some"
  "write_each f (x # xs) = (\<lambda>s. f x s \<bind> write_each f xs)"
  "write_each f (xs @ ys) = (\<lambda>s. write_each f xs s \<bind> write_each f ys)"
  by (auto simp: fun_eq_iff write_each_append)

lemma write_each_concat:
  "(\<And>x s. x \<in> set xs \<Longrightarrow> g x s = write_each f (h x) s) \<Longrightarrow>
     write_each g xs s = write_each f (concat (map h xs)) s"
  by (induction xs arbitrary: s) (auto simp: write_each_append split: Option.bind_splits)

lemma repeat_append: "hstring_repeat alloc c n s = hstring_append alloc (replicate (unat n) c) s"
  by (auto simp: hstring_repeat_def hstring_append_def fill_loop_memcpy unat_eq_0 split: prod.split bool.split)

lemma append_number_fits: "sprintf_to n printed = Some printed \<Longrightarrow> append_number alloc n printed s = hstring_append alloc printed s"
  by (simp add: append_number_def sprintf_to_def split: if_splits)

lemma append_float:
  "append_number alloc 26 p s = hstring_append alloc (if length p < 26 then p else []) s"
  by (simp add: append_number_def hstring_append_def)

lemmas write_number = append_number_fits [OF dec_int_fits] append_number_fits [OF dec_nat_fits] append_float

lemma indent: "depth \<le> 25 \<Longrightarrow> unat (of_nat depth * 2 :: 64 word) = 2 * depth"
  by (simp add: unat_word_ariths unat_of_nat take_bit_nat_def)

lemma pieces_simps:
  "pieces depth ob = (if 25 < depth then []
     else line_pieces (depth, ob) @ concat (map (pieces (depth + 1)) (pw_entries (pw_value ob))))"
  unfolding pieces_def by (subst pw_nodes.simps) (simp add: map_concat comp_def concat_map_concat)

lemma write_entries:
  assumes "\<And>el s. el \<in> set (pw_entries (pw_value ob)) \<Longrightarrow>
      hstring_write_pwargs alloc (depth + 1) el s = write_each (hstring_append alloc) (pieces (depth + 1) el) s"
  shows "write_each (hstring_write_pwargs alloc (depth + 1)) (pw_entries (pw_value ob)) =
    write_each (hstring_append alloc) (concat (map (pieces (depth + 1)) (pw_entries (pw_value ob))))"
  by (rule ext, rule write_each_concat) (rule assms)

lemma write_pwargs_pieces:
  "hstring_write_pwargs alloc depth ob s = write_each (hstring_append alloc) (pieces depth ob) s"
proof (induction "size ob" arbitrary: ob depth s rule: less_induct)
  case less
  note entries = write_entries [of ob alloc depth, OF less]
  show ?case
  proof (cases "25 < depth")
    case True
    then show ?thesis
      by (simp add: hstring_write_pwargs.simps pieces_simps)
  next
    case False
    then show ?thesis
      using entries
      by (cases "pw_value ob"; cases "pw_name ob")
        (simp_all add: hstring_write_pwargs.simps [of alloc depth] pieces_simps [of depth] line_pieces_def
          repeat_append indent write_number write_each_fun Option.bind_assoc)
  qed
qed

definition empty_string :: "nat \<Rightarrow> hstring" where
  "empty_string tick = \<lparr>hs_buffer = replicate (unat INITIAL_CAPACITY) None,
     hs_capacity = INITIAL_CAPACITY, hs_offset = 0, hs_tick = tick\<rparr>"

lemma empty_string: "hstring_inv (empty_string k)" "hstring_text (empty_string k) = []"
  by (simp_all add: empty_string_def hstring_inv_def hstring_text_def)

lemma those_text: "hstring_inv s \<Longrightarrow> those (take (unat (hs_offset s)) (hs_buffer s)) = Some (hstring_text s)"
proof -
  have "(\<forall>b \<in> set bs. b \<noteq> None) \<Longrightarrow> those bs = Some (map the bs)" for bs :: "byte option list"
    by (induction bs) auto
  then show "hstring_inv s \<Longrightarrow> ?thesis"
    by (simp add: hstring_inv_def hstring_text_def)
qed

lemma write_root:
  assumes "\<forall>p \<in> set (pieces 0 root). length p < 2 ^ 63"
  obtains s ks where "hstring_write_pwargs alloc 0 root (empty_string k) = Some s" "hstring_inv s"
    "subseq ks (pieces 0 root)" "hstring_text s = concat ks"
    "(\<forall>k m. alloc k m) \<and> length (listing root) \<le> 2 ^ 62 \<Longrightarrow> concat ks = listing root"
proof -
  from hs.write_pieces [OF empty_string(1), of "pieces 0 root" alloc k] assms obtain s ks where
    s: "write_each (hstring_append alloc) (pieces 0 root) (empty_string k) = Some s" "hstring_inv s"
      "subseq ks (pieces 0 root)" "hstring_text s = concat ks"
    by (force simp: empty_string(2))
  moreover have "concat ks = listing root" if "(\<forall>k m. alloc k m) \<and> length (listing root) \<le> 2 ^ 62"
    using hs.write_pieces_all [OF empty_string(1) _ _ s(1)] that s(4) by (simp add: empty_string(2) concat_pieces)
  ultimately show ?thesis
    using that by (simp add: write_pwargs_pieces)
qed

text \<open>
  C39. Printing the object of a direct buffer never reads or writes outside of
  the buffer it grows, and when it returns a string, that string consists of pieces of the listing of the nodes
  down to the depth 25, in order and each of them whole; a piece is missing only for want of memory.
  When memory suffices and the string is not too long for Java, it is the listing. One local reference is created
  for the string, and none when it cannot be; a failure to allocate the first buffer leaves no exception.
\<close>

theorem pwArgsBufferToString_lists:
  assumes "\<forall>p \<in> set (pieces 0 root). length p < 2 ^ 63" and "pending e = None"
    and "run_state (pwArgsBufferToString J (Some root)) e = (r, e')"
  shows "misuse e' = misuse e \<and>
    (case r of
       None \<Rightarrow> refs e' = refs e
     | Some str \<Rightarrow> refs e' = refs e + 1 \<and> pending e' = None \<and>
         (\<exists>ks. subseq ks (pieces 0 root) \<and> str = JString (utf16_of (concat ks)))) \<and>
    (calm J \<and> jstring_fits (listing root) \<and> length (listing root) \<le> 2 ^ 62 \<longrightarrow> r = Some (JString (utf16_of (listing root)))) \<and>
    (\<not> malloc_ok J (mtick e) 16 \<longrightarrow> r = None \<and> pending e' = None)"
proof -
  obtain s ks where s: "hstring_write_pwargs (malloc_ok J) 0 root (empty_string (mtick e + 1)) = Some s"
    "hstring_inv s" "subseq ks (pieces 0 root)" "hstring_text s = concat ks"
    "(\<forall>k m. malloc_ok J k m) \<and> length (listing root) \<le> 2 ^ 62 \<Longrightarrow> concat ks = listing root"
    using write_root [OF assms(1)] by blast
  have w: "wp (pwArgsBufferToString J (Some root)) (\<lambda>r e'.
      (if malloc_ok J (mtick e) 16 then
        r = Some (JString (utf16_of (concat ks))) \<and> env_to e None 1 e' \<or>
        r = None \<and> (\<exists>t. env_to e (Some t) 0 e') \<and> \<not> (calm J \<and> jstring_fits (concat ks))
       else r = None \<and> env_to e None 0 e')) e"
    using s(1,2,4) assms(2) those_text [OF s(2)]
    by (auto simp: pwArgsBufferToString_def wps empty_string_def INITIAL_CAPACITY_def env_to_def
      intro!: wp_mono [OF new_jstring_wp])
  note out = wp_run [OF w assms(3)]
  have "misuse e' = misuse e"
    using out by (auto simp: env_to_def split: if_splits)
  moreover have "case r of None \<Rightarrow> refs e' = refs e
      | Some str \<Rightarrow> refs e' = refs e + 1 \<and> pending e' = None \<and>
          (\<exists>ks. subseq ks (pieces 0 root) \<and> str = JString (utf16_of (concat ks)))"
    using out s(3) by (auto simp: env_to_def split: if_splits)
  moreover have "r = Some (JString (utf16_of (listing root)))"
    if "calm J" "jstring_fits (listing root)" "length (listing root) \<le> 2 ^ 62"
    using that out s(5) by (auto simp: calm_def split: if_splits)
  moreover have "r = None \<and> pending e' = None" if "\<not> malloc_ok J (mtick e) 16"
    using that out by (auto simp: env_to_def)
  ultimately show ?thesis
    by blast
qed

lemma pwArgsBufferToString_heap_buffer:
  assumes "pending e = None"
  shows "wp (pwArgsBufferToString J None) (\<lambda>r e'. r = None \<and> (\<exists>t. env_to e (Some t) 0 e' \<and>
    (calm J \<longrightarrow> t = RuntimeException ''Not a DirectBuffer passed''))) e"
  using assms by (auto simp: pwArgsBufferToString_def wps env_to_def intro!: wp_mono [OF ThrowNew_wp])

definition sample_root :: pwargs where
  "sample_root = Pwargs None (PW_MAP [Pwargs (Some (cstr ''a'')) (PW_SIGNED (- 7)),
     Pwargs (Some []) (PW_ARRAY [Pwargs None (PW_BOOL True)])])"

lemma sample_listing: "listing sample_root = cstr ''<MAP>'' @ [10] @ cstr ''  a: <SIGNED> -7'' @ [10] @
    cstr ''  : <ARRAY>'' @ [10] @ cstr ''    <BOOL> true'' @ [10]"
  by (simp add: listing_def sample_root_def pw_nodes.simps line_pieces_def cstr_def dec_int_def dec_nat.simps numeral_2_eq_2)

lemma sample_pieces: "\<forall>p \<in> set (pieces 0 sample_root). length p < 2 ^ 63"
  by (simp add: pieces_def sample_root_def pw_nodes.simps line_pieces_def cstr_def dec_int_def dec_nat.simps)

theorem pwArgsBufferToString_lists_witness:
  "fst (run_state (pwArgsBufferToString calm_jvm (Some sample_root)) env0) = Some (JString (utf16_of
     (cstr ''<MAP>'' @ [10] @ cstr ''  a: <SIGNED> -7'' @ [10] @ cstr ''  : <ARRAY>'' @ [10] @ cstr ''    <BOOL> true'' @ [10])))"
proof -
  obtain r e' where run: "run_state (pwArgsBufferToString calm_jvm (Some sample_root)) env0 = (r, e')"
    by force
  have "jstring_fits (listing sample_root)"
    using length_utf16_of [of "listing sample_root"]
    by (simp add: jstring_fits_def sample_listing cstr_def INT_MAX_def)
  moreover have "length (listing sample_root) \<le> 2 ^ 62"
    by (simp add: sample_listing cstr_def)
  ultimately have "r = Some (JString (utf16_of (listing sample_root)))"
    using pwArgsBufferToString_lists [OF sample_pieces _ run] by (simp add: env0_def)
  then show ?thesis
    by (simp add: run sample_listing)
qed

subsection \<open>Doubles that are left out\<close>

lemma dec_nat_bounds: "n < 10 ^ length (dec_nat n) \<and> (n \<noteq> 0 \<longrightarrow> 10 ^ (length (dec_nat n) - 1) \<le> n)"
proof (induction n rule: dec_nat.induct)
  case (1 n)
  show ?case
  proof (cases "n < 10")
    case True
    then show ?thesis by (subst (1 2) dec_nat.simps) simp
  next
    case False
    define L where "L = length (dec_nat (n div 10))"
    have L: "length (dec_nat n) = Suc L" "0 < L"
      using False unfolding L_def by (subst dec_nat.simps, simp, subst dec_nat.simps, simp)
    from 1 False have "n div 10 < 10 ^ L" "10 ^ (L - 1) \<le> n div 10"
      by (simp_all add: L_def)
    then have "n < 10 * 10 ^ L" "10 * 10 ^ (L - 1) \<le> n"
      by (simp_all add: less_mult_imp_div_less div_less_iff_less_mult less_eq_div_iff_mult_less_eq mult.commute)
    with L show ?thesis
      by (cases L) simp_all
  qed
qed

lemma exp10_scaled:
  assumes "0 < den"
  shows "num * 10 ^ nat (18 - exp10 num den) < den * 10 ^ nat (exp10 num den - 18) * 10 ^ 19"
proof -
  consider (zero) "num = 0" | (big) "num \<noteq> 0" "den \<le> num" | (small) "num \<noteq> 0" "num < den" by linarith
  then show ?thesis
  proof cases
    case big
    define L where "L = length (dec_nat (num div den))"
    have lt: "num < den * 10 ^ L"
      using dec_nat_bounds [of "num div den"] assms
      by (simp add: L_def div_less_iff_less_mult mult.commute)
    have L: "0 < L" "exp10 num den = int L - 1"
      using big unfolding L_def by (subst dec_nat.simps, simp, simp add: exp10_def)
    show ?thesis
    proof (cases "L \<le> 19")
      case True
      have "num * 10 ^ (19 - L) < den * 10 ^ L * 10 ^ (19 - L)"
        using lt by simp
      also have "\<dots> = den * 10 ^ 19"
        using True by (simp add: mult.assoc flip: power_add)
      finally show ?thesis
        using L True by (simp add: nat_diff_distrib' of_nat_diff)
    next
      case False
      have "10 ^ L = (10 :: nat) ^ (L - 19) * 10 ^ 19"
        using False by (simp add: le_add_diff_inverse2 del: power_numeral flip: power_add)
      moreover have "nat (int L - 19) = L - 19"
        by simp
      ultimately show ?thesis
        using lt L False by (simp add: mult.assoc)
    qed
  next
    case small
    define K where "K = length (dec_nat ((den - 1) div num))"
    have "(den - 1) div num \<noteq> 0"
      using small by (simp add: div_eq_0_iff)
    then have "10 ^ (K - 1) \<le> (den - 1) div num"
      using dec_nat_bounds [of "(den - 1) div num"] by (simp add: K_def)
    then have "num * 10 ^ (K - 1) < den"
      using small by (simp add: less_eq_div_iff_mult_less_eq mult.commute)
    moreover have K: "0 < K" "exp10 num den = - int K"
      using small unfolding K_def by (subst dec_nat.simps, simp, simp add: exp10_def)
    moreover have "K - 1 + 19 = 18 + K"
      using K by simp
    then have "10 ^ (18 + K) = (10 :: nat) ^ (K - 1) * 10 ^ 19"
      by (metis power_add)
    moreover have "nat (18 + int K) = 18 + K"
      by simp
    ultimately show ?thesis
      by simp
  qed (use assms in \<open>simp add: exp10_def\<close>)
qed

lemma sci_digits_bound:
  assumes "0 < den"
  shows "fst (sci_digits num den) < 10 ^ 19" and "\<bar>snd (sci_digits num den)\<bar> \<le> \<bar>exp10 num den\<bar> + 1"
proof -
  define a b where "a = num * 10 ^ nat (18 - exp10 num den)" and "b = den * 10 ^ nat (exp10 num den - 18)"
  have "a div b < 10 ^ 19"
    using exp10_scaled [OF assms, of num] by (simp add: a_def b_def less_mult_imp_div_less mult.commute)
  then have "round_half_even a b \<le> 10 ^ 19"
    by (simp add: round_half_even_def Let_def)
  then show "fst (sci_digits num den) < 10 ^ 19" "\<bar>snd (sci_digits num den)\<bar> \<le> \<bar>exp10 num den\<bar> + 1"
    using abs_triangle_ineq [of "exp10 num den" 1] by (auto simp: sci_digits_def a_def b_def Let_def)
qed

lemma dbl_fraction_bound:
  assumes "dbl_fraction w = (num, den)" and "dbl_exponent w \<noteq> 2047"
  shows "0 < den" "den \<le> 2 ^ 1074" "num < 2 ^ 1024"
proof -
  define ex where "ex = dbl_exponent w"
  have ex: "ex \<le> 2046"
    using assms(2) by (simp add: ex_def dbl_exponent_def le_less_Suc_eq flip: less_Suc_eq_le)
  show "0 < den" "den \<le> 2 ^ 1074"
    using assms(1) by (auto simp: dbl_fraction_def Let_def simp del: power_numeral)
  have "num = (if ex = 0 then unat w mod 2 ^ 52 else 2 ^ 52 + unat w mod 2 ^ 52) * 2 ^ (max 1 ex - 1075)"
    using assms(1) by (auto simp: dbl_fraction_def ex_def Let_def)
  also have "\<dots> < 2 ^ 53 * 2 ^ (max 1 ex - 1075)"
    using less_trans [OF mod_less_divisor [of "2 ^ 52" "unat w"], of "2 ^ 53"] by simp
  also have "\<dots> \<le> 2 ^ 53 * 2 ^ 971"
    using ex by (intro mult_le_mono2 power_increasing) auto
  finally show "num < 2 ^ 1024"
    by (simp flip: power_add)
qed

lemma exp10_bound:
  assumes "dbl_fraction w = (num, den)" and "dbl_exponent w \<noteq> 2047"
  shows "\<bar>exp10 num den\<bar> \<le> 324"
proof -
  note b = dbl_fraction_bound [OF assms]
  have "num div den \<le> num" "(den - 1) div num \<le> den"
    using div_le_dividend [of "den - 1" num] div_le_dividend [of num den] by linarith+
  moreover have "(2 :: nat) ^ 1024 \<le> 10 ^ 309" "(2 :: nat) ^ 1074 < 10 ^ 324"
    by simp_all
  ultimately have "num div den < 10 ^ 309" "(den - 1) div num < 10 ^ 324"
    using b(2,3) by linarith+
  from length_dec_nat [OF this(1)] length_dec_nat [OF this(2)] show ?thesis
    by (auto simp: exp10_def)
qed

lemma length_padded:
  "k < 10 ^ 19 \<Longrightarrow> length (dec_padded 19 k) = 19"
  "k < 10 ^ 3 \<Longrightarrow> length (dec_padded 2 k) = (if 100 \<le> k then 3 else 2)"
proof -
  show "length (dec_padded 19 k) = 19" if "k < 10 ^ 19"
    using length_dec_nat [OF that] by (simp add: dec_padded_def)
  assume k: "k < 10 ^ 3"
  have "length (dec_nat k) = 3" if "100 \<le> k"
  proof (rule ccontr)
    assume "length (dec_nat k) \<noteq> 3"
    with length_dec_nat [OF k] have "length (dec_nat k) \<le> 2" by simp
    from power_increasing [OF this, of "10 :: nat"] dec_nat_bounds [of k] that show False by simp
  qed
  moreover have "length (dec_nat k) \<le> 2" if "k < 100"
    using that length_dec_nat [of k 2] by simp
  ultimately show "length (dec_padded 2 k) = (if 100 \<le> k then 3 else 2)"
    by (simp add: dec_padded_def)
qed

lemma snprintf_18e_length:
  assumes "dbl_fraction w = (num, den)" and "dbl_exponent w \<noteq> 2047"
  shows "length (snprintf_18e w) = (if dbl_negative w then 1 else 0) + (if 100 \<le> \<bar>snd (sci_digits num den)\<bar> then 25 else 24)"
proof -
  obtain k d where kd: "sci_digits num den = (k, d)"
    by force
  note b = sci_digits_bound [OF dbl_fraction_bound(1) [OF assms], of num] exp10_bound [OF assms]
  then have "k < 10 ^ 19" "nat \<bar>d\<bar> < 10 ^ 3"
    by (simp_all add: kd)
  then have "length (dec_padded 19 k) = 19"
    "length (dec_padded 2 (nat \<bar>d\<bar>)) = (if 100 \<le> \<bar>d\<bar> then 3 else 2)"
    using length_padded(1) [of k] length_padded(2) [of "nat \<bar>d\<bar>"] by (auto simp: nat_le_iff le_nat_iff)
  then show ?thesis
    using assms by (cases "dec_padded 19 k") (auto simp: snprintf_18e_def kd cstr_def)
qed

text \<open>
  The buffer is as long as the text of a positive denormal: exactly the negative doubles with an exponent
  of three digits do not fit, and their line has no number.
\<close>

lemma double_left_out:
  assumes "dbl_fraction w = (num, den)" and "dbl_exponent w \<noteq> 2047"
  shows "value_pieces (PW_FLOAT w) = [cstr ''<FLOAT> '', [], [10]] \<longleftrightarrow>
    dbl_negative w \<and> 100 \<le> \<bar>snd (sci_digits num den)\<bar>"
  using snprintf_18e_length [OF assms] by (auto split: if_splits)

end
