(* ===== verification/Compat.thy ===== *)
theory Compat
  imports Jni
begin

text \<open>
  The replacements of library functions in \<^verbatim>\<open>src/main/c/compat.c\<close>, for systems that lack them, and
  \<^verbatim>\<open>src/main/c/byte_buffer.c\<close>. \<^verbatim>\<open>memrchr\<close> is also called when logging starts, with the path of the source file. The clock of
  Windows is in the theory \<open>Clock\<close>.
\<close>

subsection \<open>Searching backwards\<close>

text \<open>
  Memory is a partial map of addresses. The result is \<open>None\<close> when the loop reads an address where there is no object,
  \<open>Some None\<close> for a null pointer.
\<close>

fun memrchr_loop :: "(int \<rightharpoonup> byte) \<Rightarrow> int \<Rightarrow> byte \<Rightarrow> nat \<Rightarrow> int option option" where
  "memrchr_loop mem p c 0 = Some None"
| "memrchr_loop mem p c (Suc n) =
     (case mem p of
        None \<Rightarrow> None
      | Some b \<Rightarrow> let p = p - 1 in if b = c then Some (Some (p + 1)) else memrchr_loop mem p c n)"

definition memrchr :: "(int \<rightharpoonup> byte) \<Rightarrow> int \<Rightarrow> byte \<Rightarrow> nat \<Rightarrow> int option option" where
  "memrchr mem buf c n = memrchr_loop mem buf c n"

text \<open>The bytes \<open>bs\<close> at the address \<open>a\<close>, and nothing else.\<close>

definition object_at :: "int \<Rightarrow> byte list \<Rightarrow> (int \<rightharpoonup> byte)" where
  "object_at a bs = (\<lambda>i. if a \<le> i \<and> i < a + int (length bs) then Some (bs ! nat (i - a)) else None)"

lemma object_at_nth: "k < length bs \<Longrightarrow> object_at a bs (a + int k) = Some (bs ! k)"
  by (simp add: object_at_def)

text \<open>The last place of a byte among the first \<open>n\<close>.\<close>

fun last_place :: "byte \<Rightarrow> byte list \<Rightarrow> nat \<Rightarrow> nat option" where
  "last_place c bs 0 = None"
| "last_place c bs (Suc n) = (if bs ! n = c then Some n else last_place c bs n)"

lemma last_place_None: "last_place c bs n = None \<longleftrightarrow> (\<forall>k < n. bs ! k \<noteq> c)"
  by (induction n) (auto simp: less_Suc_eq)

lemma last_place_Some: "last_place c bs n = Some k \<Longrightarrow> k < n \<and> bs ! k = c \<and> (\<forall>j. k < j \<and> j < n \<longrightarrow> bs ! j \<noteq> c)"
  by (induction n) (auto simp: less_Suc_eq split: if_splits)

text \<open>The loop searches backwards from where it starts: it would be right if it started at the last byte.\<close>

lemma memrchr_loop_from_end:
  "n \<le> length bs \<Longrightarrow>
     memrchr_loop (object_at a bs) (a + int n - 1) c n = Some (map_option (\<lambda>k. a + int k) (last_place c bs n))"
proof (induction n)
  case (Suc n)
  then show ?case
    using object_at_nth [of n bs a] by (simp add: Let_def algebra_simps)
qed simp

text \<open>
  Called with the start of the buffer, as its interface and its caller have it, it finds the byte when it is the first one, and
  otherwise leaves the buffer.
\<close>

lemma memrchr_leaves_buffer:
  assumes "2 \<le> n" and "n \<le> length bs" and "bs ! 0 \<noteq> c"
  shows "memrchr (object_at a bs) a c n = None"
proof -
  obtain m where m: "n = Suc (Suc m)"
    using le_Suc_ex [OF assms(1)] by auto
  have "0 < length bs"
    using assms(1,2) by linarith
  then have "object_at a bs a = Some (bs ! 0)" "object_at a bs (a - 1) = None"
    by (simp_all add: object_at_def)
  then show ?thesis
    using assms(3) by (simp add: memrchr_def m Let_def)
qed

subsection \<open>Formatting to a new buffer\<close>

text \<open>
  \<^verbatim>\<open>vasprintf\<close> for Windows. The arguments are walked through twice: \<open>printed k\<close> is the text of the \<open>k\<close>-th time, \<open>None\<close> for an
  error. The buffer is returned through the pointer \<open>strp\<close>, which may be null; \<open>None\<close> is a result of \<open>-1\<close>. The second component is
  the number of buffers that stay allocated.
\<close>

definition vasprintf :: "(nat \<Rightarrow> bool) \<Rightarrow> bool \<Rightarrow> (nat \<Rightarrow> byte list option) \<Rightarrow> byte list option \<times> nat" where
  "vasprintf alloc strp printed =
     (if \<not> strp then (None, 0)
      else (case printed 0 of
         None \<Rightarrow> (None, 0)
       | Some str \<Rightarrow>
           let size = length str + 1 in
           if \<not> alloc size then (None, 0)
           else (case printed 1 of
              None \<Rightarrow> (None, 0)
            | Some str' \<Rightarrow> if size \<le> length str' then (None, 0) else (Some str', 1))))"

definition asprintf :: "(nat \<Rightarrow> bool) \<Rightarrow> bool \<Rightarrow> (nat \<Rightarrow> byte list option) \<Rightarrow> byte list option \<times> nat" where
  "asprintf alloc strp printed = vasprintf alloc strp printed"

text \<open>When both walks see the same arguments, the text is returned or nothing stays allocated.\<close>

lemma vasprintf_formats:
  assumes "\<And>k. printed k = w"
  shows "vasprintf alloc strp printed =
    (case w of Some t \<Rightarrow> if strp \<and> alloc (length t + 1) then (Some t, 1) else (None, 0) | None \<Rightarrow> (None, 0))"
  using assms by (simp add: vasprintf_def Let_def split: option.split)

lemma vasprintf_balanced: "snd (vasprintf alloc strp printed) = (if fst (vasprintf alloc strp printed) = None then 0 else 1)"
  by (simp add: vasprintf_def Let_def split: option.split)

subsection \<open>Addresses of buffers\<close>

text \<open>
  \<^verbatim>\<open>getByteBufferAddress\<close>: the bytes of the pointer are copied to the result, where pointers have 64 bits; a buffer that is not direct
  has a null pointer.
\<close>

definition getByteBufferAddress :: "64 word option \<Rightarrow> 64 word" where
  "getByteBufferAddress addr = (case addr of None \<Rightarrow> 0 | Some p \<Rightarrow> p)"

end
