(* ===== verification/Clock.thy ===== *)
theory Clock
  imports Complex_Main Contexts
begin

text \<open>
  The clock for Windows in \<^verbatim>\<open>src/main/c/compat.c\<close>, which scales a counter of the processor with doubles. The doubles
  that occur are not negative and neither too large nor too small for the range of the exponent, so a double is a fraction,
  and an operation on doubles is that on fractions, rounded to 53 binary digits.
\<close>

subsection \<open>Doubles\<close>

type_synonym dbl = "nat \<times> nat"

fun bits :: "nat \<Rightarrow> nat" where
  "bits n = (if n = 0 then 0 else Suc (bits (n div 2)))"

declare bits.simps [simp del]

text \<open>The exponent \<open>e\<close> with \<open>2 ^ (e + 52) \<le> n / d < 2 ^ (e + 53)\<close>.\<close>

definition dbl_ulp_exponent :: "nat \<Rightarrow> nat \<Rightarrow> int" where
  "dbl_ulp_exponent n d = int (bits n) - int (bits d) - (if n * 2 ^ bits d < d * 2 ^ bits n then 53 else 52)"

text \<open>The quotient of two numbers, rounded to the next integer, and to the even one of two that are as near.\<close>

definition div_half_even :: "nat \<Rightarrow> nat \<Rightarrow> nat" where
  "div_half_even n d =
     (let q = n div d; r = n mod d
      in if 2 * r < d \<or> 2 * r = d \<and> even q then q else q + 1)"

fun round_double :: "nat \<times> nat \<Rightarrow> dbl" where
  "round_double (n, d) =
     (if n = 0 then (0, 1)
      else let e = dbl_ulp_exponent n d
           in if 0 \<le> e then (div_half_even n (d * 2 ^ nat e) * 2 ^ nat e, 1)
              else (div_half_even (n * 2 ^ nat (- e)) d, 2 ^ nat (- e)))"

definition dbl_of_nat :: "nat \<Rightarrow> dbl" where
  "dbl_of_nat n = round_double (n, 1)"

fun dbl_div :: "dbl \<Rightarrow> dbl \<Rightarrow> dbl" where
  "dbl_div (a, b) (c, d) = round_double (a * d, b * c)"

fun dbl_truncate :: "dbl \<Rightarrow> nat" where
  "dbl_truncate (n, d) = n div d"

subsection \<open>The clock\<close>

text \<open>
  \<open>freq_per_ns\<close> is the static variable, \<open>None\<close> before the first call; \<open>freq\<close> and \<open>counter\<close> are what Windows answers, and \<open>tp\<close> says
  that the pointer is not null. The time is \<open>Some None\<close> for a result of \<open>-1\<close>, and \<open>None\<close> when the conversion to an integer
  overflows. \<^verbatim>\<open>1000000000UL\<close> has 32 bits on Windows, so the division is one of signed integers.
\<close>

definition clock_gettime :: "dbl option \<Rightarrow> nat \<Rightarrow> nat \<Rightarrow> bool \<Rightarrow> timespec option option \<times> dbl option" where
  "clock_gettime freq_per_ns freq counter tp =
     (let freq_per_ns = (case freq_per_ns of None \<Rightarrow> dbl_div (dbl_of_nat freq) (1000000000, 1) | Some f \<Rightarrow> f)
      in (if \<not> tp then Some None
          else case s64 (int (dbl_truncate (dbl_div (dbl_of_nat counter) freq_per_ns))) of
              None \<Rightarrow> None
            | Some counter_ns \<Rightarrow>
                Some (Some \<lparr>tv_sec = counter_ns sdiv 1000000000, tv_nsec = counter_ns smod 1000000000\<rparr>),
          Some freq_per_ns))"

subsection \<open>Rounding to the nearest double\<close>

definition half_even :: "real \<Rightarrow> int" where
  "half_even x = (if x - \<lfloor>x\<rfloor> < 1 / 2 \<or> x - \<lfloor>x\<rfloor> = 1 / 2 \<and> even \<lfloor>x\<rfloor> then \<lfloor>x\<rfloor> else \<lfloor>x\<rfloor> + 1)"

lemma half_even_of_int: "half_even (of_int k) = k"
  by (simp add: half_even_def)

lemma half_even_numeral: "half_even (numeral k) = numeral k"
  using half_even_of_int [of "numeral k"] by simp

lemma half_even_error: "\<bar>of_int (half_even x) - x\<bar> \<le> 1 / 2"
  using of_int_floor_le [of x] real_of_int_floor_add_one_gt [of x] by (auto simp: half_even_def abs_le_iff)

lemma half_even_mono:
  assumes "x \<le> y"
  shows "half_even x \<le> half_even y"
proof (cases "\<lfloor>x\<rfloor> = \<lfloor>y\<rfloor>")
  case True
  then show ?thesis
    using assms by (auto simp: half_even_def)
next
  case False
  then have "\<lfloor>x\<rfloor> + 1 \<le> \<lfloor>y\<rfloor>"
    using floor_mono [OF assms] by linarith
  then show ?thesis
    by (auto simp: half_even_def)
qed

lemma div_half_even_eq:
  assumes "0 < d"
  shows "int (div_half_even n d) = half_even (real n / real d)"
proof -
  have f: "\<lfloor>real n / real d\<rfloor> = int (n div d)"
    by (rule floor_divide_of_nat_eq)
  have "real n = real (n div d) * real d + real (n mod d)"
    by (metis div_mult_mod_eq of_nat_add of_nat_mult)
  then have r: "real n / real d - real (n div d) = real (n mod d) / real d"
    using assms by (simp add: field_simps)
  have c: "2 * real k < real d \<longleftrightarrow> 2 * k < d" "2 * real k = real d \<longleftrightarrow> 2 * k = d" for k
    using of_nat_less_iff [of "2 * k" d, where 'a = real] of_nat_eq_iff [of "2 * k" d, where 'a = real] by simp_all
  have "real (n mod d) / real d < 1 / 2 \<longleftrightarrow> 2 * (n mod d) < d" "real (n mod d) / real d = 1 / 2 \<longleftrightarrow> 2 * (n mod d) = d"
    using assms c [of "n mod d"] by (auto simp: field_simps)
  then show ?thesis
    using r by (simp add: div_half_even_def half_even_def f Let_def)
qed

text \<open>The double next to a real number.\<close>

definition ulp :: "real \<Rightarrow> real" where
  "ulp x = 2 powr (of_int \<lfloor>log 2 x\<rfloor> - 52)"

definition nearest :: "real \<Rightarrow> real" where
  "nearest x = (if x \<le> 0 then 0 else of_int (half_even (x / ulp x)) * ulp x)"

lemma ulp_pos: "0 < ulp x"
  by (simp add: ulp_def)

lemma ulp_bounds:
  assumes "0 < x"
  shows "2 ^ 52 * ulp x \<le> x" and "x < 2 ^ 53 * ulp x"
proof -
  have "2 powr (of_int \<lfloor>log 2 x\<rfloor>) = 2 powr 52 * ulp x" "2 powr (of_int \<lfloor>log 2 x\<rfloor> + 1) = 2 powr 53 * ulp x"
    unfolding ulp_def powr_add [symmetric] by (simp_all add: algebra_simps)
  moreover have "2 powr (of_int \<lfloor>log 2 x\<rfloor>) \<le> x" "x < 2 powr (of_int \<lfloor>log 2 x\<rfloor> + 1)"
    using floor_log_eq_powr_iff [of x 2 "\<lfloor>log 2 x\<rfloor>"] assms by auto
  moreover have "(2::real) powr 52 = 2 ^ 52" "(2::real) powr 53 = 2 ^ 53"
    by (simp_all add: powr_numeral)
  ultimately show "2 ^ 52 * ulp x \<le> x" "x < 2 ^ 53 * ulp x"
    by simp_all
qed

lemma ulp_unique:
  assumes "0 < x" and "2 powr (of_int e + 52) \<le> x" and "x < 2 powr (of_int e + 53)"
  shows "ulp x = 2 powr of_int e"
proof -
  have "\<lfloor>log 2 x\<rfloor> = e + 52"
    using assms by (subst floor_log_eq_powr_iff) (auto simp: algebra_simps)
  then show ?thesis
    by (simp add: ulp_def)
qed

lemma nearest_nonneg: "0 \<le> nearest x"
proof (cases "0 < x")
  case True
  then have "0 \<le> x / ulp x"
    using ulp_pos [of x] by simp
  then have "0 \<le> half_even (x / ulp x)"
    using half_even_mono [of 0 "x / ulp x"] half_even_of_int [of 0] by simp
  then show ?thesis
    using ulp_pos [of x] by (simp add: nearest_def)
qed (simp add: nearest_def)

lemma nearest_error:
  assumes "0 \<le> x"
  shows "\<bar>nearest x - x\<bar> \<le> x / 2 ^ 53"
proof (cases "x = 0")
  case False
  then have x: "0 < x"
    using assms by simp
  have "nearest x - x = (of_int (half_even (x / ulp x)) - x / ulp x) * ulp x"
    using x ulp_pos [of x] by (simp add: nearest_def field_simps)
  then have "\<bar>nearest x - x\<bar> = \<bar>of_int (half_even (x / ulp x)) - x / ulp x\<bar> * ulp x"
    using ulp_pos [of x] by (simp add: abs_mult)
  also have "\<dots> \<le> 1 / 2 * ulp x"
    using half_even_error [of "x / ulp x"] ulp_pos [of x] by (intro mult_right_mono) auto
  also have "\<dots> \<le> x / 2 ^ 53"
    using ulp_bounds(1) [OF x] by (simp add: field_simps)
  finally show ?thesis .
qed (simp add: nearest_def)

lemma nearest_mono:
  assumes "x \<le> y"
  shows "nearest x \<le> nearest y"
proof (cases "0 < x")
  case True
  then have y: "0 < y"
    using assms by simp
  have p: "\<lfloor>log 2 x\<rfloor> \<le> \<lfloor>log 2 y\<rfloor>"
    using assms True by (intro floor_mono) simp
  show ?thesis
  proof (cases "\<lfloor>log 2 x\<rfloor> = \<lfloor>log 2 y\<rfloor>")
    case eq: True
    have "half_even (x / ulp y) \<le> half_even (y / ulp y)"
      using assms ulp_pos [of y] by (intro half_even_mono divide_right_mono) simp_all
    then show ?thesis
      using True y eq ulp_pos [of y] by (simp add: nearest_def ulp_def)
  next
    case False
    have "half_even (x / ulp x) \<le> half_even (of_int (2 ^ 53))"
      using ulp_bounds(2) [OF True] ulp_pos [of x] by (intro half_even_mono) (simp add: field_simps)
    then have "nearest x \<le> 2 ^ 53 * ulp x"
      using True ulp_pos [of x] by (simp add: half_even_numeral nearest_def)
    also have "\<dots> \<le> 2 ^ 52 * ulp y"
    proof -
      have "2 * ulp x = 2 powr (of_int \<lfloor>log 2 x\<rfloor> - 52 + 1)"
        unfolding ulp_def powr_add by simp
      also have "\<dots> \<le> ulp y"
        using p False unfolding ulp_def by (intro powr_mono) linarith+
      finally show ?thesis
        by simp
    qed
    also have "\<dots> \<le> nearest y"
    proof -
      have "half_even (of_int (2 ^ 52)) \<le> half_even (y / ulp y)"
        using ulp_bounds(1) [OF y] ulp_pos [of y] by (intro half_even_mono) (simp add: field_simps)
      then have "2 ^ 52 \<le> (of_int (half_even (y / ulp y)) :: real)"
        by (simp add: half_even_numeral)
      then show ?thesis
        using y ulp_pos [of y] by (simp add: nearest_def)
    qed
    finally show ?thesis .
  qed
qed (use nearest_nonneg [of y] in \<open>simp add: nearest_def\<close>)

lemma nearest_bounds:
  assumes "0 \<le> x"
  shows "(1 - 1 / 2 ^ 53) * x \<le> nearest x" and "nearest x \<le> (1 + 1 / 2 ^ 53) * x"
  using nearest_error [OF assms] unfolding abs_le_iff by (simp_all add: field_simps)

subsection \<open>The operations round to the nearest double\<close>

definition val :: "dbl \<Rightarrow> real" where
  "val x = real (fst x) / real (snd x)"

lemma bits_bounds: "0 < n \<Longrightarrow> 2 ^ (bits n - 1) \<le> n \<and> n < 2 ^ bits n \<and> 0 < bits n"
proof (induction n rule: bits.induct)
  case (1 n)
  show ?case
  proof (cases "n div 2 = 0")
    case True
    then have "n = 1"
      using 1(2) by simp
    then show ?thesis
      by (simp add: bits.simps)
  next
    case False
    then have IH: "2 ^ (bits (n div 2) - 1) \<le> n div 2" "n div 2 < 2 ^ bits (n div 2)" "0 < bits (n div 2)"
      using 1 by auto
    have b: "bits n = Suc (bits (n div 2))"
      using 1(2) by (subst bits.simps) simp
    have "(2 :: nat) ^ bits (n div 2) = 2 * 2 ^ (bits (n div 2) - 1)"
      using IH(3) by (cases "bits (n div 2)") simp_all
    then have "2 ^ bits (n div 2) \<le> n" "n < 2 * 2 ^ bits (n div 2)"
      using IH(1,2) by linarith+
    then show ?thesis
      by (simp add: b)
  qed
qed

lemma ulp_fraction:
  assumes "0 < n" and "0 < d"
  shows "ulp (real n / real d) = 2 powr of_int (dbl_ulp_exponent n d)"
proof (rule ulp_unique)
  let ?bn = "bits n" and ?bd = "bits d"
  have n: "2 ^ (?bn - 1) \<le> real n" "real n < 2 ^ ?bn" "0 < ?bn"
    using bits_bounds [OF assms(1)] by (metis of_nat_le_iff of_nat_less_iff of_nat_numeral of_nat_power)+
  have d: "2 ^ (?bd - 1) \<le> real d" "real d < 2 ^ ?bd" "0 < ?bd"
    using bits_bounds [OF assms(2)] by (metis of_nat_le_iff of_nat_less_iff of_nat_numeral of_nat_power)+
  have p: "2 powr (real ?bn - real ?bd) = 2 ^ ?bn / 2 ^ ?bd"
    by (simp add: powr_diff powr_realpow)
  have p1: "2 powr (real ?bn - real ?bd - 1) = 2 ^ (?bn - 1) / 2 ^ ?bd"
    using n(3) by (cases ?bn) (simp_all add: powr_diff powr_add powr_realpow)
  have p2: "2 powr (real ?bn - real ?bd + 1) = 2 ^ ?bn / 2 ^ (?bd - 1)"
    using d(3) by (cases ?bd) (simp_all add: powr_diff powr_add powr_realpow)
  have low: "2 ^ (?bn - 1) / 2 ^ ?bd \<le> real n / real d"
    using n d assms by (intro frac_le) auto
  have high: "real n / real d < 2 ^ ?bn / 2 ^ (?bd - 1)"
    using n d assms by (intro frac_less) auto
  have c: "n * 2 ^ ?bd < d * 2 ^ ?bn \<longleftrightarrow> real n / real d < 2 ^ ?bn / 2 ^ ?bd"
    using assms of_nat_less_iff [of "n * 2 ^ ?bd" "d * 2 ^ ?bn", where 'a = real] by (simp add: field_simps)
  show "0 < real n / real d"
    using assms by simp
  show "2 powr (real_of_int (dbl_ulp_exponent n d) + 52) \<le> real n / real d"
    using low c p p1 by (auto simp: dbl_ulp_exponent_def algebra_simps)
  show "real n / real d < 2 powr (real_of_int (dbl_ulp_exponent n d) + 53)"
    using high c p p2 by (auto simp: dbl_ulp_exponent_def algebra_simps)
qed

lemma round_double_nearest:
  assumes "0 < d"
  shows "val (round_double (n, d)) = nearest (real n / real d)"
proof (cases "n = 0")
  case True
  then show ?thesis
    by (simp add: val_def nearest_def)
next
  case False
  let ?e = "dbl_ulp_exponent n d"
  have u: "ulp (real n / real d) = 2 powr of_int ?e"
    using ulp_fraction False assms by simp
  have near: "nearest (real n / real d) = of_int (half_even (real n / real d / 2 powr of_int ?e)) * 2 powr of_int ?e"
    using False assms by (simp add: nearest_def u divide_le_0_iff)
  show ?thesis
  proof (cases "0 \<le> ?e")
    case True
    then have "2 powr of_int ?e = (2::real) ^ nat ?e"
      by (simp add: powr_int)
    moreover have "real (div_half_even n (d * 2 ^ nat ?e)) = of_int (half_even (real n / real (d * 2 ^ nat ?e)))"
      using div_half_even_eq [of "d * 2 ^ nat ?e" n] assms by (metis of_int_of_nat_eq nat_0_less_mult_iff zero_less_numeral zero_less_power)
    ultimately show ?thesis
      using False True near by (simp add: val_def Let_def field_simps)
  next
    case neg: False
    then have "2 powr of_int ?e = 1 / (2::real) ^ nat (- ?e)"
      by (simp add: powr_int)
    with near have "nearest (real n / real d) = of_int (half_even (real n * 2 ^ nat (- ?e) / real d)) / 2 ^ nat (- ?e)"
      by simp
    moreover have "real (div_half_even (n * 2 ^ nat (- ?e)) d) = of_int (half_even (real (n * 2 ^ nat (- ?e)) / real d))"
      using div_half_even_eq [OF assms, of "n * 2 ^ nat (- ?e)"] by (metis of_int_of_nat_eq)
    ultimately show ?thesis
      using False neg by (simp add: val_def Let_def)
  qed
qed

lemma round_double_den: "0 < snd (round_double x)"
  by (cases x) (simp add: Let_def)

lemma dbl_of_nat_nearest: "val (dbl_of_nat n) = nearest (real n)" "0 < snd (dbl_of_nat n)"
  using round_double_nearest [of 1 n] round_double_den by (simp_all add: dbl_of_nat_def del: round_double.simps)

lemma dbl_div_nearest:
  assumes "0 < snd x" and "0 < fst y" and "0 < snd y"
  shows "val (dbl_div x y) = nearest (val x / val y)" "0 < snd (dbl_div x y)"
  using assms round_double_nearest [of "snd x * fst y" "fst x * snd y"] round_double_den
  by (cases x; cases y; simp add: val_def del: round_double.simps)+

lemma dbl_truncate_floor: "int (dbl_truncate x) = \<lfloor>val x\<rfloor>"
  by (cases x) (simp add: val_def floor_divide_of_nat_eq)

subsection \<open>The scaled counter\<close>

definition ticks_per_ns :: "nat \<Rightarrow> dbl" where
  "ticks_per_ns freq = dbl_div (dbl_of_nat freq) (1000000000, 1)"

definition scaled :: "nat \<Rightarrow> nat \<Rightarrow> dbl" where
  "scaled freq counter = dbl_div (dbl_of_nat counter) (ticks_per_ns freq)"

lemma ticks_per_ns_bounds:
  assumes "0 < freq"
  shows "val (ticks_per_ns freq) = nearest (nearest (real freq) / 10 ^ 9)"
    and "(1 - 1 / 2 ^ 53) * ((1 - 1 / 2 ^ 53) * real freq / 10 ^ 9) \<le> val (ticks_per_ns freq)"
    and "val (ticks_per_ns freq) \<le> (1 + 1 / 2 ^ 53) * ((1 + 1 / 2 ^ 53) * real freq / 10 ^ 9)"
    and "0 < fst (ticks_per_ns freq)" "0 < snd (ticks_per_ns freq)"
proof -
  have billion: "val (1000000000, 1) = 10 ^ 9"
    by (simp add: val_def)
  show v: "val (ticks_per_ns freq) = nearest (nearest (real freq) / 10 ^ 9)"
    using dbl_div_nearest(1) [of "dbl_of_nat freq" "(1000000000, 1)"] dbl_of_nat_nearest [of freq] billion
    by (simp add: ticks_per_ns_def)
  note f = nearest_bounds [of "real freq"] and g = nearest_bounds [of "nearest (real freq) / 10 ^ 9"]
  have n: "0 \<le> nearest (real freq) / 10 ^ 9"
    using nearest_nonneg by simp
  have "(1 - 1 / 2 ^ 53) * ((1 - 1 / 2 ^ 53) * real freq / 10 ^ 9) \<le> (1 - 1 / 2 ^ 53) * (nearest (real freq) / 10 ^ 9)"
    using f by (intro mult_left_mono divide_right_mono) simp_all
  with g(1) [OF n] v show low: "(1 - 1 / 2 ^ 53) * ((1 - 1 / 2 ^ 53) * real freq / 10 ^ 9) \<le> val (ticks_per_ns freq)"
    by linarith
  have "(1 + 1 / 2 ^ 53) * (nearest (real freq) / 10 ^ 9) \<le> (1 + 1 / 2 ^ 53) * ((1 + 1 / 2 ^ 53) * real freq / 10 ^ 9)"
    using f by (intro mult_left_mono divide_right_mono) simp_all
  with g(2) [OF n] v show "val (ticks_per_ns freq) \<le> (1 + 1 / 2 ^ 53) * ((1 + 1 / 2 ^ 53) * real freq / 10 ^ 9)"
    by linarith
  show d: "0 < snd (ticks_per_ns freq)"
    using dbl_div_nearest(2) [of "dbl_of_nat freq" "(1000000000, 1)"] dbl_of_nat_nearest [of freq]
    by (simp add: ticks_per_ns_def)
  have "0 < val (ticks_per_ns freq)"
    using low assms by (intro less_le_trans [OF _ low]) simp
  then show "0 < fst (ticks_per_ns freq)"
    using d by (simp add: val_def zero_less_divide_iff)
qed

lemma scaled_nearest:
  assumes "0 < freq"
  shows "val (scaled freq counter) = nearest (nearest (real counter) / val (ticks_per_ns freq))"
  using dbl_div_nearest(1) [OF dbl_of_nat_nearest(2) ticks_per_ns_bounds(4,5) [OF assms], of counter]
  by (simp add: scaled_def dbl_of_nat_nearest)

definition exact_ns :: "nat \<Rightarrow> nat \<Rightarrow> real" where
  "exact_ns freq counter = real counter * 10 ^ 9 / real freq"

lemma scaled_bounds:
  assumes "0 < freq"
  shows "(1 - 1 / 2 ^ 50) * exact_ns freq counter \<le> val (scaled freq counter)"
    and "val (scaled freq counter) \<le> (1 + 1 / 2 ^ 50) * exact_ns freq counter"
proof -
  let ?a = "1 - 1 / 2 ^ 53 :: real" and ?b = "1 + 1 / 2 ^ 53 :: real"
  let ?c = "nearest (real counter)" and ?f = "val (ticks_per_ns freq)" and ?T = "exact_ns freq counter"
  have T: "0 \<le> ?T"
    by (simp add: exact_ns_def)
  have fpos: "0 < ?f"
    using ticks_per_ns_bounds(4,5) [OF assms] by (simp add: val_def)
  have c: "?a * real counter \<le> ?c" "?c \<le> ?b * real counter"
    by (rule nearest_bounds, simp)+
  note f = ticks_per_ns_bounds(2,3) [OF assms]
  have q: "0 \<le> ?c / ?f"
    using fpos nearest_nonneg by simp
  note n = nearest_bounds [OF q]
  have "?c / ?f \<le> ?b * real counter / (?a * (?a * real freq / 10 ^ 9))"
    using c f fpos assms by (intro frac_le) simp_all
  also have "\<dots> = ?b / (?a * ?a) * ?T"
    using assms by (simp add: exact_ns_def field_simps)
  finally have "?b * (?c / ?f) \<le> ?b * (?b / (?a * ?a) * ?T)"
    by (intro mult_left_mono) simp_all
  also have "\<dots> \<le> (1 + 1 / 2 ^ 50) * ?T"
    using mult_right_mono [OF _ T, of "?b * (?b / (?a * ?a))" "1 + 1 / 2 ^ 50"] by simp
  finally show "val (scaled freq counter) \<le> (1 + 1 / 2 ^ 50) * ?T"
    using n(2) by (simp add: scaled_nearest [OF assms])
  have "?a / (?b * ?b) * ?T = ?a * real counter / (?b * (?b * real freq / 10 ^ 9))"
    using assms by (simp add: exact_ns_def field_simps)
  also have "\<dots> \<le> ?c / ?f"
    using c f fpos nearest_nonneg by (intro frac_le) simp_all
  finally have "?a * (?a / (?b * ?b) * ?T) \<le> ?a * (?c / ?f)"
    by (intro mult_left_mono) simp_all
  moreover have "(1 - 1 / 2 ^ 50) * ?T \<le> ?a * (?a / (?b * ?b) * ?T)"
    using mult_right_mono [OF _ T, of "1 - 1 / 2 ^ 50" "?a * (?a / (?b * ?b))"] by simp
  ultimately show "(1 - 1 / 2 ^ 50) * ?T \<le> val (scaled freq counter)"
    using n(1) by (simp add: scaled_nearest [OF assms])
qed

lemma scaled_mono:
  assumes "0 < freq" and "counter \<le> counter'"
  shows "val (scaled freq counter) \<le> val (scaled freq counter')"
proof -
  have "0 < val (ticks_per_ns freq)"
    using ticks_per_ns_bounds(4,5) [OF assms(1)] by (simp add: val_def)
  moreover have "nearest (real counter) \<le> nearest (real counter')"
    using assms(2) by (intro nearest_mono) simp
  ultimately show ?thesis
    unfolding scaled_nearest [OF assms(1)] by (intro nearest_mono [OF divide_right_mono]) simp_all
qed

text \<open>The counter does not overflow for 146 years: \<open>2 ^ 62\<close> nanoseconds.\<close>

lemma clock_gettime_reads:
  assumes "0 < freq" and "counter * 10 ^ 9 < 2 ^ 62 * freq" and "static = None \<or> static = Some (ticks_per_ns freq)"
  shows "\<exists>t. clock_gettime static freq counter True = (Some (Some t), Some (ticks_per_ns freq)) \<and> time_ok t \<and>
    ns t = \<lfloor>val (scaled freq counter)\<rfloor> \<and> \<bar>ns t - exact_ns freq counter\<bar> \<le> exact_ns freq counter / 2 ^ 50 + 1"
proof -
  let ?k = "dbl_truncate (scaled freq counter)"
  have k: "int ?k = \<lfloor>val (scaled freq counter)\<rfloor>"
    by (rule dbl_truncate_floor)
  note b = scaled_bounds [OF assms(1), of counter]
  have "real (counter * 10 ^ 9) < real (2 ^ 62 * freq)"
    using assms(2) by (simp only: of_nat_less_iff)
  then have "exact_ns freq counter < 2 ^ 62"
    using assms(1) by (simp add: exact_ns_def divide_less_eq)
  then have "val (scaled freq counter) < 2 ^ 62 * (1 + 1 / 2 ^ 50)"
    using b(2) by simp
  then have small: "int ?k < 2 ^ 33 * 10 ^ 9"
    unfolding k floor_less_iff by simp
  have b': "exact_ns freq counter - exact_ns freq counter / 2 ^ 50 \<le> val (scaled freq counter)"
    "val (scaled freq counter) \<le> exact_ns freq counter + exact_ns freq counter / 2 ^ 50"
    using b by (simp_all add: left_diff_distrib distrib_right)
  let ?t = "\<lparr>tv_sec = int ?k div 1000000000, tv_nsec = int ?k mod 1000000000\<rparr>"
  have "s64 (int ?k) = Some (int ?k)"
    using small by (simp add: s64_def)
  moreover have "int ?k sdiv 1000000000 = int ?k div 1000000000" "int ?k smod 1000000000 = int ?k mod 1000000000"
    by (cases "?k = 0"; simp add: signed_divide_int_def signed_modulo_int_def del: dbl_truncate.simps)+
  ultimately have "clock_gettime static freq counter True = (Some (Some ?t), Some (ticks_per_ns freq))"
    using assms(3) by (auto simp: clock_gettime_def scaled_def ticks_per_ns_def Let_def simp del: dbl_div.simps dbl_truncate.simps)
  moreover have "time_ok ?t"
    using small by (auto simp: time_ok_def)
  moreover have "ns ?t = int ?k"
    by (simp add: ns_def)
  moreover have "\<bar>real_of_int (int ?k) - exact_ns freq counter\<bar> \<le> exact_ns freq counter / 2 ^ 50 + 1"
    unfolding k abs_le_iff using b' of_int_floor_le [of "val (scaled freq counter)"]
      real_of_int_floor_add_one_gt [of "val (scaled freq counter)"] by (intro conjI) linarith+
  ultimately show ?thesis
    using k by auto
qed

subsection \<open>Properties\<close>

text \<open>
  C40. The clock for Windows, called twice within the first 146 years after the machine was started, while the
  counter does not go back: both calls succeed, no conversion overflows, the nanoseconds are below a second,
  the time does not go back, whatever the frequency of the counter, and it is off by less than a part in \<open>2 ^ 50\<close> and one
  nanosecond. So the times are fit for the budgets of a run.
\<close>

theorem clock_gettime_monotonic:
  assumes "0 < freq" and "counter \<le> counter'" and "counter' * 10 ^ 9 < 2 ^ 62 * freq"
  shows "\<exists>t t' static. clock_gettime None freq counter True = (Some (Some t), static) \<and>
    clock_gettime static freq counter' True = (Some (Some t'), static) \<and>
    time_ok t \<and> time_ok t' \<and> clocks_ok (Some t) (Some t') \<and>
    \<bar>ns t - exact_ns freq counter\<bar> \<le> exact_ns freq counter / 2 ^ 50 + 1 \<and>
    \<bar>ns t' - exact_ns freq counter'\<bar> \<le> exact_ns freq counter' / 2 ^ 50 + 1"
proof -
  let ?r = "\<lambda>t n. time_ok t \<and> ns t = \<lfloor>val (scaled freq n)\<rfloor> \<and> \<bar>ns t - exact_ns freq n\<bar> \<le> exact_ns freq n / 2 ^ 50 + 1"
  have "counter * 10 ^ 9 < 2 ^ 62 * freq"
    using assms(2,3) by simp
  from clock_gettime_reads [OF assms(1) this, of None]
  obtain t where t: "clock_gettime None freq counter True = (Some (Some t), Some (ticks_per_ns freq))" "?r t counter"
    by blast
  from clock_gettime_reads [OF assms(1,3), of "Some (ticks_per_ns freq)"]
  obtain t' where t': "clock_gettime (Some (ticks_per_ns freq)) freq counter' True = (Some (Some t'), Some (ticks_per_ns freq))" "?r t' counter'"
    by blast
  have "ns t \<le> ns t'"
    using t(2) t'(2) floor_mono [OF scaled_mono [OF assms(1,2)]] by simp
  with t t' show ?thesis
    by (auto simp: clocks_ok_def)
qed

text \<open>A counter of ten megahertz, a second and a bit after the start.\<close>

theorem clock_gettime_monotonic_witness:
  "\<exists>t t' static. clock_gettime None 10000000 10000001 True = (Some (Some t), static) \<and>
     clock_gettime static 10000000 10000002 True = (Some (Some t'), static) \<and> clocks_ok (Some t) (Some t')"
  using clock_gettime_monotonic [of 10000000 10000001 10000002] by auto

end
