(* ===== verification/Spec2Isabelle.thy ===== *)
theory Spec2Isabelle
  imports Base64 Utf16_Utf8 Json Convert_Json Jni Logging Gzip Output Attributes Java_Strings Budgets Convert_Java
    Results Contexts Caches Parts Cs_Wrapper Lifecycle Builder System Debug_Helpers Compat Clock
begin

text \<open>
  Verification of the native half of \<^verbatim>\<open>libddwaf-java\<close>: the C code under \<^verbatim>\<open>src/main/c\<close> that lets
  Java call the rule engine \<^verbatim>\<open>libddwaf\<close>.

  \<^bold>\<open>The program.\<close> Java values are converted to objects of the engine, the engine runs, and its
  results are converted back: diagnostics of the loaded rules to a tree of Java objects, and the
  attributes derived by a run to a Java map, in which schemas are strings: JSON, compressed, in
  base64. Strings cross the border as UTF-16 and UTF-8. Every step can fail, by an exception of
  the virtual machine or a failed allocation; local references have to be deleted and
  exceptions have to be left pending by hand.

  \<^bold>\<open>The theories.\<close>
  \<^item> \<open>Prelude\<close>: C integers as words, bit operations as arithmetic, throwables and faults, lists.
  \<^item> \<open>Base64_Table\<close>, \<open>Base64\<close>: \<^verbatim>\<open>base64.c\<close>. The streaming encoder for both byte orders, with its
    tables, the unrolled 64-bit loop and the jump into the loop, equals the encoding of RFC 4648.
  \<^item> \<open>Utf16_Utf8\<close>: \<^verbatim>\<open>utf16_utf8.c\<close>. The readers and writers of code points, and the two conversions
    with their growing or precomputed buffers.
  \<^item> \<open>Json\<close>: \<^verbatim>\<open>json.h\<close>, and \<^verbatim>\<open>java_json_to_jstring_checked\<close>. The buffer is a chain of segments on a heap;
    the locales \<open>byte_sink\<close> and \<open>json_sink\<close> are the interface through which the serialiser writes.
  \<^item> \<open>Jni\<close>: the JNI environment as a state (pending exception, local and weak references, misuse),
    the virtual machine as a record of oracles, \<^verbatim>\<open>java_call.c\<close> and \<^verbatim>\<open>java_wrap_exc\<close>; a weakest
    precondition calculus; and the contract of the functions named \<^verbatim>\<open>_checked\<close> as the locale
    \<open>checked_function\<close>.
  \<^item> \<open>Logging\<close>: \<^verbatim>\<open>logging.c\<close>. A message never disturbs the caller, and reaches the Java logger with its
    level, place and throwable when nothing fails.
  \<^item> \<open>Convert_Json\<close>: objects of the engine and \<^verbatim>\<open>output_convert_json\<close>. The text is that of a printer,
    and JSON.
  \<^item> \<open>Gzip\<close>: \<^verbatim>\<open>_encode_gzip\<close> and the size of the base64 buffer; \<^verbatim>\<open>zlib\<close> is a parameter.
  \<^item> \<open>Output\<close>: the conversion of diagnostics (\<^verbatim>\<open>output_convert_diagnostics_checked\<close> and its helpers).
  \<^item> \<open>Attributes\<close>: the conversion of attributes (\<^verbatim>\<open>output_convert_attributes_checked\<close>), which composes
    the serialiser, the compressor, the base64 encoder and the string conversion.
  \<^item> \<open>Java_Strings\<close>: \<^verbatim>\<open>java_to_utf8_checked\<close> and \<^verbatim>\<open>java_to_utf8_limited_checked\<close>.
  \<^item> \<open>Budgets\<close>: the limits of a run, the default timeout and the budgets of \<^verbatim>\<open>waf_jni.c\<close>.
  \<^item> \<open>Convert_Java\<close>: \<^verbatim>\<open>_convert_checked\<close>, the conversion of Java values to objects of the engine under the
    limits on depth, elements and strings.
  \<^item> \<open>Results\<close>: \<^verbatim>\<open>metrics.c\<close>, the exceptions for error codes and \<^verbatim>\<open>_create_result_checked\<close>.
  \<^item> \<open>Contexts\<close>: \<^verbatim>\<open>initWafContext\<close>, \<^verbatim>\<open>_run_waf_context_common\<close> and \<^verbatim>\<open>clearWafContext\<close>, which compose everything above,
    and the calls of \<^verbatim>\<open>WafContext.java\<close> as a step relation with its invariant.
  \<^item> \<open>Caches\<close>: the static variables as a store, and the functions of \<^verbatim>\<open>waf_jni.c\<close> that look up classes, fields and methods and
    release them. The locale \<open>startable\<close> is the interface of the parts that are started and stopped with the library.
  \<^item> \<open>Parts\<close>: starting and stopping the logger (\<^verbatim>\<open>java_log_init\<close>) and the conversion of results (\<^verbatim>\<open>output_init_checked\<close>), which keep the same
    interface, and \<^verbatim>\<open>metrics_init\<close>.
  \<^item> \<open>Cs_Wrapper\<close>: \<^verbatim>\<open>cs_wrapper.c\<close>.
  \<^item> \<open>Lifecycle\<close>: \<^verbatim>\<open>JNI_OnLoad\<close> and \<^verbatim>\<open>_deinitialize\<close>, which compose the parts; threads that unload the library at the same time as
    a step relation; and that a loaded library gives the other components the methods they rely on.
  \<^item> \<open>Builder\<close>: builders and handles, the rest of \<^verbatim>\<open>waf_jni.c\<close>. The engine is a parameter with a state of its own; the calls of
    \<^verbatim>\<open>WafBuilder.java\<close> and \<^verbatim>\<open>WafHandle.java\<close> are a step relation, whose invariant says who owns which native object.
  \<^item> \<open>System\<close>: builders, handles and contexts together, as one step relation over the two; nothing destroyed is used as long
    as contexts are created with open handles, which the code does not check.
  \<^item> \<open>Debug_Helpers\<close>: \<^verbatim>\<open>debug_helpers.c\<close>. The growing string keeps the interface \<open>text_sink\<close>; the printer writes the nodes of an object in
    preorder.
  \<^item> \<open>Compat\<close>: \<^verbatim>\<open>compat.c\<close> but for the clock of Windows, and \<^verbatim>\<open>byte_buffer.c\<close>.
  \<^item> \<open>Clock\<close>: the clock of Windows, which computes with doubles. Every operation is rounded to the nearest double; the
    time is monotonic and close to the exact one.

  \<^bold>\<open>Conventions.\<close> A function that can access memory it must not returns an option or a \<open>fault\<close>;
  in the JNI environment such an access raises the flag \<open>misuse\<close>, which also records JNI calls with
  an exception pending. That this does not happen is part of the theorems. Loops that may run
  forever are partial functions whose value \<open>None\<close> is the missing result, and the theorems
  state that the result exists; no fuel is used. Allocation and the virtual machine
  are oracles, over which the theorems quantify; \<open>calm\<close> is a machine on which nothing fails, and
  shows that success is not vacuous. C integers are words, or natural numbers with the
  wrap-around written out where the sources compare and add sizes.

  \<^bold>\<open>Not modelled.\<close> The Java classes, but for the order in which \<^verbatim>\<open>WafContext.java\<close>, \<^verbatim>\<open>WafBuilder.java\<close> and \<^verbatim>\<open>WafHandle.java\<close> call
  the native code, since the development is about the native library; the headers, which only declare what
  other files define; and the engine itself, \<^verbatim>\<open>zlib\<close> and the virtual machine, which are not part of the repository and are parameters.
\<close>

end
